(* ===== verification/Prelude.thy ===== *)
theory Prelude
  imports Main "HOL-Library.Word"
begin

unbundle bit_operations_syntax

text \<open>
  Shared vocabulary of the development: the types of the model, the few functions of Rust's
  standard library the code relies on, the sets of machine-word flags, and the list lemmas the
  component proofs reuse.

  A Rust \<open>char\<close> is its Unicode scalar value (a \<open>nat\<close>), a \<open>String\<close> or \<open>&str\<close> is the list of
  its scalar values, and a byte slice is a list of \<open>8 word\<close>.  Row, column and line counters
  (\<open>usize\<close>, \<open>u64\<close>) are \<open>nat\<close>: saturating subtraction is the subtraction of \<open>nat\<close>, and
  every plain subtraction of the code is shown not to go below zero where that matters.
\<close>

section \<open>Types and hint collections\<close>

type_synonym byte = "8 word"
type_synonym uchar = nat
type_synonym ustring = "nat list"
type_synonym line_id = nat

named_theorems flag_simps \<open>reading a flag back after an update of the flag word\<close>
named_theorems wf_intros \<open>operations that keep a well-formedness predicate\<close>
named_theorems frame_simps \<open>fields an operation leaves alone\<close>

section \<open>Flag words\<close>

text \<open>
  A \<open>bitflags\<close> type is an unsigned word; the code uses these operations of it.
\<close>

definition flag_contains :: "'a::len word \<Rightarrow> 'a word \<Rightarrow> bool" where
  "flag_contains f m \<longleftrightarrow> f AND m = m"

definition flag_intersects :: "'a::len word \<Rightarrow> 'a word \<Rightarrow> bool" where
  "flag_intersects f m \<longleftrightarrow> f AND m \<noteq> 0"

definition flag_remove :: "'a::len word \<Rightarrow> 'a word \<Rightarrow> 'a word" where
  "flag_remove f m = f AND NOT m"

definition flag_set :: "'a::len word \<Rightarrow> 'a word \<Rightarrow> bool \<Rightarrow> 'a word" where
  "flag_set f m b = (if b then f OR m else flag_remove f m)"

lemma flag_contains_bits: "flag_contains f m \<longleftrightarrow> (\<forall>n. bit m n \<longrightarrow> bit f n)"
proof -
  have "bit m n \<Longrightarrow> n < LENGTH('a)" for n by (rule bit_imp_le_length)
  then show ?thesis by (auto simp: flag_contains_def bit_eq_iff bit_and_iff)
qed

lemma flag_contains_or [flag_simps]: "flag_contains (f OR m) m"
  by (simp add: flag_contains_bits bit_or_iff)

lemma flag_contains_or_other [flag_simps]:
  assumes "m AND k = 0"
  shows "flag_contains (f OR m) k \<longleftrightarrow> flag_contains f k"
proof -
  have "\<not> (bit m n \<and> bit k n)" for n
    using assms by (metis bit_0_eq bit_and_iff bot_apply bot_bool_def)
  then show ?thesis by (auto simp: flag_contains_bits bit_or_iff)
qed

lemma flag_contains_remove [flag_simps]:
  assumes "m \<noteq> 0"
  shows "\<not> flag_contains (flag_remove f m) m"
proof -
  from assms obtain n where n: "bit m n" by (metis bit_eqI bit_0_eq bot_apply bot_bool_def)
  then have "\<not> bit (flag_remove f m) n"
    by (auto simp: flag_remove_def bit_and_iff bit_not_iff)
  with n show ?thesis by (auto simp: flag_contains_bits)
qed

lemma flag_contains_remove_other [flag_simps]:
  assumes "m AND k = 0"
  shows "flag_contains (flag_remove f m) k \<longleftrightarrow> flag_contains f k"
proof -
  have dis: "\<not> (bit m n \<and> bit k n)" for n
    using assms by (metis bit_0_eq bit_and_iff bot_apply bot_bool_def)
  have len: "bit k n \<Longrightarrow> n < LENGTH('a)" for n by (rule bit_imp_le_length)
  show ?thesis using dis len
    by (auto simp: flag_contains_bits flag_remove_def bit_and_iff bit_not_iff)
qed

lemma flag_contains_set [flag_simps]:
  "m \<noteq> 0 \<Longrightarrow> flag_contains (flag_set f m b) m \<longleftrightarrow> b"
  by (cases b) (simp_all add: flag_set_def flag_simps)

lemma flag_contains_set_other [flag_simps]:
  "m AND k = 0 \<Longrightarrow> flag_contains (flag_set f m b) k \<longleftrightarrow> flag_contains f k"
  by (cases b) (simp_all add: flag_set_def flag_simps)

section \<open>Slices and iterators\<close>

text \<open>\<open>slice::get\<close>: \<open>None\<close> out of range.\<close>

definition slice_get :: "'a list \<Rightarrow> nat \<Rightarrow> 'a option" where
  "slice_get xs i = (if i < length xs then Some (xs ! i) else None)"

lemma slice_get_Some [simp]: "slice_get xs i = Some x \<longleftrightarrow> i < length xs \<and> xs ! i = x"
  by (auto simp: slice_get_def)

lemma slice_get_None [simp]: "slice_get xs i = None \<longleftrightarrow> length xs \<le> i"
  by (auto simp: slice_get_def)

text \<open>\<open>slice::first\<close> and \<open>slice::last\<close>.\<close>

definition first_of :: "'a list \<Rightarrow> 'a option" where
  "first_of xs = (case xs of [] \<Rightarrow> None | x # _ \<Rightarrow> Some x)"

definition last_of :: "'a list \<Rightarrow> 'a option" where
  "last_of xs = (if xs = [] then None else Some (last xs))"

lemma last_of_snoc [simp]: "last_of (xs @ [x]) = Some x"
  by (simp add: last_of_def)

lemma last_of_Nil [simp]: "last_of [] = None"
  by (simp add: last_of_def)

text \<open>
  \<open>Iterator::rposition\<close>, one past it: the length of the list once the trailing elements that
  fail the test are dropped.
\<close>

definition trim_len :: "('a \<Rightarrow> bool) \<Rightarrow> 'a list \<Rightarrow> nat" where
  "trim_len p xs = length (dropWhile (\<lambda>x. \<not> p x) (rev xs))"

lemma trim_len_le [simp]: "trim_len p xs \<le> length xs"
  by (metis length_dropWhile_le length_rev trim_len_def)

lemma trim_len_snoc: "trim_len p (xs @ [x]) = (if p x then Suc (length xs) else trim_len p xs)"
  by (simp add: trim_len_def)

lemma trim_len_eq_0: "trim_len p xs = 0 \<longleftrightarrow> (\<forall>x \<in> set xs. \<not> p x)"
  by (auto simp: trim_len_def)

lemma trim_len_beyond: "trim_len p xs \<le> i \<Longrightarrow> i < length xs \<Longrightarrow> \<not> p (xs ! i)"
  by (induction xs rule: rev_induct) (auto simp: trim_len_snoc nth_append split: if_splits)

lemma trim_len_last: "0 < trim_len p xs \<Longrightarrow> p (xs ! (trim_len p xs - 1))"
proof (induction xs rule: rev_induct)
  case (snoc x xs)
  show ?case
  proof (cases "p x")
    case False
    then have "trim_len p xs - 1 < length xs"
      using snoc.prems trim_len_le [of p xs] by (simp only: trim_len_snoc if_False)
    then show ?thesis using snoc False by (simp add: trim_len_snoc nth_append)
  qed (simp add: trim_len_snoc)
qed (simp add: trim_len_def)

text \<open>The first element of a list of indices that passes a test (\<open>Iterator::find\<close>).\<close>

fun find_first :: "('a \<Rightarrow> bool) \<Rightarrow> 'a list \<Rightarrow> 'a option" where
  "find_first p [] = None"
| "find_first p (x # xs) = (if p x then Some x else find_first p xs)"

lemma find_first_Some: "find_first p xs = Some x \<Longrightarrow> x \<in> set xs \<and> p x"
  by (induction xs) (auto split: if_splits)

lemma find_first_None: "find_first p xs = None \<longleftrightarrow> (\<forall>x \<in> set xs. \<not> p x)"
  by (induction xs) auto

lemma find_first_upt:
  "find_first p [a..<b] = Some i \<longleftrightarrow> a \<le> i \<and> i < b \<and> p i \<and> (\<forall>j. a \<le> j \<and> j < i \<longrightarrow> \<not> p j)"
proof (induction "b - a" arbitrary: a)
  case 0
  then show ?case by simp
next
  case (Suc d)
  then have ab: "a < b" by simp
  then have upt: "[a..<b] = a # [Suc a..<b]" by (rule upt_conv_Cons)
  have ih: "find_first p [Suc a..<b] = Some i \<longleftrightarrow>
      Suc a \<le> i \<and> i < b \<and> p i \<and> (\<forall>j. Suc a \<le> j \<and> j < i \<longrightarrow> \<not> p j)"
    using Suc by simp
  show ?case
  proof (cases "p a")
    case True
    then show ?thesis using ab by (auto simp: upt simp del: upt_Suc)
  next
    case False
    then show ?thesis
      by (auto simp: upt ih simp del: upt_Suc) (metis le_eq_less_or_eq not_less_eq_eq Suc_leI)+
  qed
qed

text \<open>Binary search by key (\<open>slice::binary_search_by_key\<close>): \<open>Inr\<close> a hit, \<open>Inl\<close> the insertion point.\<close>

function bsearch :: "('a \<Rightarrow> nat) \<Rightarrow> nat \<Rightarrow> 'a list \<Rightarrow> nat \<Rightarrow> nat \<Rightarrow> nat + nat" where
  "bsearch key k xs lo hi =
     (if hi \<le> lo then Inl lo
      else let mid = lo + (hi - lo) div 2 in
        if key (xs ! mid) = k then Inr mid
        else if key (xs ! mid) < k then bsearch key k xs (Suc mid) hi
        else bsearch key k xs lo mid)"
  by pat_completeness auto
termination
  by (relation "measure (\<lambda>(key, k, xs, lo, hi). hi - lo)") auto

declare bsearch.simps [simp del]

definition binary_search_by_key :: "('a \<Rightarrow> nat) \<Rightarrow> nat \<Rightarrow> 'a list \<Rightarrow> nat + nat" where
  "binary_search_by_key key k xs = bsearch key k xs 0 (length xs)"

lemma bsearch_range:
  assumes "sorted (map key xs)" "hi \<le> length xs"
  shows "bsearch key k xs lo hi = Inr i \<Longrightarrow> lo \<le> i \<and> i < hi \<and> key (xs ! i) = k"
    and "bsearch key k xs lo hi = Inl i \<Longrightarrow> lo \<le> hi \<Longrightarrow>
      lo \<le> i \<and> i \<le> hi \<and> (\<forall>j. lo \<le> j \<and> j < i \<longrightarrow> key (xs ! j) < k) \<and>
      (\<forall>j. i \<le> j \<and> j < hi \<longrightarrow> k < key (xs ! j))"
proof -
  have le: "key (xs ! a) \<le> key (xs ! b)" if "a \<le> b" "b < length xs" for a b
    using sorted_nth_mono [OF assms(1), of a b] that by simp
  show "bsearch key k xs lo hi = Inr i \<Longrightarrow> lo \<le> i \<and> i < hi \<and> key (xs ! i) = k"
  proof (induction key k xs lo hi rule: bsearch.induct)
    case (1 key k xs lo hi)
    then show ?case
      by (subst (asm) (3) bsearch.simps) (fastforce simp: Let_def split: if_splits)
  qed
  show "bsearch key k xs lo hi = Inl i \<Longrightarrow> lo \<le> hi \<Longrightarrow>
      lo \<le> i \<and> i \<le> hi \<and> (\<forall>j. lo \<le> j \<and> j < i \<longrightarrow> key (xs ! j) < k) \<and>
      (\<forall>j. i \<le> j \<and> j < hi \<longrightarrow> k < key (xs ! j))"
    using assms(2) le
  proof (induction "hi - lo" arbitrary: lo hi rule: less_induct)
    case less
    let ?m = "lo + (hi - lo) div 2"
    show ?case
    proof (cases "hi \<le> lo")
      case True
      then have "i = lo" "hi = lo"
        using less.prems(1,2) by (simp_all add: bsearch.simps [of key k xs lo hi] bsearch.simps [of key k xs lo lo])
      then show ?thesis by auto
    next
      case False
      then have m: "lo \<le> ?m" "?m < hi" by auto
      have ne: "key (xs ! ?m) \<noteq> k"
        using less.prems(1) False by (auto simp: bsearch.simps [of key k xs lo hi] Let_def)
      show ?thesis
      proof (cases "key (xs ! ?m) < k")
        case True
        have "bsearch key k xs (Suc ?m) hi = Inl i"
          using less.prems(1) False ne True
          by (simp add: bsearch.simps [of key k xs lo hi] Let_def)
        then have ih: "Suc ?m \<le> i \<and> i \<le> hi \<and> (\<forall>j. Suc ?m \<le> j \<and> j < i \<longrightarrow> key (xs ! j) < k) \<and>
            (\<forall>j. i \<le> j \<and> j < hi \<longrightarrow> k < key (xs ! j))"
          by (intro less.hyps) (use m less.prems(3,4) in auto)
        have "key (xs ! j) < k" if "j \<le> ?m" for j
          using less.prems(4) [of j ?m] that m less.prems(3) True by linarith
        moreover have "lo \<le> i" "i \<le> hi" using ih m by linarith+
        ultimately show ?thesis using ih by (simp add: not_le) (metis not_le not_less_eq_eq)
      next
        case False2: False
        have "bsearch key k xs lo ?m = Inl i"
          using less.prems(1) False ne False2
          by (simp add: bsearch.simps [of key k xs lo hi] Let_def)
        then have ih: "lo \<le> i \<and> i \<le> ?m \<and> (\<forall>j. lo \<le> j \<and> j < i \<longrightarrow> key (xs ! j) < k) \<and>
            (\<forall>j. i \<le> j \<and> j < ?m \<longrightarrow> k < key (xs ! j))"
          by (intro less.hyps) (use m less.prems(3,4) in auto)
        have "k < key (xs ! j)" if "?m \<le> j" "j < hi" for j
          using less.prems(4) [of ?m j] that less.prems(3) False2 ne by linarith
        moreover have "lo \<le> i" "i \<le> hi" using ih m by linarith+
        ultimately show ?thesis using ih by (metis not_le)
      qed
    qed
  qed
qed

lemma binary_search_hit:
  assumes "sorted (map key xs)" "binary_search_by_key key k xs = Inr i"
  shows "i < length xs \<and> key (xs ! i) = k"
  using bsearch_range(1) [OF assms(1) order_refl] assms(2)
  by (auto simp: binary_search_by_key_def)

lemma binary_search_miss:
  assumes "sorted (map key xs)" "binary_search_by_key key k xs = Inl i"
  shows "i \<le> length xs \<and> (\<forall>x \<in> set (take i xs). key x < k) \<and> (\<forall>x \<in> set (drop i xs). k < key x)"
proof -
  have *: "i \<le> length xs" "\<And>j. j < i \<Longrightarrow> key (xs ! j) < k"
      "\<And>j. i \<le> j \<Longrightarrow> j < length xs \<Longrightarrow> k < key (xs ! j)"
    using bsearch_range(2) [OF assms(1) order_refl, of k 0 i] assms(2)
    by (auto simp: binary_search_by_key_def)
  then show ?thesis by (auto simp: in_set_conv_nth)
qed

section \<open>Characters\<close>

text \<open>\<open>char::is_whitespace\<close> (Unicode \<open>White_Space\<close>) and \<open>str::trim_end\<close>.\<close>

definition is_whitespace :: "uchar \<Rightarrow> bool" where
  "is_whitespace c \<longleftrightarrow>
     (9 \<le> c \<and> c \<le> 13) \<or> c = 32 \<or> c = 133 \<or> c = 160 \<or> c = 5760 \<or> (8192 \<le> c \<and> c \<le> 8202) \<or>
     c = 8232 \<or> c = 8233 \<or> c = 8239 \<or> c = 8287 \<or> c = 12288"

definition trim_start :: "ustring \<Rightarrow> ustring" where
  "trim_start s = dropWhile is_whitespace s"

definition trim_end :: "ustring \<Rightarrow> ustring" where
  "trim_end s = rev (dropWhile is_whitespace (rev s))"

definition str_trim :: "ustring \<Rightarrow> ustring" where
  "str_trim s = trim_start (trim_end s)"

lemma trim_end_snoc: "trim_end (s @ [c]) = (if is_whitespace c then trim_end s else s @ [c])"
  by (simp add: trim_end_def)

text \<open>An ASCII literal as a string of the model.\<close>

definition lit :: "string \<Rightarrow> ustring" where
  "lit s = map of_char s"

section \<open>State machines\<close>

text \<open>A machine with an invariant that its initial states have and its steps keep.\<close>

locale machine =
  fixes init :: "'s \<Rightarrow> bool" and step :: "'s \<Rightarrow> 's \<Rightarrow> bool" and inv :: "'s \<Rightarrow> bool"
  assumes init_inv: "init s \<Longrightarrow> inv s"
    and step_inv: "inv s \<Longrightarrow> step s u \<Longrightarrow> inv u"
begin

lemma steps_inv: "step\<^sup>*\<^sup>* s u \<Longrightarrow> inv s \<Longrightarrow> inv u"
  by (induction rule: rtranclp_induct) (auto intro: step_inv)

lemma reachable_inv: "init s \<Longrightarrow> step\<^sup>*\<^sup>* s u \<Longrightarrow> inv u"
  using init_inv steps_inv by blast

end

end
