(* ===== verification/Cell.thy ===== *)
theory Cell
  imports Prelude
begin

text \<open>
  The grid cell and its colours: \<open>crates/zest-core/src/cell.rs\<close> and \<open>color.rs\<close>.
\<close>

section \<open>Colours, as the escape stream expressed them\<close>

datatype named_color =
    Black | Red | Green | Yellow | Blue | Magenta | Cyan | White
  | BrightBlack | BrightRed | BrightGreen | BrightYellow
  | BrightBlue | BrightMagenta | BrightCyan | BrightWhite

fun to_bright :: "named_color \<Rightarrow> named_color" where
  "to_bright Black = BrightBlack"
| "to_bright Red = BrightRed"
| "to_bright Green = BrightGreen"
| "to_bright Yellow = BrightYellow"
| "to_bright Blue = BrightBlue"
| "to_bright Magenta = BrightMagenta"
| "to_bright Cyan = BrightCyan"
| "to_bright White = BrightWhite"
| "to_bright bright = bright"

definition from_index :: "byte \<Rightarrow> named_color option" where
  "from_index i =
     (if i = 0 then Some Black else if i = 1 then Some Red
      else if i = 2 then Some Green else if i = 3 then Some Yellow
      else if i = 4 then Some Blue else if i = 5 then Some Magenta
      else if i = 6 then Some Cyan else if i = 7 then Some White
      else if i = 8 then Some BrightBlack else if i = 9 then Some BrightRed
      else if i = 10 then Some BrightGreen else if i = 11 then Some BrightYellow
      else if i = 12 then Some BrightBlue else if i = 13 then Some BrightMagenta
      else if i = 14 then Some BrightCyan else if i = 15 then Some BrightWhite
      else None)"

text \<open>The discriminant of a colour (\<open>#[repr(u8)]\<close>, counting up from \<open>Black = 0\<close>).\<close>

fun color_index :: "named_color \<Rightarrow> byte" where
  "color_index Black = 0" | "color_index Red = 1" | "color_index Green = 2"
| "color_index Yellow = 3" | "color_index Blue = 4" | "color_index Magenta = 5"
| "color_index Cyan = 6" | "color_index White = 7"
| "color_index BrightBlack = 8" | "color_index BrightRed = 9"
| "color_index BrightGreen = 10" | "color_index BrightYellow = 11"
| "color_index BrightBlue = 12" | "color_index BrightMagenta = 13"
| "color_index BrightCyan = 14" | "color_index BrightWhite = 15"

lemma from_index_color_index: "from_index (color_index c) = Some c"
  by (cases c) (simp_all add: from_index_def)

lemma color_index_from_index: "from_index i = Some c \<Longrightarrow> color_index c = i"
  by (auto simp: from_index_def split: if_splits)

lemma to_bright_idem: "to_bright (to_bright c) = to_bright c"
  by (cases c) simp_all

lemma to_bright_index: "color_index (to_bright c) = color_index c OR 8"
  by (cases c) simp_all

datatype color = DefaultColor | Indexed byte | Rgb byte byte byte

definition is_default_color :: "color \<Rightarrow> bool" where
  "is_default_color c \<longleftrightarrow> c = DefaultColor"

section \<open>Cell flags\<close>

type_synonym cell_flags = "16 word"

definition CF_BOLD :: cell_flags where "CF_BOLD = push_bit 0 1"
definition CF_DIM :: cell_flags where "CF_DIM = push_bit 1 1"
definition CF_ITALIC :: cell_flags where "CF_ITALIC = push_bit 2 1"
definition CF_UNDERLINE :: cell_flags where "CF_UNDERLINE = push_bit 3 1"
definition CF_DOUBLE_UNDERLINE :: cell_flags where "CF_DOUBLE_UNDERLINE = push_bit 4 1"
definition CF_UNDERCURL :: cell_flags where "CF_UNDERCURL = push_bit 5 1"
definition CF_STRIKEOUT :: cell_flags where "CF_STRIKEOUT = push_bit 6 1"
definition CF_INVERSE :: cell_flags where "CF_INVERSE = push_bit 7 1"
definition CF_HIDDEN :: cell_flags where "CF_HIDDEN = push_bit 8 1"
definition CF_BLINK :: cell_flags where "CF_BLINK = push_bit 9 1"
definition CF_WIDE :: cell_flags where "CF_WIDE = push_bit 10 1"
definition CF_WIDE_SPACER :: cell_flags where "CF_WIDE_SPACER = push_bit 11 1"
definition CF_WRAPLINE :: cell_flags where "CF_WRAPLINE = push_bit 12 1"

lemmas cf_defs =
  CF_BOLD_def CF_DIM_def CF_ITALIC_def CF_UNDERLINE_def CF_DOUBLE_UNDERLINE_def
  CF_UNDERCURL_def CF_STRIKEOUT_def CF_INVERSE_def CF_HIDDEN_def CF_BLINK_def
  CF_WIDE_def CF_WIDE_SPACER_def CF_WRAPLINE_def

lemma cf_nonzero [simp]:
  "CF_WIDE \<noteq> 0" "CF_WIDE_SPACER \<noteq> 0" "CF_WRAPLINE \<noteq> 0" "CF_INVERSE \<noteq> 0"
  by (simp_all add: cf_defs)

lemma cf_disjoint [simp]:
  "CF_WRAPLINE AND CF_WIDE = 0" "CF_WRAPLINE AND CF_WIDE_SPACER = 0"
  "CF_WIDE AND CF_WRAPLINE = 0" "CF_WIDE_SPACER AND CF_WRAPLINE = 0"
  "CF_WIDE AND CF_WIDE_SPACER = 0" "CF_WIDE_SPACER AND CF_WIDE = 0"
  by (simp_all add: cf_defs)

section \<open>The cell\<close>

text \<open>An index into the row's side table; \<open>u16::MAX\<close> stands for "nothing extra".\<close>

type_synonym extra_id = nat

definition NO_EXTRA :: extra_id where "NO_EXTRA = 65535"

record cell =
  cell_ch :: uchar
  cell_fg :: color
  cell_bg :: color
  cell_flags :: cell_flags
  cell_extra :: extra_id

text \<open>U+0020, the space, and U+0000.\<close>

abbreviation space :: uchar where "space \<equiv> 32"

definition default_cell :: cell where
  "default_cell = \<lparr>cell_ch = space, cell_fg = DefaultColor, cell_bg = DefaultColor,
     cell_flags = 0, cell_extra = NO_EXTRA\<rparr>"

definition blank_with :: "cell \<Rightarrow> cell" where
  "blank_with template = \<lparr>cell_ch = space, cell_fg = cell_fg template, cell_bg = cell_bg template,
     cell_flags = cell_flags template AND CF_INVERSE, cell_extra = NO_EXTRA\<rparr>"

definition is_blank :: "cell \<Rightarrow> bool" where
  "is_blank c \<longleftrightarrow>
     (cell_ch c = space \<or> cell_ch c = 0) \<and> cell_extra c = NO_EXTRA \<and>
     \<not> flag_intersects (cell_flags c)
        (CF_UNDERLINE OR CF_DOUBLE_UNDERLINE OR CF_UNDERCURL OR CF_STRIKEOUT)"

definition cell_reset :: "cell \<Rightarrow> cell \<Rightarrow> cell" where
  "cell_reset c template = blank_with template"

text \<open>A cell that would be dropped as trailing padding: blank, over the default background.\<close>

definition is_padding :: "cell \<Rightarrow> bool" where
  "is_padding c \<longleftrightarrow> is_blank c \<and> cell_bg c = cell_bg default_cell"

definition has_flag :: "cell \<Rightarrow> cell_flags \<Rightarrow> bool" where
  "has_flag c f \<longleftrightarrow> flag_contains (cell_flags c) f"

lemma blank_with_fields [simp]:
  "cell_ch (blank_with t) = space" "cell_fg (blank_with t) = cell_fg t"
  "cell_bg (blank_with t) = cell_bg t" "cell_extra (blank_with t) = NO_EXTRA"
  by (simp_all add: blank_with_def)

lemma default_cell_fields [simp]:
  "cell_ch default_cell = space" "cell_fg default_cell = DefaultColor"
  "cell_bg default_cell = DefaultColor" "cell_extra default_cell = NO_EXTRA"
  "cell_flags default_cell = 0"
  by (simp_all add: default_cell_def)

lemma blank_with_default [simp]: "blank_with default_cell = default_cell"
  by (simp add: blank_with_def default_cell_def)

lemma blank_with_idem [simp]: "blank_with (blank_with t) = blank_with t"
  by (simp add: blank_with_def and.assoc)

lemma blank_with_flag:
  assumes "CF_INVERSE AND f = 0" "f \<noteq> 0"
  shows "\<not> has_flag (blank_with t) f"
proof
  assume "has_flag (blank_with t) f"
  then have "(cell_flags t AND CF_INVERSE) AND f = f"
    by (simp add: has_flag_def flag_contains_def blank_with_def)
  with assms show False by (simp add: and.assoc)
qed

lemma blank_with_no_structure [simp]:
  "\<not> has_flag (blank_with t) CF_WIDE" "\<not> has_flag (blank_with t) CF_WIDE_SPACER"
  "\<not> has_flag (blank_with t) CF_WRAPLINE"
  by (rule blank_with_flag; simp add: cf_defs)+

lemma is_blank_blank_with [simp]: "is_blank (blank_with t)"
proof -
  have "CF_INVERSE AND (CF_UNDERLINE OR CF_DOUBLE_UNDERLINE OR CF_UNDERCURL OR CF_STRIKEOUT) = 0"
    by (simp add: cf_defs)
  then show ?thesis by (simp add: is_blank_def flag_intersects_def blank_with_def and.assoc)
qed

lemma is_padding_default [simp]: "is_padding default_cell"
  using is_blank_blank_with [of default_cell] by (simp add: is_padding_def)

end
