(* ===== verification/Row.thy ===== *)
theory Row
  imports Cell
begin

text \<open>
  One line of the terminal and its side table: the first half of
  \<open>crates/zest-core/src/grid/storage.rs\<close>.  \<open>Row::cells_mut\<close> and \<open>Row::get_mut\<close> hand out
  mutable references; their uses are the update \<open>row_set_cell\<close> here.
\<close>

section \<open>Definitions\<close>

record extra_entry =
  ce_zerowidth :: "uchar list"
  ce_hyperlink :: "16 word option"

definition default_extra :: extra_entry where
  "default_extra = \<lparr>ce_zerowidth = [], ce_hyperlink = None\<rparr>"

record row =
  row_cells :: "cell list"
  row_extras :: "extra_entry list"
  row_id :: line_id

definition row_new :: "nat \<Rightarrow> line_id \<Rightarrow> row" where
  "row_new cols i = \<lparr>row_cells = replicate cols default_cell, row_extras = [], row_id = i\<rparr>"

definition row_wrapped :: "row \<Rightarrow> bool" where
  "row_wrapped r \<longleftrightarrow> (case last_of (row_cells r) of None \<Rightarrow> False | Some c \<Rightarrow> has_flag c CF_WRAPLINE)"

definition row_set_wrapped :: "row \<Rightarrow> bool \<Rightarrow> row" where
  "row_set_wrapped r wrapped =
     (case last_of (row_cells r) of
        None \<Rightarrow> r
      | Some c \<Rightarrow> r\<lparr>row_cells := (row_cells r)[length (row_cells r) - 1 :=
          c\<lparr>cell_flags := flag_set (cell_flags c) CF_WRAPLINE wrapped\<rparr>]\<rparr>)"

definition row_len :: "row \<Rightarrow> nat" where
  "row_len r = length (row_cells r)"

definition row_get :: "row \<Rightarrow> nat \<Rightarrow> cell option" where
  "row_get r col = slice_get (row_cells r) col"

definition row_set_cell :: "row \<Rightarrow> nat \<Rightarrow> cell \<Rightarrow> row" where
  "row_set_cell r col c = r\<lparr>row_cells := (row_cells r)[col := c]\<rparr>"

definition row_extra :: "row \<Rightarrow> cell \<Rightarrow> extra_entry option" where
  "row_extra r c = (if cell_extra c = NO_EXTRA then None else slice_get (row_extras r) (cell_extra c))"

definition push_zerowidth :: "row \<Rightarrow> nat \<Rightarrow> uchar \<Rightarrow> row" where
  "push_zerowidth r col mark =
     (case row_get r col of
        None \<Rightarrow> r
      | Some c \<Rightarrow>
          if cell_extra c = NO_EXTRA \<and> NO_EXTRA \<le> length (row_extras r) then r
          else
            let r' = (if cell_extra c = NO_EXTRA
                      then (row_set_cell r col (c\<lparr>cell_extra := length (row_extras r)\<rparr>))
                             \<lparr>row_extras := row_extras r @ [default_extra]\<rparr>
                      else r);
                i = (if cell_extra c = NO_EXTRA then length (row_extras r) else cell_extra c)
            in case slice_get (row_extras r') i of
                 None \<Rightarrow> r'
               | Some e \<Rightarrow> r'\<lparr>row_extras := (row_extras r')
                   [i := e\<lparr>ce_zerowidth := ce_zerowidth e @ [mark]\<rparr>]\<rparr>)"

definition row_detach :: "row \<Rightarrow> nat \<Rightarrow> (cell \<times> extra_entry option) option" where
  "row_detach r col = (case row_get r col of None \<Rightarrow> None | Some c \<Rightarrow> Some (c, row_extra r c))"

definition row_attach :: "row \<Rightarrow> nat \<Rightarrow> cell \<Rightarrow> extra_entry option \<Rightarrow> row" where
  "row_attach r col c extra =
     (case row_get r col of
        None \<Rightarrow> r
      | Some _ \<Rightarrow>
          (case extra of
             Some e \<Rightarrow>
               if length (row_extras r) < NO_EXTRA
               then (row_set_cell r col (c\<lparr>cell_extra := length (row_extras r)\<rparr>))
                      \<lparr>row_extras := row_extras r @ [e]\<rparr>
               else row_set_cell r col (c\<lparr>cell_extra := NO_EXTRA\<rparr>)
           | None \<Rightarrow> row_set_cell r col (c\<lparr>cell_extra := NO_EXTRA\<rparr>)))"

definition row_reset :: "row \<Rightarrow> cell \<Rightarrow> line_id \<Rightarrow> row" where
  "row_reset r template i =
     r\<lparr>row_cells := replicate (length (row_cells r)) (blank_with template), row_extras := [], row_id := i\<rparr>"

text \<open>\<open>Vec::resize\<close>: truncate, or pad with copies.\<close>

definition vec_resize :: "nat \<Rightarrow> 'a \<Rightarrow> 'a list \<Rightarrow> 'a list" where
  "vec_resize n x xs = take n xs @ replicate (n - length xs) x"

definition row_resize :: "row \<Rightarrow> nat \<Rightarrow> cell \<Rightarrow> row" where
  "row_resize r cols template = r\<lparr>row_cells := vec_resize cols (blank_with template) (row_cells r)\<rparr>"

definition trimmed_len :: "row \<Rightarrow> nat" where
  "trimmed_len r = trim_len (\<lambda>c. \<not> is_blank c \<or> cell_bg c \<noteq> cell_bg default_cell) (row_cells r)"

text \<open>What one cell contributes to text: its character, then its combining marks.\<close>

definition cell_text :: "row \<Rightarrow> cell \<Rightarrow> ustring" where
  "cell_text r c =
     (if has_flag c CF_WIDE_SPACER then []
      else cell_ch c # (case row_extra r c of None \<Rightarrow> [] | Some e \<Rightarrow> ce_zerowidth e))"

definition row_text :: "row \<Rightarrow> ustring" where
  "row_text r = concat (map (cell_text r) (take (trimmed_len r) (row_cells r)))"

section \<open>Lengths and ids\<close>

definition blank_row :: "nat \<Rightarrow> cell \<Rightarrow> line_id \<Rightarrow> row" where
  "blank_row cols template i =
     \<lparr>row_cells = replicate cols (blank_with template), row_extras = [], row_id = i\<rparr>"

lemma row_reset_blank: "row_reset r t i = blank_row (length (row_cells r)) t i"
  by (cases r) (simp add: row_reset_def blank_row_def)

lemma blank_row_simps [simp]:
  "row_cells (blank_row n t i) = replicate n (blank_with t)" "row_id (blank_row n t i) = i"
  "row_extras (blank_row n t i) = []"
  by (simp_all add: blank_row_def)

lemma row_new_simps [simp]:
  "row_cells (row_new n i) = replicate n default_cell" "row_id (row_new n i) = i"
  "row_extras (row_new n i) = []"
  by (simp_all add: row_new_def)

lemma row_id_ops [simp]:
  "row_id (row_set_wrapped r b) = row_id r" "row_id (row_set_cell r col c) = row_id r"
  "row_id (push_zerowidth r col m) = row_id r" "row_id (row_attach r col c e) = row_id r"
  "row_id (row_resize r n t) = row_id r" "row_id (row_reset r t i) = i"
  by (auto simp: row_set_wrapped_def row_set_cell_def push_zerowidth_def row_attach_def
      row_resize_def row_reset_def Let_def split: option.splits)

lemma row_length_ops [simp]:
  "length (row_cells (row_set_wrapped r b)) = length (row_cells r)"
  "length (row_cells (row_set_cell r col c)) = length (row_cells r)"
  "length (row_cells (push_zerowidth r col m)) = length (row_cells r)"
  "length (row_cells (row_attach r col c e)) = length (row_cells r)"
  "length (row_cells (row_resize r n t)) = n"
  "length (row_cells (row_reset r t i)) = length (row_cells r)"
  by (auto simp: row_set_wrapped_def row_set_cell_def push_zerowidth_def row_attach_def
      row_resize_def row_reset_def vec_resize_def Let_def split: option.splits)

section \<open>The wrap fact lives on the last cell\<close>

lemma row_wrapped_last:
  "row_cells r \<noteq> [] \<Longrightarrow> row_wrapped r \<longleftrightarrow> has_flag (last (row_cells r)) CF_WRAPLINE"
  by (simp add: row_wrapped_def last_of_def)

lemma row_wrapped_set [simp]:
  "row_wrapped (row_set_wrapped r b) \<longleftrightarrow> row_cells r \<noteq> [] \<and> b"
proof (cases "row_cells r = []")
  case True
  then show ?thesis by (simp add: row_set_wrapped_def row_wrapped_def last_of_def)
next
  case False
  let ?n = "length (row_cells r) - 1"
  have "last ((row_cells r)[?n := c]) = c" for c
    using False by (simp add: last_conv_nth nth_list_update)
  then show ?thesis using False
    by (simp add: row_set_wrapped_def row_wrapped_def last_of_def has_flag_def flag_simps)
qed

lemma row_wrapped_blank [simp]: "\<not> row_wrapped (blank_row n t i)"
  by (simp add: row_wrapped_def last_of_def)

lemma row_wrapped_new [simp]: "\<not> row_wrapped (row_new n i)"
  using blank_with_no_structure(3) [of default_cell] by (simp add: row_wrapped_def last_of_def)

section \<open>The side table\<close>

text \<open>Every index a cell of the row holds is in the table, which never outgrows its index type.\<close>

definition extras_ok :: "row \<Rightarrow> bool" where
  "extras_ok r \<longleftrightarrow> length (row_extras r) \<le> NO_EXTRA \<and>
     (\<forall>c \<in> set (row_cells r). cell_extra c = NO_EXTRA \<or> cell_extra c < length (row_extras r))"

lemma extras_ok_blank [simp]: "extras_ok (blank_row n t i)" "extras_ok (row_new n i)"
  by (auto simp: extras_ok_def)

lemma extras_ok_push:
  assumes "extras_ok r"
  shows "extras_ok (push_zerowidth r col m)"
proof (cases "row_get r col")
  case (Some c)
  then have c: "col < length (row_cells r)" "row_cells r ! col = c" by (auto simp: row_get_def)
  have sub: "set ((row_cells r)[col := d]) \<subseteq> insert d (set (row_cells r))" for d
    by (rule set_update_subset_insert)
  show ?thesis using assms Some c
    by (auto simp: push_zerowidth_def extras_ok_def Let_def row_set_cell_def slice_get_def
        less_Suc_eq dest!: sub [THEN subsetD] split: option.splits if_splits)
qed (use assms in \<open>simp add: push_zerowidth_def\<close>)

lemma extras_ok_attach:
  assumes "extras_ok r"
  shows "extras_ok (row_attach r col c e)"
proof -
  have sub: "set ((row_cells r)[col := d]) \<subseteq> insert d (set (row_cells r))" for d
    by (rule set_update_subset_insert)
  show ?thesis using assms
    by (auto simp: row_attach_def extras_ok_def row_set_cell_def less_Suc_eq
        dest!: sub [THEN subsetD] split: option.splits)
qed

text \<open>A mark pushed onto a cell is the last of the marks found for that cell afterwards.\<close>

lemma push_zerowidth_extra:
  assumes "extras_ok r" "col < length (row_cells r)" "length (row_extras r) < NO_EXTRA"
  shows "row_extra (push_zerowidth r col m) (row_cells (push_zerowidth r col m) ! col) =
    Some (case row_extra r (row_cells r ! col) of
        None \<Rightarrow> default_extra\<lparr>ce_zerowidth := [m]\<rparr>
      | Some e \<Rightarrow> e\<lparr>ce_zerowidth := ce_zerowidth e @ [m]\<rparr>)"
proof -
  have "row_cells r ! col \<in> set (row_cells r)" using assms(2) by simp
  with assms(1) have "cell_extra (row_cells r ! col) = NO_EXTRA \<or>
      cell_extra (row_cells r ! col) < length (row_extras r)"
    by (auto simp: extras_ok_def)
  then show ?thesis using assms(2,3)
    by (auto simp: push_zerowidth_def row_extra_def row_get_def slice_get_def row_set_cell_def
        Let_def default_extra_def nth_append)
qed

text \<open>What is detached from one row and attached to another keeps its side data.\<close>

lemma attach_detach:
  assumes "col < length (row_cells r)" "length (row_extras r) < NO_EXTRA"
  shows "\<exists>c'. row_detach (row_attach r col c e) col = Some (c', e) \<and>
    cell_ch c' = cell_ch c \<and> cell_fg c' = cell_fg c \<and> cell_bg c' = cell_bg c \<and>
    cell_flags c' = cell_flags c"
  using assms
  by (auto simp: row_detach_def row_attach_def row_get_def row_extra_def row_set_cell_def
      slice_get_def split: option.splits)

end
