(* ===== verification/Storage.thy ===== *)
theory Storage
  imports Row
begin

text \<open>
  The ring of rows with a rotating origin (\<open>Storage\<close> in
  \<open>crates/zest-core/src/grid/storage.rs\<close>), and the contract the grid relies on: a list of rows
  in logical order, oldest first, with a counter of line ids that is never rewound.

  \<open>Storage::row\<close> indexes \<open>(origin + logical) % len\<close>; its range check is a debug assertion, so
  an index past the end wraps round in a release build, as it does here.
\<close>

section \<open>The ring\<close>

record storage =
  st_rows :: "row list"
  st_origin :: nat
  st_next_id :: line_id

definition storage_new :: "nat \<Rightarrow> nat \<Rightarrow> storage" where
  "storage_new len cols =
     \<lparr>st_rows = map (\<lambda>i. row_new cols i) [0..<len], st_origin = 0, st_next_id = len\<rparr>"

definition st_len :: "storage \<Rightarrow> nat" where
  "st_len s = length (st_rows s)"

definition set_next_id :: "storage \<Rightarrow> line_id \<Rightarrow> storage" where
  "set_next_id s i = s\<lparr>st_next_id := max (st_next_id s) i\<rparr>"

definition physical :: "storage \<Rightarrow> nat \<Rightarrow> nat" where
  "physical s logical = (st_origin s + logical) mod length (st_rows s)"

definition st_row :: "storage \<Rightarrow> nat \<Rightarrow> row" where
  "st_row s logical = st_rows s ! physical s logical"

text \<open>\<open>row_mut\<close>: write back a row obtained for modification.\<close>

definition st_set_row :: "storage \<Rightarrow> nat \<Rightarrow> row \<Rightarrow> storage" where
  "st_set_row s logical r = s\<lparr>st_rows := (st_rows s)[physical s logical := r]\<rparr>"

definition st_iter :: "storage \<Rightarrow> row list" where
  "st_iter s = map (st_row s) [0..<length (st_rows s)]"

text \<open>A row that arrived from elsewhere: its cells padded or cut to the width, then its wrap bit.\<close>

definition received_row :: "nat \<Rightarrow> line_id \<times> cell list \<times> bool \<Rightarrow> row" where
  "received_row cols p =
     (case p of (i, cells, wrapped) \<Rightarrow>
        row_set_wrapped ((row_new cols i)
          \<lparr>row_cells := map (\<lambda>k. case slice_get cells k of Some c \<Rightarrow> c | None \<Rightarrow> default_cell) [0..<cols]\<rparr>)
          wrapped)"

definition prepend :: "storage \<Rightarrow> (line_id \<times> cell list \<times> bool) list \<Rightarrow> nat \<Rightarrow> storage" where
  "prepend s rows cols =
     (if rows = [] then s
      else s\<lparr>st_rows := map (received_row cols) rows @ st_iter s, st_origin := 0\<rparr>)"

definition rotate_up :: "storage \<Rightarrow> nat \<Rightarrow> storage" where
  "rotate_up s k =
     (if st_rows s = [] then s
      else s\<lparr>st_origin := (st_origin s + k) mod length (st_rows s)\<rparr>)"

definition rotate_down :: "storage \<Rightarrow> nat \<Rightarrow> storage" where
  "rotate_down s k =
     (if st_rows s = [] then s
      else let n = length (st_rows s) in s\<lparr>st_origin := (st_origin s + n - (k mod n)) mod n\<rparr>)"

definition recycle :: "storage \<Rightarrow> nat \<Rightarrow> cell \<Rightarrow> storage" where
  "recycle s logical template =
     (let p = physical s logical in
      s\<lparr>st_next_id := Suc (st_next_id s),
        st_rows := (st_rows s)[p := row_reset (st_rows s ! p) template (st_next_id s)]\<rparr>)"

definition normalize :: "storage \<Rightarrow> storage" where
  "normalize s =
     (if st_origin s = 0 then s
      else s\<lparr>st_rows := drop (st_origin s) (st_rows s) @ take (st_origin s) (st_rows s), st_origin := 0\<rparr>)"

text \<open>The loop of \<open>resize_rows\<close> that mints \<open>k\<close> rows at the end.\<close>

fun mint_rows :: "nat \<Rightarrow> nat \<Rightarrow> cell \<Rightarrow> storage \<Rightarrow> storage" where
  "mint_rows 0 cols template s = s"
| "mint_rows (Suc k) cols template s =
     mint_rows k cols template
       (s\<lparr>st_next_id := Suc (st_next_id s),
          st_rows := st_rows s @ [row_reset (row_new cols (st_next_id s)) template (st_next_id s)]\<rparr>)"

definition resize_rows :: "storage \<Rightarrow> nat \<Rightarrow> nat \<Rightarrow> cell \<Rightarrow> storage" where
  "resize_rows s new_len cols template =
     (if new_len = length (st_rows s) then s
      else
        let s = normalize s in
        if length (st_rows s) < new_len
        then mint_rows (new_len - length (st_rows s)) cols template s
        else s\<lparr>st_rows := drop (length (st_rows s) - new_len) (st_rows s)\<rparr>)"

definition truncate_bottom :: "storage \<Rightarrow> nat \<Rightarrow> storage" where
  "truncate_bottom s n =
     (if n = 0 then s
      else
        let s = normalize s; keep = length (st_rows s) - n
        in s\<lparr>st_rows := take (max keep 1) (st_rows s)\<rparr>)"

definition remove_range :: "storage \<Rightarrow> nat \<Rightarrow> nat \<Rightarrow> storage" where
  "remove_range s start len =
     (if len = 0 \<or> length (st_rows s) \<le> start then s
      else
        let s = normalize s; e = min (start + len) (length (st_rows s)) in
        if length (st_rows s) \<le> e - start then s
        else s\<lparr>st_rows := take start (st_rows s) @ drop e (st_rows s)\<rparr>)"

definition resize_cols :: "storage \<Rightarrow> nat \<Rightarrow> cell \<Rightarrow> storage" where
  "resize_cols s cols template = s\<lparr>st_rows := map (\<lambda>r. row_resize r cols template) (st_rows s)\<rparr>"

definition replace_all :: "storage \<Rightarrow> row list \<Rightarrow> storage" where
  "replace_all s rows = s\<lparr>st_rows := rows, st_origin := 0\<rparr>"

definition take_all :: "storage \<Rightarrow> row list \<times> storage" where
  "take_all s = (let s = normalize s in (st_rows s, s\<lparr>st_rows := []\<rparr>))"

section \<open>Logical order\<close>

definition ring_ok :: "storage \<Rightarrow> bool" where
  "ring_ok s \<longleftrightarrow> st_rows s \<noteq> [] \<and> st_origin s < length (st_rows s)"

lemma length_st_iter [simp]: "length (st_iter s) = length (st_rows s)"
  by (simp add: st_iter_def)

lemma nth_st_iter: "i < length (st_rows s) \<Longrightarrow> st_iter s ! i = st_row s i"
  by (simp add: st_iter_def)

lemma st_iter_rotate: "ring_ok s \<Longrightarrow> st_iter s = rotate (st_origin s) (st_rows s)"
  by (rule nth_equalityI) (auto simp: st_iter_def st_row_def physical_def nth_rotate ring_ok_def)

lemma normalize_rows:
  assumes "ring_ok s"
  shows "st_rows (normalize s) = st_iter s" "st_origin (normalize s) = 0"
    "st_next_id (normalize s) = st_next_id s"
  using assms by (auto simp: normalize_def st_iter_rotate rotate_drop_take ring_ok_def)

lemma st_iter_origin0: "st_origin s = 0 \<Longrightarrow> st_iter s = st_rows s"
  by (rule nth_equalityI) (auto simp: st_iter_def st_row_def physical_def)

lemma normalize_iter:
  assumes "ring_ok s"
  shows "st_iter (normalize s) = st_iter s" "ring_ok (normalize s)"
proof -
  show "st_iter (normalize s) = st_iter s"
    using normalize_rows [OF assms] by (simp add: st_iter_origin0)
  show "ring_ok (normalize s)"
    using assms normalize_rows [OF assms] by (auto simp: ring_ok_def st_iter_def)
qed

lemma ring_index_inj:
  fixes k :: nat
  assumes "i < n" "j < n"
  shows "(k + i) mod n = (k + j) mod n \<longleftrightarrow> i = j"
proof -
  have nth: "rotate k [0..<n] ! l = (k + l) mod n" if "l < n" for l
    using that by (simp add: nth_rotate)
  have "distinct (rotate k [0..<n])" by simp
  then show ?thesis using assms nth nth_eq_iff_index_eq [of "rotate k [0..<n]" i j] by simp
qed

lemma st_iter_set_row:
  assumes "ring_ok s" "i < length (st_rows s)"
  shows "st_iter (st_set_row s i r) = (st_iter s)[i := r]"
proof (rule nth_equalityI)
  fix j assume "j < length (st_iter (st_set_row s i r))"
  then have j: "j < length (st_rows s)" by (simp add: st_set_row_def)
  have inj: "(st_origin s + i) mod length (st_rows s) = (st_origin s + j) mod length (st_rows s) \<longleftrightarrow> i = j"
    using assms(2) j by (rule ring_index_inj)
  show "st_iter (st_set_row s i r) ! j = (st_iter s)[i := r] ! j"
    using assms j inj
    by (auto simp: st_iter_def st_row_def st_set_row_def physical_def nth_list_update ring_ok_def)
qed (simp add: st_set_row_def)

lemma mint_rows_eq:
  "mint_rows k cols t s = s\<lparr>st_next_id := st_next_id s + k,
     st_rows := st_rows s @ map (blank_row cols t) [st_next_id s..<st_next_id s + k]\<rparr>"
proof (induction k arbitrary: s)
  case (Suc k)
  have "[st_next_id s..<st_next_id s + Suc k] = st_next_id s # [Suc (st_next_id s)..<st_next_id s + Suc k]"
    by (simp add: upt_conv_Cons)
  then show ?case by (simp add: Suc row_reset_blank del: upt_Suc)
qed simp

section \<open>Line ids\<close>

text \<open>Ids are strictly increasing from the oldest row down, and all below the counter.\<close>

definition ids_ok :: "row list \<Rightarrow> line_id \<Rightarrow> bool" where
  "ids_ok rows next \<longleftrightarrow> sorted_wrt (<) (map row_id rows) \<and> (\<forall>r \<in> set rows. row_id r < next)"

lemma ids_ok_distinct: "ids_ok rows next \<Longrightarrow> distinct (map row_id rows)"
  by (simp add: ids_ok_def strict_sorted_iff)

lemma ids_ok_update:
  assumes "ids_ok rows next" "i < length rows" "row_id r = row_id (rows ! i)"
  shows "ids_ok (rows[i := r]) next"
proof -
  have "map row_id (rows[i := r]) = map row_id rows"
    using assms(2,3) by (simp add: map_update list_update_same_conv)
  moreover have "row_id x < next" if "x \<in> set (rows[i := r])" for x
  proof -
    from that have "x \<in> insert r (set rows)" using set_update_subset_insert by fastforce
    with assms show ?thesis by (auto simp: ids_ok_def)
  qed
  ultimately show ?thesis using assms(1) by (simp add: ids_ok_def)
qed

lemma ids_ok_mint:
  assumes "ids_ok rows next" "next \<le> next'"
  shows "ids_ok (rows @ map (blank_row cols t) [next..<next']) next'"
  using assms by (auto simp: ids_ok_def sorted_wrt_append comp_def dest: less_le_trans)

lemma ids_ok_cut:
  assumes "ids_ok rows next" "a \<le> b" "next \<le> next'"
  shows "ids_ok (take a rows @ drop b rows) next'"
proof -
  have "sorted_wrt (<) (take a ids @ drop b ids)" if s: "sorted_wrt (<) ids" for ids :: "nat list"
  proof -
    have "x < y" if "x \<in> set (take a ids)" "y \<in> set (drop b ids)" for x y
    proof -
      have "y \<in> set (drop a ids)" using that(2) set_drop_subset_set_drop [OF assms(2)] by (rule rev_subsetD)
      moreover have "sorted_wrt (<) (take a ids @ drop a ids)" using s by simp
      then have "\<forall>x \<in> set (take a ids). \<forall>y \<in> set (drop a ids). x < y"
        unfolding sorted_wrt_append by (elim conjE)
      ultimately show ?thesis using that(1) by (elim ballE) auto
    qed
    then show ?thesis using s by (simp add: sorted_wrt_append sorted_wrt_take sorted_wrt_drop)
  qed
  then have "sorted_wrt (<) (map row_id (take a rows @ drop b rows))"
    using assms(1) by (simp add: ids_ok_def take_map [symmetric] drop_map [symmetric])
  moreover have "row_id r < next'" if "r \<in> set (take a rows @ drop b rows)" for r
  proof -
    have "r \<in> set rows" using that by (auto dest: in_set_takeD in_set_dropD)
    then have "row_id r < next" using assms(1) by (simp add: ids_ok_def)
    then show ?thesis using assms(3) by simp
  qed
  ultimately show ?thesis by (simp add: ids_ok_def)
qed

lemma ids_ok_drop: "ids_ok rows next \<Longrightarrow> next \<le> next' \<Longrightarrow> ids_ok (drop k rows) next'"
  using ids_ok_cut [of rows "next" 0 k next'] by simp

lemma ids_ok_take: "ids_ok rows next \<Longrightarrow> next \<le> next' \<Longrightarrow> ids_ok (take k rows) next'"
  using ids_ok_cut [of rows "next" k "length rows + k" next'] by simp

section \<open>The contract of the row store\<close>

text \<open>
  What the grid relies on, with \<open>rows_of\<close> the rows in logical order: reads and writes by logical
  index, rotation, recycling, growing at the bottom, dropping from either end or the middle, and
  a counter of ids that only the minting operations advance.
\<close>

locale row_store =
  fixes rows_of :: "'s \<Rightarrow> row list"
    and counter :: "'s \<Rightarrow> line_id"
    and inv :: "'s \<Rightarrow> bool"
    and get :: "'s \<Rightarrow> nat \<Rightarrow> row"
    and put :: "'s \<Rightarrow> nat \<Rightarrow> row \<Rightarrow> 's"
    and rot :: "'s \<Rightarrow> nat \<Rightarrow> 's"
    and renew :: "'s \<Rightarrow> nat \<Rightarrow> cell \<Rightarrow> 's"
    and resize :: "'s \<Rightarrow> nat \<Rightarrow> nat \<Rightarrow> cell \<Rightarrow> 's"
    and chop :: "'s \<Rightarrow> nat \<Rightarrow> 's"
    and cut :: "'s \<Rightarrow> nat \<Rightarrow> nat \<Rightarrow> 's"
  assumes nonempty: "inv s \<Longrightarrow> rows_of s \<noteq> []"
    and get: "inv s \<Longrightarrow> i < length (rows_of s) \<Longrightarrow> get s i = rows_of s ! i"
    and put: "inv s \<Longrightarrow> i < length (rows_of s) \<Longrightarrow>
      inv (put s i r) \<and> rows_of (put s i r) = (rows_of s)[i := r] \<and> counter (put s i r) = counter s"
    and rot: "inv s \<Longrightarrow>
      inv (rot s k) \<and> rows_of (rot s k) = rotate k (rows_of s) \<and> counter (rot s k) = counter s"
    and renew: "inv s \<Longrightarrow> i < length (rows_of s) \<Longrightarrow>
      inv (renew s i t) \<and>
      rows_of (renew s i t) = (rows_of s)[i := row_reset (rows_of s ! i) t (counter s)] \<and>
      counter (renew s i t) = Suc (counter s)"
    and grow: "inv s \<Longrightarrow> length (rows_of s) \<le> n \<Longrightarrow>
      inv (resize s n cols t) \<and>
      rows_of (resize s n cols t) = rows_of s @
        map (blank_row cols t) [counter s..<counter s + (n - length (rows_of s))] \<and>
      counter (resize s n cols t) = counter s + (n - length (rows_of s))"
    and shrink: "inv s \<Longrightarrow> 0 < n \<Longrightarrow> n \<le> length (rows_of s) \<Longrightarrow>
      inv (resize s n cols t) \<and>
      rows_of (resize s n cols t) = drop (length (rows_of s) - n) (rows_of s) \<and>
      counter (resize s n cols t) = counter s"
    and chop: "inv s \<Longrightarrow>
      inv (chop s n) \<and> rows_of (chop s n) = take (max (length (rows_of s) - n) 1) (rows_of s) \<and>
      counter (chop s n) = counter s"
    and cut: "inv s \<Longrightarrow> start + len \<le> length (rows_of s) \<Longrightarrow> len < length (rows_of s) \<Longrightarrow>
      inv (cut s start len) \<and>
      rows_of (cut s start len) = take start (rows_of s) @ drop (start + len) (rows_of s) \<and>
      counter (cut s start len) = counter s"
begin

text \<open>
  The O(1) scroll: rotating by one and renewing the last row drops the oldest row and appends a
  blank one under a fresh id.
\<close>

lemma scroll_recycled:
  fixes t :: cell
  assumes "inv s"
  defines "s' \<equiv> renew (rot s 1) (length (rows_of (rot s 1)) - 1) t"
  shows "inv s' \<and> rows_of s' = tl (rows_of s) @
      [blank_row (length (row_cells (hd (rows_of s)))) t (counter s)] \<and> counter s' = Suc (counter s)"
proof -
  obtain x xs where xs: "rows_of s = x # xs" using nonempty [OF assms(1)] by (cases "rows_of s") auto
  have "inv (rot s 1)" "rows_of (rot s 1) = xs @ [x]" "counter (rot s 1) = counter s"
    using rot [OF assms(1), of 1] xs by simp_all
  then show ?thesis
    using renew [of "rot s 1" "length xs" t] by (simp add: s'_def xs row_reset_blank)
qed

lemma scroll_grown:
  fixes t :: cell and cols :: nat
  assumes "inv s"
  defines "s' \<equiv> resize s (Suc (length (rows_of s))) cols t"
  shows "inv s' \<and> rows_of s' = rows_of s @ [blank_row cols t (counter s)] \<and>
    counter s' = Suc (counter s)"
  using grow [OF assms(1), of "Suc (length (rows_of s))" cols t] by (simp add: s'_def)

text \<open>Every operation of the contract keeps the ids of the rows in order.\<close>

lemma keeps_ids:
  assumes "inv s" "ids_ok (rows_of s) (counter s)"
  shows "i < length (rows_of s) \<Longrightarrow> row_id r = row_id (rows_of s ! i) \<Longrightarrow>
      ids_ok (rows_of (put s i r)) (counter (put s i r))"
    and "length (rows_of s) \<le> n \<Longrightarrow> ids_ok (rows_of (resize s n cols t)) (counter (resize s n cols t))"
    and "0 < n \<Longrightarrow> n \<le> length (rows_of s) \<Longrightarrow>
      ids_ok (rows_of (resize s n cols t)) (counter (resize s n cols t))"
    and "ids_ok (rows_of (chop s n)) (counter (chop s n))"
    and "start + len \<le> length (rows_of s) \<Longrightarrow> len < length (rows_of s) \<Longrightarrow>
      ids_ok (rows_of (cut s start len)) (counter (cut s start len))"
  using assms put [OF assms(1)] grow [OF assms(1)] shrink [OF assms(1)] chop [OF assms(1)]
    cut [OF assms(1)]
  by (simp_all add: ids_ok_update ids_ok_mint ids_ok_drop ids_ok_take ids_ok_cut)

lemma scroll_keeps_ids:
  fixes t :: cell
  assumes "inv s" "ids_ok (rows_of s) (counter s)"
  defines "s' \<equiv> renew (rot s 1) (length (rows_of (rot s 1)) - 1) t"
  shows "ids_ok (rows_of s') (counter s')"
proof -
  have "ids_ok (tl (rows_of s)) (counter s)"
    using ids_ok_drop [OF assms(2) order_refl, of 1] by (simp add: drop_Suc)
  from ids_ok_mint [OF this, of "Suc (counter s)"] show ?thesis
    using scroll_recycled [OF assms(1), of t] by (simp add: s'_def)
qed

end

section \<open>The ring keeps the contract\<close>

interpretation ring: row_store st_iter st_next_id ring_ok st_row st_set_row rotate_up recycle
  resize_rows truncate_bottom remove_range
proof
  fix s i r k t n cols start len
  assume ok: "ring_ok s"
  note norm = normalize_rows [OF ok] normalize_iter [OF ok]
  have pos: "st_rows s \<noteq> []" "st_origin s < length (st_rows s)" using ok by (auto simp: ring_ok_def)
  show "st_iter s \<noteq> []" using pos by (simp add: st_iter_def)
  show "i < length (st_iter s) \<Longrightarrow> st_row s i = st_iter s ! i" by (simp add: nth_st_iter)
  show "i < length (st_iter s) \<Longrightarrow> ring_ok (st_set_row s i r) \<and>
      st_iter (st_set_row s i r) = (st_iter s)[i := r] \<and> st_next_id (st_set_row s i r) = st_next_id s"
    using ok by (simp add: st_iter_set_row) (simp add: st_set_row_def ring_ok_def)
  show "ring_ok (rotate_up s k) \<and> st_iter (rotate_up s k) = rotate k (st_iter s) \<and>
      st_next_id (rotate_up s k) = st_next_id s"
  proof -
    have "ring_ok (rotate_up s k)" using pos by (simp add: ring_ok_def rotate_up_def)
    moreover have "st_iter (rotate_up s k) = rotate k (st_iter s)"
      using ok \<open>ring_ok (rotate_up s k)\<close> pos
      by (simp add: st_iter_rotate rotate_up_def rotate_rotate rotate_conv_mod [symmetric] add.commute)
    ultimately show ?thesis by (simp add: rotate_up_def)
  qed
  show "i < length (st_iter s) \<Longrightarrow> ring_ok (recycle s i t) \<and>
      st_iter (recycle s i t) = (st_iter s)[i := row_reset (st_iter s ! i) t (st_next_id s)] \<and>
      st_next_id (recycle s i t) = Suc (st_next_id s)"
  proof -
    assume i: "i < length (st_iter s)"
    have "recycle s i t = (st_set_row s i (row_reset (st_row s i) t (st_next_id s)))\<lparr>st_next_id := Suc (st_next_id s)\<rparr>"
      by (simp add: recycle_def st_set_row_def st_row_def Let_def)
    moreover have "st_iter (s'\<lparr>st_next_id := j\<rparr>) = st_iter s'" for s' j
      by (simp add: st_iter_def st_row_def physical_def)
    moreover have "ring_ok (s'\<lparr>st_next_id := j\<rparr>) = ring_ok s'" for s' j by (simp add: ring_ok_def)
    ultimately show ?thesis using ok i
      by (simp add: st_iter_set_row nth_st_iter) (simp add: st_set_row_def ring_ok_def)
  qed
  show "length (st_iter s) \<le> n \<Longrightarrow> ring_ok (resize_rows s n cols t) \<and>
      st_iter (resize_rows s n cols t) = st_iter s @
        map (blank_row cols t) [st_next_id s..<st_next_id s + (n - length (st_iter s))] \<and>
      st_next_id (resize_rows s n cols t) = st_next_id s + (n - length (st_iter s))"
  proof (cases "n = length (st_rows s)")
    case False
    assume "length (st_iter s) \<le> n"
    with False have "length (st_rows s) < n" by simp
    then have "resize_rows s n cols t = (normalize s)\<lparr>st_next_id := st_next_id s + (n - length (st_rows s)),
        st_rows := st_iter s @ map (blank_row cols t) [st_next_id s..<st_next_id s + (n - length (st_rows s))]\<rparr>"
      using norm by (simp add: resize_rows_def mint_rows_eq)
    then show ?thesis using norm pos by (simp add: st_iter_origin0 ring_ok_def)
  qed (use ok in \<open>simp add: resize_rows_def\<close>)
  show "0 < n \<Longrightarrow> n \<le> length (st_iter s) \<Longrightarrow> ring_ok (resize_rows s n cols t) \<and>
      st_iter (resize_rows s n cols t) = drop (length (st_iter s) - n) (st_iter s) \<and>
      st_next_id (resize_rows s n cols t) = st_next_id s"
    using norm ok by (cases "n = length (st_rows s)")
      (auto simp: resize_rows_def st_iter_origin0 ring_ok_def Let_def)
  show "ring_ok (truncate_bottom s n) \<and>
      st_iter (truncate_bottom s n) = take (max (length (st_iter s) - n) 1) (st_iter s) \<and>
      st_next_id (truncate_bottom s n) = st_next_id s"
    using norm ok by (cases "n = 0")
      (auto simp: truncate_bottom_def st_iter_origin0 ring_ok_def Let_def max_def Suc_le_eq)
  show "start + len \<le> length (st_iter s) \<Longrightarrow> len < length (st_iter s) \<Longrightarrow> ring_ok (remove_range s start len) \<and>
      st_iter (remove_range s start len) = take start (st_iter s) @ drop (start + len) (st_iter s) \<and>
      st_next_id (remove_range s start len) = st_next_id s"
    using norm ok
    by (auto simp: remove_range_def st_iter_origin0 ring_ok_def Let_def)
qed

end
