(* ===== verification/Grid.thy ===== *)
theory Grid
  imports Storage
begin

text \<open>
  The character grid: viewport, scrollback, cursor and scroll region
  (\<open>crates/zest-core/src/grid/mod.rs\<close>).  This theory holds the state, the two coordinate spaces,
  the history operations and the scrolling ones; \<open>Reflow\<close>, \<open>Resize\<close> and \<open>Edit\<close> hold the rest.
\<close>

section \<open>State\<close>

record cursor =
  cur_row :: nat
  cur_col :: nat
  cur_pending_wrap :: bool

definition default_cursor :: cursor where
  "default_cursor = \<lparr>cur_row = 0, cur_col = 0, cur_pending_wrap = False\<rparr>"

text \<open>Where a width change sent each line, ascending by the old id.\<close>

type_synonym reindex = "(line_id \<times> line_id) list"

definition reindex_is_empty :: "reindex \<Rightarrow> bool" where
  "reindex_is_empty m \<longleftrightarrow> m = []"

definition reindex_oldest :: "reindex \<Rightarrow> line_id option" where
  "reindex_oldest m = map_option snd (first_of m)"

definition reindex_lookup :: "reindex \<Rightarrow> line_id \<Rightarrow> line_id option" where
  "reindex_lookup m old =
     (case binary_search_by_key fst old m of Inl _ \<Rightarrow> None | Inr i \<Rightarrow> Some (snd (m ! i)))"

record saved_cursor =
  sc_cursor :: cursor
  sc_template :: cell
  sc_origin_mode :: bool

definition default_saved_cursor :: saved_cursor where
  "default_saved_cursor =
     \<lparr>sc_cursor = default_cursor, sc_template = default_cell, sc_origin_mode = False\<rparr>"

record scroll_region =
  sr_top :: nat
  sr_bottom :: nat

definition region_full :: "nat \<Rightarrow> scroll_region" where
  "region_full rows = \<lparr>sr_top = 0, sr_bottom = rows - 1\<rparr>"

definition region_contains :: "scroll_region \<Rightarrow> nat \<Rightarrow> bool" where
  "region_contains r row \<longleftrightarrow> sr_top r \<le> row \<and> row \<le> sr_bottom r"

record evicted =
  ev_id :: line_id
  ev_text :: ustring
  ev_wrapped :: bool

record grid =
  g_storage :: storage
  g_cols :: nat
  g_rows :: nat
  g_scrollback_limit :: nat
  g_evicted :: "evicted list"
  g_capture_evicted :: bool
  g_scrollback_len :: nat
  g_display_offset :: nat
  g_restated :: bool
  g_restate_debt :: nat
  g_pending_restate :: nat
  g_restating :: bool
  g_sitting_out :: bool
  g_restatement_open :: bool
  g_settled_pull :: nat
  g_restate_rows_seen :: nat
  g_history_clears :: nat
  g_cursor :: cursor
  g_region :: scroll_region

definition grid_new :: "nat \<Rightarrow> nat \<Rightarrow> nat \<Rightarrow> grid" where
  "grid_new cols rows scrollback_limit =
     (let cols = max cols 1; rows = max rows 1 in
      \<lparr>g_storage = storage_new rows cols, g_cols = cols, g_rows = rows,
       g_scrollback_limit = scrollback_limit, g_evicted = [], g_capture_evicted = False,
       g_scrollback_len = 0, g_display_offset = 0, g_restated = False, g_restate_debt = 0,
       g_pending_restate = 0, g_restating = False, g_sitting_out = False,
       g_restatement_open = False, g_settled_pull = 0, g_restate_rows_seen = 0,
       g_history_clears = 0, g_cursor = default_cursor, g_region = region_full rows\<rparr>)"

definition set_viewport_restated :: "grid \<Rightarrow> bool \<Rightarrow> grid" where
  "set_viewport_restated g yes = g\<lparr>g_restated := yes\<rparr>"

definition capture_evicted :: "grid \<Rightarrow> bool \<Rightarrow> grid" where
  "capture_evicted g on =
     (let g = g\<lparr>g_capture_evicted := on\<rparr> in if on then g else g\<lparr>g_evicted := []\<rparr>)"

definition take_evicted :: "grid \<Rightarrow> evicted list \<times> grid" where
  "take_evicted g = (g_evicted g, g\<lparr>g_evicted := []\<rparr>)"

definition total_lines :: "grid \<Rightarrow> nat" where
  "total_lines g = st_len (g_storage g)"

definition next_line_id :: "grid \<Rightarrow> line_id" where
  "next_line_id g = st_next_id (g_storage g)"

definition set_next_line_id :: "grid \<Rightarrow> line_id \<Rightarrow> grid" where
  "set_next_line_id g i = g\<lparr>g_storage := set_next_id (g_storage g) i\<rparr>"

definition push_history :: "grid \<Rightarrow> (line_id \<times> cell list \<times> bool) list \<Rightarrow> grid" where
  "push_history g rows =
     (if rows = [] then g
      else
        let room = g_scrollback_limit g - g_scrollback_len g in
        if room = 0 then g
        else
          let k = min (length rows) room; rows = drop (length rows - k) rows in
          g\<lparr>g_storage := prepend (g_storage g) rows (g_cols g),
            g_scrollback_len := g_scrollback_len g + k\<rparr>)"

section \<open>Display space and active space\<close>

definition viewport_base :: "grid \<Rightarrow> nat" where
  "viewport_base g = st_len (g_storage g) - (g_rows g + g_display_offset g)"

definition active_base :: "grid \<Rightarrow> nat" where
  "active_base g = st_len (g_storage g) - g_rows g"

definition grid_row :: "grid \<Rightarrow> nat \<Rightarrow> row" where
  "grid_row g row = st_row (g_storage g) (viewport_base g + row)"

definition active_row :: "grid \<Rightarrow> nat \<Rightarrow> row" where
  "active_row g row = st_row (g_storage g) (active_base g + row)"

text \<open>\<open>row_mut\<close>: write back a row of the live screen.\<close>

definition set_active_row :: "grid \<Rightarrow> nat \<Rightarrow> row \<Rightarrow> grid" where
  "set_active_row g row r = g\<lparr>g_storage := st_set_row (g_storage g) (active_base g + row) r\<rparr>"

definition abs_index :: "grid \<Rightarrow> nat \<Rightarrow> nat" where
  "abs_index g row = viewport_base g + row"

definition active_abs_index :: "grid \<Rightarrow> nat \<Rightarrow> nat" where
  "active_abs_index g row = active_base g + row"

definition grid_line :: "grid \<Rightarrow> nat \<Rightarrow> row option" where
  "grid_line g i = (if i < st_len (g_storage g) then Some (st_row (g_storage g) i) else None)"

definition oldest_line_id :: "grid \<Rightarrow> line_id" where
  "oldest_line_id g = row_id (st_row (g_storage g) 0)"

definition grid_cell :: "grid \<Rightarrow> nat \<Rightarrow> nat \<Rightarrow> cell option" where
  "grid_cell g row col = row_get (grid_row g row) col"

text \<open>\<open>if let Some(c) = self.cell_mut(row, col) { *c = ... }\<close>\<close>

definition set_cell :: "grid \<Rightarrow> nat \<Rightarrow> nat \<Rightarrow> cell \<Rightarrow> grid" where
  "set_cell g row col c =
     (case row_get (active_row g row) col of
        None \<Rightarrow> g
      | Some _ \<Rightarrow> set_active_row g row (row_set_cell (active_row g row) col c))"

section \<open>History\<close>

text \<open>
  The loop of \<open>drop_scrollback_rows\<close>, at index \<open>i\<close>, with the end of the run of named rows found
  so far and the count removed.
\<close>

definition flush_run :: "storage \<Rightarrow> nat \<Rightarrow> nat option \<Rightarrow> nat \<Rightarrow> storage \<times> nat" where
  "flush_run s i e removed =
     (case e of None \<Rightarrow> (s, removed) | Some e \<Rightarrow> (remove_range s i (e - i), removed + (e - i)))"

fun drop_loop :: "line_id list \<Rightarrow> line_id \<Rightarrow> storage \<Rightarrow> nat \<Rightarrow> nat option \<Rightarrow> nat \<Rightarrow> storage \<times> nat" where
  "drop_loop named flr s 0 e removed = flush_run s 0 e removed"
| "drop_loop named flr s (Suc i) e removed =
     (let x = row_id (st_row s i) in
      if flr \<le> x then
        (case binary_search_by_key (\<lambda>y. y) x named of
           Inr _ \<Rightarrow> drop_loop named flr s i (Some (case e of None \<Rightarrow> Suc i | Some e \<Rightarrow> e)) removed
         | Inl _ \<Rightarrow>
             (case flush_run s (Suc i) e removed of
                (s, removed) \<Rightarrow> drop_loop named flr s i None removed))
      else flush_run s (Suc i) e removed)"

definition drop_scrollback_rows :: "grid \<Rightarrow> line_id list \<Rightarrow> grid \<times> nat" where
  "drop_scrollback_rows g named =
     (if named = [] then (g, 0)
      else
        let named = sort named; flr = named ! 0;
            (s, removed) = drop_loop named flr (g_storage g) (g_scrollback_len g) None 0;
            g = g\<lparr>g_storage := s\<rparr>
        in if 0 < removed then
             let len = g_scrollback_len g - removed in
             (g\<lparr>g_scrollback_len := len,
                g_display_offset := min (g_display_offset g - removed) len\<rparr>, removed)
           else (g, removed))"

definition clear_history :: "grid \<Rightarrow> grid" where
  "clear_history g =
     (let g = (if 0 < g_scrollback_len g
               then g\<lparr>g_storage := remove_range (g_storage g) 0 (g_scrollback_len g), g_scrollback_len := 0\<rparr>
               else g)
      in g\<lparr>g_display_offset := 0, g_history_clears := min (g_history_clears g + 1) (2 ^ 32 - 1)\<rparr>)"

definition bank_viewport_top :: "grid \<Rightarrow> nat \<Rightarrow> cell \<Rightarrow> grid" where
  "bank_viewport_top g n template =
     (if n = 0 then g
      else
        let s = resize_rows (g_storage g) (st_len (g_storage g) + n) (g_cols g) template;
            len = g_scrollback_len g + n;
            (s, len) =
              (if g_scrollback_limit g < len
               then (resize_rows s (st_len s - (len - g_scrollback_limit g)) (g_cols g) template,
                     g_scrollback_limit g)
               else (s, len));
            off = (if 0 < g_display_offset g then min (g_display_offset g + n) len else g_display_offset g)
        in g\<lparr>g_storage := s, g_scrollback_len := len, g_display_offset := off\<rparr>)"

definition lines_by_id :: "grid \<Rightarrow> line_id \<Rightarrow> nat \<Rightarrow> row list" where
  "lines_by_id g frm count =
     take count (filter (\<lambda>r. frm \<le> row_id r) (take (g_scrollback_len g) (st_iter (g_storage g))))"

section \<open>Scrolling\<close>

definition end_restatement_window :: "grid \<Rightarrow> grid" where
  "end_restatement_window g =
     g\<lparr>g_restating := False, g_sitting_out := False, g_restatement_open := False,
       g_restate_rows_seen := 0\<rparr>"

definition cancel_restate_debt :: "grid \<Rightarrow> grid" where
  "cancel_restate_debt g =
     end_restatement_window (g\<lparr>g_restate_debt := 0, g_pending_restate := 0, g_settled_pull := 0\<rparr>)"

text \<open>What is kept of a row about to be recycled.\<close>

definition evict_row :: "row \<Rightarrow> evicted" where
  "evict_row r = \<lparr>ev_id = row_id r, ev_text = trim_end (map cell_ch (row_cells r)),
     ev_wrapped = row_wrapped r\<rparr>"

text \<open>One turn of the loop of \<open>scroll_screen_up\<close>.\<close>

definition scroll_one :: "cell \<Rightarrow> grid \<Rightarrow> grid" where
  "scroll_one template g =
     (let g =
        (if g_scrollback_len g < g_scrollback_limit g
         then g\<lparr>g_storage := resize_rows (g_storage g) (st_len (g_storage g) + 1) (g_cols g) template,
                g_scrollback_len := g_scrollback_len g + 1\<rparr>
         else
           let g = (if g_capture_evicted g
                    then (case first_of (st_iter (g_storage g)) of
                            None \<Rightarrow> g
                          | Some r \<Rightarrow> g\<lparr>g_evicted := g_evicted g @ [evict_row r]\<rparr>)
                    else g);
               s = rotate_up (g_storage g) 1
           in g\<lparr>g_storage := recycle s (st_len s - 1) template\<rparr>)
      in if 0 < g_display_offset g
         then g\<lparr>g_display_offset := min (g_display_offset g + 1) (st_len (g_storage g) - g_rows g)\<rparr>
         else g)"

definition scroll_screen_up :: "grid \<Rightarrow> nat \<Rightarrow> cell \<Rightarrow> grid" where
  "scroll_screen_up g n template = (scroll_one template ^^ n) g"

text \<open>The bodies of the loops of \<open>scroll_region_up\<close> and \<open>scroll_down\<close>, at one row.\<close>

definition region_up_row :: "nat \<Rightarrow> nat \<Rightarrow> nat \<Rightarrow> cell \<Rightarrow> nat \<Rightarrow> storage \<Rightarrow> storage" where
  "region_up_row base n bottom template row s =
     (if row + n \<le> bottom
      then st_set_row s (base + row)
             ((st_row s (base + row))\<lparr>row_cells := row_cells (st_row s (base + (row + n)))\<rparr>)
      else st_set_row s (base + row)
             (row_reset (st_row s (base + row)) template (row_id (st_row s (base + row)))))"

definition scroll_region_up :: "grid \<Rightarrow> nat \<Rightarrow> cell \<Rightarrow> grid" where
  "scroll_region_up g n template =
     (let base = active_base g; tp = sr_top (g_region g); bottom = sr_bottom (g_region g)
      in g\<lparr>g_storage := fold (region_up_row base n bottom template) [tp..<Suc bottom] (g_storage g)\<rparr>)"

definition scroll_up :: "grid \<Rightarrow> nat \<Rightarrow> cell \<Rightarrow> grid" where
  "scroll_up g n template =
     (if n = 0 then g
      else
        let n = min n (sr_bottom (g_region g) - sr_top (g_region g) + 1);
            full_screen = (sr_top (g_region g) = 0 \<and> sr_bottom (g_region g) = g_rows g - 1)
        in if g_restated g \<and> g_restatement_open g \<and> full_screen
           then g\<lparr>g_storage :=
             remove_range (resize_rows (g_storage g) (st_len (g_storage g) + n) (g_cols g) template)
               (g_scrollback_len g) n\<rparr>
           else
             let g = cancel_restate_debt g
             in if full_screen then scroll_screen_up g n template else scroll_region_up g n template)"

definition region_down_row :: "nat \<Rightarrow> nat \<Rightarrow> nat \<Rightarrow> cell \<Rightarrow> nat \<Rightarrow> storage \<Rightarrow> storage" where
  "region_down_row base n tp template row s =
     (if tp + n \<le> row
      then st_set_row s (base + row)
             ((st_row s (base + row))\<lparr>row_cells := row_cells (st_row s (base + row - n))\<rparr>)
      else st_set_row s (base + row)
             (row_reset (st_row s (base + row)) template (row_id (st_row s (base + row)))))"

definition scroll_down :: "grid \<Rightarrow> nat \<Rightarrow> cell \<Rightarrow> grid" where
  "scroll_down g n template =
     (if n = 0 then g
      else
        let g = cancel_restate_debt g;
            tp = sr_top (g_region g); bottom = sr_bottom (g_region g);
            n = min n (bottom - tp + 1); base = active_base g
        in g\<lparr>g_storage := fold (region_down_row base n tp template) (rev [tp..<Suc bottom]) (g_storage g)\<rparr>)"

definition scroll_display :: "grid \<Rightarrow> int \<Rightarrow> grid" where
  "scroll_display g delta =
     g\<lparr>g_display_offset :=
       nat (max 0 (min (int (g_display_offset g) + delta) (int (g_scrollback_len g))))\<rparr>"

definition scroll_to_bottom :: "grid \<Rightarrow> grid" where
  "scroll_to_bottom g = g\<lparr>g_display_offset := 0\<rparr>"

definition scroll_to_line :: "grid \<Rightarrow> line_id \<Rightarrow> grid \<times> bool" where
  "scroll_to_line g line =
     (case find_first (\<lambda>i. row_id (st_row (g_storage g) i) = line) [0..<st_len (g_storage g)] of
        None \<Rightarrow> (g, False)
      | Some index \<Rightarrow>
          let want = st_len (g_storage g) - g_rows g - index
          in (g\<lparr>g_display_offset := min want (g_scrollback_len g)\<rparr>, True))"

end
