(* ===== verification/GridInv.thy ===== *)
theory GridInv
  imports Grid
begin

text \<open>
  Well-formedness of the grid and what scrolling and the history operations do to its rows,
  proved over the contract of the row store.
\<close>

section \<open>Well-formedness\<close>

abbreviation grid_lines :: "grid \<Rightarrow> row list" where
  "grid_lines g \<equiv> st_iter (g_storage g)"

text \<open>The rows above the live screen, and the live screen.\<close>

definition scrollback :: "grid \<Rightarrow> row list" where
  "scrollback g = take (g_scrollback_len g) (grid_lines g)"

definition screen :: "grid \<Rightarrow> row list" where
  "screen g = drop (g_scrollback_len g) (grid_lines g)"

definition grid_shape :: "grid \<Rightarrow> bool" where
  "grid_shape g \<longleftrightarrow>
     ring_ok (g_storage g) \<and> 0 < g_cols g \<and> 0 < g_rows g \<and>
     length (grid_lines g) = g_scrollback_len g + g_rows g \<and>
     (\<forall>r \<in> set (grid_lines g). length (row_cells r) = g_cols g) \<and>
     g_scrollback_len g + g_settled_pull g \<le> g_scrollback_limit g \<and>
     g_display_offset g \<le> g_scrollback_len g"

definition cursor_ok :: "grid \<Rightarrow> bool" where
  "cursor_ok g \<longleftrightarrow> cur_row (g_cursor g) < g_rows g \<and> cur_col (g_cursor g) < g_cols g"

definition region_ok :: "grid \<Rightarrow> bool" where
  "region_ok g \<longleftrightarrow> sr_top (g_region g) \<le> sr_bottom (g_region g) \<and> sr_bottom (g_region g) < g_rows g"

definition grid_wf :: "grid \<Rightarrow> bool" where
  "grid_wf g \<longleftrightarrow> grid_shape g \<and> cursor_ok g \<and> region_ok g"

definition grid_ids_ok :: "grid \<Rightarrow> bool" where
  "grid_ids_ok g \<longleftrightarrow> ids_ok (grid_lines g) (next_line_id g)"

lemma grid_shapeD:
  assumes "grid_shape g"
  shows "ring_ok (g_storage g)" "0 < g_cols g" "0 < g_rows g"
    "length (st_rows (g_storage g)) = g_scrollback_len g + g_rows g"
    "st_len (g_storage g) = g_scrollback_len g + g_rows g"
    "g_scrollback_len g \<le> g_scrollback_limit g"
    "g_scrollback_len g + g_settled_pull g \<le> g_scrollback_limit g"
    "g_display_offset g \<le> g_scrollback_len g"
    "active_base g = g_scrollback_len g"
    "viewport_base g = g_scrollback_len g - g_display_offset g"
  using assms by (auto simp: grid_shape_def st_len_def active_base_def viewport_base_def)

lemma grid_shape_row_len:
  "grid_shape g \<Longrightarrow> i < g_scrollback_len g + g_rows g \<Longrightarrow> length (row_cells (grid_lines g ! i)) = g_cols g"
  by (auto simp: grid_shape_def)

lemma grid_wfD:
  assumes "grid_wf g"
  shows "grid_shape g" "cursor_ok g" "region_ok g"
  using assms by (auto simp: grid_wf_def)

lemma active_row_eq:
  "grid_shape g \<Longrightarrow> i < g_rows g \<Longrightarrow> active_row g i = grid_lines g ! (g_scrollback_len g + i)"
  by (simp add: active_row_def grid_shapeD nth_st_iter)

lemma active_row_screen:
  "grid_shape g \<Longrightarrow> i < g_rows g \<Longrightarrow> active_row g i = screen g ! i"
  by (simp add: active_row_eq screen_def grid_shapeD)

lemma grid_row_eq:
  "grid_shape g \<Longrightarrow> i < g_rows g \<Longrightarrow>
     grid_row g i = grid_lines g ! (g_scrollback_len g - g_display_offset g + i)"
  using grid_shapeD(8) [of g] by (simp add: grid_row_def grid_shapeD nth_st_iter)

lemma active_row_length:
  "grid_shape g \<Longrightarrow> i < g_rows g \<Longrightarrow> length (row_cells (active_row g i)) = g_cols g"
  by (simp add: active_row_eq grid_shape_row_len)

lemma storage_new_iter: "st_iter (storage_new n c) = map (row_new c) [0..<n]"
  by (simp add: storage_new_def st_iter_origin0)

lemma grid_wf_new [wf_intros]: "grid_wf (grid_new cols rows limit)"
  by (auto simp: grid_wf_def grid_shape_def cursor_ok_def region_ok_def grid_new_def Let_def
      storage_new_iter region_full_def default_cursor_def)
    (auto simp: ring_ok_def storage_new_def)

lemma grid_ids_ok_new [wf_intros]: "grid_ids_ok (grid_new cols rows limit)"
proof -
  have "st_next_id (storage_new n c) = n" for n c by (simp add: storage_new_def)
  then show ?thesis
    by (auto simp: grid_ids_ok_def grid_new_def Let_def storage_new_iter ids_ok_def comp_def
        next_line_id_def)
qed

section \<open>One line of scrolling\<close>

lemma grow_eqs:
  assumes "ring_ok s"
  shows "ring_ok (resize_rows s (st_len s + k) cols t)"
    "st_iter (resize_rows s (st_len s + k) cols t) =
       st_iter s @ map (blank_row cols t) [st_next_id s..<st_next_id s + k]"
    "st_next_id (resize_rows s (st_len s + k) cols t) = st_next_id s + k"
  using ring.grow [OF assms, of "st_len s + k" cols t] by (simp_all add: st_len_def)

lemma scroll_one_grow:
  assumes "grid_shape g" "g_scrollback_len g < g_scrollback_limit g"
  shows "ring_ok (g_storage (scroll_one t g))"
    and "grid_lines (scroll_one t g) = grid_lines g @ [blank_row (g_cols g) t (next_line_id g)]"
    and "next_line_id (scroll_one t g) = Suc (next_line_id g)"
    and "g_scrollback_len (scroll_one t g) = Suc (g_scrollback_len g)"
    and "g_evicted (scroll_one t g) = g_evicted g"
    and "g_display_offset (scroll_one t g) = (if 0 < g_display_offset g then Suc (g_display_offset g) else 0)"
  using assms grow_eqs [OF grid_shapeD(1) [OF assms(1)], of 1 "g_cols g" t] grid_shapeD [OF assms(1)]
    length_st_iter [of "resize_rows (g_storage g) (st_len (g_storage g) + 1) (g_cols g) t"]
  by (auto simp: scroll_one_def Let_def next_line_id_def st_len_def min_def)

lemma scroll_one_full:
  assumes "grid_shape g" "\<not> g_scrollback_len g < g_scrollback_limit g"
  shows "ring_ok (g_storage (scroll_one t g))"
    and "grid_lines (scroll_one t g) = tl (grid_lines g) @ [blank_row (g_cols g) t (next_line_id g)]"
    and "next_line_id (scroll_one t g) = Suc (next_line_id g)"
    and "g_scrollback_len (scroll_one t g) = g_scrollback_len g"
    and "g_evicted (scroll_one t g) =
      (if g_capture_evicted g then g_evicted g @ [evict_row (hd (grid_lines g))] else g_evicted g)"
    and "g_display_offset (scroll_one t g) =
      (if 0 < g_display_offset g then min (Suc (g_display_offset g)) (g_scrollback_len g) else 0)"
proof -
  let ?s = "rotate_up (g_storage g) 1"
  let ?r = "recycle ?s (st_len ?s - 1) t"
  have ok: "ring_ok (g_storage g)" using assms(1) by (rule grid_shapeD)
  have ne: "grid_lines g \<noteq> []" using ring.nonempty [OF ok] .
  have hd: "length (row_cells (hd (grid_lines g))) = g_cols g"
    using assms(1) ne by (auto simp: grid_shape_def)
  have r: "ring_ok ?r" "st_iter ?r = tl (grid_lines g) @ [blank_row (g_cols g) t (next_line_id g)]"
      "st_next_id ?r = Suc (next_line_id g)"
    using ring.scroll_recycled [OF ok, of t] by (simp_all add: hd st_len_def next_line_id_def)
  have first: "first_of (grid_lines g) = Some (hd (grid_lines g))"
    using ne by (cases "grid_lines g") (auto simp: first_of_def)
  have len: "length (st_rows ?r) = g_scrollback_len g + g_rows g"
    using arg_cong [OF r(2), of length] ne assms(1)
    by (simp add: grid_shapeD)
  show "ring_ok (g_storage (scroll_one t g))"
    "grid_lines (scroll_one t g) = tl (grid_lines g) @ [blank_row (g_cols g) t (next_line_id g)]"
    "next_line_id (scroll_one t g) = Suc (next_line_id g)"
    "g_scrollback_len (scroll_one t g) = g_scrollback_len g"
    "g_evicted (scroll_one t g) =
      (if g_capture_evicted g then g_evicted g @ [evict_row (hd (grid_lines g))] else g_evicted g)"
    "g_display_offset (scroll_one t g) =
      (if 0 < g_display_offset g then min (Suc (g_display_offset g)) (g_scrollback_len g) else 0)"
    using assms(2) r first len
    by (simp_all add: scroll_one_def Let_def next_line_id_def st_len_def)
qed

lemma scroll_one_frame [frame_simps]:
  "g_cols (scroll_one t g) = g_cols g" "g_rows (scroll_one t g) = g_rows g"
  "g_scrollback_limit (scroll_one t g) = g_scrollback_limit g"
  "g_capture_evicted (scroll_one t g) = g_capture_evicted g"
  "g_cursor (scroll_one t g) = g_cursor g" "g_region (scroll_one t g) = g_region g"
  "g_settled_pull (scroll_one t g) = g_settled_pull g"
  "g_restate_debt (scroll_one t g) = g_restate_debt g"
  "g_pending_restate (scroll_one t g) = g_pending_restate g"
  "g_history_clears (scroll_one t g) = g_history_clears g"
  "g_restated (scroll_one t g) = g_restated g"
  "g_restatement_open (scroll_one t g) = g_restatement_open g"
  by (simp_all add: scroll_one_def Let_def split: option.splits)

lemma grid_shape_scroll_one:
  assumes "grid_shape g" "g_settled_pull g = 0"
  shows "grid_shape (scroll_one t g)"
proof (cases "g_scrollback_len g < g_scrollback_limit g")
  case True
  note e = scroll_one_grow [OF assms(1) True, of t]
  show ?thesis using assms True e
    by (auto simp: grid_shape_def frame_simps simp del: length_st_iter)
next
  case False
  note e = scroll_one_full [OF assms(1) False, of t]
  have "grid_lines g \<noteq> []" using ring.nonempty [OF grid_shapeD(1) [OF assms(1)]] .
  then have "set (tl (grid_lines g)) \<subseteq> set (grid_lines g)" "Suc (length (tl (grid_lines g))) = length (grid_lines g)"
    by (cases "grid_lines g"; auto)+
  then show ?thesis using assms False e
    by (auto simp: grid_shape_def frame_simps simp del: length_st_iter length_tl)
qed

lemma grid_ids_ok_scroll_one:
  assumes "grid_shape g" "grid_ids_ok g"
  shows "grid_ids_ok (scroll_one t g)"
proof -
  have "ids_ok (rows @ [blank_row c t n]) (Suc n)" if "ids_ok rows n" for rows c n
    using ids_ok_mint [OF that, of "Suc n" c t] by simp
  moreover have "ids_ok (tl (grid_lines g)) (next_line_id g)"
    using ids_ok_drop [of "grid_lines g" "next_line_id g" "next_line_id g" 1] assms(2)
    by (simp add: grid_ids_ok_def drop_Suc)
  ultimately show ?thesis using assms
      scroll_one_grow(2,3) [OF assms(1), of t] scroll_one_full(2,3) [OF assms(1), of t]
    by (cases "g_scrollback_len g < g_scrollback_limit g") (simp_all add: grid_ids_ok_def)
qed

section \<open>Scrolling the whole screen\<close>

text \<open>
  The fresh rows a scroll exposes, and how many rows it pushes out of the ring: those the
  scrollback has no room for.
\<close>

definition fresh_rows :: "grid \<Rightarrow> nat \<Rightarrow> cell \<Rightarrow> row list" where
  "fresh_rows g n t = map (blank_row (g_cols g) t) [next_line_id g..<next_line_id g + n]"

definition overflow :: "grid \<Rightarrow> nat \<Rightarrow> nat" where
  "overflow g n = n - (g_scrollback_limit g - g_scrollback_len g)"

lemma fresh_rows_0 [simp]: "fresh_rows g 0 t = []"
  by (simp add: fresh_rows_def)

lemma length_fresh_rows [simp]: "length (fresh_rows g n t) = n"
  by (simp add: fresh_rows_def)

lemma fresh_rows_Suc:
  "fresh_rows g (Suc n) t = fresh_rows g n t @ [blank_row (g_cols g) t (next_line_id g + n)]"
  by (simp add: fresh_rows_def)

lemma scroll_screen_up_Suc:
  "scroll_screen_up g (Suc n) t = scroll_one t (scroll_screen_up g n t)"
  by (simp add: scroll_screen_up_def)

lemma scroll_screen_up_frame [frame_simps]:
  "g_cols (scroll_screen_up g n t) = g_cols g" "g_rows (scroll_screen_up g n t) = g_rows g"
  "g_scrollback_limit (scroll_screen_up g n t) = g_scrollback_limit g"
  "g_capture_evicted (scroll_screen_up g n t) = g_capture_evicted g"
  "g_cursor (scroll_screen_up g n t) = g_cursor g" "g_region (scroll_screen_up g n t) = g_region g"
  "g_settled_pull (scroll_screen_up g n t) = g_settled_pull g"
  "g_restate_debt (scroll_screen_up g n t) = g_restate_debt g"
  "g_pending_restate (scroll_screen_up g n t) = g_pending_restate g"
  "g_history_clears (scroll_screen_up g n t) = g_history_clears g"
  "g_restated (scroll_screen_up g n t) = g_restated g"
  "g_restatement_open (scroll_screen_up g n t) = g_restatement_open g"
  by (induction n) (simp_all add: scroll_screen_up_def frame_simps)

lemma scroll_screen_up_inv:
  assumes "grid_shape g" "g_settled_pull g = 0"
  shows "grid_shape (scroll_screen_up g n t)"
    and "grid_ids_ok g \<Longrightarrow> grid_ids_ok (scroll_screen_up g n t)"
proof (induction n)
  case (Suc n)
  { case 1
    show ?case using Suc.IH(1) assms(2)
      by (simp add: scroll_screen_up_Suc grid_shape_scroll_one frame_simps)
  next
    case 2
    then show ?case using Suc.IH
      by (simp add: scroll_screen_up_Suc grid_ids_ok_scroll_one)
  }
qed (simp_all add: scroll_screen_up_def assms)

lemma scroll_screen_up_rows:
  assumes "grid_shape g" "g_settled_pull g = 0"
  shows "grid_lines (scroll_screen_up g n t) = drop (overflow g n) (grid_lines g @ fresh_rows g n t) \<and>
    next_line_id (scroll_screen_up g n t) = next_line_id g + n \<and>
    g_scrollback_len (scroll_screen_up g n t) = min (g_scrollback_len g + n) (g_scrollback_limit g) \<and>
    g_evicted (scroll_screen_up g n t) = g_evicted g @
      (if g_capture_evicted g then map evict_row (take (overflow g n) (grid_lines g @ fresh_rows g n t)) else [])"
proof (induction n)
  case 0
  show ?case using grid_shapeD(6) [OF assms(1)] by (simp add: scroll_screen_up_def overflow_def)
next
  case (Suc n)
  let ?h = "scroll_screen_up g n t"
  define alls where "alls = grid_lines g @ fresh_rows g n t"
  have sh: "grid_shape ?h" using assms by (rule scroll_screen_up_inv)
  note f = scroll_screen_up_frame [of g n t]
  note ih = Suc.IH [folded alls_def]
  have lim: "g_scrollback_len g \<le> g_scrollback_limit g" using assms(1) by (rule grid_shapeD)
  have len: "length alls = g_scrollback_len g + g_rows g + n"
    by (simp add: alls_def grid_shapeD [OF assms(1)])
  have rows: "0 < g_rows g" using assms(1) by (rule grid_shapeD)
  show ?case
  proof (cases "g_scrollback_len ?h < g_scrollback_limit ?h")
    case True
    then have "n < g_scrollback_limit g - g_scrollback_len g" using Suc.IH f by linarith
    then have o: "overflow g n = 0" "overflow g (Suc n) = 0" by (simp_all add: overflow_def)
    note e = scroll_one_grow [OF sh True, of t]
    show ?thesis using e ih o f True by (simp add: scroll_screen_up_Suc fresh_rows_Suc alls_def)
  next
    case False
    then have n: "g_scrollback_limit g - g_scrollback_len g \<le> n" using ih f by linarith
    then have o: "overflow g (Suc n) = Suc (overflow g n)" by (simp add: overflow_def)
    have lt: "overflow g n < length alls" using len rows by (simp add: overflow_def)
    note e = scroll_one_full [OF sh False, of t]
    have hd: "hd (drop (overflow g n) alls) = alls ! overflow g n" using lt by (rule hd_drop_conv_nth)
    have tl: "tl (drop (overflow g n) alls) = drop (Suc (overflow g n)) alls" by (simp add: drop_Suc tl_drop)
    have d: "drop (Suc (overflow g n)) (alls @ [x]) = drop (Suc (overflow g n)) alls @ [x]" for x
      using lt by simp
    have k: "take (Suc (overflow g n)) (alls @ [x]) = take (overflow g n) alls @ [alls ! overflow g n]" for x
      using lt by (simp add: take_Suc_conv_app_nth)
    have all: "grid_lines g @ fresh_rows g (Suc n) t = alls @ [blank_row (g_cols g) t (next_line_id g + n)]"
      by (simp add: fresh_rows_Suc alls_def)
    show ?thesis unfolding all o d k scroll_screen_up_Suc
      using e ih f n lim by (simp add: hd tl del: drop_append take_append)
  qed
qed

text \<open>
  A reader scrolled back keeps the same rows on screen while the program prints, as long as the
  offset can still grow.
\<close>

lemma scroll_one_holds_reader:
  assumes "grid_shape g" "0 < g_display_offset g" "g_settled_pull g = 0"
    and "g_display_offset g < g_scrollback_len (scroll_one t g)" "i < g_rows g"
  shows "grid_row (scroll_one t g) i = grid_row g i \<and>
    g_display_offset (scroll_one t g) = Suc (g_display_offset g)"
proof -
  let ?h = "scroll_one t g" and ?b = "g_scrollback_len g - g_display_offset g"
  have sh: "grid_shape ?h" using assms(1,3) by (rule grid_shape_scroll_one)
  have off: "g_display_offset g \<le> g_scrollback_len g" using assms(1) by (rule grid_shapeD)
  have idx: "?b + i < length (grid_lines g)" using assms(2,5) off by (simp add: grid_shapeD [OF assms(1)])
  show ?thesis
  proof (cases "g_scrollback_len g < g_scrollback_limit g")
    case True
    note e = scroll_one_grow [OF assms(1) True, of t]
    have "grid_row ?h i = grid_lines ?h ! (?b + i)"
      using assms(5) e assms(2) by (simp add: grid_row_eq [OF sh] frame_simps)
    then show ?thesis using e idx assms(2,5)
      by (simp add: grid_row_eq [OF assms(1)] nth_append del: length_st_iter)
  next
    case False
    note e = scroll_one_full [OF assms(1) False, of t]
    have lt: "g_display_offset g < g_scrollback_len g" using assms(4) e by simp
    have d: "g_display_offset ?h = Suc (g_display_offset g)" using e lt assms(2) by simp
    have "grid_row ?h i = grid_lines ?h ! (?b - 1 + i)"
      using assms(5) e d by (simp add: grid_row_eq [OF sh] frame_simps)
    also have "\<dots> = tl (grid_lines g) ! (?b - 1 + i)"
      using idx lt by (simp add: e(2) nth_append del: length_st_iter)
    also have "\<dots> = grid_lines g ! Suc (?b - 1 + i)"
      using idx lt by (intro nth_tl) (simp del: length_st_iter)
    also have "Suc (?b - 1 + i) = ?b + i" using lt by simp
    finally show ?thesis using d assms(5) by (simp add: grid_row_eq [OF assms(1)])
  qed
qed

lemma scroll_screen_up_holds_reader:
  assumes "grid_shape g" "0 < g_display_offset g" "g_settled_pull g = 0"
    and "g_display_offset g + n \<le> min (g_scrollback_len g + n) (g_scrollback_limit g)"
  shows "(\<forall>i. i < g_rows g \<longrightarrow> grid_row (scroll_screen_up g n t) i = grid_row g i) \<and>
    g_display_offset (scroll_screen_up g n t) = g_display_offset g + n"
  using assms(4)
proof (induction n)
  case (Suc n)
  let ?h = "scroll_screen_up g n t"
  have ih: "(\<forall>i. i < g_rows g \<longrightarrow> grid_row ?h i = grid_row g i) \<and> g_display_offset ?h = g_display_offset g + n"
    using Suc.IH Suc.prems by simp
  have sh: "grid_shape ?h" using assms(1,3) by (rule scroll_screen_up_inv)
  have "g_scrollback_len (scroll_one t ?h) = min (g_scrollback_len g + Suc n) (g_scrollback_limit g)"
    using scroll_screen_up_rows [OF assms(1,3), of "Suc n" t] by (simp add: scroll_screen_up_Suc)
  then have "g_display_offset ?h < g_scrollback_len (scroll_one t ?h)" using ih Suc.prems by simp
  then have step: "grid_row (scroll_one t ?h) i = grid_row ?h i \<and>
      g_display_offset (scroll_one t ?h) = Suc (g_display_offset ?h)" if "i < g_rows g" for i
    using that assms(2,3) ih scroll_one_holds_reader [OF sh, of t i] by (simp add: frame_simps)
  then show ?case using ih grid_shapeD(3) [OF assms(1)] by (auto simp: scroll_screen_up_Suc)
qed (simp add: scroll_screen_up_def)

end
