(* ===== verification/GridScroll.thy ===== *)
theory GridScroll
  imports GridInv
begin

text \<open>
  Scrolling inside a region: what moves, what does not, and the preservation of
  well-formedness by \<open>scroll_up\<close> and \<open>scroll_down\<close> in all their branches.
\<close>

section \<open>The loops over the region\<close>

text \<open>Row \<open>k\<close> of the storage after the loop of \<open>scroll_region_up\<close>, and of \<open>scroll_down\<close>.\<close>

definition moved_row :: "row \<Rightarrow> row \<Rightarrow> row" where
  "moved_row dst src = dst\<lparr>row_cells := row_cells src\<rparr>"

definition cleared_row :: "cell \<Rightarrow> row \<Rightarrow> row" where
  "cleared_row t r = row_reset r t (row_id r)"

lemma moved_row_simps [simp]:
  "row_id (moved_row d s) = row_id d" "row_cells (moved_row d s) = row_cells s"
  "row_extras (moved_row d s) = row_extras d"
  "row_id (cleared_row t r) = row_id r" "length (row_cells (cleared_row t r)) = length (row_cells r)"
  by (simp_all add: moved_row_def cleared_row_def)

definition up_result :: "row list \<Rightarrow> nat \<Rightarrow> nat \<Rightarrow> nat \<Rightarrow> cell \<Rightarrow> nat \<Rightarrow> row" where
  "up_result L base n bottom t k =
     (if k - base + n \<le> bottom then moved_row (L ! k) (L ! (k + n)) else cleared_row t (L ! k))"

definition down_result :: "row list \<Rightarrow> nat \<Rightarrow> nat \<Rightarrow> nat \<Rightarrow> cell \<Rightarrow> nat \<Rightarrow> row" where
  "down_result L base n tp t k =
     (if tp + n \<le> k - base then moved_row (L ! k) (L ! (k - n)) else cleared_row t (L ! k))"

lemma region_up_step:
  assumes "ring_ok s" "base + bottom < length (st_iter s)" "row \<le> bottom"
  shows "ring_ok (region_up_row base n bottom t row s) \<and>
    st_next_id (region_up_row base n bottom t row s) = st_next_id s \<and>
    st_iter (region_up_row base n bottom t row s) =
      (st_iter s)[base + row := up_result (st_iter s) base n bottom t (base + row)]"
proof -
  have get: "st_row s (base + k) = st_iter s ! (base + k)" if "k \<le> bottom" for k
    using assms(1,2) that ring.get by simp
  have "base + row < length (st_iter s)" using assms by simp
  note put = ring.put [OF assms(1) this]
  show ?thesis using assms(3) put get
    by (simp add: region_up_row_def up_result_def moved_row_def cleared_row_def add.assoc)
qed

lemma region_down_step:
  assumes "ring_ok s" "base + row < length (st_iter s)"
  shows "ring_ok (region_down_row base n tp t row s) \<and>
    st_next_id (region_down_row base n tp t row s) = st_next_id s \<and>
    st_iter (region_down_row base n tp t row s) =
      (st_iter s)[base + row := down_result (st_iter s) base n tp t (base + row)]"
proof -
  have get: "st_row s k = st_iter s ! k" if "k \<le> base + row" for k
    using assms that ring.get by simp
  note put = ring.put [OF assms]
  show ?thesis using put get
    by (simp add: region_down_row_def down_result_def moved_row_def cleared_row_def)
qed

lemma fold_region_up:
  fixes t :: cell
  assumes "ring_ok s" "base + bottom < length (st_iter s)" "0 < n" "tp \<le> m" "m \<le> Suc bottom"
  defines "s' \<equiv> fold (region_up_row base n bottom t) [tp..<m] s"
  shows "ring_ok s' \<and> st_next_id s' = st_next_id s \<and> length (st_iter s') = length (st_iter s) \<and>
    (\<forall>k < length (st_iter s). st_iter s' ! k =
      (if base + tp \<le> k \<and> k < base + m then up_result (st_iter s) base n bottom t k else st_iter s ! k))"
  unfolding s'_def using assms(4,5)
proof (induction m rule: dec_induct)
  case base
  then show ?case using assms(1) by (auto simp del: length_st_iter)
next
  case (step m)
  let ?s = "fold (region_up_row base n bottom t) [tp..<m] s"
  have m: "m \<le> bottom" using step by simp
  note ih = step.IH [OF less_imp_le [OF le_imp_less_Suc [OF m]]]
  then have ok: "ring_ok ?s" and len: "length (st_iter ?s) = length (st_iter s)" by blast+
  have bnd: "base + bottom < length (st_iter ?s)" using len assms(2) by simp
  note st = region_up_step [OF ok bnd m, of n t]
  have eq: "up_result (st_iter ?s) base n bottom t (base + m) = up_result (st_iter s) base n bottom t (base + m)"
    using ih assms(2,3) m by (auto simp: up_result_def simp del: length_st_iter)
  show ?case using step.hyps st ih len eq
    by (auto simp: nth_list_update less_Suc_eq simp del: length_st_iter)
qed

lemma fold_region_down:
  fixes t :: cell
  assumes "ring_ok s" "base + bottom < length (st_iter s)" "0 < n" "m \<le> Suc bottom" "tp \<le> m"
  defines "s' \<equiv> fold (region_down_row base n tp t) (rev [m..<Suc bottom]) s"
  shows "ring_ok s' \<and> st_next_id s' = st_next_id s \<and> length (st_iter s') = length (st_iter s) \<and>
    (\<forall>k < length (st_iter s). st_iter s' ! k =
      (if base + m \<le> k \<and> k < base + Suc bottom then down_result (st_iter s) base n tp t k else st_iter s ! k))"
  unfolding s'_def using assms(4,5)
proof (induction m rule: inc_induct)
  case base
  then show ?case using assms(1) by (auto simp del: length_st_iter)
next
  case (step m)
  let ?s = "fold (region_down_row base n tp t) (rev [Suc m..<Suc bottom]) s"
  have ih: "ring_ok ?s \<and> st_next_id ?s = st_next_id s \<and> length (st_iter ?s) = length (st_iter s) \<and>
    (\<forall>k < length (st_iter s). st_iter ?s ! k =
      (if base + Suc m \<le> k \<and> k < base + Suc bottom then down_result (st_iter s) base n tp t k else st_iter s ! k))"
    using step.IH step.prems by (simp del: length_st_iter upt_Suc)
  then have ok: "ring_ok ?s" and len: "length (st_iter ?s) = length (st_iter s)" by blast+
  have bnd: "base + m < length (st_iter ?s)" using len assms(2) step.hyps by simp
  note st = region_down_step [OF ok bnd, of n tp t]
  have upt: "rev [m..<Suc bottom] = rev [Suc m..<Suc bottom] @ [m]"
    using step.hyps by (simp add: upt_conv_Cons del: upt_Suc)
  have "base + m - n < base + Suc m" by simp
  then have eq: "down_result (st_iter ?s) base n tp t (base + m) = down_result (st_iter s) base n tp t (base + m)"
    using ih assms(2,3) step.hyps by (auto simp: down_result_def simp del: length_st_iter upt_Suc)
  show ?case unfolding upt fold_append using step.hyps st ih len eq
    by (auto simp: nth_list_update simp del: length_st_iter upt_Suc)
qed

section \<open>The region operations on the grid\<close>

lemma scroll_region_up_rows:
  assumes "grid_wf g" "0 < n"
  shows "ring_ok (g_storage (scroll_region_up g n t)) \<and>
    next_line_id (scroll_region_up g n t) = next_line_id g \<and>
    length (grid_lines (scroll_region_up g n t)) = length (grid_lines g) \<and>
    (\<forall>k < length (grid_lines g). grid_lines (scroll_region_up g n t) ! k =
      (if g_scrollback_len g + sr_top (g_region g) \<le> k \<and> k \<le> g_scrollback_len g + sr_bottom (g_region g)
       then up_result (grid_lines g) (g_scrollback_len g) n (sr_bottom (g_region g)) t k
       else grid_lines g ! k))"
proof -
  have sh: "grid_shape g" and rg: "region_ok g" using assms(1) by (auto dest: grid_wfD)
  have "g_scrollback_len g + sr_bottom (g_region g) < length (grid_lines g)"
    using rg by (simp add: region_ok_def grid_shapeD [OF sh])
  from fold_region_up [OF grid_shapeD(1) [OF sh] this assms(2), of "sr_top (g_region g)" "Suc (sr_bottom (g_region g))" t]
  show ?thesis using rg
    by (simp add: scroll_region_up_def Let_def grid_shapeD [OF sh] region_ok_def next_line_id_def
        less_Suc_eq_le del: upt_Suc length_st_iter)
qed

lemma scroll_down_rows:
  assumes "grid_wf g" "0 < n" "n \<le> sr_bottom (g_region g) - sr_top (g_region g) + 1"
  shows "ring_ok (g_storage (scroll_down g n t)) \<and>
    next_line_id (scroll_down g n t) = next_line_id g \<and>
    length (grid_lines (scroll_down g n t)) = length (grid_lines g) \<and>
    (\<forall>k < length (grid_lines g). grid_lines (scroll_down g n t) ! k =
      (if g_scrollback_len g + sr_top (g_region g) \<le> k \<and> k \<le> g_scrollback_len g + sr_bottom (g_region g)
       then down_result (grid_lines g) (g_scrollback_len g) n (sr_top (g_region g)) t k
       else grid_lines g ! k))"
proof -
  have sh: "grid_shape g" and rg: "region_ok g" using assms(1) by (auto dest: grid_wfD)
  have "g_scrollback_len g + sr_bottom (g_region g) < length (grid_lines g)"
    using rg by (simp add: region_ok_def grid_shapeD [OF sh])
  from fold_region_down [OF grid_shapeD(1) [OF sh] this assms(2), of "sr_top (g_region g)" "sr_top (g_region g)" t]
  show ?thesis using rg assms(2,3) grid_shapeD(5,9) [OF sh]
    by (simp add: scroll_down_def Let_def cancel_restate_debt_def end_restatement_window_def
        region_ok_def next_line_id_def active_base_def
        less_Suc_eq_le min_absorb1 del: upt_Suc length_st_iter)
qed

section \<open>Well-formedness is kept\<close>

lemma grid_shape_by_rows:
  assumes "grid_shape g" "ring_ok (g_storage h)" "length (grid_lines h) = length (grid_lines g)"
    and "\<And>k. k < length (grid_lines g) \<Longrightarrow> length (row_cells (grid_lines h ! k)) = g_cols g"
    and "g_cols h = g_cols g" "g_rows h = g_rows g" "g_scrollback_len h = g_scrollback_len g"
    and "g_settled_pull h \<le> g_settled_pull g" "g_scrollback_limit h = g_scrollback_limit g"
    and "g_display_offset h = g_display_offset g"
  shows "grid_shape h"
  using assms by (auto simp: grid_shape_def in_set_conv_nth simp del: length_st_iter)

lemma ids_ok_by_rows:
  assumes "ids_ok L n" "length L' = length L" "\<And>k. k < length L \<Longrightarrow> row_id (L' ! k) = row_id (L ! k)"
  shows "ids_ok L' n"
proof -
  have "map row_id L' = map row_id L" by (rule nth_equalityI) (use assms(2,3) in auto)
  moreover have "row_id r < n" if "r \<in> set L'" for r
  proof -
    from that obtain k where "k < length L'" "r = L' ! k" by (auto simp: in_set_conv_nth)
    then have "row_id r \<in> row_id ` set L" using assms(2,3) by auto
    then show ?thesis using assms(1) by (auto simp: ids_ok_def)
  qed
  ultimately show ?thesis using assms(1) by (simp add: ids_ok_def)
qed

lemma result_row_len:
  assumes "grid_shape g" "region_ok g" "k < length (grid_lines g)"
    "k \<le> g_scrollback_len g + sr_bottom (g_region g)"
  shows "length (row_cells (up_result (grid_lines g) (g_scrollback_len g) n (sr_bottom (g_region g)) t k)) = g_cols g"
    and "length (row_cells (down_result (grid_lines g) (g_scrollback_len g) n tp t k)) = g_cols g"
proof -
  have len: "length (row_cells (grid_lines g ! j)) = g_cols g" if "j < length (grid_lines g)" for j
    using that assms(1) by (simp add: grid_shape_row_len grid_shapeD)
  have "k + n < length (grid_lines g)" if "k - g_scrollback_len g + n \<le> sr_bottom (g_region g)"
    using that assms(2) by (simp add: region_ok_def grid_shapeD [OF assms(1)]) linarith
  then show "length (row_cells (up_result (grid_lines g) (g_scrollback_len g) n (sr_bottom (g_region g)) t k)) = g_cols g"
    using len assms(3) by (auto simp: up_result_def)
  show "length (row_cells (down_result (grid_lines g) (g_scrollback_len g) n tp t k)) = g_cols g"
    using len assms(3) by (auto simp: down_result_def)
qed

lemma result_row_id [simp]:
  "row_id (up_result L b n m t k) = row_id (L ! k)" "row_id (down_result L b n m t k) = row_id (L ! k)"
  by (simp_all add: up_result_def down_result_def)

lemma scroll_region_up_frame [frame_simps]:
  "g_cols (scroll_region_up g n t) = g_cols g" "g_rows (scroll_region_up g n t) = g_rows g"
  "g_scrollback_len (scroll_region_up g n t) = g_scrollback_len g"
  "g_scrollback_limit (scroll_region_up g n t) = g_scrollback_limit g"
  "g_display_offset (scroll_region_up g n t) = g_display_offset g"
  "g_cursor (scroll_region_up g n t) = g_cursor g" "g_region (scroll_region_up g n t) = g_region g"
  "g_settled_pull (scroll_region_up g n t) = g_settled_pull g"
  "g_evicted (scroll_region_up g n t) = g_evicted g"
  "g_restated (scroll_region_up g n t) = g_restated g"
  "g_history_clears (scroll_region_up g n t) = g_history_clears g"
  by (simp_all add: scroll_region_up_def Let_def)

lemma scroll_region_up_wf:
  assumes "grid_wf g" "0 < n"
  shows "grid_wf (scroll_region_up g n t) \<and> (grid_ids_ok g \<longrightarrow> grid_ids_ok (scroll_region_up g n t))"
proof -
  note r = scroll_region_up_rows [OF assms, of t]
  have sh: "grid_shape g" and rg: "region_ok g" and cu: "cursor_ok g"
    using assms(1) by (auto dest: grid_wfD)
  have len: "length (row_cells (grid_lines (scroll_region_up g n t) ! k)) = g_cols g"
    if "k < length (grid_lines g)" for k
    using that r result_row_len(1) [OF sh rg that, of n t] grid_shape_row_len [OF sh, of k]
    by (simp add: grid_shapeD [OF sh])
  have "grid_shape (scroll_region_up g n t)"
    by (rule grid_shape_by_rows [OF sh]) (use r len in \<open>auto simp: frame_simps simp del: length_st_iter\<close>)
  moreover have "ids_ok (grid_lines (scroll_region_up g n t)) (next_line_id g)" if "grid_ids_ok g"
    by (rule ids_ok_by_rows [of "grid_lines g"]) (use that r in \<open>auto simp: grid_ids_ok_def\<close>)
  ultimately show ?thesis using r rg cu
    by (auto simp: grid_wf_def region_ok_def cursor_ok_def frame_simps grid_ids_ok_def)
qed

lemma cancel_restate_debt_frame [frame_simps]:
  "g_storage (cancel_restate_debt g) = g_storage g" "g_cols (cancel_restate_debt g) = g_cols g"
  "g_rows (cancel_restate_debt g) = g_rows g"
  "g_scrollback_len (cancel_restate_debt g) = g_scrollback_len g"
  "g_scrollback_limit (cancel_restate_debt g) = g_scrollback_limit g"
  "g_display_offset (cancel_restate_debt g) = g_display_offset g"
  "g_cursor (cancel_restate_debt g) = g_cursor g" "g_region (cancel_restate_debt g) = g_region g"
  "g_settled_pull (cancel_restate_debt g) = 0" "g_evicted (cancel_restate_debt g) = g_evicted g"
  "g_capture_evicted (cancel_restate_debt g) = g_capture_evicted g"
  "g_restated (cancel_restate_debt g) = g_restated g"
  "g_history_clears (cancel_restate_debt g) = g_history_clears g"
  "g_restate_debt (cancel_restate_debt g) = 0" "g_pending_restate (cancel_restate_debt g) = 0"
  by (simp_all add: cancel_restate_debt_def end_restatement_window_def)

lemma end_restatement_window_frame [frame_simps]:
  "g_storage (end_restatement_window g) = g_storage g" "g_cols (end_restatement_window g) = g_cols g"
  "g_rows (end_restatement_window g) = g_rows g"
  "g_scrollback_len (end_restatement_window g) = g_scrollback_len g"
  "g_scrollback_limit (end_restatement_window g) = g_scrollback_limit g"
  "g_display_offset (end_restatement_window g) = g_display_offset g"
  "g_cursor (end_restatement_window g) = g_cursor g" "g_region (end_restatement_window g) = g_region g"
  "g_settled_pull (end_restatement_window g) = g_settled_pull g"
  "g_restated (end_restatement_window g) = g_restated g"
  "g_restate_debt (end_restatement_window g) = g_restate_debt g"
  "g_pending_restate (end_restatement_window g) = g_pending_restate g"
  by (simp_all add: end_restatement_window_def)

lemma cancel_restate_debt_wf [wf_intros]: "grid_wf g \<Longrightarrow> grid_wf (cancel_restate_debt g)"
  by (auto simp: grid_wf_def grid_shape_def cursor_ok_def region_ok_def frame_simps)

lemma end_restatement_window_wf [wf_intros]: "grid_wf g \<Longrightarrow> grid_wf (end_restatement_window g)"
  by (auto simp: grid_wf_def grid_shape_def cursor_ok_def region_ok_def frame_simps)

lemma frame_ids_ok [simp]:
  "grid_ids_ok (cancel_restate_debt g) = grid_ids_ok g"
  "grid_ids_ok (end_restatement_window g) = grid_ids_ok g"
  by (simp_all add: grid_ids_ok_def next_line_id_def frame_simps)

text \<open>The overflow of a repaint: \<open>n\<close> blanks in at the bottom, the top \<open>n\<close> rows of the screen out.\<close>

lemma scroll_up_restatement:
  assumes "grid_shape g" "g_restated g" "g_restatement_open g"
    and "sr_top (g_region g) = 0" "sr_bottom (g_region g) = g_rows g - 1" "0 < n"
  shows "scroll_up g n t = g\<lparr>g_storage := g_storage (scroll_up g n t)\<rparr> \<and>
    ring_ok (g_storage (scroll_up g n t)) \<and>
    scrollback (scroll_up g n t) = scrollback g \<and>
    screen (scroll_up g n t) = drop (min n (g_rows g)) (screen g) @ fresh_rows g (min n (g_rows g)) t \<and>
    next_line_id (scroll_up g n t) = next_line_id g + min n (g_rows g)"
proof -
  let ?n = "min n (g_rows g)" and ?s = "g_storage g"
  note d = grid_shapeD [OF assms(1)]
  have ok: "ring_ok ?s" by (rule d)
  let ?s1 = "resize_rows ?s (st_len ?s + ?n) (g_cols g) t"
  have eq: "scroll_up g n t = g\<lparr>g_storage := remove_range ?s1 (g_scrollback_len g) ?n\<rparr>"
    using assms d(3) by (simp add: scroll_up_def Let_def)
  note gr = grow_eqs [OF ok, of ?n "g_cols g" t]
  have it: "st_iter ?s1 = grid_lines g @ fresh_rows g ?n t"
    by (simp add: gr(2) fresh_rows_def next_line_id_def)
  have len: "length (st_iter ?s1) = g_scrollback_len g + g_rows g + ?n"
    unfolding it by (simp add: d)
  have "g_scrollback_len g + ?n \<le> length (st_iter ?s1)" "?n < length (st_iter ?s1)"
    using len d(3) by simp_all
  note c = ring.cut [OF gr(1) this]
  have "length (grid_lines g) = g_scrollback_len g + g_rows g" by (simp add: d)
  then have "take (g_scrollback_len g) (st_iter ?s1) = scrollback g"
    "drop (g_scrollback_len g + ?n) (st_iter ?s1) = drop ?n (screen g) @ fresh_rows g ?n t"
    by (simp_all add: it scrollback_def screen_def add.commute)
  moreover have "length (scrollback g) = g_scrollback_len g" by (simp add: scrollback_def d)
  ultimately show ?thesis using c gr(3) unfolding eq
    by (simp add: scrollback_def [of "g\<lparr>g_storage := _\<rparr>"] screen_def [of "g\<lparr>g_storage := _\<rparr>"]
        next_line_id_def)
qed

lemma lines_split: "grid_lines g = scrollback g @ screen g"
  by (simp add: scrollback_def screen_def)

text \<open>Replacing the store by one of the same length and width keeps the grid well formed.\<close>

lemma grid_wf_store:
  assumes "grid_wf g" "ring_ok s" "length (st_iter s) = length (grid_lines g)"
    and "\<forall>r \<in> set (st_iter s). length (row_cells r) = g_cols g"
  shows "grid_wf (g\<lparr>g_storage := s\<rparr>)"
  using assms
  by (simp add: grid_wf_def grid_shape_def cursor_ok_def region_ok_def del: length_st_iter)

lemma scroll_up_restated_wf:
  assumes "grid_wf g" "g_restated g" "g_restatement_open g" "0 < n"
    and "sr_top (g_region g) = 0" "sr_bottom (g_region g) = g_rows g - 1"
  shows "grid_wf (scroll_up g n t) \<and> (grid_ids_ok g \<longrightarrow> grid_ids_ok (scroll_up g n t))"
proof -
  let ?h = "scroll_up g n t" and ?k = "min n (g_rows g)"
  have sh: "grid_shape g" using assms(1) by (rule grid_wfD)
  note r = scroll_up_restatement [OF sh assms(2,3,5,6,4), of t]
  have lines: "grid_lines ?h = scrollback g @ drop ?k (screen g) @ fresh_rows g ?k t"
    using r lines_split [of ?h] by simp
  have len: "length (grid_lines ?h) = length (grid_lines g)"
    by (simp only: lines) (simp add: scrollback_def screen_def grid_shapeD [OF sh])
  have "length (row_cells x) = g_cols g" if "x \<in> set (grid_lines ?h)" for x
  proof -
    have "x \<in> set (grid_lines g) \<union> set (fresh_rows g ?k t)"
      using that unfolding lines by (auto simp: scrollback_def screen_def dest: in_set_dropD in_set_takeD)
    then show ?thesis using sh by (auto simp: grid_shape_def fresh_rows_def)
  qed
  then have "grid_wf (g\<lparr>g_storage := g_storage ?h\<rparr>)"
    using r len by (intro grid_wf_store [OF assms(1)]) auto
  moreover have "ids_ok (grid_lines ?h) (next_line_id ?h)" if ids: "grid_ids_ok g"
  proof -
    have "ids_ok (grid_lines g @ fresh_rows g ?k t) (next_line_id g + ?k)"
      using ids_ok_mint [of "grid_lines g" "next_line_id g" "next_line_id g + ?k"] ids
      by (simp add: grid_ids_ok_def fresh_rows_def)
    from ids_ok_cut [OF this, of "g_scrollback_len g" "g_scrollback_len g + ?k"] show ?thesis
      unfolding lines using r by (simp add: scrollback_def screen_def grid_shapeD [OF sh] add.commute)
  qed
  ultimately show ?thesis using r by (auto simp: grid_ids_ok_def)
qed

text \<open>The other two ways of \<open>scroll_up\<close>.\<close>

abbreviation full_region :: "grid \<Rightarrow> bool" where
  "full_region g \<equiv> sr_top (g_region g) = 0 \<and> sr_bottom (g_region g) = g_rows g - 1"

abbreviation region_height :: "grid \<Rightarrow> nat" where
  "region_height g \<equiv> sr_bottom (g_region g) - sr_top (g_region g) + 1"

lemma scroll_up_screen:
  "0 < n \<Longrightarrow> full_region g \<Longrightarrow> \<not> (g_restated g \<and> g_restatement_open g) \<Longrightarrow>
    scroll_up g n t = scroll_screen_up (cancel_restate_debt g) (min n (region_height g)) t"
  unfolding scroll_up_def Let_def by (auto simp: frame_simps simp del: One_nat_def)

lemma scroll_up_region:
  "0 < n \<Longrightarrow> \<not> full_region g \<Longrightarrow>
    scroll_up g n t = scroll_region_up (cancel_restate_debt g) (min n (region_height g)) t"
  unfolding scroll_up_def Let_def by (simp only: frame_simps) (simp del: One_nat_def)

lemma scroll_up_inv:
  assumes "grid_wf g"
  shows "grid_wf (scroll_up g n t) \<and> (grid_ids_ok g \<longrightarrow> grid_ids_ok (scroll_up g n t))"
proof (cases "n = 0")
  case False
  then have n: "0 < n" by simp
  let ?c = "cancel_restate_debt g" and ?n = "min n (sr_bottom (g_region g) - sr_top (g_region g) + 1)"
  have wf: "grid_wf ?c" using assms by (rule cancel_restate_debt_wf)
  consider "full_region g" "g_restated g" "g_restatement_open g"
    | "full_region g" "\<not> (g_restated g \<and> g_restatement_open g)" | "\<not> full_region g"
    by blast
  then show ?thesis
  proof cases
    case 1
    then show ?thesis using scroll_up_restated_wf [OF assms _ _ n] by simp
  next
    case 2
    have "grid_shape ?c" "g_settled_pull ?c = 0" using wf by (simp_all add: grid_wfD frame_simps)
    from scroll_screen_up_inv [OF this, of ?n t] show ?thesis
      using assms scroll_up_screen [OF n 2, of t]
      by (simp add: grid_wf_def region_ok_def cursor_ok_def frame_simps)
  next
    case 3
    have "0 < ?n" using n by simp
    from scroll_region_up_wf [OF wf this, of t] show ?thesis
      using scroll_up_region [OF n 3, of t] by simp
  qed
qed (use assms in \<open>simp add: scroll_up_def\<close>)

lemma scroll_up_frame [frame_simps]:
  "g_cols (scroll_up g n t) = g_cols g" "g_rows (scroll_up g n t) = g_rows g"
  "g_scrollback_limit (scroll_up g n t) = g_scrollback_limit g"
  "g_cursor (scroll_up g n t) = g_cursor g" "g_region (scroll_up g n t) = g_region g"
  "g_capture_evicted (scroll_up g n t) = g_capture_evicted g"
  "g_restated (scroll_up g n t) = g_restated g"
  by (simp_all add: scroll_up_def Let_def frame_simps cancel_restate_debt_def
      end_restatement_window_def scroll_region_up_def)

lemma scroll_down_inv:
  assumes "grid_wf g"
  shows "grid_wf (scroll_down g n t) \<and> (grid_ids_ok g \<longrightarrow> grid_ids_ok (scroll_down g n t))"
proof (cases "n = 0")
  case False
  let ?n = "min n (sr_bottom (g_region g) - sr_top (g_region g) + 1)"
  have eq: "scroll_down g n t = scroll_down g ?n t"
    using False by (simp add: scroll_down_def Let_def frame_simps)
  have sh: "grid_shape g" and rg: "region_ok g" using assms by (auto dest: grid_wfD)
  have "0 < ?n" "?n \<le> sr_bottom (g_region g) - sr_top (g_region g) + 1" using False by simp_all
  note r = scroll_down_rows [OF assms this, of t]
  let ?h = "scroll_down g ?n t"
  have h: "?h = (cancel_restate_debt g)\<lparr>g_storage := g_storage ?h\<rparr>"
    using False by (simp add: scroll_down_def Let_def)
  have len: "length (row_cells (grid_lines ?h ! k)) = g_cols g" if "k < length (grid_lines g)" for k
    using that r result_row_len(2) [OF sh rg that] grid_shape_row_len [OF sh, of k]
    by (simp add: grid_shapeD [OF sh])
  have "grid_wf ((cancel_restate_debt g)\<lparr>g_storage := g_storage ?h\<rparr>)"
    by (rule grid_wf_store [OF cancel_restate_debt_wf [OF assms]])
      (use r len in \<open>auto simp: frame_simps in_set_conv_nth simp del: length_st_iter\<close>)
  moreover have "ids_ok (grid_lines ?h) (next_line_id g)" if "grid_ids_ok g"
    by (rule ids_ok_by_rows [of "grid_lines g"]) (use that r in \<open>auto simp: grid_ids_ok_def\<close>)
  ultimately show ?thesis using r h eq by (auto simp: grid_ids_ok_def)
qed (use assms in \<open>simp add: scroll_down_def\<close>)

lemma scroll_down_frame [frame_simps]:
  "g_cols (scroll_down g n t) = g_cols g" "g_rows (scroll_down g n t) = g_rows g"
  "g_scrollback_limit (scroll_down g n t) = g_scrollback_limit g"
  "g_scrollback_len (scroll_down g n t) = g_scrollback_len g"
  "g_cursor (scroll_down g n t) = g_cursor g" "g_region (scroll_down g n t) = g_region g"
  "g_capture_evicted (scroll_down g n t) = g_capture_evicted g"
  "g_restated (scroll_down g n t) = g_restated g"
  by (simp_all add: scroll_down_def Let_def frame_simps cancel_restate_debt_def
      end_restatement_window_def)

lemmas scroll_wf [wf_intros] = scroll_up_inv [THEN conjunct1] scroll_down_inv [THEN conjunct1]

end
