(* ===== verification/Resize.thy ===== *)
theory Resize
  imports GridScroll
begin

text \<open>
  Resizing the grid (\<open>crates/zest-core/src/grid/mod.rs\<close>): the rewrap of every logical line to
  a new width (\<open>reflow\<close>), the change of height, and the repaint of a pty that restates its
  viewport after a resize (\<open>rebank_settled\<close>, \<open>settle_restate\<close> and the calls that open and
  close the window between them).
\<close>

section \<open>Rewrapping\<close>

type_synonym detached = "cell \<times> extra_entry option"

text \<open>How many cells of a row belong to its logical line.\<close>

definition line_end :: "row \<Rightarrow> nat" where
  "line_end r =
     (let e = (if row_wrapped r then row_len r else trimmed_len r)
      in if e < row_len r \<and> has_flag (row_cells r ! e) CF_WIDE_SPACER then e + 1 else e)"

definition line_cells :: "row \<Rightarrow> detached list" where
  "line_cells r = concat (map (\<lambda>col. case row_detach r col of None \<Rightarrow> [] | Some d \<Rightarrow> [d]) [0..<line_end r])"

text \<open>
  The inner loop: one logical line from the row at index \<open>i\<close> on, with its cells so far, the
  cursor's offset into it when the cursor is on it, and the map of line ids; it returns the rows
  that are left and the index of the first of them.
\<close>

fun collect_line ::
  "nat \<Rightarrow> nat \<Rightarrow> line_id \<Rightarrow> nat \<Rightarrow> row list \<Rightarrow> detached list \<Rightarrow> nat option \<Rightarrow> reindex \<Rightarrow>
   detached list \<times> nat option \<times> reindex \<times> nat \<times> row list" where
  "collect_line cabs ccol start i [] cells off m = (cells, off, m, i, [])"
| "collect_line cabs ccol start i (r # rs) cells off m =
     (let m = m @ [(row_id r, start)];
          off = (if i = cabs then Some (length cells + min ccol (row_len r)) else off);
          cells = cells @ line_cells r
      in if \<not> row_wrapped r \<or> rs = [] then (cells, off, m, i + 1, rs)
         else collect_line cabs ccol start (i + 1) rs cells off m)"

text \<open>The state of the loop that breaks a line again.\<close>

record rebreak =
  rb_out :: "row list"
  rb_row :: row
  rb_next :: line_id
  rb_col :: nat
  rb_target :: "(nat \<times> nat) option"

definition break_row :: "nat \<Rightarrow> rebreak \<Rightarrow> rebreak" where
  "break_row cols b =
     b\<lparr>rb_out := rb_out b @ [row_set_wrapped (rb_row b) True],
       rb_row := row_new cols (rb_next b + 1), rb_next := rb_next b + 1, rb_col := 0\<rparr>"

definition rebreak_cell :: "nat \<Rightarrow> nat option \<Rightarrow> nat \<Rightarrow> detached \<Rightarrow> rebreak \<Rightarrow> rebreak" where
  "rebreak_cell cols off index d b =
     (let b = (if has_flag (fst d) CF_WIDE \<and> cols \<le> rb_col b + 1 \<and> 1 < cols then break_row cols b else b);
          b = (if cols \<le> rb_col b then break_row cols b else b);
          b = (if off = Some index then b\<lparr>rb_target := Some (length (rb_out b), rb_col b)\<rparr> else b)
      in b\<lparr>rb_row := row_attach (rb_row b) (rb_col b) (fst d) (snd d), rb_col := rb_col b + 1\<rparr>)"

fun rebreak_cells :: "nat \<Rightarrow> nat option \<Rightarrow> nat \<Rightarrow> detached list \<Rightarrow> rebreak \<Rightarrow> rebreak" where
  "rebreak_cells cols off index [] b = b"
| "rebreak_cells cols off index (d # ds) b =
     rebreak_cells cols off (index + 1) ds (rebreak_cell cols off index d b)"

definition rebreak_line ::
  "nat \<Rightarrow> nat option \<Rightarrow> detached list \<Rightarrow> row list \<Rightarrow> line_id \<Rightarrow> (nat \<times> nat) option \<Rightarrow>
   row list \<times> line_id \<times> (nat \<times> nat) option" where
  "rebreak_line cols off cells out i target =
     (let b = rebreak_cells cols off 0 cells
                \<lparr>rb_out = out, rb_row = row_new cols i, rb_next = i, rb_col = 0, rb_target = target\<rparr>;
          b = (if off = Some (length cells)
               then b\<lparr>rb_target := Some (if cols \<le> rb_col b then (length (rb_out b) + 1, 0)
                                        else (length (rb_out b), rb_col b))\<rparr>
               else b)
      in (rb_out b @ [rb_row b], rb_next b + 1, rb_target b))"

text \<open>The outer loop over all rows.\<close>

record reflowed =
  rf_out :: "row list"
  rf_next :: line_id
  rf_target :: "(nat \<times> nat) option"
  rf_map :: reindex

lemma collect_line_shorter:
  "rs \<noteq> [] \<Longrightarrow> length (snd (snd (snd (snd (collect_line cabs ccol start i rs cells off m))))) < length rs"
proof (induction rs arbitrary: i cells off m)
  case (Cons r rs)
  then show ?case
    using Cons.IH [of "i + 1"] by (cases "rs = []") (auto simp: Let_def intro: less_SucI)
qed simp

function reflow_rows :: "nat \<Rightarrow> nat \<Rightarrow> nat \<Rightarrow> nat \<Rightarrow> row list \<Rightarrow> reflowed \<Rightarrow> reflowed" where
  "reflow_rows cols cabs ccol i rows f =
     (if rows = [] then f
      else
        case collect_line cabs ccol (rf_next f) i rows [] None (rf_map f) of
          (cells, off, m, i', rest) \<Rightarrow>
            (case rebreak_line cols off cells (rf_out f) (rf_next f) (rf_target f) of
               (out, nid, target) \<Rightarrow>
                 reflow_rows cols cabs ccol i' rest
                   \<lparr>rf_out = out, rf_next = nid, rf_target = target, rf_map = m\<rparr>))"
  by pat_completeness auto
termination
proof (relation "measure (\<lambda>(cols, cabs, ccol, i, rows, f). length rows)", goal_cases)
  case (2 cols cabs ccol i rows f x cells y off z m w rest)
  then have "snd (snd (snd (snd (collect_line cabs ccol (rf_next f) i rows [] None (rf_map f))))) = rest"
    by (metis snd_conv)
  then show ?case
    using collect_line_shorter [OF 2(1), of cabs ccol "rf_next f" i "[]" None "rf_map f"] by simp
qed simp

declare reflow_rows.simps [simp del]

definition storage_index_of_cursor :: "grid \<Rightarrow> nat \<Rightarrow> nat" where
  "storage_index_of_cursor g len = (len - g_rows g) + cur_row (g_cursor g)"

text \<open>The loop that pads the output up to the height of the viewport.\<close>

definition pad_rows :: "nat \<Rightarrow> nat \<Rightarrow> cell \<Rightarrow> line_id \<Rightarrow> row list" where
  "pad_rows k cols template i = map (\<lambda>j. row_reset (row_new cols j) template j) [i..<i + k]"

text \<open>
  The tail of \<open>reflow\<close>: the rows the scrollback has no room for are dropped, the rest become the
  grid's, the map forgets what was dropped and the cursor goes where its character went.
\<close>

definition place_rows ::
  "grid \<Rightarrow> storage \<Rightarrow> nat \<Rightarrow> row list \<Rightarrow> line_id \<Rightarrow> (nat \<times> nat) option \<Rightarrow> reindex \<Rightarrow> grid \<times> reindex" where
  "place_rows g s new_cols out next_id target m =
     (let rows = g_rows g;
          scrollback = length out - rows;
          (out, scrollback) =
            (if g_scrollback_limit g < scrollback
             then (drop (scrollback - g_scrollback_limit g) out, g_scrollback_limit g)
             else (out, scrollback));
          m = (case first_of out of None \<Rightarrow> m | Some r \<Rightarrow> filter (\<lambda>p. row_id r \<le> snd p) m);
          s = replace_all (set_next_id s next_id) out;
          cur = g_cursor g;
          cur = (case target of
                   Some (abs_row, abs_col) \<Rightarrow>
                     cur\<lparr>cur_row := min (abs_row - (st_len s - rows)) (rows - 1),
                         cur_col := min abs_col (new_cols - 1)\<rparr>
                 | None \<Rightarrow> cur\<lparr>cur_col := min (cur_col cur) (new_cols - 1)\<rparr>)
      in (g\<lparr>g_cols := new_cols, g_scrollback_len := scrollback, g_storage := s,
            g_cursor := cur\<lparr>cur_pending_wrap := False\<rparr>,
            g_display_offset := min (g_display_offset g) scrollback\<rparr>, m))"

definition reflow :: "grid \<Rightarrow> nat \<Rightarrow> cell \<Rightarrow> grid \<times> reindex" where
  "reflow g new_cols template =
     (case take_all (g_storage g) of (old_rows, s) \<Rightarrow>
        if old_rows = [] then (g\<lparr>g_storage := s\<rparr>, [])
        else
          let cabs = min (storage_index_of_cursor g (length old_rows)) (length old_rows - 1);
              first_id = row_id (old_rows ! 0);
              f = reflow_rows new_cols cabs (cur_col (g_cursor g)) 0 old_rows
                    \<lparr>rf_out = [], rf_next = first_id, rf_target = None, rf_map = []\<rparr>;
              pad = g_rows g - length (rf_out f);
              out = rf_out f @ pad_rows pad new_cols template (rf_next f)
          in place_rows g s new_cols out (rf_next f + pad) (rf_target f) (rf_map f))"

section \<open>Changing the size\<close>

definition resize_width :: "grid \<Rightarrow> nat \<Rightarrow> cell \<Rightarrow> grid \<times> reindex" where
  "resize_width g cols template =
     (if cols \<noteq> g_cols g then
        if g_scrollback_limit g = 0
        then (g\<lparr>g_storage := resize_cols (g_storage g) cols template, g_cols := cols\<rparr>, [])
        else (case reflow g cols template of (g, m) \<Rightarrow> (g\<lparr>g_cols := cols\<rparr>, m))
      else (g, []))"

text \<open>
  Shrinking: how many rows come off below the cursor (\<open>from_bottom\<close>), how many leave over the
  top (\<open>over_the_top\<close>), and the length of the scrollback after it.
\<close>

definition shrink_bottom :: "grid \<Rightarrow> nat \<Rightarrow> nat" where
  "shrink_bottom g rows = min (g_rows g - rows) (g_rows g - 1 - min (cur_row (g_cursor g)) (g_rows g - 1))"

definition shrink_top :: "grid \<Rightarrow> nat \<Rightarrow> nat" where
  "shrink_top g rows = g_rows g - rows - shrink_bottom g rows"

definition shrink_len :: "grid \<Rightarrow> nat \<Rightarrow> nat" where
  "shrink_len g rows = min (g_scrollback_len g + shrink_top g rows) (g_scrollback_limit g)"

definition shrink_rows :: "grid \<Rightarrow> nat \<Rightarrow> grid" where
  "shrink_rows g rows =
     (let s = truncate_bottom (g_storage g) (shrink_bottom g rows)
      in if 0 < shrink_top g rows then
           let banked = shrink_len g rows - g_scrollback_len g
           in g\<lparr>g_storage := s, g_scrollback_len := shrink_len g rows,
                g_cursor := (g_cursor g)\<lparr>cur_row := cur_row (g_cursor g) - shrink_top g rows\<rparr>,
                g_restate_debt := (if g_restated g then g_restate_debt g + banked else g_restate_debt g),
                g_settled_pull := g_settled_pull g - banked\<rparr>
         else g\<lparr>g_storage := s\<rparr>)"

definition grow_rows :: "grid \<Rightarrow> nat \<Rightarrow> grid" where
  "grow_rows g rows =
     (if g_restated g then
        let owed = min (rows - g_rows g) (g_restate_debt g)
        in g\<lparr>g_pending_restate := g_pending_restate g + owed,
             g_restate_debt := g_restate_debt g - owed\<rparr>
      else
        let from_scrollback = min (rows - g_rows g) (g_scrollback_len g)
        in g\<lparr>g_scrollback_len := g_scrollback_len g - from_scrollback,
             g_cursor := (g_cursor g)\<lparr>cur_row := cur_row (g_cursor g) + from_scrollback\<rparr>\<rparr>)"

text \<open>The common end of the branches: the storage gets its new length.\<close>

definition set_height :: "grid \<Rightarrow> nat \<Rightarrow> nat \<Rightarrow> cell \<Rightarrow> grid" where
  "set_height g cols rows template =
     g\<lparr>g_storage := resize_rows (g_storage g) (g_scrollback_len g + rows) cols template, g_rows := rows\<rparr>"

definition resize_height :: "grid \<Rightarrow> nat \<Rightarrow> nat \<Rightarrow> cell \<Rightarrow> grid" where
  "resize_height g cols rows template =
     (if rows = g_rows g then g
      else set_height (if rows < g_rows g then shrink_rows g rows else grow_rows g rows) cols rows template)"

text \<open>What a resize does first and last.\<close>

definition begin_resize :: "grid \<Rightarrow> nat \<Rightarrow> grid" where
  "begin_resize g cols =
     g\<lparr>g_restating := False, g_sitting_out := (g_restating g \<or> g_sitting_out g),
       g_settled_pull := (if cols \<noteq> g_cols g then 0 else g_settled_pull g)\<rparr>"

definition finish_resize :: "grid \<Rightarrow> grid" where
  "finish_resize g =
     g\<lparr>g_region := region_full (g_rows g),
       g_cursor := \<lparr>cur_row = min (cur_row (g_cursor g)) (g_rows g - 1),
                    cur_col = min (cur_col (g_cursor g)) (g_cols g - 1),
                    cur_pending_wrap = False\<rparr>,
       g_display_offset := min (g_display_offset g) (g_scrollback_len g)\<rparr>"

definition grid_resize :: "grid \<Rightarrow> nat \<Rightarrow> nat \<Rightarrow> cell \<Rightarrow> grid \<times> reindex" where
  "grid_resize g cols rows template =
     (let cols = max cols 1; rows = max rows 1
      in if cols = g_cols g \<and> rows = g_rows g then (g, [])
         else case resize_width (begin_resize g cols) cols template of
                (g, m) \<Rightarrow> (finish_resize (resize_height g cols rows template), m))"

section \<open>The repaint of a restating pty\<close>

definition rebank_settled :: "grid \<Rightarrow> cell \<Rightarrow> grid" where
  "rebank_settled g template =
     (let k = g_settled_pull g; g = g\<lparr>g_settled_pull := 0\<rparr>
      in if k = 0 then g
         else
           let len = g_scrollback_len g + k
           in g\<lparr>g_scrollback_len := len,
                g_storage := resize_rows (g_storage g) (len + g_rows g) (g_cols g) template,
                g_cursor := (g_cursor g)\<lparr>cur_row := cur_row (g_cursor g) - k\<rparr>,
                g_pending_restate := g_pending_restate g + k,
                g_display_offset := min (g_display_offset g + k) len\<rparr>)"

definition needs_strand :: "grid \<Rightarrow> bool" where
  "needs_strand g \<longleftrightarrow> 0 < g_settled_pull g \<and> \<not> g_restatement_open g"

definition strand_settled :: "grid \<Rightarrow> cell \<Rightarrow> grid \<times> bool" where
  "strand_settled g template =
     (let k = g_settled_pull g; g = g\<lparr>g_settled_pull := 0\<rparr>
      in if k = 0 then (g, False)
         else
           let len = g_scrollback_len g + k
           in (g\<lparr>g_restate_debt := 0, g_pending_restate := 0, g_scrollback_len := len,
                 g_storage := resize_rows (g_storage g) (len + g_rows g) (g_cols g) template,
                 g_cursor := (g_cursor g)\<lparr>cur_row := cur_row (g_cursor g) - k\<rparr>,
                 g_display_offset := (if 0 < g_display_offset g then min (g_display_offset g + k) len
                                      else g_display_offset g)\<rparr>, True))"

definition note_restatement_began :: "grid \<Rightarrow> nat \<Rightarrow> nat \<Rightarrow> cell \<Rightarrow> grid" where
  "note_restatement_began g cols rows template =
     (let g = rebank_settled (g\<lparr>g_restatement_open := True\<rparr>) template
      in if g_pending_restate g = 0 then g
         else if cols = g_cols g \<and> rows = g_rows g then
           (if \<not> g_restating g then g\<lparr>g_restating := True, g_restate_rows_seen := 0\<rparr> else g)
         else g\<lparr>g_sitting_out := True\<rparr>)"

definition note_cursor_homed_while_hidden :: "grid \<Rightarrow> cell \<Rightarrow> grid" where
  "note_cursor_homed_while_hidden g template =
     (let g = g\<lparr>g_restatement_open := True\<rparr>;
          g = (if \<not> g_sitting_out g \<and> \<not> g_restating g then rebank_settled g template else g)
      in if 0 < g_pending_restate g \<and> \<not> g_sitting_out g \<and> \<not> g_restating g
         then g\<lparr>g_restating := True, g_restate_rows_seen := 0\<rparr> else g)"

text \<open>How many rows at the bottom of the viewport are blank: a downward count.\<close>

definition blank_tail :: "grid \<Rightarrow> nat" where
  "blank_tail g =
     length (takeWhile (\<lambda>r. trimmed_len (st_row (g_storage g) (active_base g + r)) = 0) (rev [0..<g_rows g]))"

definition settle_move :: "grid \<Rightarrow> nat \<Rightarrow> nat \<Rightarrow> grid" where
  "settle_move g owed k =
     (let len = g_scrollback_len g - k
      in g\<lparr>g_restate_debt := g_restate_debt g + (owed - k),
           g_storage := truncate_bottom (g_storage g) k, g_scrollback_len := len,
           g_cursor := (g_cursor g)\<lparr>cur_row := cur_row (g_cursor g) + k\<rparr>,
           g_display_offset := min (g_display_offset g - k) len,
           g_settled_pull := k\<rparr>)"

definition settle_count :: "grid \<Rightarrow> nat \<Rightarrow> nat" where
  "settle_count g owed = min (min (min owed (blank_tail g))
     (g_rows g - 1 - min (cur_row (g_cursor g)) (g_rows g - 1))) (g_scrollback_len g)"

definition settle_restate :: "grid \<Rightarrow> grid \<times> bool" where
  "settle_restate g =
     (let covered = (g_rows g \<le> g_restate_rows_seen g);
          g = end_restatement_window g
      in if \<not> covered then (g, False)
         else
           let owed = g_pending_restate g;
               g = g\<lparr>g_pending_restate := 0\<rparr>;
               k = settle_count g owed
           in if k = 0 then (g\<lparr>g_restate_debt := g_restate_debt g + (owed - k)\<rparr>, False)
              else (settle_move g owed k, True))"

end
