(* ===== verification/Edit.thy ===== *)
theory Edit
  imports Resize
begin

text \<open>
  The editing operations of the grid (\<open>crates/zest-core/src/grid/mod.rs\<close>): erasing, inserting
  and deleting cells and lines, clearing, and the text of the screen.  Every one of them keeps
  the grid well formed and the ids of its rows in order.
\<close>

section \<open>Definitions\<close>

text \<open>The loop over the columns of a span, on one row.\<close>

definition erase_span :: "row \<Rightarrow> nat \<Rightarrow> nat \<Rightarrow> cell \<Rightarrow> row" where
  "erase_span r frm to blank =
     fold (\<lambda>col r. case row_get r col of None \<Rightarrow> r | Some _ \<Rightarrow> row_set_cell r col blank) [frm..<Suc to] r"

definition erase_in_row :: "grid \<Rightarrow> nat \<Rightarrow> nat \<Rightarrow> nat \<Rightarrow> cell \<Rightarrow> grid" where
  "erase_in_row g row frm to template =
     (let g = (if g_restated g then g\<lparr>g_restate_rows_seen := max (g_restate_rows_seen g) (row + 1)\<rparr> else g)
      in set_active_row g row
           (erase_span (active_row g row) frm (min to (g_cols g - 1)) (blank_with template)))"

definition erase_rows :: "grid \<Rightarrow> nat \<Rightarrow> nat \<Rightarrow> cell \<Rightarrow> grid" where
  "erase_rows g frm to template =
     fold (\<lambda>row g. erase_in_row g row 0 (g_cols g - 1) template) [frm..<Suc (min to (g_rows g - 1))] g"

text \<open>\<open>slice::rotate_right\<close> and \<open>slice::rotate_left\<close>.\<close>

definition rot_right :: "nat \<Rightarrow> 'a list \<Rightarrow> 'a list" where
  "rot_right n xs = drop (length xs - n) xs @ take (length xs - n) xs"

definition rot_left :: "nat \<Rightarrow> 'a list \<Rightarrow> 'a list" where
  "rot_left n xs = drop n xs @ take n xs"

definition insert_cells :: "grid \<Rightarrow> nat \<Rightarrow> cell \<Rightarrow> grid" where
  "insert_cells g n template =
     (let row = cur_row (g_cursor g); col = cur_col (g_cursor g); r = active_row g row;
          n = min n (g_cols g - col);
          cells = take col (row_cells r) @ rot_right n (drop col (row_cells r));
          cells = take col cells @ replicate n (blank_with template) @ drop (col + n) cells
      in set_active_row g row (r\<lparr>row_cells := cells\<rparr>))"

definition delete_cells :: "grid \<Rightarrow> nat \<Rightarrow> cell \<Rightarrow> grid" where
  "delete_cells g n template =
     (let row = cur_row (g_cursor g); col = cur_col (g_cursor g); r = active_row g row;
          n = min n (g_cols g - col);
          cells = take col (row_cells r) @ rot_left n (drop col (row_cells r));
          cells = take (g_cols g - n) cells @ replicate (length cells - (g_cols g - n)) (blank_with template)
      in set_active_row g row (r\<lparr>row_cells := cells\<rparr>))"

definition insert_lines :: "grid \<Rightarrow> nat \<Rightarrow> cell \<Rightarrow> grid" where
  "insert_lines g n template =
     (if \<not> region_contains (g_region g) (cur_row (g_cursor g)) then g
      else
        let saved = g_region g;
            g = g\<lparr>g_region := (g_region g)\<lparr>sr_top := cur_row (g_cursor g)\<rparr>\<rparr>;
            g = scroll_down g n template
        in g\<lparr>g_region := saved\<rparr>)"

definition delete_lines :: "grid \<Rightarrow> nat \<Rightarrow> cell \<Rightarrow> grid" where
  "delete_lines g n template =
     (if \<not> region_contains (g_region g) (cur_row (g_cursor g)) then g
      else
        let saved = g_region g;
            g = g\<lparr>g_region := (g_region g)\<lparr>sr_top := cur_row (g_cursor g)\<rparr>\<rparr>;
            g = scroll_up g n template
        in g\<lparr>g_region := saved\<rparr>)"

definition clear_all :: "grid \<Rightarrow> cell \<Rightarrow> grid" where
  "clear_all g template =
     (let g = fold (\<lambda>row g. erase_in_row g row 0 (g_cols g - 1) template) [0..<g_rows g] g
      in cancel_restate_debt (g\<lparr>g_cursor := default_cursor, g_region := region_full (g_rows g)\<rparr>))"

text \<open>The viewport as text, one line per row.\<close>

definition screen_text :: "grid \<Rightarrow> ustring" where
  "screen_text g =
     concat (map (\<lambda>row. row_text (grid_row g row) @ (if row + 1 < g_rows g then [10] else [])) [0..<g_rows g])"

definition grid_set_wrapped :: "grid \<Rightarrow> nat \<Rightarrow> bool \<Rightarrow> grid" where
  "grid_set_wrapped g row wrapped = set_active_row g row (row_set_wrapped (active_row g row) wrapped)"

end
