(* ===== verification/Selection.thy ===== *)
theory Selection
  imports Edit
begin

text \<open>
  Text selection over absolute line ids (\<open>crates/zest-core/src/selection.rs\<close>).
\<close>

section \<open>Positions\<close>

datatype abs_pos = AbsPos (ap_line: line_id) (ap_col: nat)

text \<open>The derived order of \<open>AbsPos\<close>: by line, then by column.\<close>

definition abs_pos_le :: "abs_pos \<Rightarrow> abs_pos \<Rightarrow> bool" where
  "abs_pos_le a b \<longleftrightarrow> ap_line a < ap_line b \<or> (ap_line a = ap_line b \<and> ap_col a \<le> ap_col b)"

instantiation abs_pos :: linorder
begin

definition less_eq_abs_pos :: "abs_pos \<Rightarrow> abs_pos \<Rightarrow> bool" where
  "a \<le> b \<longleftrightarrow> abs_pos_le a b"

definition less_abs_pos :: "abs_pos \<Rightarrow> abs_pos \<Rightarrow> bool" where
  "a < b \<longleftrightarrow> ap_line a < ap_line b \<or> (ap_line a = ap_line b \<and> ap_col a < ap_col b)"

instance
  by standard (auto simp: less_eq_abs_pos_def abs_pos_le_def less_abs_pos_def abs_pos.expand)

end

datatype selection_mode = Simple | Word | Line | Block

record selection =
  sel_anchor :: abs_pos
  sel_head :: abs_pos
  sel_mode :: selection_mode

definition selection_new :: "abs_pos \<Rightarrow> selection_mode \<Rightarrow> selection" where
  "selection_new at mode = \<lparr>sel_anchor = at, sel_head = at, sel_mode = mode\<rparr>"

definition selection_range :: "selection \<Rightarrow> abs_pos \<times> abs_pos" where
  "selection_range s =
     (if sel_anchor s \<le> sel_head s then (sel_anchor s, sel_head s) else (sel_head s, sel_anchor s))"

definition selection_is_empty :: "selection \<Rightarrow> bool" where
  "selection_is_empty s \<longleftrightarrow> sel_mode s = Simple \<and> sel_anchor s = sel_head s"

definition span_on :: "selection \<Rightarrow> line_id \<Rightarrow> nat \<Rightarrow> (nat \<times> nat) option" where
  "span_on s line cols =
     (case selection_range s of (start, finish) \<Rightarrow>
        if sel_mode s = Block then
          (if line < ap_line start \<or> ap_line finish < line then None
           else case (if ap_col (sel_anchor s) \<le> ap_col (sel_head s)
                      then (ap_col (sel_anchor s), ap_col (sel_head s))
                      else (ap_col (sel_head s), ap_col (sel_anchor s))) of
                  (lo, hi) \<Rightarrow> Some (min lo cols, min (hi + 1) cols))
        else if line < ap_line start \<or> ap_line finish < line then None
        else if sel_mode s = Line then Some (0, cols)
        else
          let frm = (if line = ap_line start then ap_col start else 0);
              to = (if line = ap_line finish then min (ap_col finish + 1) cols else cols)
          in if frm < to then Some (frm, to) else None)"

section \<open>Words\<close>

definition word_separators :: "uchar list" where
  "word_separators =
     [32, 9, 34, 39, 96, 40, 41, 91, 93, 123, 125, 60, 62, 44, 59, 58, 61, 124, 38, 33, 63, 42, 0]"

definition is_separator :: "uchar \<Rightarrow> bool" where
  "is_separator ch \<longleftrightarrow> ch \<in> set word_separators"

definition line_id_at :: "grid \<Rightarrow> nat \<Rightarrow> line_id option" where
  "line_id_at g row = (if row < g_rows g then Some (row_id (grid_row g row)) else None)"

definition active_line_id_at :: "grid \<Rightarrow> nat \<Rightarrow> line_id option" where
  "active_line_id_at g row = (if row < g_rows g then Some (row_id (active_row g row)) else None)"

definition row_of_line :: "grid \<Rightarrow> line_id \<Rightarrow> nat option" where
  "row_of_line g line = find_first (\<lambda>r. row_id (grid_row g r) = line) [0..<g_rows g]"

definition char_at :: "row \<Rightarrow> nat \<Rightarrow> uchar" where
  "char_at r c = (case row_get r c of None \<Rightarrow> 32 | Some x \<Rightarrow> cell_ch x)"

fun word_start :: "row \<Rightarrow> nat \<Rightarrow> nat" where
  "word_start r 0 = 0"
| "word_start r (Suc s) = (if \<not> is_separator (char_at r s) then word_start r s else Suc s)"

function word_end :: "row \<Rightarrow> nat \<Rightarrow> nat \<Rightarrow> nat" where
  "word_end r cols e =
     (if e + 1 < cols \<and> \<not> is_separator (char_at r (e + 1)) then word_end r cols (e + 1) else e)"
  by pat_completeness auto
termination by (relation "measure (\<lambda>(r, cols, e). cols - e)") auto

declare word_end.simps [simp del]

definition word_at :: "grid \<Rightarrow> abs_pos \<Rightarrow> abs_pos \<times> abs_pos" where
  "word_at g pos =
     (case row_of_line g (ap_line pos) of
        None \<Rightarrow> (pos, pos)
      | Some row \<Rightarrow>
          let r = grid_row g row; cols = g_cols g
          in if cols \<le> ap_col pos \<or> is_separator (char_at r (ap_col pos)) then (pos, pos)
             else (AbsPos (ap_line pos) (word_start r (ap_col pos)),
                   AbsPos (ap_line pos) (word_end r cols (ap_col pos))))"

section \<open>The text of a selection\<close>

text \<open>The loop over the columns of a span, which stops at the first missing cell.\<close>

fun span_text :: "row \<Rightarrow> nat list \<Rightarrow> ustring" where
  "span_text r [] = []"
| "span_text r (col # cols) =
     (case row_get r col of
        None \<Rightarrow> []
      | Some c \<Rightarrow> cell_text r c @ span_text r cols)"

definition pop_blanks :: "ustring \<Rightarrow> ustring" where
  "pop_blanks s = rev (dropWhile (\<lambda>c. c = 32) (rev s))"

definition selected_lines :: "grid \<Rightarrow> selection \<Rightarrow> (ustring \<times> bool) list" where
  "selected_lines g s =
     (case selection_range s of (start, finish) \<Rightarrow>
        concat (map (\<lambda>index.
          case grid_line g index of
            None \<Rightarrow> []
          | Some r \<Rightarrow>
              if row_id r < ap_line start \<or> ap_line finish < row_id r then []
              else (case span_on s (row_id r) (g_cols g) of
                      None \<Rightarrow> []
                    | Some (frm, to) \<Rightarrow>
                        let text = span_text r [frm..<to];
                            text = (if sel_mode s \<noteq> Block then pop_blanks text else text)
                        in [(text, row_wrapped r)]))
          [0..<total_lines g]))"

fun join_lines :: "(ustring \<times> bool) list \<Rightarrow> ustring" where
  "join_lines [] = []"
| "join_lines [(text, wrapped)] = text"
| "join_lines ((text, wrapped) # rest) = text @ (if \<not> wrapped then [10] else []) @ join_lines rest"

definition selection_text :: "grid \<Rightarrow> selection \<Rightarrow> ustring" where
  "selection_text g s = (if selection_is_empty s then [] else join_lines (selected_lines g s))"

end
