(* ===== verification/Search.thy ===== *)
theory Search
  imports Selection
begin

text \<open>
  Finding text in the grid and its scrollback (\<open>crates/zest-core/src/search.rs\<close>).  Unicode's case
  tables are parameters: \<open>lower\<close> is \<open>char::to_lowercase\<close> and \<open>upper\<close> is
  \<open>char::is_uppercase\<close>.
\<close>

section \<open>Definitions\<close>

record hit =
  hit_start :: abs_pos
  hit_end :: abs_pos

definition highlight :: "hit \<Rightarrow> selection" where
  "highlight m = \<lparr>sel_anchor = hit_start m, sel_head = hit_end m, sel_mode = Simple\<rparr>"

record query =
  q_needle :: ustring
  q_case_sensitive :: bool

definition query_smart :: "(uchar \<Rightarrow> bool) \<Rightarrow> ustring \<Rightarrow> query" where
  "query_smart upper needle = \<lparr>q_needle = needle, q_case_sensitive = list_ex upper needle\<rparr>"

definition query_insensitive :: "ustring \<Rightarrow> query" where
  "query_insensitive needle = \<lparr>q_needle = needle, q_case_sensitive = False\<rparr>"

record matches =
  m_hits :: "hit list"
  m_truncated :: bool

definition DEFAULT_MATCH_LIMIT :: nat where
  "DEFAULT_MATCH_LIMIT = 5000"

definition eq_folded :: "(uchar \<Rightarrow> uchar list) \<Rightarrow> uchar \<Rightarrow> uchar \<Rightarrow> bool \<Rightarrow> bool" where
  "eq_folded lower a b case_sensitive \<longleftrightarrow>
     (if a = b then True else if case_sensitive then False else lower a = lower b)"

text \<open>
  One flattened character: the character, the cell it came from, and the last column it occupies
  (the three parallel vectors of the code).
\<close>

type_synonym flat = "uchar \<times> abs_pos \<times> nat"

definition hit_at :: "(uchar \<Rightarrow> uchar list) \<Rightarrow> bool \<Rightarrow> ustring \<Rightarrow> flat list \<Rightarrow> nat \<Rightarrow> bool" where
  "hit_at lower cs needle line i \<longleftrightarrow>
     (\<forall>k \<in> set [0..<length needle]. eq_folded lower (fst (line ! (i + k))) (needle ! k) cs)"

definition hit_of :: "ustring \<Rightarrow> flat list \<Rightarrow> nat \<Rightarrow> hit" where
  "hit_of needle line i =
     (let l = i + length needle - 1
      in \<lparr>hit_start = fst (snd (line ! i)),
          hit_end = AbsPos (ap_line (fst (snd (line ! l)))) (snd (snd (line ! l)))\<rparr>)"

text \<open>
  \<open>scan_line\<close> from position \<open>i\<close> on.  \<open>search\<close> returns early on an empty needle, on which
  the loop of the code would not advance; it ends at once here.
\<close>

function scan_from ::
  "(uchar \<Rightarrow> uchar list) \<Rightarrow> bool \<Rightarrow> ustring \<Rightarrow> nat \<Rightarrow> flat list \<Rightarrow> nat \<Rightarrow> matches \<Rightarrow> matches" where
  "scan_from lower cs needle limit line i found =
     (if needle = [] \<or> length line < i + length needle then found
      else if \<not> hit_at lower cs needle line i then scan_from lower cs needle limit line (i + 1) found
      else
        let found = found\<lparr>m_hits := m_hits found @ [hit_of needle line i]\<rparr>
        in if limit \<le> length (m_hits found) then found\<lparr>m_truncated := True\<rparr>
           else scan_from lower cs needle limit line (i + length needle) found)"
  by pat_completeness auto
termination
  by (relation "measure (\<lambda>(lower, cs, needle, limit, line, i, found). Suc (length line) - i)") (auto simp: neq_Nil_conv)

declare scan_from.simps [simp del]

definition scan_line ::
  "(uchar \<Rightarrow> uchar list) \<Rightarrow> bool \<Rightarrow> ustring \<Rightarrow> nat \<Rightarrow> flat list \<Rightarrow> matches \<Rightarrow> matches" where
  "scan_line lower cs needle limit line found =
     (if length line < length needle then found else scan_from lower cs needle limit line 0 found)"

text \<open>The characters of the columns of a row, stopping at a missing cell.\<close>

fun flatten_cols :: "row \<Rightarrow> nat list \<Rightarrow> flat list" where
  "flatten_cols r [] = []"
| "flatten_cols r (col # cols) =
     (case row_get r col of
        None \<Rightarrow> []
      | Some c \<Rightarrow>
          if has_flag c CF_WIDE_SPACER then flatten_cols r cols
          else
            let l = (if has_flag c CF_WIDE then col + 1 else col); p = AbsPos (row_id r) col;
                marks = (case row_extra r c of None \<Rightarrow> [] | Some e \<Rightarrow> ce_zerowidth e)
            in map (\<lambda>ch. (ch, p, l)) (cell_ch c # marks) @ flatten_cols r cols)"

definition flatten_row :: "row \<Rightarrow> flat list" where
  "flatten_row r = flatten_cols r [0..<(if row_wrapped r then row_len r else trimmed_len r)]"

text \<open>The rows of one logical line from index \<open>e\<close> on, and the index after them.\<close>

function logical_line :: "grid \<Rightarrow> nat \<Rightarrow> flat list \<Rightarrow> flat list \<times> nat" where
  "logical_line g e acc =
     (case grid_line g e of
        None \<Rightarrow> (acc, e)
      | Some r \<Rightarrow>
          if \<not> row_wrapped r then (acc @ flatten_row r, e + 1)
          else logical_line g (e + 1) (acc @ flatten_row r))"
  by pat_completeness auto
termination
  by (relation "measure (\<lambda>(g, e, acc). total_lines g - e)")
    (auto simp: grid_line_def total_lines_def split: if_splits)

declare logical_line.simps [simp del]

function search_from ::
  "(uchar \<Rightarrow> uchar list) \<Rightarrow> grid \<Rightarrow> query \<Rightarrow> nat \<Rightarrow> nat \<Rightarrow> matches \<Rightarrow> matches" where
  "search_from lower g q limit index found =
     (if index < total_lines g then
        (case logical_line g index [] of
           (line, e) \<Rightarrow>
             let found = scan_line lower (q_case_sensitive q) (q_needle q) limit line found
             in if m_truncated found then found
                else search_from lower g q limit (max e (index + 1)) found)
      else found)"
  by pat_completeness auto
termination
  by (relation "measure (\<lambda>(lower, g, q, limit, index, found). total_lines g - index)") auto

declare search_from.simps [simp del]

definition search :: "(uchar \<Rightarrow> uchar list) \<Rightarrow> grid \<Rightarrow> query \<Rightarrow> nat \<Rightarrow> matches" where
  "search lower g q limit =
     (let found = \<lparr>m_hits = [], m_truncated = False\<rparr>
      in if q_needle q = [] \<or> limit = 0 then found else search_from lower g q limit 0 found)"

end
