(* ===== verification/Blocks.thy ===== *)
theory Blocks
  imports Grid
begin

text \<open>
  The side index of command blocks (\<open>crates/zest-core/src/blocks.rs\<close>).  Block ids are counted
  in \<open>nat\<close>; the code keeps them in 32 bits.
\<close>

section \<open>Blocks\<close>

type_synonym block_id = nat

datatype block_state = Prompt | Running | Finished "int option"

record block_context =
  bc_branch :: ustring
  bc_venv :: ustring
  bc_kube :: ustring

record block =
  b_id :: block_id
  b_prompt_line :: line_id
  b_output_line :: "line_id option"
  b_end_line :: "line_id option"
  b_state :: block_state
  b_command :: ustring
  b_cwd :: ustring
  b_started_ms :: "nat option"
  b_ended_ms :: "nat option"
  b_context :: "block_context option"
  b_author :: "byte list option"

definition context_is_empty :: "block_context \<Rightarrow> bool" where
  "context_is_empty c \<longleftrightarrow> bc_branch c = [] \<and> bc_venv c = [] \<and> bc_kube c = []"

definition line_range :: "block \<Rightarrow> line_id \<times> line_id option" where
  "line_range b = (b_prompt_line b, b_end_line b)"

definition block_contains :: "block \<Rightarrow> line_id \<Rightarrow> bool" where
  "block_contains b line \<longleftrightarrow>
     b_prompt_line b \<le> line \<and> (case b_end_line b of None \<Rightarrow> True | Some e \<Rightarrow> line \<le> e)"

definition is_running :: "block \<Rightarrow> bool" where
  "is_running b \<longleftrightarrow> b_state b = Running"

definition is_command :: "block \<Rightarrow> bool" where
  "is_command b \<longleftrightarrow> b_state b \<noteq> Prompt \<and> str_trim (b_command b) \<noteq> []"

definition failed :: "block \<Rightarrow> bool" where
  "failed b \<longleftrightarrow> (case b_state b of Finished (Some c) \<Rightarrow> c \<noteq> 0 | _ \<Rightarrow> False)"

section \<open>The index\<close>

record block_index =
  bi_blocks :: "block list"
  bi_next_id :: nat
  bi_authoritative_from :: nat

definition block_index_new :: block_index where
  "block_index_new = \<lparr>bi_blocks = [], bi_next_id = 0, bi_authoritative_from = 0\<rparr>"

definition block_at :: "block_index \<Rightarrow> line_id \<Rightarrow> block option" where
  "block_at x line = find_first (\<lambda>b. block_contains b line) (rev (bi_blocks x))"

definition block_get :: "block_index \<Rightarrow> block_id \<Rightarrow> block option" where
  "block_get x i = find_first (\<lambda>b. b_id b = i) (bi_blocks x)"

definition last_block :: "block_index \<Rightarrow> block option" where
  "last_block x = last_of (bi_blocks x)"

definition last_command :: "block_index \<Rightarrow> block option" where
  "last_command x = find_first is_command (rev (bi_blocks x))"

text \<open>\<open>last_mut\<close>: update the newest block.\<close>

definition update_last :: "(block \<Rightarrow> block) \<Rightarrow> block_index \<Rightarrow> block_index" where
  "update_last f x =
     (if bi_blocks x = [] then x
      else x\<lparr>bi_blocks := butlast (bi_blocks x) @ [f (last (bi_blocks x))]\<rparr>)"

definition new_block :: "block_id \<Rightarrow> line_id \<Rightarrow> ustring \<Rightarrow> block" where
  "new_block i line cwd =
     \<lparr>b_id = i, b_prompt_line = line, b_output_line = None, b_end_line = None, b_state = Prompt,
      b_command = [], b_cwd = cwd, b_started_ms = None, b_ended_ms = None, b_context = None,
      b_author = None\<rparr>"

definition begin_prompt :: "block_index \<Rightarrow> line_id \<Rightarrow> ustring \<Rightarrow> block_index \<times> block_id" where
  "begin_prompt x line cwd =
     (let fresh = (x\<lparr>bi_next_id := bi_next_id x + 1,
                     bi_blocks := bi_blocks x @ [new_block (bi_next_id x) line cwd]\<rparr>, bi_next_id x)
      in case last_of (bi_blocks x) of
           None \<Rightarrow> fresh
         | Some b \<Rightarrow>
             if b_state b = Prompt \<and> b_output_line b = None
             then (update_last (\<lambda>b. b\<lparr>b_prompt_line := line, b_cwd := cwd, b_command := []\<rparr>) x, b_id b)
             else fresh)"

fun update_first :: "('a \<Rightarrow> bool) \<Rightarrow> ('a \<Rightarrow> 'a) \<Rightarrow> 'a list \<Rightarrow> 'a list" where
  "update_first p f [] = []"
| "update_first p f (x # xs) = (if p x then f x # xs else x # update_first p f xs)"

definition set_context :: "block_index \<Rightarrow> block_id \<Rightarrow> block_context \<Rightarrow> block_index" where
  "set_context x i c =
     x\<lparr>bi_blocks := update_first (\<lambda>b. b_id b = i)
         (\<lambda>b. b\<lparr>b_context := (if context_is_empty c then None else Some c)\<rparr>) (bi_blocks x)\<rparr>"

definition begin_output ::
  "block_index \<Rightarrow> line_id \<Rightarrow> ustring \<Rightarrow> nat option \<Rightarrow> byte list option \<Rightarrow> block_index" where
  "begin_output x line command now_ms author =
     update_last (\<lambda>b. b\<lparr>b_output_line := Some line, b_command := command, b_state := Running,
       b_started_ms := now_ms, b_author := author\<rparr>) x"

definition block_finish :: "block_index \<Rightarrow> line_id \<Rightarrow> int option \<Rightarrow> nat option \<Rightarrow> block_index" where
  "block_finish x line exit_code now_ms =
     update_last (\<lambda>b. case b_state b of
         Finished _ \<Rightarrow> b
       | _ \<Rightarrow> b\<lparr>b_end_line := Some line, b_state := Finished exit_code, b_ended_ms := now_ms\<rparr>) x"

definition upsert :: "block_index \<Rightarrow> block \<Rightarrow> block_index" where
  "upsert x b =
     (case binary_search_by_key b_id (b_id b) (bi_blocks x) of
        Inr i \<Rightarrow> x\<lparr>bi_blocks := (bi_blocks x)[i := b]\<rparr>
      | Inl i \<Rightarrow>
          x\<lparr>bi_next_id := max (bi_next_id x) (b_id b + 1),
            bi_blocks := take i (bi_blocks x) @ b # drop i (bi_blocks x)\<rparr>)"

text \<open>The closure of \<open>reanchor\<close>: the block re-anchored, or dropped.\<close>

definition reanchor_block :: "reindex \<Rightarrow> line_id \<Rightarrow> block \<Rightarrow> block option" where
  "reanchor_block m oldest b =
     (let at = (\<lambda>l. case reindex_lookup m l of Some i \<Rightarrow> i | None \<Rightarrow> oldest);
          move = (\<lambda>b. b\<lparr>b_prompt_line := at (b_prompt_line b),
                        b_output_line := map_option at (b_output_line b)\<rparr>)
      in case b_end_line b of
           None \<Rightarrow> Some (move b)
         | Some e \<Rightarrow>
             (case reindex_lookup m e of
                None \<Rightarrow> None
              | Some e' \<Rightarrow> Some (move (b\<lparr>b_end_line := Some e'\<rparr>))))"

definition reanchor :: "block_index \<Rightarrow> reindex \<Rightarrow> block_index" where
  "reanchor x m =
     (case reindex_oldest m of
        None \<Rightarrow> x\<lparr>bi_blocks := []\<rparr>
      | Some oldest \<Rightarrow> x\<lparr>bi_blocks := List.map_filter (reanchor_block m oldest) (bi_blocks x)\<rparr>)"

definition evict_before :: "block_index \<Rightarrow> line_id \<Rightarrow> block_index" where
  "evict_before x oldest_line =
     (case last_of (bi_blocks x) of
        None \<Rightarrow> x
      | Some newest \<Rightarrow>
          let kept = filter (\<lambda>b. case b_end_line b of None \<Rightarrow> True | Some e \<Rightarrow> oldest_line \<le> e) (bi_blocks x);
              flr = (case first_of kept of None \<Rightarrow> b_id newest + 1 | Some b \<Rightarrow> b_id b)
          in x\<lparr>bi_blocks := kept, bi_authoritative_from := max (bi_authoritative_from x) flr\<rparr>)"

definition erase_screen :: "block_index \<Rightarrow> line_id \<Rightarrow> block_index" where
  "erase_screen x first =
     (let kept = filter (\<lambda>b. case b_end_line b of None \<Rightarrow> False | Some e \<Rightarrow> e < first) (bi_blocks x)
      in if length kept = length (bi_blocks x) then x\<lparr>bi_blocks := kept\<rparr>
         else
           let lowest_gone = (case last_of kept of None \<Rightarrow> 0 | Some b \<Rightarrow> b_id b + 1)
           in x\<lparr>bi_blocks := kept,
                bi_authoritative_from := min (bi_authoritative_from x) lowest_gone\<rparr>)"

definition retain_below :: "block_index \<Rightarrow> block_id \<Rightarrow> block_index" where
  "retain_below x first = x\<lparr>bi_blocks := filter (\<lambda>b. b_id b < first) (bi_blocks x)\<rparr>"

end
