(* ===== verification/Modes.thy ===== *)
theory Modes
  imports Prelude
begin

text \<open>
  Terminal modes, the Kitty keyboard flags that share their word, and the cursor style:
  \<open>crates/zest-core/src/modes.rs\<close>.
\<close>

section \<open>The mode word\<close>

type_synonym modes = "32 word"

definition M_AUTO_WRAP :: modes where "M_AUTO_WRAP = push_bit 0 1"
definition M_ORIGIN :: modes where "M_ORIGIN = push_bit 1 1"
definition M_APP_CURSOR :: modes where "M_APP_CURSOR = push_bit 2 1"
definition M_APP_KEYPAD :: modes where "M_APP_KEYPAD = push_bit 3 1"
definition M_SHOW_CURSOR :: modes where "M_SHOW_CURSOR = push_bit 4 1"
definition M_INSERT :: modes where "M_INSERT = push_bit 5 1"
definition M_LINE_FEED_NEW_LINE :: modes where "M_LINE_FEED_NEW_LINE = push_bit 6 1"
definition M_ALT_SCREEN :: modes where "M_ALT_SCREEN = push_bit 7 1"
definition M_BRACKETED_PASTE :: modes where "M_BRACKETED_PASTE = push_bit 8 1"
definition M_MOUSE_CLICK :: modes where "M_MOUSE_CLICK = push_bit 9 1"
definition M_MOUSE_DRAG :: modes where "M_MOUSE_DRAG = push_bit 10 1"
definition M_MOUSE_MOTION :: modes where "M_MOUSE_MOTION = push_bit 11 1"
definition M_MOUSE_SGR :: modes where "M_MOUSE_SGR = push_bit 12 1"
definition M_FOCUS_REPORTING :: modes where "M_FOCUS_REPORTING = push_bit 13 1"
definition M_SYNC_UPDATE :: modes where "M_SYNC_UPDATE = push_bit 14 1"
definition M_WIN32_INPUT :: modes where "M_WIN32_INPUT = push_bit 15 1"
definition M_KITTY_DISAMBIGUATE :: modes where "M_KITTY_DISAMBIGUATE = push_bit 16 1"
definition M_KITTY_EVENT_TYPES :: modes where "M_KITTY_EVENT_TYPES = push_bit 17 1"
definition M_KITTY_REPORT_ALL :: modes where "M_KITTY_REPORT_ALL = push_bit 19 1"

lemmas m_defs =
  M_AUTO_WRAP_def M_ORIGIN_def M_APP_CURSOR_def M_APP_KEYPAD_def M_SHOW_CURSOR_def
  M_INSERT_def M_LINE_FEED_NEW_LINE_def M_ALT_SCREEN_def M_BRACKETED_PASTE_def
  M_MOUSE_CLICK_def M_MOUSE_DRAG_def M_MOUSE_MOTION_def M_MOUSE_SGR_def
  M_FOCUS_REPORTING_def M_SYNC_UPDATE_def M_WIN32_INPUT_def
  M_KITTY_DISAMBIGUATE_def M_KITTY_EVENT_TYPES_def M_KITTY_REPORT_ALL_def

text \<open>Every declared flag; \<open>from_bits_truncate\<close> keeps these bits and drops the others.\<close>

definition modes_all :: modes where
  "modes_all =
     M_AUTO_WRAP OR M_ORIGIN OR M_APP_CURSOR OR M_APP_KEYPAD OR M_SHOW_CURSOR OR M_INSERT OR
     M_LINE_FEED_NEW_LINE OR M_ALT_SCREEN OR M_BRACKETED_PASTE OR M_MOUSE_CLICK OR
     M_MOUSE_DRAG OR M_MOUSE_MOTION OR M_MOUSE_SGR OR M_FOCUS_REPORTING OR M_SYNC_UPDATE OR
     M_WIN32_INPUT OR M_KITTY_DISAMBIGUATE OR M_KITTY_EVENT_TYPES OR M_KITTY_REPORT_ALL"

definition from_bits_truncate :: "32 word \<Rightarrow> modes" where
  "from_bits_truncate w = w AND modes_all"

definition initial_modes :: modes where
  "initial_modes = M_AUTO_WRAP OR M_SHOW_CURSOR"

definition mouse_enabled :: "modes \<Rightarrow> bool" where
  "mouse_enabled m \<longleftrightarrow> flag_intersects m (M_MOUSE_CLICK OR M_MOUSE_DRAG OR M_MOUSE_MOTION)"

section \<open>The Kitty keyboard flags\<close>

definition KITTY_SUPPORTED :: byte where "KITTY_SUPPORTED = 1 OR 2 OR 8"

definition KITTY_SHIFT :: nat where "KITTY_SHIFT = 16"

definition kitty_flags_of :: "modes \<Rightarrow> byte" where
  "kitty_flags_of m = ucast (drop_bit KITTY_SHIFT m) AND KITTY_SUPPORTED"

definition with_kitty_flags :: "modes \<Rightarrow> byte \<Rightarrow> modes" where
  "with_kitty_flags m flags =
     (let kept = m AND NOT (push_bit KITTY_SHIFT (ucast KITTY_SUPPORTED));
          set = push_bit KITTY_SHIFT (ucast (flags AND KITTY_SUPPORTED))
      in from_bits_truncate (kept OR set))"

lemma KITTY_SUPPORTED_val: "KITTY_SUPPORTED = 11"
  by (simp add: KITTY_SUPPORTED_def)

lemma modes_all_val: "modes_all = 0xBFFFF"
  by (simp add: modes_all_def m_defs)

lemma kitty_mask_val: "push_bit KITTY_SHIFT (ucast KITTY_SUPPORTED) = (0xB0000 :: 32 word)"
  by (simp add: KITTY_SHIFT_def KITTY_SUPPORTED_val push_bit_eq_mult)

lemma bit_single: "bit (push_bit a 1 :: 'a::len word) n \<longleftrightarrow> n = a \<and> n < LENGTH('a)"
  by (auto simp: bit_exp_iff)

lemma bit_0_1_3:
  "bit (push_bit 0 1 OR push_bit 1 1 OR push_bit 3 1 :: 'a::len word) k \<longleftrightarrow>
     k < LENGTH('a) \<and> (k = 0 \<or> k = 1 \<or> k = 3)"
  by (simp only: bit_or_iff bit_single) auto

lemma bit_supported: "bit KITTY_SUPPORTED n \<longleftrightarrow> n = 0 \<or> n = 1 \<or> n = 3"
proof -
  have eq: "KITTY_SUPPORTED = push_bit 0 1 OR push_bit 1 1 OR push_bit 3 1"
    by (simp add: KITTY_SUPPORTED_val)
  show ?thesis unfolding eq bit_0_1_3 by auto
qed

lemma bit_kitty_mask:
  "bit (0xB0000 :: 32 word) n \<longleftrightarrow> n = 16 \<or> n = 17 \<or> n = 19"
proof -
  have eq: "(0xB0000 :: 32 word) = push_bit 16 1 OR push_bit 17 1 OR push_bit 19 1" by simp
  show ?thesis unfolding eq bit_or_iff bit_single by auto
qed

lemma bit_modes_all: "bit modes_all n \<longleftrightarrow> n < 18 \<or> n = 19"
proof -
  have "bit modes_all n \<longleftrightarrow> n \<in> {0,1,2,3,4,5,6,7,8,9,10,11,12,13,14,15,16,17,19}"
    unfolding modes_all_def m_defs bit_or_iff bit_single insert_iff by (rule iffI; elim disjE conjE; simp)
  also have "\<dots> \<longleftrightarrow> n < 18 \<or> n = 19" by (simp, arith)
  finally show ?thesis .
qed

lemma bit_with_kitty_flags:
  "bit (with_kitty_flags m f) n \<longleftrightarrow>
     (if n = 16 \<or> n = 17 \<or> n = 19 then bit f (n - 16) else n < 18 \<and> bit m n)"
  using bit_imp_le_length [of f "n - 16"]
  by (auto simp: with_kitty_flags_def Let_def from_bits_truncate_def kitty_mask_val
      bit_and_iff bit_or_iff bit_not_iff bit_kitty_mask bit_modes_all bit_push_bit_iff
      KITTY_SHIFT_def bit_ucast_iff bit_supported)

lemma kitty_flags_roundtrip: "kitty_flags_of (with_kitty_flags m f) = f AND KITTY_SUPPORTED"
  by (rule bit_eqI)
    (auto simp: kitty_flags_of_def bit_and_iff bit_supported bit_ucast_iff bit_drop_bit_eq
      KITTY_SHIFT_def bit_with_kitty_flags)

lemma with_kitty_flags_other_bits:
  "n < 16 \<Longrightarrow> bit (with_kitty_flags m f) n \<longleftrightarrow> bit m n"
  by (simp add: bit_with_kitty_flags)

lemma with_kitty_flags_contains [flag_simps]:
  assumes "\<And>n. bit k n \<Longrightarrow> n < 16"
  shows "flag_contains (with_kitty_flags m f) k \<longleftrightarrow> flag_contains m k"
  using assms with_kitty_flags_other_bits by (auto simp: flag_contains_bits)

lemma with_kitty_flags_idem:
  "with_kitty_flags (with_kitty_flags m f) g = with_kitty_flags m g"
  by (rule bit_eqI) (auto simp: bit_with_kitty_flags)

section \<open>The cursor style\<close>

datatype cursor_shape = BlockShape | UnderlineShape | BarShape

record cursor_style =
  cs_shape :: cursor_shape
  cs_blinking :: bool

definition default_cursor_style :: cursor_style where
  "default_cursor_style = \<lparr>cs_shape = BlockShape, cs_blinking = True\<rparr>"

definition from_decscusr :: "16 word \<Rightarrow> cursor_style" where
  "from_decscusr param =
     (if param = 0 \<or> param = 1 then \<lparr>cs_shape = BlockShape, cs_blinking = True\<rparr>
      else if param = 2 then \<lparr>cs_shape = BlockShape, cs_blinking = False\<rparr>
      else if param = 3 then \<lparr>cs_shape = UnderlineShape, cs_blinking = True\<rparr>
      else if param = 4 then \<lparr>cs_shape = UnderlineShape, cs_blinking = False\<rparr>
      else if param = 5 then \<lparr>cs_shape = BarShape, cs_blinking = True\<rparr>
      else if param = 6 then \<lparr>cs_shape = BarShape, cs_blinking = False\<rparr>
      else default_cursor_style)"

definition to_decscusr :: "cursor_style \<Rightarrow> 16 word" where
  "to_decscusr s =
     (case (cs_shape s, cs_blinking s) of
        (BlockShape, True) \<Rightarrow> 1 | (BlockShape, False) \<Rightarrow> 2
      | (UnderlineShape, True) \<Rightarrow> 3 | (UnderlineShape, False) \<Rightarrow> 4
      | (BarShape, True) \<Rightarrow> 5 | (BarShape, False) \<Rightarrow> 6)"

lemma decscusr_roundtrip: "from_decscusr (to_decscusr s) = s"
  by (cases s; cases "cs_shape s") (auto simp: to_decscusr_def from_decscusr_def split: bool.splits)

lemma to_decscusr_range: "to_decscusr s \<noteq> 0 \<and> to_decscusr s \<le> 6"
  by (cases s; cases "cs_shape s") (auto simp: to_decscusr_def split: bool.splits)

end
