(* ===== verification/Palette.thy ===== *)
theory Palette
  imports Prelude
begin

text \<open>
  The live colour palette and the seed it is reset to: \<open>crates/zest-core/src/palette.rs\<close>.
  The table \<open>[Rgb; 256]\<close> is a list that every operation keeps at 256 entries.
\<close>

record rgb =
  rgb_r :: byte
  rgb_g :: byte
  rgb_b :: byte

definition rgb_new :: "byte \<Rightarrow> byte \<Rightarrow> byte \<Rightarrow> rgb" where
  "rgb_new r g b = \<lparr>rgb_r = r, rgb_g = g, rgb_b = b\<rparr>"

record palette_snapshot =
  ps_colors :: "rgb list"
  ps_foreground :: rgb
  ps_background :: rgb
  ps_cursor :: rgb

text \<open>The level ramp of the 6x6x6 cube, the cube, and the 24 steps of grey.\<close>

definition cube_levels :: "byte list" where
  "cube_levels = [0, 95, 135, 175, 215, 255]"

definition color_cube :: "rgb list" where
  "color_cube = concat (map (\<lambda>r. concat (map (\<lambda>g. map (rgb_new r g) cube_levels) cube_levels)) cube_levels)"

definition gray_ramp :: "rgb list" where
  "gray_ramp = map (\<lambda>n. let v = 8 + of_nat n * 10 in rgb_new v v v) [0..<24]"

definition fill_standard_extended :: "palette_snapshot \<Rightarrow> palette_snapshot" where
  "fill_standard_extended p =
     p\<lparr>ps_colors := take 16 (ps_colors p) @ color_cube @ gray_ramp\<rparr>"

record palette =
  pal_live :: palette_snapshot
  pal_seed :: palette_snapshot

definition palette_new :: "palette_snapshot \<Rightarrow> palette" where
  "palette_new seed = \<lparr>pal_live = seed, pal_seed = seed\<rparr>"

definition reseed :: "palette \<Rightarrow> palette_snapshot \<Rightarrow> palette" where
  "reseed p seed = p\<lparr>pal_live := seed, pal_seed := seed\<rparr>"

definition set_indexed :: "palette \<Rightarrow> byte \<Rightarrow> rgb \<Rightarrow> palette" where
  "set_indexed p i c =
     p\<lparr>pal_live := (pal_live p)\<lparr>ps_colors := (ps_colors (pal_live p))[unat i := c]\<rparr>\<rparr>"

definition reset_indexed :: "palette \<Rightarrow> byte option \<Rightarrow> palette" where
  "reset_indexed p index =
     (case index of
        Some i \<Rightarrow> p\<lparr>pal_live := (pal_live p)\<lparr>ps_colors :=
          (ps_colors (pal_live p))[unat i := ps_colors (pal_seed p) ! unat i]\<rparr>\<rparr>
      | None \<Rightarrow> p\<lparr>pal_live := (pal_live p)\<lparr>ps_colors := ps_colors (pal_seed p)\<rparr>\<rparr>)"

definition set_foreground :: "palette \<Rightarrow> rgb \<Rightarrow> palette" where
  "set_foreground p c = p\<lparr>pal_live := (pal_live p)\<lparr>ps_foreground := c\<rparr>\<rparr>"

definition reset_foreground :: "palette \<Rightarrow> palette" where
  "reset_foreground p = p\<lparr>pal_live := (pal_live p)\<lparr>ps_foreground := ps_foreground (pal_seed p)\<rparr>\<rparr>"

definition set_background :: "palette \<Rightarrow> rgb \<Rightarrow> palette" where
  "set_background p c = p\<lparr>pal_live := (pal_live p)\<lparr>ps_background := c\<rparr>\<rparr>"

definition reset_background :: "palette \<Rightarrow> palette" where
  "reset_background p = p\<lparr>pal_live := (pal_live p)\<lparr>ps_background := ps_background (pal_seed p)\<rparr>\<rparr>"

definition set_cursor_color :: "palette \<Rightarrow> rgb \<Rightarrow> palette" where
  "set_cursor_color p c = p\<lparr>pal_live := (pal_live p)\<lparr>ps_cursor := c\<rparr>\<rparr>"

definition reset_cursor_color :: "palette \<Rightarrow> palette" where
  "reset_cursor_color p = p\<lparr>pal_live := (pal_live p)\<lparr>ps_cursor := ps_cursor (pal_seed p)\<rparr>\<rparr>"

section \<open>The table stays whole, and a full reset restores the seed\<close>

definition palette_wf :: "palette \<Rightarrow> bool" where
  "palette_wf p \<longleftrightarrow> length (ps_colors (pal_live p)) = 256 \<and> length (ps_colors (pal_seed p)) = 256"

lemma length_color_cube [simp]: "length color_cube = 216"
  by (simp add: color_cube_def cube_levels_def)

lemma length_gray_ramp [simp]: "length gray_ramp = 24"
  by (simp add: gray_ramp_def)

lemma fill_standard_extended_length:
  "16 \<le> length (ps_colors p) \<Longrightarrow> length (ps_colors (fill_standard_extended p)) = 256"
  by (simp add: fill_standard_extended_def)

lemma unat_byte_less: "unat (i :: byte) < 256"
  using unsigned_less [of i, where ?'a = nat] by simp

lemma unat_eq_byte [simp]: "unat (i :: byte) = unat j \<longleftrightarrow> i = j"
  by (simp add: word_unat_eq_iff)

lemma palette_wf_ops [wf_intros]:
  "length (ps_colors s) = 256 \<Longrightarrow> palette_wf (palette_new s)"
  "length (ps_colors s) = 256 \<Longrightarrow> palette_wf (reseed p s)"
  "palette_wf p \<Longrightarrow> palette_wf (set_indexed p i c)"
  "palette_wf p \<Longrightarrow> palette_wf (reset_indexed p j)"
  "palette_wf p \<Longrightarrow> palette_wf (set_foreground p c)"
  "palette_wf p \<Longrightarrow> palette_wf (reset_foreground p)"
  "palette_wf p \<Longrightarrow> palette_wf (set_background p c)"
  "palette_wf p \<Longrightarrow> palette_wf (reset_background p)"
  "palette_wf p \<Longrightarrow> palette_wf (set_cursor_color p c)"
  "palette_wf p \<Longrightarrow> palette_wf (reset_cursor_color p)"
  by (auto simp: palette_wf_def palette_new_def reseed_def set_indexed_def reset_indexed_def
      set_foreground_def reset_foreground_def set_background_def reset_background_def
      set_cursor_color_def reset_cursor_color_def split: option.splits)

lemma set_indexed_get:
  "palette_wf p \<Longrightarrow> ps_colors (pal_live (set_indexed p i c)) ! unat j =
     (if i = j then c else ps_colors (pal_live p) ! unat j)"
  using unat_byte_less [of i] by (auto simp: palette_wf_def set_indexed_def nth_list_update)

lemma reset_indexed_get:
  "palette_wf p \<Longrightarrow> ps_colors (pal_live (reset_indexed p k)) ! unat j =
     (if k = None \<or> k = Some j then ps_colors (pal_seed p) ! unat j
      else ps_colors (pal_live p) ! unat j)"
  using unat_byte_less [of j]
  by (auto simp: palette_wf_def reset_indexed_def nth_list_update split: option.splits)

lemma palette_full_reset:
  "pal_live (reset_cursor_color (reset_background (reset_foreground (reset_indexed p None)))) = pal_seed p"
  by (simp add: reset_cursor_color_def reset_background_def reset_foreground_def reset_indexed_def)

lemma pal_seed_ops [simp]:
  "pal_seed (set_indexed p i c) = pal_seed p" "pal_seed (reset_indexed p k) = pal_seed p"
  "pal_seed (set_foreground p c) = pal_seed p" "pal_seed (reset_foreground p) = pal_seed p"
  "pal_seed (set_background p c) = pal_seed p" "pal_seed (reset_background p) = pal_seed p"
  "pal_seed (set_cursor_color p c) = pal_seed p" "pal_seed (reset_cursor_color p) = pal_seed p"
  by (simp_all add: set_indexed_def reset_indexed_def set_foreground_def reset_foreground_def
      set_background_def reset_background_def set_cursor_color_def reset_cursor_color_def
      split: option.splits)

end
