(* ===== verification/Text.thy ===== *)
theory Text
  imports Prelude
begin

text \<open>
  The text functions of Rust's standard library the escape-sequence handlers use: UTF-8
  (\<open>str::from_utf8\<close>, \<open>str::as_bytes\<close>, slicing at character boundaries), integer parsing
  (\<open>str::parse\<close>, \<open>from_str_radix\<close>) and integer formatting.
\<close>

section \<open>UTF-8\<close>

text \<open>A Unicode scalar value: what a \<open>char\<close> can hold.\<close>

definition is_scalar :: "uchar \<Rightarrow> bool" where
  "is_scalar c \<longleftrightarrow> c < 0xD800 \<or> (0xE000 \<le> c \<and> c < 0x110000)"

definition encode_char :: "uchar \<Rightarrow> byte list" where
  "encode_char c =
     (if c < 0x80 then [of_nat c]
      else if c < 0x800 then [of_nat (0xC0 + c div 64), of_nat (0x80 + c mod 64)]
      else if c < 0x10000 then
        [of_nat (0xE0 + c div 4096), of_nat (0x80 + c div 64 mod 64), of_nat (0x80 + c mod 64)]
      else
        [of_nat (0xF0 + c div 262144), of_nat (0x80 + c div 4096 mod 64),
         of_nat (0x80 + c div 64 mod 64), of_nat (0x80 + c mod 64)])"

definition utf8_encode :: "ustring \<Rightarrow> byte list" where
  "utf8_encode s = concat (map encode_char s)"

definition is_cont :: "nat \<Rightarrow> bool" where
  "is_cont b \<longleftrightarrow> 0x80 \<le> b \<and> b < 0xC0"

text \<open>One character off the front of a list of bytes (as numbers), strictly: no overlong form, no surrogate.\<close>

definition decode_char :: "nat list \<Rightarrow> (uchar \<times> nat list) option" where
  "decode_char bs =
     (case bs of
        [] \<Rightarrow> None
      | a # r \<Rightarrow>
          if a < 0x80 then Some (a, r)
          else if a < 0xC2 then None
          else if a < 0xE0 then
            (case r of b # r \<Rightarrow> if is_cont b then Some ((a - 0xC0) * 64 + (b - 0x80), r) else None
             | [] \<Rightarrow> None)
          else if a < 0xF0 then
            (case r of b # c # r \<Rightarrow>
               let v = (a - 0xE0) * 4096 + (b - 0x80) * 64 + (c - 0x80)
               in if is_cont b \<and> is_cont c \<and> 0x800 \<le> v \<and> is_scalar v then Some (v, r) else None
             | _ \<Rightarrow> None)
          else if a < 0xF5 then
            (case r of b # c # d # r \<Rightarrow>
               let v = (a - 0xF0) * 262144 + (b - 0x80) * 4096 + (c - 0x80) * 64 + (d - 0x80)
               in if is_cont b \<and> is_cont c \<and> is_cont d \<and> 0x10000 \<le> v \<and> is_scalar v
                  then Some (v, r) else None
             | _ \<Rightarrow> None)
          else None)"

lemma decode_char_shorter: "decode_char bs = Some (c, r) \<Longrightarrow> length r < length bs"
  by (auto simp: decode_char_def Let_def split: list.splits if_splits)

function decode_all :: "nat list \<Rightarrow> ustring option" where
  "decode_all bs =
     (if bs = [] then Some []
      else case decode_char bs of
             None \<Rightarrow> None
           | Some (c, r) \<Rightarrow> map_option ((#) c) (decode_all r))"
  by pat_completeness auto
termination by (relation "measure length") (auto dest: decode_char_shorter)

declare decode_all.simps [simp del]

text \<open>\<open>core::str::from_utf8\<close>.\<close>

definition from_utf8 :: "byte list \<Rightarrow> ustring option" where
  "from_utf8 bs = decode_all (map unat bs)"

lemma unat_byte: "n < 256 \<Longrightarrow> unat (of_nat n :: byte) = n"
  by (simp add: unat_of_nat take_bit_eq_mod)

lemma encode_char_bytes:
  assumes "is_scalar c"
  shows "map unat (encode_char c) =
     (if c < 0x80 then [c]
      else if c < 0x800 then [0xC0 + c div 64, 0x80 + c mod 64]
      else if c < 0x10000 then [0xE0 + c div 4096, 0x80 + c div 64 mod 64, 0x80 + c mod 64]
      else [0xF0 + c div 262144, 0x80 + c div 4096 mod 64, 0x80 + c div 64 mod 64, 0x80 + c mod 64])"
proof -
  have cont: "unat (of_nat (0x80 + x mod 64) :: byte) = 0x80 + x mod 64" for x :: nat
    by (rule unat_byte) (use mod_less_divisor [of 64 x] in linarith)
  have "c < 0x800 \<Longrightarrow> c div 64 < 32" "c < 0x10000 \<Longrightarrow> c div 4096 < 16" "c div 262144 < 5"
    using assms by (auto simp: is_scalar_def less_mult_imp_div_less)
  then have "c < 0x800 \<Longrightarrow> unat (of_nat (0xC0 + c div 64) :: byte) = 0xC0 + c div 64"
    "c < 0x10000 \<Longrightarrow> unat (of_nat (0xE0 + c div 4096) :: byte) = 0xE0 + c div 4096"
    "unat (of_nat (0xF0 + c div 262144) :: byte) = 0xF0 + c div 262144"
    "c < 0x80 \<Longrightarrow> unat (of_nat c :: byte) = c"
    by (intro unat_byte; simp)+
  then show ?thesis using cont unfolding encode_char_def by (simp del: of_nat_add)
qed

lemma split_3: "(x div 4096) * 4096 + (x div 64 mod 64) * 64 + x mod 64 = (x :: nat)"
proof -
  have "x div 4096 = x div 64 div 64" by (simp add: div_mult2_eq [symmetric])
  then show ?thesis using div_mult_mod_eq [of x 64] div_mult_mod_eq [of "x div 64" 64] by linarith
qed

lemma split_4:
  "(x div 262144) * 262144 + (x div 4096 mod 64) * 4096 + (x div 64 mod 64) * 64 + x mod 64 = (x :: nat)"
proof -
  have "x div 262144 = x div 4096 div 64" by (simp add: div_mult2_eq [symmetric])
  then show ?thesis using split_3 [of x] div_mult_mod_eq [of "x div 4096" 64] by linarith
qed

lemma decode_encode_char:
  assumes "is_scalar c"
  shows "decode_char (map unat (encode_char c) @ r) = Some (c, r)"
proof -
  have m: "c mod 64 < 64" "c div 64 mod 64 < 64" "c div 4096 mod 64 < 64" by simp_all
  show ?thesis
  proof (cases "c < 0x80")
    case False
    show ?thesis
    proof (cases "c < 0x800")
      case True
      have "2 \<le> c div 64" "c div 64 < 32" using True False by (simp_all add: less_mult_imp_div_less)
      then show ?thesis using True False m assms
        by (simp add: encode_char_bytes decode_char_def is_cont_def)
    next
      case F2: False
      show ?thesis
      proof (cases "c < 0x10000")
        case True
        have "c div 4096 < 16" using True by (simp add: less_mult_imp_div_less)
        then show ?thesis using True False F2 m assms split_3 [of c]
          by (simp add: encode_char_bytes decode_char_def is_cont_def Let_def)
      next
        case F3: False
        have "c div 262144 < 5" using assms F3 by (auto simp: is_scalar_def less_mult_imp_div_less)
        then show ?thesis using False F2 F3 m assms split_4 [of c]
          by (simp add: encode_char_bytes decode_char_def is_cont_def Let_def)
      qed
    qed
  qed (use assms in \<open>simp add: encode_char_bytes decode_char_def\<close>)
qed

lemma encode_char_nonempty: "encode_char c \<noteq> []"
  by (simp add: encode_char_def)

text \<open>Decoding what was encoded gives the string back.\<close>

lemma from_utf8_encode:
  "list_all is_scalar s \<Longrightarrow> from_utf8 (utf8_encode s) = Some s"
proof (induction s)
  case (Cons c s)
  then have "decode_all (map unat (encode_char c) @ map unat (utf8_encode s)) = Some (c # s)"
    by (subst decode_all.simps) (simp add: decode_encode_char encode_char_nonempty from_utf8_def)
  then show ?case by (simp add: from_utf8_def utf8_encode_def)
qed (simp add: from_utf8_def utf8_encode_def decode_all.simps)

section \<open>Slicing\<close>

text \<open>\<open>&s[i..j]\<close> on the bytes of a string: \<open>None\<close> where the slice panics.\<close>

definition is_char_boundary :: "byte list \<Rightarrow> nat \<Rightarrow> bool" where
  "is_char_boundary bs i \<longleftrightarrow> i = length bs \<or> (i < length bs \<and> \<not> is_cont (unat (bs ! i)))"

definition str_slice :: "byte list \<Rightarrow> nat \<Rightarrow> nat \<Rightarrow> byte list option" where
  "str_slice bs i j =
     (if i \<le> j \<and> is_char_boundary bs i \<and> is_char_boundary bs j
      then Some (take (j - i) (drop i bs)) else None)"

section \<open>Integers\<close>

definition digit_val :: "uchar \<Rightarrow> nat option" where
  "digit_val c =
     (if 48 \<le> c \<and> c \<le> 57 then Some (c - 48)
      else if 97 \<le> c \<and> c \<le> 122 then Some (c - 87)
      else if 65 \<le> c \<and> c \<le> 90 then Some (c - 55)
      else None)"

fun digits_val :: "nat \<Rightarrow> nat \<Rightarrow> nat \<Rightarrow> ustring \<Rightarrow> nat option" where
  "digits_val radix bound acc [] = Some acc"
| "digits_val radix bound acc (c # cs) =
     (case digit_val c of
        None \<Rightarrow> None
      | Some d \<Rightarrow>
          if radix \<le> d \<or> bound < acc * radix + d then None
          else digits_val radix bound (acc * radix + d) cs)"

text \<open>
  \<open>from_str_radix\<close> of an unsigned type with the given greatest value: an optional plus sign,
  then at least one digit.
\<close>

definition parse_uint :: "nat \<Rightarrow> nat \<Rightarrow> ustring \<Rightarrow> nat option" where
  "parse_uint radix bound s =
     (case s of
        [] \<Rightarrow> None
      | c # cs \<Rightarrow>
          if c = 43 then (if cs = [] then None else digits_val radix bound 0 cs)
          else digits_val radix bound 0 s)"

lemma parse_uint_bound: "parse_uint radix bound s = Some n \<Longrightarrow> n \<le> bound"
proof -
  have "digits_val radix bound acc cs = Some n \<Longrightarrow> acc \<le> bound \<Longrightarrow> n \<le> bound" for acc cs
    by (induction radix bound acc cs rule: digits_val.induct) (auto split: option.splits if_splits)
  from this [of 0] show "parse_uint radix bound s = Some n \<Longrightarrow> n \<le> bound"
    by (fastforce simp: parse_uint_def simp del: digits_val.simps split: list.splits if_splits)
qed

function dec_digits :: "nat \<Rightarrow> ustring" where
  "dec_digits n = (if n < 10 then [48 + n] else dec_digits (n div 10) @ [48 + n mod 10])"
  by pat_completeness auto
termination by (relation "measure id") auto

declare dec_digits.simps [simp del]

definition hex_digit :: "nat \<Rightarrow> uchar" where
  "hex_digit d = (if d < 10 then 48 + d else 87 + d)"

text \<open>\<open>{:04x}\<close> of a 16-bit number.\<close>

definition hex4 :: "nat \<Rightarrow> ustring" where
  "hex4 n = map hex_digit [n div 4096 mod 16, n div 256 mod 16, n div 16 mod 16, n mod 16]"

lemma digits_val_append:
  "digits_val radix bound acc (a @ b) =
     (case digits_val radix bound acc a of None \<Rightarrow> None | Some v \<Rightarrow> digits_val radix bound v b)"
  by (induction radix bound acc a rule: digits_val.induct) (auto split: option.splits)

lemma parse_dec_digits: "n \<le> bound \<Longrightarrow> digits_val 10 bound 0 (dec_digits n) = Some n"
proof (induction n rule: dec_digits.induct)
  case (1 n)
  show ?case
  proof (cases "n < 10")
    case True
    then show ?thesis using 1(2) by (simp add: dec_digits.simps [of n] digit_val_def)
  next
    case False
    have d: "digit_val (48 + n mod 10) = Some (n mod 10)" by (simp add: digit_val_def)
    have "n div 10 \<le> bound" using 1(2) by (meson div_le_dividend le_trans)
    then have "digits_val 10 bound 0 (dec_digits (n div 10)) = Some (n div 10)" using 1(1) False by simp
    then show ?thesis using False 1(2) d
      by (subst dec_digits.simps) (simp add: digits_val_append)
  qed
qed

text \<open>Printing a number and parsing it again.\<close>

lemma parse_uint_dec:
  assumes "n \<le> bound"
  shows "parse_uint 10 bound (dec_digits n) = Some n"
proof -
  have "dec_digits n \<noteq> [] \<and> hd (dec_digits n) \<noteq> 43"
  proof (induction n rule: dec_digits.induct)
    case (1 n)
    then show ?case by (cases "n < 10") (simp_all add: dec_digits.simps [of n])
  qed
  then show ?thesis using parse_dec_digits [OF assms]
    by (cases "dec_digits n") (auto simp: parse_uint_def)
qed

end
