(* ===== verification/Term.thy ===== *)
theory Term
  imports Search Blocks Modes Palette Text
begin

text \<open>
  The terminal state and the operations the escape-sequence interpreter is made of
  (\<open>crates/zest-core/src/term.rs\<close>).  The width of a character (crate \<open>unicode_width\<close>) is the
  parameter \<open>cwidth\<close>; the parser itself (crate \<open>vte\<close>) is not modelled: the model starts where
  it calls back.
\<close>

section \<open>Events, damage and state\<close>

datatype attention_cause = CauseBell | CauseNotify

datatype progress_state = ProgressNormal | ProgressError | ProgressWarning

datatype progress = NoProgress | ProgressAt nat progress_state | Indeterminate

definition is_busy :: "progress \<Rightarrow> bool" where
  "is_busy p \<longleftrightarrow> p \<noteq> NoProgress"

datatype term_event =
    Reply "byte list"
  | Title ustring
  | Bell
  | Attention attention_cause
  | CursorStyleChanged cursor_style
  | SyncUpdate bool
  | Hyperlink "ustring option"
  | ViewportRebased
  | HistoryCleared
  | CwdChanged "ustring option" ustring
  | ShellFactsChanged

record damage =
  dmg_dirty :: bool
  dmg_full :: bool

definition damage_mark :: "damage \<Rightarrow> damage" where
  "damage_mark d = d\<lparr>dmg_dirty := True\<rparr>"

definition damage_mark_full :: "damage \<Rightarrow> damage" where
  "damage_mark_full d = d\<lparr>dmg_dirty := True, dmg_full := True\<rparr>"

record tm =
  t_grid :: grid
  t_alt :: "grid option"
  t_restated :: bool
  t_template :: cell
  t_saved :: saved_cursor
  t_saved_alt :: saved_cursor
  t_kitty :: "byte list"
  t_kitty_alt :: "byte list"
  t_modes :: modes
  t_palette :: palette
  t_tabs :: "bool list"
  t_events :: "term_event list"
  t_damage :: damage
  t_seq :: nat
  t_title :: ustring
  t_progress :: progress
  t_cursor_style :: cursor_style
  t_style_from_program :: bool
  t_default_style :: cursor_style
  t_selection :: "selection option"
  t_hyperlink :: "nat option"
  t_next_hyperlink :: nat
  t_blocks :: block_index
  t_cwd :: ustring
  t_cwd_host :: "ustring option"
  t_facts :: "ustring \<rightharpoonup> ustring"
  t_prompt_end :: "(line_id \<times> nat) option"
  t_pending_command :: "ustring option"
  t_now_ms :: "nat option"
  t_input_author :: "byte list option"

definition KITTY_STACK_DEPTH :: nat where
  "KITTY_STACK_DEPTH = 8"

definition default_tabs :: "nat \<Rightarrow> bool list" where
  "default_tabs cols = map (\<lambda>c. 0 < c \<and> c mod 8 = 0) [0..<cols]"

definition palette_seed :: palette_snapshot where
  "palette_seed = fill_standard_extended
     \<lparr>ps_colors = replicate 256 (rgb_new 0 0 0), ps_foreground = rgb_new 0xd7 0xdc 0xea,
      ps_background = rgb_new 0x0b 0x0f 0x1a, ps_cursor = rgb_new 0x6e 0xa8 0xff\<rparr>"

definition term_new :: "nat \<Rightarrow> nat \<Rightarrow> nat \<Rightarrow> tm" where
  "term_new cols rows limit =
     \<lparr>t_grid = grid_new cols rows limit, t_alt = None, t_restated = False,
      t_template = default_cell, t_saved = default_saved_cursor,
      t_saved_alt = default_saved_cursor, t_kitty = [], t_kitty_alt = [],
      t_modes = initial_modes, t_palette = palette_new palette_seed,
      t_tabs = default_tabs cols, t_events = [],
      t_damage = \<lparr>dmg_dirty = False, dmg_full = False\<rparr>, t_seq = 0, t_title = [],
      t_progress = NoProgress, t_cursor_style = default_cursor_style,
      t_style_from_program = False, t_default_style = default_cursor_style,
      t_selection = None, t_hyperlink = None, t_next_hyperlink = 0,
      t_blocks = block_index_new, t_cwd = [], t_cwd_host = None, t_facts = Map.empty,
      t_prompt_end = None, t_pending_command = None, t_now_ms = None, t_input_author = None\<rparr>"

text \<open>The screen in front of the user, and an update of it.\<close>

definition active :: "tm \<Rightarrow> grid" where
  "active t = (case t_alt t of Some a \<Rightarrow> a | None \<Rightarrow> t_grid t)"

definition on_active :: "(grid \<Rightarrow> grid) \<Rightarrow> tm \<Rightarrow> tm" where
  "on_active f t =
     (case t_alt t of Some a \<Rightarrow> t\<lparr>t_alt := Some (f a)\<rparr> | None \<Rightarrow> t\<lparr>t_grid := f (t_grid t)\<rparr>)"

definition set_cursor_pos :: "nat \<Rightarrow> nat \<Rightarrow> grid \<Rightarrow> grid" where
  "set_cursor_pos row col g = g\<lparr>g_cursor := \<lparr>cur_row = row, cur_col = col, cur_pending_wrap = False\<rparr>\<rparr>"

definition touch :: "tm \<Rightarrow> tm" where
  "touch t = t\<lparr>t_seq := t_seq t + 1, t_damage := damage_mark (t_damage t)\<rparr>"

definition touch_full :: "tm \<Rightarrow> tm" where
  "touch_full t = t\<lparr>t_seq := t_seq t + 1, t_damage := damage_mark_full (t_damage t)\<rparr>"

definition push_event :: "term_event \<Rightarrow> tm \<Rightarrow> tm" where
  "push_event e t = t\<lparr>t_events := t_events t @ [e]\<rparr>"

section \<open>The embedder's side\<close>

definition in_alt_screen :: "tm \<Rightarrow> bool" where
  "in_alt_screen t \<longleftrightarrow> t_alt t \<noteq> None"

definition set_default_cursor_style :: "tm \<Rightarrow> cursor_style \<Rightarrow> tm" where
  "set_default_cursor_style t style =
     (let t = t\<lparr>t_default_style := style\<rparr>
      in if \<not> t_style_from_program t then t\<lparr>t_cursor_style := style\<rparr> else t)"

definition set_palette :: "tm \<Rightarrow> palette_snapshot \<Rightarrow> tm" where
  "set_palette t seed =
     t\<lparr>t_palette := reseed (t_palette t) seed, t_damage := damage_mark_full (t_damage t)\<rparr>"

definition take_events :: "tm \<Rightarrow> term_event list \<times> tm" where
  "take_events t = (t_events t, t\<lparr>t_events := []\<rparr>)"

definition take_damage :: "tm \<Rightarrow> damage \<times> tm" where
  "take_damage t = (t_damage t, t\<lparr>t_damage := \<lparr>dmg_dirty = False, dmg_full = False\<rparr>\<rparr>)"

definition term_scroll_display :: "tm \<Rightarrow> int \<Rightarrow> tm" where
  "term_scroll_display t delta =
     (let t = on_active (\<lambda>g. scroll_display g delta) t
      in t\<lparr>t_damage := damage_mark_full (t_damage t)\<rparr>)"

definition term_scroll_to_bottom :: "tm \<Rightarrow> tm" where
  "term_scroll_to_bottom t =
     (let t = on_active scroll_to_bottom t in t\<lparr>t_damage := damage_mark_full (t_damage t)\<rparr>)"

definition term_scroll_to_line :: "tm \<Rightarrow> line_id \<Rightarrow> tm \<times> bool" where
  "term_scroll_to_line t line =
     (if t_alt t \<noteq> None then (t, False)
      else
        case scroll_to_line (t_grid t) line of
          (g, found) \<Rightarrow>
            let t = t\<lparr>t_grid := g\<rparr>
            in (if found then t\<lparr>t_damage := damage_mark_full (t_damage t)\<rparr> else t, found))"

definition set_block_context :: "tm \<Rightarrow> block_id \<Rightarrow> block_context \<Rightarrow> tm" where
  "set_block_context t i c = touch (t\<lparr>t_blocks := set_context (t_blocks t) i c\<rparr>)"

definition set_selection :: "tm \<Rightarrow> selection option \<Rightarrow> tm" where
  "set_selection t s =
     (if t_selection t \<noteq> s
      then t\<lparr>t_selection := s, t_damage := damage_mark_full (t_damage t)\<rparr> else t)"

definition term_selection_text :: "tm \<Rightarrow> ustring option" where
  "term_selection_text t =
     (case t_selection t of
        None \<Rightarrow> None
      | Some s \<Rightarrow> let text = selection_text (active t) s in if text = [] then None else Some text)"

definition term_abs_pos :: "tm \<Rightarrow> nat \<Rightarrow> nat \<Rightarrow> abs_pos option" where
  "term_abs_pos t row col =
     (let g = active t
      in map_option (\<lambda>line. AbsPos line (min col (g_cols g - 1)))
           (line_id_at g (min row (g_rows g - 1))))"

text \<open>\<open>text.replace("\r\n", "\r").replace('\n', "\r")\<close>.\<close>

fun drop_lf_after_cr :: "ustring \<Rightarrow> ustring" where
  "drop_lf_after_cr [] = []"
| "drop_lf_after_cr [c] = [c]"
| "drop_lf_after_cr (c # d # cs) =
     (if c = 13 \<and> d = 10 then 13 # drop_lf_after_cr cs else c # drop_lf_after_cr (d # cs))"

definition normalize_newlines :: "ustring \<Rightarrow> ustring" where
  "normalize_newlines s = map (\<lambda>c. if c = 10 then 13 else c) (drop_lf_after_cr s)"

definition PASTE_BEGIN :: "byte list" where
  "PASTE_BEGIN = [27, 91, 50, 48, 48, 126]"

definition PASTE_END :: "byte list" where
  "PASTE_END = [27, 91, 50, 48, 49, 126]"

definition encode_paste :: "tm \<Rightarrow> ustring \<Rightarrow> byte list" where
  "encode_paste t s =
     (let normalized = normalize_newlines s
      in if flag_contains (t_modes t) M_BRACKETED_PASTE
         then PASTE_BEGIN @ utf8_encode normalized @ PASTE_END
         else utf8_encode normalized)"

definition term_set_restated :: "tm \<Rightarrow> bool \<Rightarrow> tm" where
  "term_set_restated t yes =
     t\<lparr>t_restated := yes, t_grid := set_viewport_restated (t_grid t) yes,
       t_alt := map_option (\<lambda>a. set_viewport_restated a yes) (t_alt t)\<rparr>"

section \<open>Resizing\<close>

text \<open>The line at the top of the viewport before the resize, and whether it continues a wrapped line.\<close>

definition resize_anchor :: "tm \<Rightarrow> nat \<Rightarrow> (line_id \<times> bool) option" where
  "resize_anchor t cols =
     (if cols \<noteq> g_cols (t_grid t) \<and> g_restated (t_grid t) \<and> t_alt t = None
      then
        let fragment =
          (if g_scrollback_len (t_grid t) = 0 then False
           else case grid_line (t_grid t) (g_scrollback_len (t_grid t) - 1) of
                  None \<Rightarrow> False | Some r \<Rightarrow> row_wrapped r)
        in Some (row_id (active_row (t_grid t) 0), fragment)
      else None)"

text \<open>How many rows to file as history so the anchor stays at the top.\<close>

definition rows_above_anchor :: "grid \<Rightarrow> reindex \<Rightarrow> (line_id \<times> bool) option \<Rightarrow> nat option" where
  "rows_above_anchor g m anchor =
     (case anchor of
        None \<Rightarrow> None
      | Some (old, fragment) \<Rightarrow>
          (case reindex_lookup m old of
             None \<Rightarrow> None
           | Some new \<Rightarrow>
               (case find_first (\<lambda>r. row_id (active_row g r) = new) [0..<g_rows g] of
                  None \<Rightarrow> None
                | Some row \<Rightarrow>
                    let k = row + (if fragment then 1 else 0) in if 0 < k then Some k else None)))"

definition term_resize :: "tm \<Rightarrow> nat \<Rightarrow> nat \<Rightarrow> tm" where
  "term_resize t cols rows =
     (let t = (if cols \<noteq> g_cols (t_grid t) then t\<lparr>t_selection := None\<rparr> else t);
          anchor = resize_anchor t cols;
          (g, m) = grid_resize (t_grid t) cols rows (t_template t);
          t = t\<lparr>t_grid := g,
                t_alt := map_option (\<lambda>a. fst (grid_resize a cols rows (t_template t))) (t_alt t)\<rparr>;
          t = (case rows_above_anchor (t_grid t) m anchor of
                 None \<Rightarrow> t
               | Some k \<Rightarrow> push_event ViewportRebased
                   (t\<lparr>t_grid := bank_viewport_top (t_grid t) k (t_template t)\<rparr>));
          t = (if \<not> reindex_is_empty m
               then t\<lparr>t_blocks := reanchor (t_blocks t) m, t_prompt_end := None\<rparr> else t)
      in touch_full (t\<lparr>t_tabs := default_tabs cols\<rparr>))"

definition term_settle_restate :: "tm \<Rightarrow> tm" where
  "term_settle_restate t =
     (case settle_restate (active t) of
        (g, moved) \<Rightarrow>
          let t = on_active (\<lambda>_. g) t
          in if moved then touch_full (push_event ViewportRebased t) else t)"

definition strand_if_diverged :: "tm \<Rightarrow> tm" where
  "strand_if_diverged t =
     (if \<not> needs_strand (active t) then t
      else
        case strand_settled (active t) (t_template t) of
          (g, moved) \<Rightarrow>
            let t = on_active (\<lambda>_. g) t
            in if moved then touch_full (push_event ViewportRebased t) else t)"

section \<open>Writing\<close>

definition oldest_retained_line :: "tm \<Rightarrow> line_id" where
  "oldest_retained_line t = oldest_line_id (t_grid t)"

definition evict_blocks :: "tm \<Rightarrow> tm" where
  "evict_blocks t =
     (let oldest = oldest_retained_line t;
          evictable = (case first_of (bi_blocks (t_blocks t)) of
                         None \<Rightarrow> False
                       | Some b \<Rightarrow> (case b_end_line b of None \<Rightarrow> False | Some e \<Rightarrow> e < oldest))
      in if evictable then t\<lparr>t_blocks := evict_before (t_blocks t) oldest\<rparr> else t)"

definition clear_pending :: "grid \<Rightarrow> grid" where
  "clear_pending g = g\<lparr>g_cursor := (g_cursor g)\<lparr>cur_pending_wrap := False\<rparr>\<rparr>"

definition set_row :: "nat \<Rightarrow> grid \<Rightarrow> grid" where
  "set_row row g = g\<lparr>g_cursor := (g_cursor g)\<lparr>cur_row := row\<rparr>\<rparr>"

definition set_col :: "nat \<Rightarrow> grid \<Rightarrow> grid" where
  "set_col col g = g\<lparr>g_cursor := (g_cursor g)\<lparr>cur_col := col\<rparr>\<rparr>"

abbreviation crow :: "tm \<Rightarrow> nat" where
  "crow t \<equiv> cur_row (g_cursor (active t))"

abbreviation ccol :: "tm \<Rightarrow> nat" where
  "ccol t \<equiv> cur_col (g_cursor (active t))"

definition linefeed :: "tm \<Rightarrow> tm" where
  "linefeed t =
     (let t = strand_if_diverged t;
          t = (if crow t = sr_bottom (g_region (active t))
               then touch_full (evict_blocks (on_active (\<lambda>g. scroll_up g 1 (t_template t)) t))
               else if crow t + 1 < g_rows (active t)
               then touch (on_active (set_row (crow t + 1)) t)
               else t)
      in on_active clear_pending t)"

text \<open>Mark the row as continued, move down and return: a wrap that has come due.\<close>

definition wrap_now :: "tm \<Rightarrow> tm" where
  "wrap_now t =
     on_active (set_col 0) (linefeed (on_active (\<lambda>g. grid_set_wrapped g (cur_row (g_cursor g)) True) t))"

definition resolve_wrap :: "tm \<Rightarrow> tm" where
  "resolve_wrap t =
     (if cur_pending_wrap (g_cursor (active t)) \<and> flag_contains (t_modes t) M_AUTO_WRAP
      then on_active clear_pending (wrap_now t) else t)"

text \<open>The cells a character of the given width leaves in the row, and the cursor after it.\<close>

definition put_glyph :: "uchar \<Rightarrow> nat \<Rightarrow> tm \<Rightarrow> tm" where
  "put_glyph ch width t =
     (let row = crow t; col = ccol t; cols = g_cols (active t);
          c = (t_template t)\<lparr>cell_ch := ch\<rparr>;
          c = (if width = 2 then c\<lparr>cell_flags := cell_flags c OR CF_WIDE\<rparr> else c);
          t = on_active (\<lambda>g. set_cell g row col c) t;
          t = (if width = 2
               then on_active (\<lambda>g. set_cell g row (col + 1)
                 ((t_template t)\<lparr>cell_ch := 32, cell_flags := cell_flags (t_template t) OR CF_WIDE_SPACER\<rparr>)) t
               else t);
          advance = col + width
      in on_active (\<lambda>g. if cols \<le> advance
           then g\<lparr>g_cursor := (g_cursor g)\<lparr>cur_col := cols - 1, cur_pending_wrap := True\<rparr>\<rparr>
           else set_col advance g) t)"

definition write_char :: "(uchar \<Rightarrow> nat option) \<Rightarrow> tm \<Rightarrow> uchar \<Rightarrow> tm" where
  "write_char cwidth t ch =
     (let t = strand_if_diverged t;
          width = (case cwidth ch of None \<Rightarrow> 0 | Some w \<Rightarrow> w)
      in if width = 0 then
           (if 0 < ccol t
            then touch (on_active (\<lambda>g. set_active_row g (cur_row (g_cursor g))
              (push_zerowidth (active_row g (cur_row (g_cursor g))) (cur_col (g_cursor g) - 1) ch)) t)
            else t)
         else
           let cols = g_cols (active t);
               t = resolve_wrap t
           in if width = 2 \<and> cols \<le> ccol t + 1 \<and> \<not> flag_contains (t_modes t) M_AUTO_WRAP then t
              else
                let t = (if width = 2 \<and> cols \<le> ccol t + 1 then wrap_now t else t);
                    t = (if flag_contains (t_modes t) M_INSERT
                         then on_active (\<lambda>g. insert_cells g width (t_template t)) t else t)
                in touch (put_glyph ch width t))"

definition carriage_return :: "tm \<Rightarrow> tm" where
  "carriage_return t = touch (on_active (clear_pending \<circ> set_col 0) (strand_if_diverged t))"

definition backspace :: "tm \<Rightarrow> tm" where
  "backspace t =
     (let t = strand_if_diverged t; col = ccol t;
          t = (if 0 < col then on_active (set_col (col - 1)) t else t)
      in touch (on_active clear_pending t))"

definition tab_stop :: "tm \<Rightarrow> nat \<Rightarrow> bool" where
  "tab_stop t c = (case slice_get (t_tabs t) c of None \<Rightarrow> False | Some b \<Rightarrow> b)"

definition next_tab :: "tm \<Rightarrow> nat \<Rightarrow> nat \<Rightarrow> nat" where
  "next_tab t cols col =
     (case find_first (tab_stop t) [col + 1..<cols] of None \<Rightarrow> cols - 1 | Some c \<Rightarrow> c)"

definition tab :: "tm \<Rightarrow> nat \<Rightarrow> tm" where
  "tab t count =
     (let t = strand_if_diverged t;
          col = (next_tab t (g_cols (active t)) ^^ max count 1) (ccol t)
      in touch (on_active (clear_pending \<circ> set_col col) t))"

section \<open>Cursor\<close>

definition clamp :: "nat \<Rightarrow> nat \<Rightarrow> nat \<Rightarrow> nat" where
  "clamp lo hi x = (if x < lo then lo else if hi < x then hi else x)"

definition goto :: "tm \<Rightarrow> nat \<Rightarrow> nat \<Rightarrow> tm" where
  "goto t row col =
     (let t = strand_if_diverged t; g = active t;
          (min_row, max_row) = (if flag_contains (t_modes t) M_ORIGIN
                                then (sr_top (g_region g), sr_bottom (g_region g))
                                else (0, g_rows g - 1));
          row = clamp min_row max_row (row + min_row)
      in touch (on_active (set_cursor_pos row (min col (g_cols g - 1))) t))"

definition move_up :: "tm \<Rightarrow> nat \<Rightarrow> tm" where
  "move_up t n =
     (let t = strand_if_diverged t;
          tp = (if flag_contains (t_modes t) M_ORIGIN then sr_top (g_region (active t)) else 0);
          row = max (crow t - max n 1) tp
      in touch (on_active (clear_pending \<circ> set_row row) t))"

definition move_down :: "tm \<Rightarrow> nat \<Rightarrow> tm" where
  "move_down t n =
     (let t = strand_if_diverged t;
          bottom = (if flag_contains (t_modes t) M_ORIGIN then sr_bottom (g_region (active t))
                    else g_rows (active t) - 1);
          row = min (crow t + max n 1) bottom
      in touch (on_active (clear_pending \<circ> set_row row) t))"

definition move_left :: "tm \<Rightarrow> nat \<Rightarrow> tm" where
  "move_left t n =
     (let t = strand_if_diverged t
      in touch (on_active (clear_pending \<circ> set_col (ccol t - max n 1)) t))"

definition move_right :: "tm \<Rightarrow> nat \<Rightarrow> tm" where
  "move_right t n =
     (let t = strand_if_diverged t
      in touch (on_active (clear_pending \<circ> set_col (min (ccol t + max n 1) (g_cols (active t) - 1))) t))"

definition save_cursor :: "tm \<Rightarrow> tm" where
  "save_cursor t =
     (let saved = \<lparr>sc_cursor = g_cursor (active t), sc_template = t_template t,
                   sc_origin_mode = flag_contains (t_modes t) M_ORIGIN\<rparr>
      in if t_alt t \<noteq> None then t\<lparr>t_saved_alt := saved\<rparr> else t\<lparr>t_saved := saved\<rparr>)"

definition restore_cursor :: "tm \<Rightarrow> tm" where
  "restore_cursor t =
     (let saved = (if t_alt t \<noteq> None then t_saved_alt t else t_saved t);
          t = t\<lparr>t_template := sc_template saved,
                t_modes := flag_set (t_modes t) M_ORIGIN (sc_origin_mode saved)\<rparr>;
          g = active t
      in touch (on_active (set_cursor_pos (min (cur_row (sc_cursor saved)) (g_rows g - 1))
                                          (min (cur_col (sc_cursor saved)) (g_cols g - 1))) t))"

section \<open>The Kitty keyboard stacks and the alternate screen\<close>

definition kitty_stack :: "tm \<Rightarrow> byte list" where
  "kitty_stack t = (if t_alt t \<noteq> None then t_kitty_alt t else t_kitty t)"

definition set_kitty_stack :: "byte list \<Rightarrow> tm \<Rightarrow> tm" where
  "set_kitty_stack s t = (if t_alt t \<noteq> None then t\<lparr>t_kitty_alt := s\<rparr> else t\<lparr>t_kitty := s\<rparr>)"

definition sync_kitty_modes :: "tm \<Rightarrow> tm" where
  "sync_kitty_modes t =
     (let flags = (case last_of (kitty_stack t) of None \<Rightarrow> 0 | Some f \<Rightarrow> f);
          m = with_kitty_flags (t_modes t) flags
      in if m \<noteq> t_modes t then touch (t\<lparr>t_modes := m\<rparr>) else t)"

definition kitty_push :: "tm \<Rightarrow> byte \<Rightarrow> tm" where
  "kitty_push t flags =
     (let s = kitty_stack t;
          s = (if length s = KITTY_STACK_DEPTH then tl s else s)
      in sync_kitty_modes (set_kitty_stack (s @ [flags AND KITTY_SUPPORTED]) t))"

text \<open>\<open>pop\<close> the given number of times, or until the stack is empty.\<close>

definition kitty_pop :: "tm \<Rightarrow> nat \<Rightarrow> tm" where
  "kitty_pop t count =
     (let s = kitty_stack t
      in sync_kitty_modes (set_kitty_stack (take (length s - count) s) t))"

definition kitty_set :: "tm \<Rightarrow> byte \<Rightarrow> nat \<Rightarrow> tm" where
  "kitty_set t flags mode =
     (let flags = flags AND KITTY_SUPPORTED;
          current = kitty_flags_of (t_modes t);
          top_flags = (if mode = 2 then current OR flags
                       else if mode = 3 then current AND NOT flags else flags);
          s = kitty_stack t
      in sync_kitty_modes (set_kitty_stack (butlast s @ [top_flags]) t))"

definition kitty_reset :: "tm \<Rightarrow> tm" where
  "kitty_reset t = sync_kitty_modes (t\<lparr>t_kitty := [], t_kitty_alt := []\<rparr>)"

definition set_alt_screen :: "tm \<Rightarrow> bool \<Rightarrow> tm" where
  "set_alt_screen t enable =
     (if enable = (t_alt t \<noteq> None) then t
      else
        let t = (if enable
                 then
                   let alt = clear_all (grid_new (g_cols (t_grid t)) (g_rows (t_grid t)) 0) (t_template t);
                       alt = set_viewport_restated alt (t_restated t)
                   in t\<lparr>t_alt := Some alt, t_modes := t_modes t OR M_ALT_SCREEN\<rparr>
                 else t\<lparr>t_alt := None, t_modes := flag_remove (t_modes t) M_ALT_SCREEN\<rparr>)
        in touch_full (sync_kitty_modes t))"

section \<open>Character attributes\<close>

type_synonym params = "nat list list"

text \<open>A parameter is a 16-bit number; \<open>as u8\<close> keeps its low byte.\<close>

definition as_byte :: "nat \<Rightarrow> byte" where
  "as_byte n = of_nat n"

text \<open>The closure \<open>next\<close>: the head if there is one, else the first number of the next group.\<close>

definition next_param :: "nat option \<Rightarrow> params \<Rightarrow> nat option \<times> params" where
  "next_param head it =
     (case head of
        Some v \<Rightarrow> (Some v, it)
      | None \<Rightarrow> (case it of [] \<Rightarrow> (None, []) | p # it \<Rightarrow> (first_of p, it)))"

definition parse_extended_color :: "nat list \<Rightarrow> params \<Rightarrow> color option \<times> params" where
  "parse_extended_color rest it =
     (case next_param (first_of rest) it of
        (None, it) \<Rightarrow> (None, it)
      | (Some kind, it) \<Rightarrow>
          if kind = 2 then
            (if 5 \<le> length rest
             then (Some (Rgb (as_byte (rest ! 2)) (as_byte (rest ! 3)) (as_byte (rest ! 4))), it)
             else if length rest = 4
             then (Some (Rgb (as_byte (rest ! 1)) (as_byte (rest ! 2)) (as_byte (rest ! 3))), it)
             else
               (case next_param None it of
                  (None, it) \<Rightarrow> (None, it)
                | (Some r, it) \<Rightarrow>
                    (case next_param None it of
                       (None, it) \<Rightarrow> (None, it)
                     | (Some g, it) \<Rightarrow>
                         (case next_param None it of
                            (None, it) \<Rightarrow> (None, it)
                          | (Some b, it) \<Rightarrow> (Some (Rgb (as_byte r) (as_byte g) (as_byte b)), it)))))
          else if kind = 5 then
            (if 2 \<le> length rest then (Some (Indexed (as_byte (rest ! 1))), it)
             else (case next_param None it of
                     (None, it) \<Rightarrow> (None, it)
                   | (Some i, it) \<Rightarrow> (Some (Indexed (as_byte i)), it)))
          else (None, it))"

definition UNDERLINES :: cell_flags where
  "UNDERLINES = CF_UNDERLINE OR CF_DOUBLE_UNDERLINE OR CF_UNDERCURL"

definition sgr_on :: "cell_flags \<Rightarrow> cell \<Rightarrow> cell" where
  "sgr_on f c = c\<lparr>cell_flags := cell_flags c OR f\<rparr>"

definition sgr_off :: "cell_flags \<Rightarrow> cell \<Rightarrow> cell" where
  "sgr_off f c = c\<lparr>cell_flags := flag_remove (cell_flags c) f\<rparr>"

text \<open>A parameter of one number that does not take others with it.\<close>

definition sgr_single :: "nat \<Rightarrow> cell \<Rightarrow> cell" where
  "sgr_single n c =
     (if n = 0 then default_cell
      else if n = 1 then sgr_on CF_BOLD c
      else if n = 2 then sgr_on CF_DIM c
      else if n = 3 then sgr_on CF_ITALIC c
      else if n = 4 then sgr_on CF_UNDERLINE c
      else if n = 5 \<or> n = 6 then sgr_on CF_BLINK c
      else if n = 7 then sgr_on CF_INVERSE c
      else if n = 8 then sgr_on CF_HIDDEN c
      else if n = 9 then sgr_on CF_STRIKEOUT c
      else if n = 21 then sgr_on CF_DOUBLE_UNDERLINE c
      else if n = 22 then sgr_off (CF_BOLD OR CF_DIM) c
      else if n = 23 then sgr_off CF_ITALIC c
      else if n = 24 then sgr_off UNDERLINES c
      else if n = 25 then sgr_off CF_BLINK c
      else if n = 27 then sgr_off CF_INVERSE c
      else if n = 28 then sgr_off CF_HIDDEN c
      else if n = 29 then sgr_off CF_STRIKEOUT c
      else if 30 \<le> n \<and> n \<le> 37 then c\<lparr>cell_fg := Indexed (as_byte n - 30)\<rparr>
      else if 40 \<le> n \<and> n \<le> 47 then c\<lparr>cell_bg := Indexed (as_byte n - 40)\<rparr>
      else if 90 \<le> n \<and> n \<le> 97 then c\<lparr>cell_fg := Indexed (as_byte n - 90 + 8)\<rparr>
      else if 100 \<le> n \<and> n \<le> 107 then c\<lparr>cell_bg := Indexed (as_byte n - 100 + 8)\<rparr>
      else if n = 39 then c\<lparr>cell_fg := DefaultColor\<rparr>
      else if n = 49 then c\<lparr>cell_bg := DefaultColor\<rparr>
      else c)"

definition sgr_underline_style :: "nat \<Rightarrow> cell \<Rightarrow> cell" where
  "sgr_underline_style n c =
     (if n = 0 then sgr_off UNDERLINES c
      else if n = 2 then sgr_on CF_DOUBLE_UNDERLINE c
      else if n = 3 then sgr_on CF_UNDERCURL c
      else sgr_on CF_UNDERLINE c)"

text \<open>One turn of the loop of \<open>apply_sgr\<close>: the template and the groups left.\<close>

definition sgr_step :: "nat list \<Rightarrow> params \<Rightarrow> cell \<Rightarrow> cell \<times> params" where
  "sgr_step p it c =
     (case p of
        [] \<Rightarrow> (c, it)
      | n # rest \<Rightarrow>
          if n = 38 then
            (case parse_extended_color rest it of
               (None, it) \<Rightarrow> (c, it) | (Some col, it) \<Rightarrow> (c\<lparr>cell_fg := col\<rparr>, it))
          else if n = 48 then
            (case parse_extended_color rest it of
               (None, it) \<Rightarrow> (c, it) | (Some col, it) \<Rightarrow> (c\<lparr>cell_bg := col\<rparr>, it))
          else if n = 58 then (c, snd (parse_extended_color rest it))
          else if rest = [] then (sgr_single n c, it)
          else if n = 4 \<and> length rest = 1 then (sgr_underline_style (hd rest) c, it)
          else (c, it))"

lemma next_param_length: "length (snd (next_param h it)) \<le> length it"
  by (auto simp: next_param_def split: option.splits list.splits)

lemma parse_extended_color_length: "length (snd (parse_extended_color rest it)) \<le> length it"
proof -
  have n: "next_param h it = (v, it') \<Longrightarrow> length it' \<le> length it" for h v it it'
    using next_param_length [of h it] by simp
  show ?thesis
    by (auto simp: parse_extended_color_def dest!: n split: option.splits prod.splits)
qed

lemma sgr_step_length: "length (snd (sgr_step p it c)) \<le> length it"
  using parse_extended_color_length [of _ it]
  by (auto simp: sgr_step_def split: list.splits option.splits prod.splits) (metis snd_conv)+

function sgr_loop :: "params \<Rightarrow> cell \<Rightarrow> cell" where
  "sgr_loop [] c = c"
| "sgr_loop (p # it) c = (case sgr_step p it c of (c, it) \<Rightarrow> sgr_loop it c)"
  by pat_completeness auto
termination
proof (relation "measure (\<lambda>(it, c). length it)", goal_cases)
  case (2 p it c x y)
  then show ?case using sgr_step_length [of p it c] by (metis in_measure case_prod_conv le_imp_less_Suc length_Cons snd_conv)
qed simp

definition apply_sgr :: "tm \<Rightarrow> params \<Rightarrow> tm" where
  "apply_sgr t ps = touch (t\<lparr>t_template := sgr_loop ps (t_template t)\<rparr>)"

end
