(* ===== verification/Perform.thy ===== *)
theory Perform
  imports Term
begin

text \<open>
  The dispatch of parsed escape sequences (\<open>crates/zest-core/src/perform.rs\<close>): what the parser
  (crate \<open>vte\<close>) calls back with is the input, \<open>print\<close>, \<open>execute\<close>, \<open>csi_dispatch\<close>,
  \<open>esc_dispatch\<close> and \<open>osc_dispatch\<close>.  Parameters of a CSI are groups of 16-bit numbers,
  parameters of an OSC are byte strings.  \<open>None\<close> is a panic, and two panics
  are modelled: the unchecked subtraction of the cursor report and the byte slices of a colour.  The
  other subtractions and index accesses of \<open>perform.rs\<close> are total operations on \<open>nat\<close> and lists here.
\<close>

section \<open>Byte strings\<close>

definition ch :: "char \<Rightarrow> nat" where
  "ch c = of_char c"

definition bytes :: "ustring \<Rightarrow> byte list" where
  "bytes s = map of_nat s"

text \<open>\<open>params.get(i).and_then(|b| from_utf8(b).ok())\<close>.\<close>

definition osc_str :: "byte list list \<Rightarrow> nat \<Rightarrow> ustring option" where
  "osc_str ps i = (case slice_get ps i of None \<Rightarrow> None | Some b \<Rightarrow> from_utf8 b)"

definition osc_str_or_empty :: "byte list list \<Rightarrow> nat \<Rightarrow> ustring" where
  "osc_str_or_empty ps i = (case osc_str ps i of None \<Rightarrow> [] | Some s \<Rightarrow> s)"

definition reply :: "byte list \<Rightarrow> tm \<Rightarrow> tm" where
  "reply bs t = push_event (Reply bs) t"

definition raise_attention :: "attention_cause \<Rightarrow> tm \<Rightarrow> tm" where
  "raise_attention cause t = push_event (Attention cause) t"

section \<open>Controls\<close>

definition execute :: "tm \<Rightarrow> byte \<Rightarrow> tm" where
  "execute t b =
     (if b = 0x07 then raise_attention CauseBell (push_event Bell t)
      else if b = 0x08 then backspace t
      else if b = 0x09 then tab t 1
      else if 0x0a \<le> b \<and> b \<le> 0x0c then
        (let t = linefeed t
         in if flag_contains (t_modes t) M_LINE_FEED_NEW_LINE then carriage_return t else t)
      else if b = 0x0d then carriage_return t
      else t)"

section \<open>Moving and erasing\<close>

definition goto_absolute :: "tm \<Rightarrow> nat \<Rightarrow> nat \<Rightarrow> tm" where
  "goto_absolute t row col =
     (let t = strand_if_diverged t
      in touch (on_active (set_cursor_pos row (min col (g_cols (active t) - 1))) t))"

definition prev_tab :: "tm \<Rightarrow> nat \<Rightarrow> nat" where
  "prev_tab t col = (case find_first (tab_stop t) (rev [0..<col]) of None \<Rightarrow> 0 | Some c \<Rightarrow> c)"

definition back_tab :: "tm \<Rightarrow> nat \<Rightarrow> tm" where
  "back_tab t count =
     (let t = strand_if_diverged t
      in touch (on_active (set_col ((prev_tab t ^^ max count 1) (ccol t))) t))"

definition reverse_index :: "tm \<Rightarrow> tm" where
  "reverse_index t =
     (let t = strand_if_diverged t
      in if crow t = sr_top (g_region (active t))
         then touch_full (on_active (\<lambda>g. scroll_down g 1 (t_template t)) t)
         else if 0 < crow t then touch (on_active (set_row (crow t - 1)) t)
         else t)"

text \<open>The part of \<open>ED 2\<close> and \<open>ED 3\<close> that forgets what described the erased rows.\<close>

definition forget_screen :: "tm \<Rightarrow> tm" where
  "forget_screen t =
     (let t = (if t_alt t = None then
                 (let t = (case active_line_id_at (t_grid t) 0 of
                             None \<Rightarrow> t
                           | Some first \<Rightarrow> t\<lparr>t_blocks := erase_screen (t_blocks t) first\<rparr>)
                  in t\<lparr>t_prompt_end := None, t_pending_command := None\<rparr>)
               else t)
      in on_active cancel_restate_debt t)"

definition forget_history :: "tm \<Rightarrow> tm" where
  "forget_history t =
     push_event HistoryCleared
       (t\<lparr>t_grid := clear_history (t_grid t), t_blocks := erase_screen (t_blocks t) 0\<rparr>)"

definition erase_in_display :: "tm \<Rightarrow> nat \<Rightarrow> tm" where
  "erase_in_display t mode =
     (let t = strand_if_diverged t; c = t_template t; row = crow t; col = ccol t;
          rows = g_rows (active t); cols = g_cols (active t);
          t = (if mode = 0 then
                 on_active (\<lambda>g.
                   let g = erase_in_row g row col (cols - 1) c
                   in if row + 1 < rows then erase_rows g (row + 1) (rows - 1) c else g) t
               else if mode = 1 then
                 on_active (\<lambda>g.
                   let g = (if 0 < row then erase_rows g 0 (row - 1) c else g)
                   in erase_in_row g row 0 col c) t
               else if mode = 2 \<or> mode = 3 then
                 (let t = forget_screen (on_active (\<lambda>g. erase_rows g 0 (rows - 1) c) t)
                  in if mode = 3 then forget_history t else t)
               else t)
      in touch_full t)"

definition erase_in_line :: "tm \<Rightarrow> nat \<Rightarrow> tm" where
  "erase_in_line t mode =
     (let t = strand_if_diverged t; c = t_template t; row = crow t; col = ccol t;
          cols = g_cols (active t);
          t = (if mode = 0 then on_active (\<lambda>g. erase_in_row g row col (cols - 1) c) t
               else if mode = 1 then on_active (\<lambda>g. erase_in_row g row 0 col c) t
               else if mode = 2 then on_active (\<lambda>g. erase_in_row g row 0 (cols - 1) c) t
               else t)
      in touch t)"

definition erase_chars :: "tm \<Rightarrow> nat \<Rightarrow> tm" where
  "erase_chars t n =
     (let t = strand_if_diverged t; row = crow t; col = ccol t;
          e = min (col + n) (g_cols (active t)) - 1
      in touch (on_active (\<lambda>g. erase_in_row g row col e (t_template t)) t))"

definition decaln :: "tm \<Rightarrow> tm" where
  "decaln t =
     touch_full (on_active (\<lambda>g.
       fold (\<lambda>row g. fold (\<lambda>col g.
           case row_get (active_row g row) col of
             None \<Rightarrow> g
           | Some c \<Rightarrow> set_cell g row col (c\<lparr>cell_ch := ch (CHR ''E'')\<rparr>))
         [0..<g_cols g] g) [0..<g_rows g] g) t)"

definition full_reset :: "tm \<Rightarrow> tm" where
  "full_reset t =
     (let t = kitty_reset (t\<lparr>t_template := default_cell, t_modes := initial_modes\<rparr>);
          t = on_active (\<lambda>g. clear_all g default_cell) (set_alt_screen t False);
          p = reset_cursor_color (reset_background (reset_foreground (reset_indexed (t_palette t) None)))
      in touch_full (t\<lparr>t_palette := p, t_blocks := block_index_new, t_prompt_end := None,
           t_pending_command := None\<rparr>))"

section \<open>Modes\<close>

definition set_mode :: "modes \<Rightarrow> bool \<Rightarrow> tm \<Rightarrow> tm" where
  "set_mode m b t = t\<lparr>t_modes := flag_set (t_modes t) m b\<rparr>"

text \<open>One parameter of \<open>CSI ? Pm h\<close> or \<open>CSI ? Pm l\<close>.\<close>

definition private_mode :: "nat \<Rightarrow> bool \<Rightarrow> tm \<Rightarrow> tm" where
  "private_mode mode enable t =
     (if mode = 1 then set_mode M_APP_CURSOR enable t
      else if mode = 6 then goto (set_mode M_ORIGIN enable t) 0 0
      else if mode = 7 then set_mode M_AUTO_WRAP enable t
      else if mode = 25 then
        (let t = set_mode M_SHOW_CURSOR enable t
         in if g_restating (active t) then term_settle_restate t
            else on_active end_restatement_window t)
      else if mode = 66 then set_mode M_APP_KEYPAD enable t
      else if mode = 1000 then set_mode M_MOUSE_CLICK enable t
      else if mode = 1002 then set_mode M_MOUSE_DRAG enable t
      else if mode = 1003 then set_mode M_MOUSE_MOTION enable t
      else if mode = 1004 then set_mode M_FOCUS_REPORTING enable t
      else if mode = 1006 then set_mode M_MOUSE_SGR enable t
      else if mode = 47 \<or> mode = 1047 then set_alt_screen t enable
      else if mode = 1048 then (if enable then save_cursor t else restore_cursor t)
      else if mode = 1049 then
        (if enable then set_alt_screen (save_cursor t) True
         else restore_cursor (set_alt_screen t False))
      else if mode = 2004 then set_mode M_BRACKETED_PASTE enable t
      else if mode = 2026 then push_event (SyncUpdate enable) (set_mode M_SYNC_UPDATE enable t)
      else if mode = 9001 then set_mode M_WIN32_INPUT enable t
      else t)"

definition set_private_modes :: "tm \<Rightarrow> params \<Rightarrow> bool \<Rightarrow> tm" where
  "set_private_modes t ps enable =
     touch (fold (\<lambda>p t. case first_of p of None \<Rightarrow> t | Some mode \<Rightarrow> private_mode mode enable t) ps t)"

definition set_ansi_modes :: "tm \<Rightarrow> params \<Rightarrow> bool \<Rightarrow> tm" where
  "set_ansi_modes t ps enable =
     touch (fold (\<lambda>p t.
       if first_of p = Some 4 then set_mode M_INSERT enable t
       else if first_of p = Some 20 then set_mode M_LINE_FEED_NEW_LINE enable t
       else t) ps t)"

section \<open>Control sequences\<close>

text \<open>\<open>arg(n, default)\<close>: zero counts as absent.\<close>

definition arg :: "params \<Rightarrow> nat \<Rightarrow> nat \<Rightarrow> nat" where
  "arg ps n dflt =
     (case slice_get ps n of
        None \<Rightarrow> dflt
      | Some p \<Rightarrow> (case first_of p of None \<Rightarrow> dflt | Some v \<Rightarrow> if v = 0 then dflt else v))"

definition set_tab :: "bool \<Rightarrow> tm \<Rightarrow> tm" where
  "set_tab b t = (if ccol t < length (t_tabs t) then t\<lparr>t_tabs := (t_tabs t)[ccol t := b]\<rparr> else t)"

definition cursor_position :: "tm \<Rightarrow> params \<Rightarrow> tm" where
  "cursor_position t ps =
     (let t = (if arg ps 0 1 = 1 \<and> arg ps 1 1 = 1 \<and> \<not> flag_contains (t_modes t) M_SHOW_CURSOR
               then on_active (\<lambda>g. note_cursor_homed_while_hidden g (t_template t)) t else t)
      in goto t (arg ps 0 1 - 1) (arg ps 1 1 - 1))"

text \<open>Movement, erasure and editing: the sequences that ignore their intermediates.\<close>

definition csi_move :: "tm \<Rightarrow> params \<Rightarrow> uchar \<Rightarrow> tm" where
  "csi_move t ps c =
     (if c = ch (CHR ''A'') then move_up t (arg ps 0 1)
      else if c = ch (CHR ''B'') \<or> c = ch (CHR ''e'') then move_down t (arg ps 0 1)
      else if c = ch (CHR ''C'') \<or> c = ch (CHR ''a'') then move_right t (arg ps 0 1)
      else if c = ch (CHR ''D'') then move_left t (arg ps 0 1)
      else if c = ch (CHR ''E'') then carriage_return (move_down t (arg ps 0 1))
      else if c = ch (CHR ''F'') then carriage_return (move_up t (arg ps 0 1))
      else if c = ch (CHR ''G'') \<or> c = 96 then goto_absolute t (crow t) (arg ps 0 1 - 1)
      else if c = ch (CHR ''d'') then goto t (arg ps 0 1 - 1) (ccol t)
      else if c = ch (CHR ''H'') \<or> c = ch (CHR ''f'') then cursor_position t ps
      else if c = ch (CHR ''I'') then tab t (arg ps 0 1)
      else if c = ch (CHR ''Z'') then back_tab t (arg ps 0 1)
      else t)"

definition csi_edit :: "tm \<Rightarrow> params \<Rightarrow> uchar \<Rightarrow> tm" where
  "csi_edit t ps c =
     (if c = ch (CHR ''J'') then erase_in_display t (arg ps 0 0)
      else if c = ch (CHR ''K'') then erase_in_line t (arg ps 0 0)
      else if c = ch (CHR ''X'') then erase_chars t (arg ps 0 1)
      else if c = 64 then touch (on_active (\<lambda>g. insert_cells g (arg ps 0 1) (t_template t)) t)
      else if c = ch (CHR ''P'') then touch (on_active (\<lambda>g. delete_cells g (arg ps 0 1) (t_template t)) t)
      else if c = ch (CHR ''L'') then touch_full (on_active (\<lambda>g. insert_lines g (arg ps 0 1) (t_template t)) t)
      else if c = ch (CHR ''M'') then touch_full (on_active (\<lambda>g. delete_lines g (arg ps 0 1) (t_template t)) t)
      else if c = ch (CHR ''S'') then
        touch_full (evict_blocks (on_active (\<lambda>g. scroll_up g (arg ps 0 1) (t_template t)) t))
      else if c = ch (CHR ''T'') then
        touch_full (on_active (\<lambda>g. scroll_down g (arg ps 0 1) (t_template t)) t)
      else t)"

definition csi_cursor_style :: "tm \<Rightarrow> nat \<Rightarrow> tm" where
  "csi_cursor_style t param =
     (let style = (if param = 0 then t_default_style t else from_decscusr (of_nat param))
      in touch (push_event (CursorStyleChanged style)
           (t\<lparr>t_style_from_program := (param \<noteq> 0), t_cursor_style := style\<rparr>)))"

definition csi_scroll_region :: "tm \<Rightarrow> params \<Rightarrow> tm" where
  "csi_scroll_region t ps =
     (let rows = g_rows (active t); tp = arg ps 0 1 - 1; bottom = arg ps 1 rows - 1;
          region = (if tp < bottom \<and> bottom < rows then \<lparr>sr_top = tp, sr_bottom = bottom\<rparr>
                    else region_full rows)
      in touch_full (goto (on_active (\<lambda>g. g\<lparr>g_region := region\<rparr>) t) 0 0))"

definition csi_clear_tabs :: "tm \<Rightarrow> nat \<Rightarrow> tm" where
  "csi_clear_tabs t mode =
     (if mode = 0 then set_tab False t
      else if mode = 3 then t\<lparr>t_tabs := map (\<lambda>_. False) (t_tabs t)\<rparr> else t)"

text \<open>
  Reports.  The position report subtracts the top of the region in origin mode; \<open>None\<close> where that
  subtraction underflows.
\<close>

definition ESC_CSI :: ustring where
  "ESC_CSI = [27, 91]"

definition csi_report :: "tm \<Rightarrow> nat \<Rightarrow> tm option" where
  "csi_report t mode =
     (if mode = 5 then Some (reply (bytes (ESC_CSI @ lit ''0n'')) t)
      else if mode = 6 then
        (let tp = sr_top (g_region (active t)); origin = flag_contains (t_modes t) M_ORIGIN
         in if origin \<and> crow t < tp then None
            else
              let row = (if origin then crow t - tp else crow t)
              in Some (reply (bytes (ESC_CSI @ dec_digits (row + 1) @ lit '';'' @
                                     dec_digits (ccol t + 1) @ lit ''R'')) t))
      else Some t)"

definition csi_kitty :: "tm \<Rightarrow> params \<Rightarrow> byte \<Rightarrow> tm" where
  "csi_kitty t ps i =
     (if i = of_nat (ch (CHR ''?'')) then
        reply (bytes (ESC_CSI @ lit ''?'' @ dec_digits (unat (kitty_flags_of (t_modes t))) @ lit ''u'')) t
      else if i = of_nat (ch (CHR ''>'')) then kitty_push t (as_byte (arg ps 0 0))
      else if i = of_nat (ch (CHR ''<'')) then kitty_pop t (arg ps 0 1)
      else if i = of_nat (ch (CHR ''='')) then kitty_set t (as_byte (arg ps 0 0)) (arg ps 1 1)
      else t)"

definition csi_dispatch :: "tm \<Rightarrow> params \<Rightarrow> byte list \<Rightarrow> bool \<Rightarrow> uchar \<Rightarrow> tm option" where
  "csi_dispatch t ps ims ignored c =
     (if ignored then Some t
      else
        let fst_i = first_of ims; private = (fst_i = Some (of_nat (ch (CHR ''?''))))
        in if c \<in> set (lit ''ABeCaDEFGdHfIZ'') \<or> c = 96 then Some (csi_move t ps c)
           else if c \<in> set (lit ''JKXPLMST'') \<or> c = 64 then Some (csi_edit t ps c)
           else if c = ch (CHR ''t'') \<and> \<not> private \<and> arg ps 0 0 = 8 then
             Some (on_active (\<lambda>g. note_restatement_began g (arg ps 2 0) (arg ps 1 0) (t_template t)) t)
           else if c = ch (CHR ''h'') then
             Some (if private then set_private_modes t ps True else set_ansi_modes t ps True)
           else if c = ch (CHR ''l'') then
             Some (if private then set_private_modes t ps False else set_ansi_modes t ps False)
           else if c = ch (CHR ''m'') \<and> fst_i = None then Some (apply_sgr t ps)
           else if c = ch (CHR ''q'') \<and> fst_i = Some 32 then Some (csi_cursor_style t (arg ps 0 0))
           else if c = ch (CHR ''r'') \<and> \<not> private then Some (csi_scroll_region t ps)
           else if c = ch (CHR ''g'') then Some (csi_clear_tabs t (arg ps 0 0))
           else if c = ch (CHR ''c'') then Some (reply (bytes (ESC_CSI @ lit ''?62;1;6;22c'')) t)
           else if c = ch (CHR ''n'') then csi_report t (arg ps 0 0)
           else if c = ch (CHR ''s'') then Some (save_cursor t)
           else if c = ch (CHR ''u'') then
             (case fst_i of None \<Rightarrow> Some (restore_cursor t) | Some i \<Rightarrow> Some (csi_kitty t ps i))
           else Some t)"

section \<open>Escape sequences\<close>

definition esc_dispatch :: "tm \<Rightarrow> byte list \<Rightarrow> byte \<Rightarrow> tm" where
  "esc_dispatch t ims b =
     (let c = unat b; fst_i = first_of ims
      in if c = ch (CHR ''7'') then save_cursor t
         else if c = ch (CHR ''8'') \<and> fst_i = None then restore_cursor t
         else if c = ch (CHR ''D'') then linefeed t
         else if c = ch (CHR ''E'') then carriage_return (linefeed t)
         else if c = ch (CHR ''M'') then reverse_index t
         else if c = ch (CHR ''H'') then set_tab True t
         else if c = ch (CHR ''c'') then full_reset t
         else if c = ch (CHR ''8'') \<and> fst_i = Some (of_nat (ch (CHR ''#''))) then decaln t
         else t)"

end
