(* ===== verification/Osc.thy ===== *)
theory Osc
  imports Perform
begin

text \<open>
  Operating-system commands (\<open>crates/zest-core/src/perform.rs\<close>): the title, colours, the working
  directory, progress, and the markers shell integration sends.
\<close>

section \<open>Parsers of the payloads\<close>

definition is_ascii_digit :: "uchar \<Rightarrow> bool" where
  "is_ascii_digit c \<longleftrightarrow> 48 \<le> c \<and> c \<le> 57"

text \<open>An \<open>i32\<close> from a run of decimal digits: none at all, or too large, is an error.\<close>

definition parse_exit_status :: "byte list \<Rightarrow> int option" where
  "parse_exit_status p =
     (case from_utf8 p of
        None \<Rightarrow> None
      | Some s \<Rightarrow>
          let digits = takeWhile is_ascii_digit s
          in if digits = [] then None
             else map_option int (digits_val 10 (2 ^ 31 - 1) 0 digits))"

fun unescape_vscode :: "ustring \<Rightarrow> ustring" where
  "unescape_vscode [] = []"
| "unescape_vscode (c # cs) =
     (if c \<noteq> 92 then c # unescape_vscode cs
      else
        case cs of
          [] \<Rightarrow> [92]
        | d # ds \<Rightarrow>
            if d = 120 then
              (let hex = take 2 ds
               in (case parse_uint 16 255 hex of
                     Some b \<Rightarrow> [b]
                   | None \<Rightarrow> [92, 120] @ hex) @ unescape_vscode (drop 2 ds))
            else if d = 92 then 92 # unescape_vscode ds
            else 92 # d # unescape_vscode ds)"

text \<open>The two bytes after a percent sign as a number.\<close>

definition percent_hex :: "byte \<Rightarrow> byte \<Rightarrow> byte option" where
  "percent_hex a b =
     (case from_utf8 [a, b] of
        None \<Rightarrow> None
      | Some h \<Rightarrow> map_option of_nat (parse_uint 16 255 h))"

fun percent_bytes :: "byte list \<Rightarrow> byte list" where
  "percent_bytes (a # b # c # r) =
     (if a = 37 then
        (case percent_hex b c of
           Some v \<Rightarrow> v # percent_bytes r
         | None \<Rightarrow> a # percent_bytes (b # c # r))
      else a # percent_bytes (b # c # r))"
| "percent_bytes (a # r) = a # percent_bytes r"
| "percent_bytes [] = []"

definition percent_decode :: "ustring \<Rightarrow> ustring" where
  "percent_decode s =
     (case from_utf8 (percent_bytes (utf8_encode s)) of Some d \<Rightarrow> d | None \<Rightarrow> s)"

fun split_on :: "uchar \<Rightarrow> ustring \<Rightarrow> ustring list" where
  "split_on sep [] = [[]]"
| "split_on sep (c # cs) =
     (if c = sep then [] # split_on sep cs
      else case split_on sep cs of [] \<Rightarrow> [[c]] | x # xs \<Rightarrow> (c # x) # xs)"

definition strip_prefix :: "ustring \<Rightarrow> ustring \<Rightarrow> ustring option" where
  "strip_prefix p s = (if take (length p) s = p then Some (drop (length p) s) else None)"

text \<open>One component of \<open>rgb:r/g/b\<close>: one to four hex digits, scaled to eight bits.\<close>

definition scale_component :: "ustring \<Rightarrow> byte option" where
  "scale_component s =
     (case parse_uint 16 (2 ^ 32 - 1) s of
        None \<Rightarrow> None
      | Some v \<Rightarrow>
          let n = length (utf8_encode s)
          in if n = 1 then Some (of_nat (v * 17))
             else if n = 2 then Some (of_nat v)
             else if n = 3 then Some (of_nat (v div 16))
             else if n = 4 then Some (of_nat (v div 256))
             else None)"

text \<open>One byte of \<open>#rgb\<close> or \<open>#rrggbb\<close>; the outer \<open>None\<close> is the slice that panics.\<close>

definition hex_at :: "byte list \<Rightarrow> nat \<Rightarrow> nat \<Rightarrow> nat option option" where
  "hex_at hex i j =
     (case str_slice hex i j of
        None \<Rightarrow> None
      | Some b \<Rightarrow>
          Some (case from_utf8 b of None \<Rightarrow> None | Some d \<Rightarrow> parse_uint 16 255 d))"

text \<open>Three of them, in the order the code evaluates them: the first failure ends it.\<close>

definition hex_triple :: "byte list \<Rightarrow> nat \<Rightarrow> nat \<Rightarrow> rgb option option" where
  "hex_triple hex w f =
     (case hex_at hex 0 w of None \<Rightarrow> None | Some None \<Rightarrow> Some None | Some (Some r) \<Rightarrow>
        (case hex_at hex w (2 * w) of None \<Rightarrow> None | Some None \<Rightarrow> Some None | Some (Some g) \<Rightarrow>
           (case hex_at hex (2 * w) (3 * w) of None \<Rightarrow> None | Some None \<Rightarrow> Some None | Some (Some b) \<Rightarrow>
              Some (Some (rgb_new (of_nat (r * f)) (of_nat (g * f)) (of_nat (b * f)))))))"

definition parse_color_spec :: "ustring \<Rightarrow> rgb option option" where
  "parse_color_spec spec =
     (case strip_prefix (lit ''rgb:'') spec of
        Some rest \<Rightarrow>
          (case map scale_component (take 3 (split_on 47 rest)) of
             [Some r, Some g, Some b] \<Rightarrow> Some (Some (rgb_new r g b))
           | _ \<Rightarrow> Some None)
      | None \<Rightarrow>
          (case strip_prefix (lit ''#'') spec of
             None \<Rightarrow> Some None
           | Some h \<Rightarrow>
               let hex = utf8_encode h
               in if length hex = 3 then hex_triple hex 1 17
                  else if length hex = 6 then hex_triple hex 2 1
                  else Some None))"

section \<open>Progress\<close>

definition progress_num :: "byte list list \<Rightarrow> nat \<Rightarrow> nat option" where
  "progress_num ps i =
     (case osc_str ps i of None \<Rightarrow> None | Some s \<Rightarrow> parse_uint 10 (2 ^ 32 - 1) (str_trim s))"

definition osc_progress :: "tm \<Rightarrow> byte list list \<Rightarrow> tm" where
  "osc_progress t ps =
     (let state = (case progress_num ps 2 of None \<Rightarrow> 0 | Some n \<Rightarrow> n);
          percent = min (case progress_num ps 3 of None \<Rightarrow> 0 | Some n \<Rightarrow> n) 100;
          was_busy = is_busy (t_progress t);
          p = (if state = 1 then ProgressAt percent ProgressNormal
               else if state = 2 then ProgressAt percent ProgressError
               else if state = 3 then Indeterminate
               else if state = 4 then ProgressAt percent ProgressWarning
               else NoProgress);
          t = t\<lparr>t_progress := p\<rparr>;
          finished = (was_busy \<and> p = NoProgress);
          has_failed = (case p of ProgressAt _ s \<Rightarrow> s = ProgressError | _ \<Rightarrow> False)
      in if finished \<or> has_failed then raise_attention CauseNotify t else t)"

section \<open>Where the shell is\<close>

definition set_cwd :: "tm \<Rightarrow> ustring option \<Rightarrow> ustring \<Rightarrow> tm" where
  "set_cwd t host path =
     (if t_cwd t = path \<and> t_cwd_host t = host then t
      else push_event (CwdChanged host path) (t\<lparr>t_cwd := path, t_cwd_host := host\<rparr>))"

definition split_at_slash :: "ustring \<Rightarrow> (ustring \<times> ustring) option" where
  "split_at_slash s =
     (if 47 \<in> set s then Some (takeWhile (\<lambda>c. c \<noteq> 47) s, dropWhile (\<lambda>c. c \<noteq> 47) s) else None)"

definition osc_cwd :: "tm \<Rightarrow> byte list list \<Rightarrow> tm" where
  "osc_cwd t ps =
     (case osc_str ps 1 of
        None \<Rightarrow> t
      | Some url \<Rightarrow>
          (case (case strip_prefix (lit ''file://'') url of
                   None \<Rightarrow> (None, url)
                 | Some rest \<Rightarrow>
                     (case split_at_slash rest of
                        None \<Rightarrow> (None, rest)
                      | Some (authority, path) \<Rightarrow>
                          (if authority = [] then None else Some authority, path))) of
             (host, path) \<Rightarrow> set_cwd t host (percent_decode path)))"

definition fact_key :: "ustring \<Rightarrow> ustring option" where
  "fact_key key =
     (if key = lit ''Venv'' then Some (lit ''venv'')
      else if key = lit ''Conda'' then Some (lit ''conda'')
      else if key = lit ''AwsProfile'' then Some (lit ''aws_profile'')
      else if key = lit ''NvmBin'' then Some (lit ''nvm_bin'')
      else None)"

definition set_shell_fact :: "tm \<Rightarrow> ustring \<Rightarrow> ustring \<Rightarrow> tm" where
  "set_shell_fact t key v =
     (case fact_key key of
        None \<Rightarrow> t
      | Some k \<Rightarrow>
          let changed = (if v = [] then t_facts t k \<noteq> None else t_facts t k \<noteq> Some v);
              t = (if v = [] then t\<lparr>t_facts := (t_facts t)(k := None)\<rparr>
                   else t\<lparr>t_facts := (t_facts t)(k := Some v)\<rparr>)
          in if changed then push_event ShellFactsChanged t else t)"

section \<open>Command blocks\<close>

definition block_line :: "tm \<Rightarrow> line_id option" where
  "block_line t =
     (if t_alt t \<noteq> None then None else active_line_id_at (t_grid t) (cur_row (g_cursor (t_grid t))))"

definition block_prompt_start :: "tm \<Rightarrow> tm" where
  "block_prompt_start t =
     (case block_line t of
        None \<Rightarrow> t
      | Some line \<Rightarrow>
          touch (t\<lparr>t_blocks := fst (begin_prompt (t_blocks t) line (t_cwd t)),
                   t_prompt_end := None, t_pending_command := None\<rparr>))"

definition block_prompt_end :: "tm \<Rightarrow> tm" where
  "block_prompt_end t =
     (case block_line t of
        None \<Rightarrow> t
      | Some line \<Rightarrow> t\<lparr>t_prompt_end := Some (line, cur_col (g_cursor (t_grid t)))\<rparr>)"

text \<open>The loop of \<open>command_text\<close> over the retained rows, which stops at a row that ends the command.\<close>

fun command_rows :: "line_id \<Rightarrow> nat \<Rightarrow> line_id \<Rightarrow> row list \<Rightarrow> ustring" where
  "command_rows start_line start_col end_line [] = []"
| "command_rows start_line start_col end_line (r # rs) =
     (if row_id r < start_line \<or> end_line < row_id r
      then command_rows start_line start_col end_line rs
      else
        let frm = (if row_id r = start_line then start_col else 0);
            to = (if row_wrapped r then row_len r else trimmed_len r);
            text = span_text r [frm..<to]
        in if \<not> row_wrapped r \<and> row_id r \<noteq> end_line then text
           else text @ command_rows start_line start_col end_line rs)"

definition command_text :: "tm \<Rightarrow> ustring" where
  "command_text t =
     (case t_prompt_end t of
        None \<Rightarrow> []
      | Some (start_line, start_col) \<Rightarrow>
          (case active_line_id_at (t_grid t) (cur_row (g_cursor (t_grid t))) of
             None \<Rightarrow> []
           | Some end_line \<Rightarrow>
               trim_end (command_rows start_line start_col end_line (st_iter (g_storage (t_grid t))))))"

definition block_output_start :: "tm \<Rightarrow> ustring option \<Rightarrow> tm" where
  "block_output_start t command =
     (case block_line t of
        None \<Rightarrow> t
      | Some line \<Rightarrow>
          let (command, t) =
                (case command of
                   Some c \<Rightarrow> (c, t)
                 | None \<Rightarrow>
                     (case t_pending_command t of
                        Some c \<Rightarrow> (c, t\<lparr>t_pending_command := None\<rparr>)
                      | None \<Rightarrow> (command_text t, t)));
              line = (if 0 < cur_col (g_cursor (t_grid t)) then line + 1 else line)
          in touch (t\<lparr>t_blocks := begin_output (t_blocks t) line command (t_now_ms t) (t_input_author t),
                      t_prompt_end := None\<rparr>))"

definition term_block_finish :: "tm \<Rightarrow> int option \<Rightarrow> tm" where
  "term_block_finish t exit_code =
     (case block_line t of
        None \<Rightarrow> t
      | Some line \<Rightarrow>
          let line = (if cur_col (g_cursor (t_grid t)) = 0 then line - 1 else line);
              line = (case last_block (t_blocks t) of None \<Rightarrow> line | Some b \<Rightarrow> max line (b_prompt_line b))
          in touch (t\<lparr>t_blocks := block_finish (t_blocks t) line exit_code (t_now_ms t),
                      t_prompt_end := None, t_pending_command := None\<rparr>))"

text \<open>The first byte of the marker.\<close>

definition marker :: "byte list list \<Rightarrow> nat option" where
  "marker ps = (case slice_get ps 1 of None \<Rightarrow> None | Some p \<Rightarrow> map_option unat (first_of p))"

definition exit_of :: "byte list list \<Rightarrow> int option" where
  "exit_of ps = (case slice_get ps 2 of None \<Rightarrow> None | Some p \<Rightarrow> parse_exit_status p)"

definition osc_prompt :: "tm \<Rightarrow> byte list list \<Rightarrow> tm" where
  "osc_prompt t ps =
     (case marker ps of
        None \<Rightarrow> t
      | Some k \<Rightarrow>
          if k = ch (CHR ''A'') then block_prompt_start t
          else if k = ch (CHR ''B'') then block_prompt_end t
          else if k = ch (CHR ''C'') then block_output_start t None
          else if k = ch (CHR ''D'') then term_block_finish t (exit_of ps)
          else t)"

definition split_once :: "uchar \<Rightarrow> ustring \<Rightarrow> (ustring \<times> ustring) option" where
  "split_once sep s =
     (if sep \<in> set s then Some (takeWhile (\<lambda>c. c \<noteq> sep) s, tl (dropWhile (\<lambda>c. c \<noteq> sep) s)) else None)"

definition osc_vscode :: "tm \<Rightarrow> byte list list \<Rightarrow> tm" where
  "osc_vscode t ps =
     (case marker ps of
        None \<Rightarrow> t
      | Some k \<Rightarrow>
          if k = ch (CHR ''A'') then block_prompt_start t
          else if k = ch (CHR ''B'') then block_prompt_end t
          else if k = ch (CHR ''C'') then block_output_start t None
          else if k = ch (CHR ''D'') then term_block_finish t (exit_of ps)
          else if k = ch (CHR ''E'') then
            (case osc_str ps 2 of
               None \<Rightarrow> t | Some cmd \<Rightarrow> t\<lparr>t_pending_command := Some (unescape_vscode cmd)\<rparr>)
          else if k = ch (CHR ''P'') then
            (case osc_str ps 2 of
               None \<Rightarrow> t
             | Some rest \<Rightarrow>
                 (case strip_prefix (lit ''Cwd='') rest of
                    Some path \<Rightarrow> set_cwd t None (unescape_vscode path)
                  | None \<Rightarrow>
                      (case split_once 61 rest of
                         None \<Rightarrow> t
                       | Some (key, v) \<Rightarrow> set_shell_fact t key (unescape_vscode v))))
          else t)"

section \<open>Colours\<close>

definition color_reply :: "ustring \<Rightarrow> rgb \<Rightarrow> byte list" where
  "color_reply prefix c =
     bytes ([27, 93] @ prefix @ lit '';rgb:'' @ hex4 (unat (rgb_r c) * 257) @ lit ''/'' @
            hex4 (unat (rgb_g c) * 257) @ lit ''/'' @ hex4 (unat (rgb_b c) * 257) @ [7])"

text \<open>The pairs of \<open>OSC 4 ; index ; spec ; index ; spec ...\<close>, after the code.\<close>

fun osc_palette :: "tm \<Rightarrow> byte list list \<Rightarrow> tm option" where
  "osc_palette t (p # q # ps) =
     (let idx = (case from_utf8 p of None \<Rightarrow> None | Some s \<Rightarrow> parse_uint 10 255 s);
          spec = (case from_utf8 q of None \<Rightarrow> [] | Some s \<Rightarrow> s)
      in case idx of
           None \<Rightarrow> osc_palette t ps
         | Some i \<Rightarrow>
             if spec = lit ''?'' then
               osc_palette
                 (reply (color_reply (lit ''4;'' @ dec_digits i) (ps_colors (pal_live (t_palette t)) ! i)) t) ps
             else
               (case parse_color_spec spec of
                  None \<Rightarrow> None
                | Some None \<Rightarrow> osc_palette t ps
                | Some (Some c) \<Rightarrow>
                    osc_palette (touch_full (t\<lparr>t_palette := set_indexed (t_palette t) (of_nat i) c\<rparr>)) ps))"
| "osc_palette t _ = Some t"

definition osc_dynamic_color :: "tm \<Rightarrow> nat \<Rightarrow> byte list list \<Rightarrow> tm option" where
  "osc_dynamic_color t code ps =
     (let spec = osc_str_or_empty ps 1; live = pal_live (t_palette t);
          current = (if code = 10 then ps_foreground live
                     else if code = 11 then ps_background live else ps_cursor live)
      in if spec = lit ''?'' then Some (reply (color_reply (dec_digits code) current) t)
         else
           case parse_color_spec spec of
             None \<Rightarrow> None
           | Some None \<Rightarrow> Some t
           | Some (Some c) \<Rightarrow>
               let p = (if code = 10 then set_foreground (t_palette t) c
                        else if code = 11 then set_background (t_palette t) c
                        else set_cursor_color (t_palette t) c)
               in Some (touch_full (t\<lparr>t_palette := p\<rparr>)))"

section \<open>The dispatch\<close>

definition osc_title :: "tm \<Rightarrow> byte list list \<Rightarrow> tm" where
  "osc_title t ps =
     (case osc_str ps 1 of None \<Rightarrow> t | Some s \<Rightarrow> push_event (Title s) (t\<lparr>t_title := s\<rparr>))"

definition osc_hyperlink :: "tm \<Rightarrow> byte list list \<Rightarrow> tm" where
  "osc_hyperlink t ps =
     (let uri = osc_str_or_empty ps 2
      in if uri = [] then push_event (Hyperlink None) (t\<lparr>t_hyperlink := None\<rparr>)
         else push_event (Hyperlink (Some uri))
                (t\<lparr>t_hyperlink := Some (t_next_hyperlink t),
                   t_next_hyperlink := (t_next_hyperlink t + 1) mod 65536\<rparr>))"

definition osc_dispatch :: "tm \<Rightarrow> byte list list \<Rightarrow> tm option" where
  "osc_dispatch t ps =
     (case first_of ps of
        None \<Rightarrow> Some t
      | Some code \<Rightarrow>
          (case (case from_utf8 code of None \<Rightarrow> None | Some s \<Rightarrow> parse_uint 10 65535 s) of
             None \<Rightarrow> Some t
           | Some n \<Rightarrow>
               if n = 0 \<or> n = 2 then Some (osc_title t ps)
               else if n = 4 then osc_palette t (tl ps)
               else if n = 8 then Some (osc_hyperlink t ps)
               else if 10 \<le> n \<and> n \<le> 12 then osc_dynamic_color t n ps
               else if n = 104 then
                 (let idx = (case osc_str ps 1 of None \<Rightarrow> None | Some s \<Rightarrow> parse_uint 10 255 s)
                  in Some (touch_full (t\<lparr>t_palette := reset_indexed (t_palette t) (map_option of_nat idx)\<rparr>)))
               else if n = 110 then Some (touch_full (t\<lparr>t_palette := reset_foreground (t_palette t)\<rparr>))
               else if n = 111 then Some (touch_full (t\<lparr>t_palette := reset_background (t_palette t)\<rparr>))
               else if n = 112 then Some (touch_full (t\<lparr>t_palette := reset_cursor_color (t_palette t)\<rparr>))
               else if n = 7 then Some (osc_cwd t ps)
               else if n = 9 then
                 Some (if osc_str_or_empty ps 1 = lit ''4'' then osc_progress t ps
                       else raise_attention CauseNotify t)
               else if n = 777 then
                 Some (if osc_str_or_empty ps 1 = lit ''notify'' then raise_attention CauseNotify t else t)
               else if n = 133 then Some (osc_prompt t ps)
               else if n = 633 then Some (osc_vscode t ps)
               else Some t))"

section \<open>One callback of the parser\<close>

datatype action =
    Print uchar
  | Execute byte
  | Csi params "byte list" bool uchar
  | Esc "byte list" byte
  | Osc "byte list list"

fun perform :: "(uchar \<Rightarrow> nat option) \<Rightarrow> action \<Rightarrow> tm \<Rightarrow> tm option" where
  "perform cwidth (Print c) t = Some (write_char cwidth t c)"
| "perform cwidth (Execute b) t = Some (execute t b)"
| "perform cwidth (Csi ps ims ignored c) t = csi_dispatch t ps ims ignored c"
| "perform cwidth (Esc ims b) t = Some (esc_dispatch t ims b)"
| "perform cwidth (Osc ps) t = osc_dispatch t ps"

fun perform_all :: "(uchar \<Rightarrow> nat option) \<Rightarrow> action list \<Rightarrow> tm \<Rightarrow> tm option" where
  "perform_all cwidth [] t = Some t"
| "perform_all cwidth (a # as) t =
     (case perform cwidth a t of None \<Rightarrow> None | Some t \<Rightarrow> perform_all cwidth as t)"

end
