(* ===== verification/EditInv.thy ===== *)
theory EditInv
  imports Edit
begin

text \<open>
  What the editing operations do to the rows, and that each keeps the grid well formed and the
  line ids in order.
\<close>

section \<open>Writing one row of the live screen\<close>

lemma set_active_row_lines:
  assumes "grid_shape g" "i < g_rows g"
  shows "ring_ok (g_storage (set_active_row g i r)) \<and>
    grid_lines (set_active_row g i r) = (grid_lines g)[g_scrollback_len g + i := r] \<and>
    next_line_id (set_active_row g i r) = next_line_id g"
proof -
  have "g_scrollback_len g + i < length (grid_lines g)" using assms by (simp add: grid_shapeD)
  from ring.put [OF grid_shapeD(1) [OF assms(1)] this, of r] show ?thesis
    by (simp add: set_active_row_def grid_shapeD [OF assms(1)] next_line_id_def)
qed

lemma set_active_row_eq: "set_active_row g i r = g\<lparr>g_storage := g_storage (set_active_row g i r)\<rparr>"
  by (simp add: set_active_row_def)

lemma set_active_row_frame [frame_simps]:
  "g_cols (set_active_row g i r) = g_cols g" "g_rows (set_active_row g i r) = g_rows g"
  "g_cursor (set_active_row g i r) = g_cursor g" "g_region (set_active_row g i r) = g_region g"
  "g_scrollback_len (set_active_row g i r) = g_scrollback_len g"
  "g_scrollback_limit (set_active_row g i r) = g_scrollback_limit g"
  by (simp_all add: set_active_row_def)

lemma set_active_row_wf:
  assumes "grid_wf g" "i < g_rows g" "length (row_cells r) = g_cols g"
  shows "grid_wf (set_active_row g i r)"
proof -
  have sh: "grid_shape g" using assms(1) by (rule grid_wfD)
  note l = set_active_row_lines [OF sh assms(2), of r]
  have "set (grid_lines (set_active_row g i r)) \<subseteq> insert r (set (grid_lines g))"
    using l by (simp add: set_update_subset_insert)
  then have "\<forall>x \<in> set (grid_lines (set_active_row g i r)). length (row_cells x) = g_cols g"
    using sh assms(3) by (auto simp: grid_shape_def)
  then have "grid_wf (g\<lparr>g_storage := g_storage (set_active_row g i r)\<rparr>)"
    using l by (intro grid_wf_store [OF assms(1)]) simp_all
  then show ?thesis by (simp only: set_active_row_eq [symmetric])
qed

lemma set_active_row_ids:
  assumes "grid_shape g" "i < g_rows g" "row_id r = row_id (active_row g i)" "grid_ids_ok g"
  shows "grid_ids_ok (set_active_row g i r)"
  using assms set_active_row_lines [OF assms(1,2), of r]
  by (simp add: grid_ids_ok_def active_row_eq ids_ok_update grid_shapeD)

lemma active_row_set:
  assumes "grid_shape g" "i < g_rows g" "j < g_rows g" "length (row_cells r) = g_cols g"
  shows "active_row (set_active_row g i r) j = (if j = i then r else active_row g j)"
proof -
  note l = set_active_row_lines [OF assms(1,2), of r]
  have "set ((grid_lines g)[g_scrollback_len g + i := r]) \<subseteq> insert r (set (grid_lines g))"
    by (rule set_update_subset_insert)
  then have "grid_shape (set_active_row g i r)"
    using l assms(1,4) by (auto simp: grid_shape_def frame_simps set_active_row_def simp del: length_st_iter)
  then show ?thesis using l assms
    by (simp add: active_row_eq frame_simps nth_list_update grid_shapeD)
qed

text \<open>An edit of one row that keeps its width and its id keeps both invariants.\<close>

definition grid_inv :: "grid \<Rightarrow> bool" where
  "grid_inv g \<longleftrightarrow> grid_wf g \<and> grid_ids_ok g"

lemma grid_invD:
  assumes "grid_inv g"
  shows "grid_wf g" "grid_ids_ok g" "grid_shape g" "cursor_ok g" "region_ok g"
    "0 < g_cols g" "0 < g_rows g" "cur_row (g_cursor g) < g_rows g" "cur_col (g_cursor g) < g_cols g"
    "sr_bottom (g_region g) < g_rows g" "sr_top (g_region g) \<le> sr_bottom (g_region g)"
  using assms by (auto simp: grid_inv_def grid_wf_def grid_shape_def cursor_ok_def region_ok_def)

lemma edit_row_inv:
  assumes "grid_inv g" "i < g_rows g" "length (row_cells r) = g_cols g" "row_id r = row_id (active_row g i)"
  shows "grid_inv (set_active_row g i r)"
  using assms set_active_row_wf set_active_row_ids by (auto simp: grid_inv_def grid_wfD)

lemma grid_inv_fields:
  assumes "grid_inv g"
  shows "cur_row c < g_rows g \<Longrightarrow> cur_col c < g_cols g \<Longrightarrow> grid_inv (g\<lparr>g_cursor := c\<rparr>)"
    and "sr_top q \<le> sr_bottom q \<Longrightarrow> sr_bottom q < g_rows g \<Longrightarrow> grid_inv (g\<lparr>g_region := q\<rparr>)"
    and "grid_inv (g\<lparr>g_restate_rows_seen := k\<rparr>)" "grid_inv (g\<lparr>g_restated := b\<rparr>)"
    and "grid_inv (g\<lparr>g_restating := b\<rparr>)" "grid_inv (g\<lparr>g_sitting_out := b\<rparr>)"
    and "grid_inv (g\<lparr>g_restatement_open := b\<rparr>)" "grid_inv (g\<lparr>g_restate_debt := k\<rparr>)"
    and "grid_inv (g\<lparr>g_pending_restate := k\<rparr>)" "grid_inv (g\<lparr>g_settled_pull := 0\<rparr>)"
    and "grid_inv (g\<lparr>g_evicted := ev\<rparr>)" "grid_inv (g\<lparr>g_capture_evicted := b\<rparr>)"
  using assms
  by (simp_all add: grid_inv_def grid_wf_def grid_shape_def cursor_ok_def region_ok_def
      grid_ids_ok_def next_line_id_def)

lemma grid_inv_new [wf_intros]: "grid_inv (grid_new cols rows limit)"
  by (simp add: grid_inv_def grid_wf_new grid_ids_ok_new)

section \<open>Erasing\<close>

lemma erase_span_frame [simp]:
  "length (row_cells (erase_span r a b c)) = length (row_cells r)"
  "row_id (erase_span r a b c) = row_id r" "row_extras (erase_span r a b c) = row_extras r"
proof -
  let ?f = "\<lambda>col r. case row_get r col of None \<Rightarrow> r | Some _ \<Rightarrow> row_set_cell r col c"
  have "length (row_cells (fold ?f cols r)) = length (row_cells r) \<and> row_id (fold ?f cols r) = row_id r \<and>
      row_extras (fold ?f cols r) = row_extras r" for cols
    by (induction cols arbitrary: r) (auto simp: row_set_cell_def split: option.splits)
  then show "length (row_cells (erase_span r a b c)) = length (row_cells r)"
    "row_id (erase_span r a b c) = row_id r" "row_extras (erase_span r a b c) = row_extras r"
    by (simp_all add: erase_span_def)
qed

lemma nth_erase_span:
  assumes "i < length (row_cells r)"
  shows "row_cells (erase_span r a b c) ! i = (if a \<le> i \<and> i \<le> b then c else row_cells r ! i)"
proof -
  let ?f = "\<lambda>col r. case row_get r col of None \<Rightarrow> r | Some _ \<Rightarrow> row_set_cell r col c"
  have "i < length (row_cells r) \<Longrightarrow> row_cells (fold ?f cols r) ! i = (if i \<in> set cols then c else row_cells r ! i)"
    for cols
    by (induction cols arbitrary: r)
      (auto simp: row_set_cell_def row_get_def slice_get_def nth_list_update split: option.splits)
  then show ?thesis using assms by (auto simp: erase_span_def)
qed

lemma erase_in_row_frame [frame_simps]:
  "g_cols (erase_in_row g row a b t) = g_cols g" "g_rows (erase_in_row g row a b t) = g_rows g"
  "g_cursor (erase_in_row g row a b t) = g_cursor g" "g_region (erase_in_row g row a b t) = g_region g"
  "g_scrollback_len (erase_in_row g row a b t) = g_scrollback_len g"
  "g_scrollback_limit (erase_in_row g row a b t) = g_scrollback_limit g"
  by (simp_all add: erase_in_row_def Let_def frame_simps)

lemma erase_in_row_inv [wf_intros]:
  assumes "grid_inv g" "row < g_rows g"
  shows "grid_inv (erase_in_row g row a b t)"
proof -
  have "grid_inv (set_active_row h row (erase_span (active_row h row) a e c))"
    if "grid_inv h" "row < g_rows h" for h e c
    using that by (intro edit_row_inv) (simp_all add: active_row_length grid_invD)
  then show ?thesis using assms grid_inv_fields(3) [OF assms(1)] by (simp add: erase_in_row_def Let_def)
qed

lemma erase_in_row_row:
  assumes "grid_wf g" "row < g_rows g" "i < g_rows g"
  shows "active_row (erase_in_row g row a b t) i =
    (if i = row then erase_span (active_row g row) a (min b (g_cols g - 1)) (blank_with t) else active_row g i)"
proof -
  have sh: "grid_shape g" using assms(1) by (rule grid_wfD)
  have *: "active_row (g\<lparr>g_restate_rows_seen := k\<rparr>) j = active_row g j" for k j
    by (simp add: active_row_def active_base_def)
  have "grid_shape (g\<lparr>g_restate_rows_seen := k\<rparr>)" for k using sh by (simp add: grid_shape_def)
  then show ?thesis using assms sh
    by (simp add: erase_in_row_def Let_def active_row_set active_row_length * del: length_st_iter)
qed

lemma erase_fold_inv:
  assumes "grid_inv g" "\<forall>row \<in> set rows. row < g_rows g"
  shows "grid_inv (fold (\<lambda>row g. erase_in_row g row (a g) (b g) t) rows g) \<and>
    g_rows (fold (\<lambda>row g. erase_in_row g row (a g) (b g) t) rows g) = g_rows g \<and>
    g_cols (fold (\<lambda>row g. erase_in_row g row (a g) (b g) t) rows g) = g_cols g \<and>
    g_cursor (fold (\<lambda>row g. erase_in_row g row (a g) (b g) t) rows g) = g_cursor g \<and>
    g_region (fold (\<lambda>row g. erase_in_row g row (a g) (b g) t) rows g) = g_region g"
  using assms
proof (induction rows arbitrary: g)
  case (Cons row rows)
  have "grid_inv (erase_in_row g row (a g) (b g) t)" using Cons.prems by (auto intro: erase_in_row_inv)
  from Cons.IH [OF this] Cons.prems show ?case by (simp add: frame_simps)
qed simp

lemma erase_rows_inv [wf_intros]:
  assumes "grid_inv g"
  shows "grid_inv (erase_rows g a b t)"
  unfolding erase_rows_def using assms grid_invD(7) [OF assms]
  by (intro erase_fold_inv [THEN conjunct1]) auto

lemma erase_rows_frame [frame_simps]:
  "g_cols (erase_rows g a b t) = g_cols g" "g_rows (erase_rows g a b t) = g_rows g"
  "g_cursor (erase_rows g a b t) = g_cursor g" "g_region (erase_rows g a b t) = g_region g"
proof -
  have "g_cols (fold (\<lambda>row g. erase_in_row g row 0 (g_cols g - 1) t) rows g) = g_cols g \<and>
      g_rows (fold (\<lambda>row g. erase_in_row g row 0 (g_cols g - 1) t) rows g) = g_rows g \<and>
      g_cursor (fold (\<lambda>row g. erase_in_row g row 0 (g_cols g - 1) t) rows g) = g_cursor g \<and>
      g_region (fold (\<lambda>row g. erase_in_row g row 0 (g_cols g - 1) t) rows g) = g_region g" for rows
    by (induction rows arbitrary: g) (simp_all add: frame_simps)
  then show "g_cols (erase_rows g a b t) = g_cols g" "g_rows (erase_rows g a b t) = g_rows g"
    "g_cursor (erase_rows g a b t) = g_cursor g" "g_region (erase_rows g a b t) = g_region g"
    by (simp_all add: erase_rows_def)
qed

section \<open>Inserting and deleting\<close>

lemma insert_cells_row:
  assumes "grid_inv g"
  defines "r \<equiv> active_row g (cur_row (g_cursor g))" and "col \<equiv> cur_col (g_cursor g)"
  shows "insert_cells g n t = set_active_row g (cur_row (g_cursor g))
    (r\<lparr>row_cells := take col (row_cells r) @ replicate (min n (g_cols g - col)) (blank_with t) @
       take (g_cols g - col - n) (drop col (row_cells r))\<rparr>)"
proof -
  have len: "length (row_cells r) = g_cols g" "col < g_cols g"
    using assms by (simp_all add: active_row_length grid_invD)
  then have "drop (col + min n (g_cols g - col)) (take col (row_cells r) @
      rot_right (min n (g_cols g - col)) (drop col (row_cells r))) =
      take (g_cols g - col - n) (drop col (row_cells r))"
    by (auto simp: rot_right_def min_def take_drop add.commute)
  then show ?thesis using len by (simp add: insert_cells_def Let_def r_def col_def)
qed

lemma delete_cells_row:
  assumes "grid_inv g"
  defines "r \<equiv> active_row g (cur_row (g_cursor g))" and "col \<equiv> cur_col (g_cursor g)"
  shows "delete_cells g n t = set_active_row g (cur_row (g_cursor g))
    (r\<lparr>row_cells := take col (row_cells r) @ drop (col + n) (row_cells r) @
       replicate (min n (g_cols g - col)) (blank_with t)\<rparr>)"
proof -
  have len: "length (row_cells r) = g_cols g" "col < g_cols g"
    using assms by (simp_all add: active_row_length grid_invD)
  let ?n = "min n (g_cols g - col)"
  have d: "drop (col + ?n) (row_cells r) = drop (col + n) (row_cells r)" using len by (simp add: min_def)
  have "take (g_cols g - ?n) (take col (row_cells r) @ rot_left ?n (drop col (row_cells r))) =
      take col (row_cells r) @ drop (col + n) (row_cells r)"
    using len d by (simp add: rot_left_def add.commute)
  moreover have "length (take col (row_cells r) @ rot_left ?n (drop col (row_cells r))) - (g_cols g - ?n) = ?n"
    using len by (simp add: rot_left_def)
  ultimately show ?thesis unfolding delete_cells_def Let_def r_def col_def by (simp only: append_assoc)
qed

lemma insert_delete_cells_inv [wf_intros]:
  assumes "grid_inv g"
  shows "grid_inv (insert_cells g n t)" "grid_inv (delete_cells g n t)"
proof -
  let ?cells = "row_cells (active_row g (cur_row (g_cursor g)))" and ?col = "cur_col (g_cursor g)"
  note d = grid_invD [OF assms]
  have len: "length ?cells = g_cols g" using d by (simp add: active_row_length)
  have "length (take ?col ?cells @ replicate (min n (g_cols g - ?col)) (blank_with t) @
      take (g_cols g - ?col - n) (drop ?col ?cells)) = g_cols g"
    "length (take ?col ?cells @ drop (?col + n) ?cells @ replicate (min n (g_cols g - ?col)) (blank_with t)) = g_cols g"
    using len d(9) by (simp_all add: min_absorb2)
  then show "grid_inv (insert_cells g n t)" "grid_inv (delete_cells g n t)"
    unfolding insert_cells_row [OF assms] delete_cells_row [OF assms]
    using d(8) by (intro edit_row_inv [OF assms]; simp del: length_append length_take length_drop length_replicate)+
qed

lemma insert_delete_cells_frame [frame_simps]:
  "g_cols (insert_cells g n t) = g_cols g" "g_rows (insert_cells g n t) = g_rows g"
  "g_cursor (insert_cells g n t) = g_cursor g" "g_region (insert_cells g n t) = g_region g"
  "g_cols (delete_cells g n t) = g_cols g" "g_rows (delete_cells g n t) = g_rows g"
  "g_cursor (delete_cells g n t) = g_cursor g" "g_region (delete_cells g n t) = g_region g"
  by (simp_all add: insert_cells_def delete_cells_def Let_def frame_simps)

lemma scroll_inv [wf_intros]:
  assumes "grid_inv g"
  shows "grid_inv (scroll_up g n t)" "grid_inv (scroll_down g n t)"
  using assms scroll_up_inv scroll_down_inv by (auto simp: grid_inv_def)

lemma cancel_restate_debt_inv [wf_intros]:
  "grid_inv g \<Longrightarrow> grid_inv (cancel_restate_debt g)" "grid_inv g \<Longrightarrow> grid_inv (end_restatement_window g)"
  by (simp_all add: grid_inv_def cancel_restate_debt_wf end_restatement_window_wf)

lemma insert_delete_lines_inv [wf_intros]:
  assumes "grid_inv g"
  shows "grid_inv (insert_lines g n t)" "grid_inv (delete_lines g n t)"
proof -
  let ?g = "g\<lparr>g_region := (g_region g)\<lparr>sr_top := cur_row (g_cursor g)\<rparr>\<rparr>"
  have r: "sr_top (g_region g) \<le> sr_bottom (g_region g)" "sr_bottom (g_region g) < g_rows g"
    using assms by (simp_all add: grid_invD)
  have i: "grid_inv ?g" if "region_contains (g_region g) (cur_row (g_cursor g))"
    using that assms by (intro grid_inv_fields(2)) (simp_all add: grid_invD region_contains_def)
  have "grid_inv ((scroll_down ?g n t)\<lparr>g_region := g_region g\<rparr>)"
    if "region_contains (g_region g) (cur_row (g_cursor g))"
    using r by (intro grid_inv_fields(2) [OF scroll_inv(2) [OF i [OF that]]]) (simp_all add: frame_simps)
  moreover have "grid_inv ((scroll_up ?g n t)\<lparr>g_region := g_region g\<rparr>)"
    if "region_contains (g_region g) (cur_row (g_cursor g))"
    using r by (intro grid_inv_fields(2) [OF scroll_inv(1) [OF i [OF that]]]) (simp_all add: frame_simps)
  ultimately show "grid_inv (insert_lines g n t)" "grid_inv (delete_lines g n t)"
    using assms by (simp_all add: insert_lines_def delete_lines_def Let_def)
qed

lemma insert_delete_lines_frame [frame_simps]:
  "g_cols (insert_lines g n t) = g_cols g" "g_rows (insert_lines g n t) = g_rows g"
  "g_cursor (insert_lines g n t) = g_cursor g" "g_region (insert_lines g n t) = g_region g"
  "g_cols (delete_lines g n t) = g_cols g" "g_rows (delete_lines g n t) = g_rows g"
  "g_cursor (delete_lines g n t) = g_cursor g" "g_region (delete_lines g n t) = g_region g"
  by (simp_all add: insert_lines_def delete_lines_def Let_def frame_simps)

lemma clear_all_inv [wf_intros]:
  assumes "grid_inv g"
  shows "grid_inv (clear_all g t)" "g_cols (clear_all g t) = g_cols g" "g_rows (clear_all g t) = g_rows g"
proof -
  let ?h = "fold (\<lambda>row g. erase_in_row g row 0 (g_cols g - 1) t) [0..<g_rows g] g"
  have h: "grid_inv ?h" "g_rows ?h = g_rows g" "g_cols ?h = g_cols g"
    using erase_fold_inv [OF assms, of "[0..<g_rows g]" "\<lambda>_. 0" "\<lambda>g. g_cols g - 1" t] by simp_all
  have "grid_inv (?h\<lparr>g_cursor := default_cursor\<rparr>)"
    using h grid_invD(6,7) [OF assms] by (intro grid_inv_fields(1)) (simp_all add: default_cursor_def)
  then have "grid_inv (?h\<lparr>g_cursor := default_cursor\<rparr>\<lparr>g_region := region_full (g_rows ?h)\<rparr>)"
    using grid_invD(7) [OF h(1)] by (intro grid_inv_fields(2)) (simp_all add: region_full_def)
  then show "grid_inv (clear_all g t)" "g_cols (clear_all g t) = g_cols g" "g_rows (clear_all g t) = g_rows g"
    using h by (simp_all add: clear_all_def Let_def cancel_restate_debt_inv frame_simps)
qed

lemma set_cell_inv [wf_intros]:
  assumes "grid_inv g" "row < g_rows g"
  shows "grid_inv (set_cell g row col c)"
  using assms edit_row_inv [OF assms, of "row_set_cell (active_row g row) col c"]
  by (simp add: set_cell_def active_row_length grid_invD split: option.split)

lemma set_cell_frame [frame_simps]:
  "g_cols (set_cell g row col c) = g_cols g" "g_rows (set_cell g row col c) = g_rows g"
  "g_cursor (set_cell g row col c) = g_cursor g" "g_region (set_cell g row col c) = g_region g"
  by (simp_all add: set_cell_def frame_simps split: option.splits)

lemma grid_set_wrapped_inv [wf_intros]:
  assumes "grid_inv g" "row < g_rows g"
  shows "grid_inv (grid_set_wrapped g row b)"
  unfolding grid_set_wrapped_def using assms
  by (intro edit_row_inv) (simp_all add: active_row_length grid_invD)

lemma grid_set_wrapped_frame [frame_simps]:
  "g_cols (grid_set_wrapped g row b) = g_cols g" "g_rows (grid_set_wrapped g row b) = g_rows g"
  "g_cursor (grid_set_wrapped g row b) = g_cursor g" "g_region (grid_set_wrapped g row b) = g_region g"
  by (simp_all add: grid_set_wrapped_def frame_simps)

end
