(* ===== verification/ResizeInv.thy ===== *)
theory ResizeInv
  imports EditInv
begin

text \<open>
  Resizing and the restatement protocol keep the grid well formed and the line ids in order; the
  rewrap numbers its rows consecutively from the id of the oldest row.
\<close>

section \<open>The rows a rewrap makes\<close>

definition rows_from :: "nat \<Rightarrow> line_id \<Rightarrow> line_id \<Rightarrow> row list \<Rightarrow> bool" where
  "rows_from cols a b rows \<longleftrightarrow>
     a \<le> b \<and> map row_id rows = [a..<b] \<and> (\<forall>r \<in> set rows. length (row_cells r) = cols)"

lemma rows_from_snoc:
  "rows_from cols a b rows \<Longrightarrow> row_id r = b \<Longrightarrow> length (row_cells r) = cols \<Longrightarrow>
    rows_from cols a (Suc b) (rows @ [r])"
  by (auto simp: rows_from_def)

definition rb_ok :: "nat \<Rightarrow> line_id \<Rightarrow> rebreak \<Rightarrow> bool" where
  "rb_ok cols a b \<longleftrightarrow> rows_from cols a (rb_next b) (rb_out b) \<and>
     row_id (rb_row b) = rb_next b \<and> length (row_cells (rb_row b)) = cols"

lemma rb_ok_break: "rb_ok cols a b \<Longrightarrow> rb_ok cols a (break_row cols b)"
  by (simp add: rb_ok_def break_row_def rows_from_snoc)

lemma rb_ok_cell: "rb_ok cols a b \<Longrightarrow> rb_ok cols a (rebreak_cell cols off i d b)"
proof -
  have *: "rb_ok cols a (b\<lparr>rb_target := x\<rparr>) \<longleftrightarrow> rb_ok cols a b"
    "rb_ok cols a (b\<lparr>rb_row := row_attach (rb_row b) c e f, rb_col := k\<rparr>) \<longleftrightarrow> rb_ok cols a b"
    for b x c e f k by (simp_all add: rb_ok_def)
  show "rb_ok cols a b \<Longrightarrow> rb_ok cols a (rebreak_cell cols off i d b)"
    by (simp add: rebreak_cell_def Let_def * rb_ok_break)
qed

lemma rb_ok_cells: "rb_ok cols a b \<Longrightarrow> rb_ok cols a (rebreak_cells cols off i ds b)"
  by (induction ds arbitrary: i b) (simp_all add: rb_ok_cell)

lemma rebreak_line_rows:
  assumes "rows_from cols a i out" "rebreak_line cols off cells out i target = (out', i', target')"
  shows "rows_from cols a i' out' \<and> i < i'"
proof -
  let ?b = "rebreak_cells cols off 0 cells
     \<lparr>rb_out = out, rb_row = row_new cols i, rb_next = i, rb_col = 0, rb_target = target\<rparr>"
  have le: "rb_next b \<le> rb_next (rebreak_cells cols off k ds b)" for k ds b
  proof (induction ds arbitrary: k b)
    case (Cons d ds)
    have "rb_next b \<le> rb_next (rebreak_cell cols off k d b)"
      by (simp add: rebreak_cell_def Let_def break_row_def)
    then show ?case using Cons.IH [of "rebreak_cell cols off k d b" "k + 1"] by simp
  qed simp
  have "rb_ok cols a ?b" using assms(1) by (intro rb_ok_cells) (simp add: rb_ok_def)
  then have "rows_from cols a (Suc (rb_next ?b)) (rb_out ?b @ [rb_row ?b])"
    by (simp add: rb_ok_def rows_from_snoc)
  moreover have "i \<le> rb_next ?b"
    using le [of "\<lparr>rb_out = out, rb_row = row_new cols i, rb_next = i, rb_col = 0, rb_target = target\<rparr>" 0 cells]
    by simp
  ultimately show ?thesis using assms(2) by (auto simp: rebreak_line_def Let_def)
qed

lemma reflow_rows_from:
  "rows_from cols a (rf_next f) (rf_out f) \<Longrightarrow>
    rows_from cols a (rf_next (reflow_rows cols cabs ccol i rows f)) (rf_out (reflow_rows cols cabs ccol i rows f))"
proof (induction cols cabs ccol i rows f rule: reflow_rows.induct)
  case (1 cols cabs ccol i rows f)
  show ?case
  proof (cases "rows = []")
    case False
    obtain cells off m i' rest where c: "collect_line cabs ccol (rf_next f) i rows [] None (rf_map f) = (cells, off, m, i', rest)"
      by (metis prod_cases5)
    obtain out nid target where r: "rebreak_line cols off cells (rf_out f) (rf_next f) (rf_target f) = (out, nid, target)"
      by (metis prod_cases3)
    have "rows_from cols a nid out" using rebreak_line_rows [OF 1(2) r] by simp
    then show ?thesis using 1(1) [OF False c [symmetric] refl refl refl r [symmetric] refl] False c r
      by (subst (1 2) reflow_rows.simps) simp
  qed (use 1(2) in \<open>simp add: reflow_rows.simps\<close>)
qed

lemma pad_rows_blank: "pad_rows k cols t i = map (blank_row cols t) [i..<i + k]"
  by (simp add: pad_rows_def row_reset_blank)

lemma rows_from_pad:
  "rows_from cols a b rows \<Longrightarrow> rows_from cols a (b + k) (rows @ pad_rows k cols t b)"
  by (auto simp: rows_from_def pad_rows_blank comp_def upt_add_eq_append [symmetric])

lemma rows_from_length: "rows_from cols a b rows \<Longrightarrow> b = a + length rows"
proof -
  assume r: "rows_from cols a b rows"
  then have "length (map row_id rows) = length [a..<b]" by (simp only: rows_from_def)
  then show "b = a + length rows" using r by (simp add: rows_from_def)
qed

lemma rows_from_drop:
  "rows_from cols a b rows \<Longrightarrow> k \<le> length rows \<Longrightarrow> rows_from cols (a + k) b (drop k rows)"
proof -
  assume r: "rows_from cols a b rows" and k: "k \<le> length rows"
  have "length rows = b - a" using rows_from_length [OF r] by simp
  then show "rows_from cols (a + k) b (drop k rows)" using r k
    by (auto simp: rows_from_def drop_map [symmetric] dest: in_set_dropD)
qed

lemma rows_from_ids_ok: "rows_from cols a b rows \<Longrightarrow> b \<le> n \<Longrightarrow> ids_ok rows n"
proof -
  assume r: "rows_from cols a b rows" and n: "b \<le> n"
  have "row_id x < b" if "x \<in> set rows" for x
  proof -
    have "row_id x \<in> set (map row_id rows)" using that by simp
    moreover have "map row_id rows = [a..<b]" using r by (simp add: rows_from_def)
    ultimately have "row_id x \<in> set [a..<b]" by simp
    then show ?thesis by simp
  qed
  then show "ids_ok rows n" using r n by (force simp: ids_ok_def rows_from_def)
qed

section \<open>The shape in the middle of a resize\<close>

definition store_inv :: "grid \<Rightarrow> bool" where
  "store_inv g \<longleftrightarrow> ring_ok (g_storage g) \<and> 0 < g_cols g \<and> 0 < g_rows g \<and>
     length (grid_lines g) = g_scrollback_len g + g_rows g \<and>
     (\<forall>r \<in> set (grid_lines g). length (row_cells r) = g_cols g) \<and>
     g_scrollback_len g + g_settled_pull g \<le> g_scrollback_limit g \<and> grid_ids_ok g"

lemma store_invD:
  assumes "store_inv g"
  shows "ring_ok (g_storage g)" "0 < g_cols g" "0 < g_rows g"
    "length (grid_lines g) = g_scrollback_len g + g_rows g"
    "st_len (g_storage g) = g_scrollback_len g + g_rows g"
    "\<forall>r \<in> set (grid_lines g). length (row_cells r) = g_cols g"
    "g_scrollback_len g + g_settled_pull g \<le> g_scrollback_limit g" "grid_ids_ok g"
    "g_scrollback_len g \<le> g_scrollback_limit g"
  using assms by (auto simp: store_inv_def st_len_def)

lemma grid_inv_store: "grid_inv g \<Longrightarrow> store_inv g"
  by (simp add: grid_inv_def grid_wf_def grid_shape_def store_inv_def)

lemma grid_inv_of_store:
  "store_inv g \<Longrightarrow> g_display_offset g \<le> g_scrollback_len g \<Longrightarrow> cursor_ok g \<Longrightarrow> region_ok g \<Longrightarrow> grid_inv g"
  by (simp add: grid_inv_def grid_wf_def grid_shape_def store_inv_def)

lemma take_all_lines: "ring_ok s \<Longrightarrow> take_all s = (st_iter s, (normalize s)\<lparr>st_rows := []\<rparr>)"
  by (simp add: take_all_def Let_def normalize_rows)

text \<open>The rows of a rewrap before the scrollback bound is applied.\<close>

definition reflow_result :: "grid \<Rightarrow> nat \<Rightarrow> reflowed" where
  "reflow_result g cols =
     reflow_rows cols (min (storage_index_of_cursor g (length (grid_lines g))) (length (grid_lines g) - 1))
       (cur_col (g_cursor g)) 0 (grid_lines g)
       \<lparr>rf_out = [], rf_next = row_id (hd (grid_lines g)), rf_target = None, rf_map = []\<rparr>"

definition reflow_out :: "grid \<Rightarrow> nat \<Rightarrow> cell \<Rightarrow> row list" where
  "reflow_out g cols t = rf_out (reflow_result g cols) @
     pad_rows (g_rows g - length (rf_out (reflow_result g cols))) cols t (rf_next (reflow_result g cols))"

lemma reflow_out_from:
  "rows_from cols (row_id (hd (grid_lines g))) (row_id (hd (grid_lines g)) + length (reflow_out g cols t))
    (reflow_out g cols t)"
proof -
  have "rows_from cols (row_id (hd (grid_lines g))) (rf_next (reflow_result g cols)) (rf_out (reflow_result g cols))"
    unfolding reflow_result_def by (rule reflow_rows_from) (simp add: rows_from_def)
  from rows_from_pad [OF this, of "g_rows g - length (rf_out (reflow_result g cols))" t] show ?thesis
    using rows_from_length by (fastforce simp: reflow_out_def)
qed

lemma reflow_out_length: "g_rows g \<le> length (reflow_out g cols t)"
  by (simp add: reflow_out_def pad_rows_def)

lemma reflow_place:
  assumes "ring_ok (g_storage g)"
  shows "reflow g cols t = place_rows g ((normalize (g_storage g))\<lparr>st_rows := []\<rparr>) cols (reflow_out g cols t)
    (row_id (hd (grid_lines g)) + length (reflow_out g cols t))
    (rf_target (reflow_result g cols)) (rf_map (reflow_result g cols))"
proof -
  have ne: "grid_lines g \<noteq> []" using ring.nonempty [OF assms] .
  have "rows_from cols (row_id (hd (grid_lines g))) (rf_next (reflow_result g cols)) (rf_out (reflow_result g cols))"
    unfolding reflow_result_def by (rule reflow_rows_from) (simp add: rows_from_def)
  then have eq: "rf_next (reflow_result g cols) + (g_rows g - length (rf_out (reflow_result g cols))) =
      row_id (hd (grid_lines g)) + length (reflow_out g cols t)"
    using rows_from_length by (fastforce simp: reflow_out_def pad_rows_def)
  show ?thesis using ne
    unfolding eq [symmetric] reflow_def take_all_lines [OF assms] Let_def
    by (simp add: hd_conv_nth reflow_result_def reflow_out_def del: length_st_iter)
qed

lemma place_rows_grid:
  fixes target :: "(nat \<times> nat) option" and m :: reindex and i cols :: nat and s :: storage
  assumes "g_rows g \<le> length out" "0 < g_rows g"
  defines "h \<equiv> fst (place_rows g s cols out i target m)"
    and "excess \<equiv> length out - g_rows g - g_scrollback_limit g"
  shows "g_storage h = replace_all (set_next_id s i) (drop excess out) \<and>
    g_scrollback_len h = length out - g_rows g - excess \<and>
    g_rows h = g_rows g \<and> g_cols h = cols \<and> g_scrollback_limit h = g_scrollback_limit g \<and>
    g_settled_pull h = g_settled_pull g \<and>
    g_display_offset h = min (g_display_offset g) (g_scrollback_len h) \<and>
    g_cursor h = (case target of
        Some (r, c) \<Rightarrow> \<lparr>cur_row = min (r - g_scrollback_len h) (g_rows g - 1),
                        cur_col = min c (cols - 1), cur_pending_wrap = False\<rparr>
      | None \<Rightarrow> \<lparr>cur_row = cur_row (g_cursor g), cur_col = min (cur_col (g_cursor g)) (cols - 1),
                 cur_pending_wrap = False\<rparr>)"
  unfolding h_def excess_def
  by (simp add: place_rows_def Let_def st_len_def replace_all_def split: option.splits)

lemma replace_all_simps:
  "st_iter (replace_all s rows) = rows" "ring_ok (replace_all s rows) \<longleftrightarrow> rows \<noteq> []"
  "st_next_id (replace_all s rows) = st_next_id s" "st_next_id (set_next_id s i) = max (st_next_id s) i"
  by (auto simp: replace_all_def st_iter_origin0 ring_ok_def set_next_id_def)

lemma reflow_store_inv:
  assumes "g_settled_pull g = 0" "store_inv g" "0 < cols"
  shows "store_inv (fst (reflow g cols t)) \<and> g_cols (fst (reflow g cols t)) = cols \<and>
    g_rows (fst (reflow g cols t)) = g_rows g \<and>
    g_scrollback_limit (fst (reflow g cols t)) = g_scrollback_limit g"
proof -
  let ?h = "fst (reflow g cols t)" and ?out = "reflow_out g cols t"
  let ?ex = "length ?out - g_rows g - g_scrollback_limit g"
  have ok: "ring_ok (g_storage g)" and pos: "0 < g_rows g" using assms(2) by (simp_all add: store_invD)
  note p = place_rows_grid [OF reflow_out_length pos, where cols = cols and
      s = "(normalize (g_storage g))\<lparr>st_rows := []\<rparr>" and i = "row_id (hd (grid_lines g)) + length ?out" and
      target = "rf_target (reflow_result g cols)" and m = "rf_map (reflow_result g cols)",
      of cols t, folded reflow_place [OF ok]]
  have r: "rows_from cols (row_id (hd (grid_lines g)) + ?ex) (row_id (hd (grid_lines g)) + length ?out) (drop ?ex ?out)"
    by (rule rows_from_drop [OF reflow_out_from]) simp
  have nn: "drop ?ex ?out \<noteq> []" using reflow_out_length [of g cols t] pos by simp
  have lines: "grid_lines ?h = drop ?ex ?out" "ring_ok (g_storage ?h)"
    using p nn by (simp_all add: replace_all_simps)
  have nid: "row_id (hd (grid_lines g)) + length ?out \<le> next_line_id ?h"
    using p by (simp add: next_line_id_def replace_all_simps)
  have "length (drop ?ex ?out) = g_scrollback_len ?h + g_rows ?h"
    using p reflow_out_length [of g cols t] by simp
  then show ?thesis
    using p r lines rows_from_ids_ok [OF r nid] assms
    by (simp add: store_inv_def store_invD(3) grid_ids_ok_def rows_from_def del: length_st_iter length_drop)
qed

lemma resize_cols_store:
  assumes "ring_ok s"
  shows "ring_ok (resize_cols s cols t)" "st_iter (resize_cols s cols t) = map (\<lambda>r. row_resize r cols t) (st_iter s)"
    "st_next_id (resize_cols s cols t) = st_next_id s"
proof -
  show "ring_ok (resize_cols s cols t)" using assms by (simp add: ring_ok_def resize_cols_def)
  show "st_iter (resize_cols s cols t) = map (\<lambda>r. row_resize r cols t) (st_iter s)"
    by (rule nth_equalityI)
      (use assms in \<open>auto simp: st_iter_def st_row_def physical_def resize_cols_def ring_ok_def\<close>)
  show "st_next_id (resize_cols s cols t) = st_next_id s" by (simp add: resize_cols_def)
qed

lemma resize_width_store_inv:
  assumes "store_inv g" "0 < cols" "cols \<noteq> g_cols g \<Longrightarrow> g_settled_pull g = 0"
  shows "store_inv (fst (resize_width g cols t)) \<and> g_cols (fst (resize_width g cols t)) = cols \<and>
    g_rows (fst (resize_width g cols t)) = g_rows g \<and>
    g_scrollback_limit (fst (resize_width g cols t)) = g_scrollback_limit g"
proof (cases "cols = g_cols g")
  case False
  then have pull: "g_settled_pull g = 0" by (rule assms(3))
  show ?thesis
  proof (cases "g_scrollback_limit g = 0")
    case True
    note r = resize_cols_store [OF store_invD(1) [OF assms(1)], of cols t]
    have "ids_ok (map (\<lambda>r. row_resize r cols t) rs) n = ids_ok rs n" for rs n
      by (simp add: ids_ok_def comp_def)
    then show ?thesis using assms False True r
      by (auto simp: resize_width_def store_inv_def grid_ids_ok_def next_line_id_def simp del: length_st_iter)
  next
    case F2: False
    obtain h m where h: "reflow g cols t = (h, m)" by (cases "reflow g cols t")
    then have "g_cols h = cols" using reflow_store_inv [OF pull assms(1,2), of t] by simp
    then have eq: "h\<lparr>g_cols := cols\<rparr> = h" by simp
    show ?thesis using reflow_store_inv [OF pull assms(1,2), of t] h False F2
      by (simp add: resize_width_def eq)
  qed
qed (use assms in \<open>simp add: resize_width_def\<close>)

text \<open>The change of height, branch by branch: the rows and the two counts that bound them.\<close>

lemma shrink_bounds:
  "shrink_bottom g rows \<le> g_rows g - rows"
  "shrink_bottom g rows + shrink_top g rows = g_rows g - rows"
  "shrink_len g rows \<le> g_scrollback_len g + shrink_top g rows"
  "shrink_len g rows \<le> g_scrollback_limit g"
proof -
  show "shrink_bottom g rows \<le> g_rows g - rows" by (simp add: shrink_bottom_def)
  then show "shrink_bottom g rows + shrink_top g rows = g_rows g - rows" by (simp add: shrink_top_def)
qed (simp_all add: shrink_len_def)

lemma shrink_rows_fields:
  assumes "g_scrollback_len g \<le> g_scrollback_limit g"
  shows "g_storage (shrink_rows g rows) = truncate_bottom (g_storage g) (shrink_bottom g rows)"
    and "g_scrollback_len (shrink_rows g rows) = shrink_len g rows"
    and "g_settled_pull (shrink_rows g rows) = g_settled_pull g - (shrink_len g rows - g_scrollback_len g)"
    and "g_restate_debt (shrink_rows g rows) = g_restate_debt g +
      (if g_restated g then shrink_len g rows - g_scrollback_len g else 0)"
    and "cur_row (g_cursor (shrink_rows g rows)) = cur_row (g_cursor g) - shrink_top g rows"
  using assms
  by (simp_all add: shrink_rows_def Let_def) (simp_all add: shrink_len_def)

lemma shrink_height_lines:
  fixes t :: cell
  assumes "store_inv g" "0 < rows" "rows < g_rows g"
  defines "fb \<equiv> shrink_bottom g rows" and "over \<equiv> shrink_top g rows" and "len \<equiv> shrink_len g rows"
  defines "h \<equiv> resize_height g (g_cols g) rows t"
  shows "ring_ok (g_storage h)"
    and "grid_lines h = drop (g_scrollback_len g + over - len) (take (g_scrollback_len g + g_rows g - fb) (grid_lines g))"
    and "next_line_id h = next_line_id g"
    and "g_scrollback_len h = len"
    and "g_settled_pull h = g_settled_pull g - (len - g_scrollback_len g)"
    and "length (grid_lines h) = len + rows"
    and "g_scrollback_len g \<le> len"
proof -
  note d = store_invD [OF assms(1)]
  let ?s = "truncate_bottom (g_storage g) fb"
  have fb: "fb \<le> g_rows g - rows" "fb + over = g_rows g - rows" "len \<le> g_scrollback_len g + over"
    unfolding fb_def over_def len_def by (rule shrink_bounds)+
  then have m: "max (length (grid_lines g) - fb) 1 = g_scrollback_len g + g_rows g - fb"
    using assms(2,3) d(4) by simp
  have c: "ring_ok ?s" "st_iter ?s = take (g_scrollback_len g + g_rows g - fb) (grid_lines g)"
    "st_next_id ?s = st_next_id (g_storage g)"
    using ring.chop [OF d(1), of fb] unfolding m by simp_all
  have l: "length (st_iter ?s) = g_scrollback_len g + over + rows"
    unfolding c(2) using d(4) fb assms(3) by (simp del: length_st_iter)
  have t: "0 < len + rows" "len + rows \<le> length (st_iter ?s)" using assms(2) l fb by simp_all
  note z = ring.shrink [OF c(1) t, of "g_cols g" t]
  note e = shrink_rows_fields [OF d(9), of rows, folded fb_def len_def]
  have eq: "h = set_height (shrink_rows g rows) (g_cols g) rows t"
    using assms(3) by (simp add: h_def resize_height_def)
  have sub: "length (st_iter ?s) - (len + rows) = g_scrollback_len g + over - len" using l by simp
  show "ring_ok (g_storage h)" "next_line_id h = next_line_id g" "g_scrollback_len h = len"
    "g_settled_pull h = g_settled_pull g - (len - g_scrollback_len g)"
    unfolding eq using z e c by (simp_all add: next_line_id_def set_height_def)
  show li: "grid_lines h = drop (g_scrollback_len g + over - len) (take (g_scrollback_len g + g_rows g - fb) (grid_lines g))"
    unfolding eq using z e c sub by (simp add: set_height_def del: length_st_iter)
  show "length (grid_lines h) = len + rows"
  proof -
    have "g_scrollback_len g + g_rows g - fb = g_scrollback_len g + rows + over"
      using fb(2) assms(3) by linarith
    then show ?thesis unfolding li length_drop length_take d(4) using fb(3) by linarith
  qed
  show "g_scrollback_len g \<le> len" using d(9) by (simp add: len_def shrink_len_def)
qed

definition grow_len :: "grid \<Rightarrow> nat \<Rightarrow> nat" where
  "grow_len g rows = (if g_restated g then g_scrollback_len g
     else g_scrollback_len g - min (rows - g_rows g) (g_scrollback_len g))"

definition grow_fresh :: "grid \<Rightarrow> nat \<Rightarrow> nat" where
  "grow_fresh g rows = grow_len g rows + rows - (g_scrollback_len g + g_rows g)"

lemma grow_bounds:
  "grow_len g rows \<le> g_scrollback_len g"
  "g_rows g < rows \<Longrightarrow> g_scrollback_len g + g_rows g + grow_fresh g rows = grow_len g rows + rows"
  by (auto simp: grow_len_def grow_fresh_def)

lemma grow_height_lines:
  fixes t :: cell
  assumes "store_inv g" "g_rows g < rows"
  defines "h \<equiv> resize_height g (g_cols g) rows t"
  shows "ring_ok (g_storage h)"
    and "grid_lines h = grid_lines g @ fresh_rows g (grow_fresh g rows) t"
    and "next_line_id h = next_line_id g + grow_fresh g rows"
    and "g_scrollback_len h = grow_len g rows"
    and "g_settled_pull h = g_settled_pull g"
    and "length (grid_lines h) = grow_len g rows + rows"
proof -
  note d = store_invD [OF assms(1)]
  have e: "g_storage (grow_rows g rows) = g_storage g" "g_scrollback_len (grow_rows g rows) = grow_len g rows"
    "g_settled_pull (grow_rows g rows) = g_settled_pull g"
    by (simp_all add: grow_rows_def Let_def grow_len_def)
  have eq: "h = set_height (grow_rows g rows) (g_cols g) rows t"
    using assms(2) by (simp add: h_def resize_height_def)
  have le: "length (grid_lines g) \<le> grow_len g rows + rows"
    unfolding d(4) using grow_bounds(2) [OF assms(2)] by linarith
  note z = ring.grow [OF d(1) le, of "g_cols g" t]
  have k: "grow_len g rows + rows - length (grid_lines g) = grow_fresh g rows"
    unfolding d(4) by (simp add: grow_fresh_def)
  show "ring_ok (g_storage h)" "next_line_id h = next_line_id g + grow_fresh g rows"
    "g_scrollback_len h = grow_len g rows" "g_settled_pull h = g_settled_pull g"
    unfolding eq using z e k by (simp_all add: next_line_id_def set_height_def)
  show li: "grid_lines h = grid_lines g @ fresh_rows g (grow_fresh g rows) t"
    unfolding eq using z e k by (simp add: next_line_id_def fresh_rows_def set_height_def)
  show "length (grid_lines h) = grow_len g rows + rows"
    unfolding li using grow_bounds(2) [OF assms(2)] d(4) by (simp del: length_st_iter)
qed

lemma resize_height_frame [frame_simps]:
  "g_cols (resize_height g cols rows t) = g_cols g"
  "g_scrollback_limit (resize_height g cols rows t) = g_scrollback_limit g"
  "g_rows (resize_height g cols rows t) = rows"
  by (simp_all add: resize_height_def set_height_def shrink_rows_def grow_rows_def Let_def)

lemma resize_height_store_inv:
  assumes "store_inv g" "0 < rows"
  shows "store_inv (resize_height g (g_cols g) rows t)"
proof -
  note d = store_invD [OF assms(1)]
  consider "rows = g_rows g" | "rows < g_rows g" | "g_rows g < rows" by linarith
  then show ?thesis
  proof cases
    case 1
    then show ?thesis using assms(1) by (simp add: resize_height_def)
  next
    case 2
    note z = shrink_height_lines [OF assms 2]
    let ?h = "resize_height g (g_cols g) rows t"
    have "\<forall>r \<in> set (grid_lines ?h). length (row_cells r) = g_cols g"
      unfolding z(2) using d(6) by (auto dest!: in_set_dropD in_set_takeD)
    moreover have "ids_ok (grid_lines ?h) (next_line_id ?h)"
      unfolding z(2,3) using d(8) [unfolded grid_ids_ok_def]
      by (intro ids_ok_drop [OF ids_ok_take [OF _ order_refl] order_refl])
    moreover have "shrink_len g rows + (g_settled_pull g - (shrink_len g rows - g_scrollback_len g)) \<le> g_scrollback_limit g"
      using z(7) d(7) shrink_bounds(4) [of g rows] by linarith
    ultimately show ?thesis using z(1,3-6) d(2) assms(2)
      by (simp add: store_inv_def frame_simps grid_ids_ok_def del: length_st_iter)
  next
    case 3
    note z = grow_height_lines [OF assms(1) 3]
    let ?h = "resize_height g (g_cols g) rows t"
    have "\<forall>r \<in> set (grid_lines ?h). length (row_cells r) = g_cols g"
      unfolding z(2) using d(6) by (auto simp: fresh_rows_def)
    moreover have "ids_ok (grid_lines ?h) (next_line_id ?h)"
      unfolding z(2,3) using d(8) by (simp add: grid_ids_ok_def fresh_rows_def ids_ok_mint)
    moreover have "grow_len g rows + g_settled_pull g \<le> g_scrollback_limit g"
      using d(7) grow_bounds(1) [of g rows] by linarith
    ultimately show ?thesis using z(1,3-6) d(2) 3
      by (simp add: store_inv_def frame_simps grid_ids_ok_def del: length_st_iter)
  qed
qed

lemma finish_resize_inv:
  assumes "store_inv h"
  shows "grid_inv (finish_resize h)"
proof -
  have "store_inv (finish_resize h)"
    using assms by (simp add: finish_resize_def store_inv_def grid_ids_ok_def next_line_id_def)
  then show ?thesis
    by (rule grid_inv_of_store) (use store_invD(2,3) [OF assms] in
      \<open>auto simp: finish_resize_def cursor_ok_def region_ok_def region_full_def min_less_iff_disj\<close>)
qed

lemma grid_resize_inv:
  assumes "grid_inv g"
  shows "grid_inv (fst (grid_resize g cols rows t))" (is ?A)
    and "g_cols (fst (grid_resize g cols rows t)) = max cols 1"
    and "g_rows (fst (grid_resize g cols rows t)) = max rows 1"
    and "g_scrollback_limit (fst (grid_resize g cols rows t)) = g_scrollback_limit g"
proof -
  let ?c = "max cols 1" and ?r = "max rows 1"
  let ?g2 = "begin_resize g ?c"
  let ?g3 = "fst (resize_width ?g2 ?c t)" and ?g4 = "resize_height (fst (resize_width ?g2 ?c t)) ?c ?r t"
  have i2: "store_inv ?g2" "g_cols ?g2 = g_cols g" "?c \<noteq> g_cols ?g2 \<Longrightarrow> g_settled_pull ?g2 = 0"
      "g_scrollback_limit ?g2 = g_scrollback_limit g"
    using grid_inv_store [OF assms]
    by (auto simp: begin_resize_def store_inv_def grid_ids_ok_def next_line_id_def)
  note w = resize_width_store_inv [OF i2(1) _ i2(3), where t = t, simplified]
  have i4: "store_inv ?g4" using w resize_height_store_inv [of ?g3 ?r t] by simp
  have eq: "fst (grid_resize g cols rows t) = (if ?c = g_cols g \<and> ?r = g_rows g then g else finish_resize ?g4)"
    unfolding grid_resize_def Let_def by (cases "resize_width ?g2 ?c t") simp
  show ?A using assms finish_resize_inv [OF i4] unfolding eq by simp
  have "g_cols (finish_resize h) = g_cols h" "g_rows (finish_resize h) = g_rows h"
    "g_scrollback_limit (finish_resize h) = g_scrollback_limit h" for h
    by (simp_all add: finish_resize_def)
  then show "g_cols (fst (grid_resize g cols rows t)) = ?c" "g_rows (fst (grid_resize g cols rows t)) = ?r"
    "g_scrollback_limit (fst (grid_resize g cols rows t)) = g_scrollback_limit g"
    unfolding eq using w i2 by (simp_all add: frame_simps)
qed

section \<open>The restatement protocol\<close>

text \<open>Taking a pull of \<open>k\<close> rows back: the boundary moves up, \<open>k\<close> fresh rows come in below.\<close>

lemma grow_by_pull:
  assumes "store_inv g" "g_rows h = g_rows g" "g_cols h = g_cols g" "g_settled_pull h = 0"
    and "g_scrollback_limit h = g_scrollback_limit g"
    and "g_scrollback_len h = g_scrollback_len g + g_settled_pull g"
    and "g_storage h = resize_rows (g_storage g) (g_scrollback_len h + g_rows g) (g_cols g) t"
  shows "store_inv h" "grid_lines h = grid_lines g @ fresh_rows g (g_settled_pull g) t"
    "next_line_id h = next_line_id g + g_settled_pull g"
proof -
  note d = store_invD [OF assms(1)]
  have k: "g_scrollback_len h + g_rows g = st_len (g_storage g) + g_settled_pull g"
    using d(5) assms(6) by simp
  note z = grow_eqs [OF d(1), of "g_settled_pull g" "g_cols g" t]
  show li: "grid_lines h = grid_lines g @ fresh_rows g (g_settled_pull g) t"
    "next_line_id h = next_line_id g + g_settled_pull g"
    using z assms(7) unfolding k by (simp_all add: fresh_rows_def next_line_id_def)
  have "length (grid_lines h) = g_scrollback_len h + g_rows h"
    unfolding li using d(4) assms(2,6) by (simp del: length_st_iter)
  moreover have "\<forall>r \<in> set (grid_lines h). length (row_cells r) = g_cols g"
    unfolding li using d(6) by (auto simp: fresh_rows_def)
  moreover have "grid_ids_ok h"
    using d(8) li by (simp add: grid_ids_ok_def fresh_rows_def ids_ok_mint)
  moreover have "ring_ok (g_storage h)" using z(1) assms(7) unfolding k by simp
  ultimately show "store_inv h" using d assms by (simp add: store_inv_def)
qed

lemma rebank_settled_inv [wf_intros]:
  assumes "grid_inv g"
  shows "grid_inv (rebank_settled g t)"
proof (cases "g_settled_pull g = 0")
  case True
  then show ?thesis using grid_inv_fields(10) [OF assms] by (simp add: rebank_settled_def Let_def)
next
  case False
  have "store_inv (rebank_settled g t)"
    by (rule grow_by_pull(1) [OF grid_inv_store [OF assms]]) (use False in \<open>simp_all add: rebank_settled_def Let_def\<close>)
  then show ?thesis
    by (rule grid_inv_of_store) (use grid_invD [OF assms] False in
      \<open>simp_all add: rebank_settled_def Let_def cursor_ok_def region_ok_def less_imp_diff_less\<close>)
qed

lemma rebank_settled_frame [frame_simps]:
  "g_cols (rebank_settled g t) = g_cols g" "g_rows (rebank_settled g t) = g_rows g"
  by (simp_all add: rebank_settled_def Let_def)

lemma strand_settled_inv [wf_intros]:
  assumes "grid_inv g"
  shows "grid_inv (fst (strand_settled g t))"
proof (cases "g_settled_pull g = 0")
  case True
  then show ?thesis using grid_inv_fields(10) [OF assms] by (simp add: strand_settled_def Let_def)
next
  case False
  have "store_inv (fst (strand_settled g t))"
    by (rule grow_by_pull(1) [OF grid_inv_store [OF assms]]) (use False in \<open>simp_all add: strand_settled_def Let_def\<close>)
  then show ?thesis
    by (rule grid_inv_of_store) (use grid_invD [OF assms] False in
      \<open>simp_all add: strand_settled_def Let_def cursor_ok_def region_ok_def less_imp_diff_less\<close>)
qed

lemma strand_settled_frame [frame_simps]:
  "g_cols (fst (strand_settled g t)) = g_cols g" "g_rows (fst (strand_settled g t)) = g_rows g"
  "g_region (fst (strand_settled g t)) = g_region g"
  "g_scrollback_limit (fst (strand_settled g t)) = g_scrollback_limit g"
  by (simp_all add: strand_settled_def Let_def)

lemma note_restatement_inv [wf_intros]:
  assumes "grid_inv g"
  shows "grid_inv (note_restatement_began g cols rows t)" "grid_inv (note_cursor_homed_while_hidden g t)"
proof -
  have o: "grid_inv (g\<lparr>g_restatement_open := True\<rparr>)" using assms by (rule grid_inv_fields(7))
  note r = rebank_settled_inv [OF o, of t]
  have st: "grid_inv h \<Longrightarrow> grid_inv (h\<lparr>g_restating := b, g_restate_rows_seen := k\<rparr>)" for h b k
    using grid_inv_fields(3) [OF grid_inv_fields(5)] by simp
  show "grid_inv (note_restatement_began g cols rows t)"
    using r by (simp add: note_restatement_began_def Let_def st grid_inv_fields(6))
  show "grid_inv (note_cursor_homed_while_hidden g t)"
    using o r by (simp add: note_cursor_homed_while_hidden_def Let_def st)
qed

lemma note_restatement_frame [frame_simps]:
  "g_cols (note_restatement_began g cols rows t) = g_cols g"
  "g_rows (note_restatement_began g cols rows t) = g_rows g"
  "g_cols (note_cursor_homed_while_hidden g t) = g_cols g"
  "g_rows (note_cursor_homed_while_hidden g t) = g_rows g"
  by (simp_all add: note_restatement_began_def note_cursor_homed_while_hidden_def Let_def frame_simps)

text \<open>Whether the last restatement covered the screen, and how many rows its settle moves.\<close>

abbreviation settle_rows :: "grid \<Rightarrow> nat" where
  "settle_rows g \<equiv> settle_count g (g_pending_restate g)"

lemma blank_tail_window:
  "blank_tail (g\<lparr>g_restating := a, g_sitting_out := b, g_restatement_open := c,
      g_restate_rows_seen := d, g_pending_restate := e\<rparr>) = blank_tail g"
  by (simp add: blank_tail_def active_base_def)

lemma settle_count_window:
  "settle_count ((end_restatement_window g)\<lparr>g_pending_restate := e\<rparr>) k = settle_count g k"
  unfolding settle_count_def end_restatement_window_def by (simp add: blank_tail_window)

lemma settle_cases:
  "\<not> g_rows g \<le> g_restate_rows_seen g \<Longrightarrow> settle_restate g = (end_restatement_window g, False)"
  "g_rows g \<le> g_restate_rows_seen g \<Longrightarrow> settle_rows g = 0 \<Longrightarrow> settle_restate g =
     ((end_restatement_window g)\<lparr>g_pending_restate := 0,
        g_restate_debt := g_restate_debt g + g_pending_restate g\<rparr>, False)"
  "g_rows g \<le> g_restate_rows_seen g \<Longrightarrow> 0 < settle_rows g \<Longrightarrow> settle_restate g =
     (settle_move ((end_restatement_window g)\<lparr>g_pending_restate := 0\<rparr>) (g_pending_restate g) (settle_rows g), True)"
  using settle_count_window [where g = g and e = 0 and k = "g_pending_restate g"]
  unfolding settle_restate_def Let_def
  by (simp_all add: end_restatement_window_def)

lemma settle_count_bounds:
  "settle_count g n \<le> n" "settle_count g n \<le> blank_tail g" "settle_count g n \<le> g_scrollback_len g"
  "cur_row (g_cursor g) < g_rows g \<Longrightarrow> cur_row (g_cursor g) + settle_count g n < g_rows g"
  unfolding settle_count_def by linarith+

lemma settle_move_fields:
  assumes "g_rows g \<le> g_restate_rows_seen g" "0 < settle_rows g"
  defines "h \<equiv> fst (settle_restate g)"
  shows "g_cols h = g_cols g \<and> g_rows h = g_rows g \<and> g_region h = g_region g \<and>
      g_scrollback_limit h = g_scrollback_limit g \<and> g_settled_pull h = settle_rows g \<and>
      g_scrollback_len h = g_scrollback_len g - settle_rows g \<and>
      g_display_offset h = min (g_display_offset g - settle_rows g) (g_scrollback_len g - settle_rows g) \<and>
      g_cursor h = (g_cursor g)\<lparr>cur_row := cur_row (g_cursor g) + settle_rows g\<rparr> \<and>
      g_storage h = truncate_bottom (g_storage g) (settle_rows g) \<and> g_pending_restate h = 0 \<and>
      g_restate_debt h = g_restate_debt g + (g_pending_restate g - settle_rows g)"
  unfolding h_def settle_cases(3) [OF assms(1,2)]
  by (simp add: settle_move_def Let_def end_restatement_window_def)

lemma settle_lines:
  assumes "grid_inv g" "g_rows g \<le> g_restate_rows_seen g" "0 < settle_rows g"
  defines "h \<equiv> fst (settle_restate g)"
  shows "ring_ok (g_storage h)" "next_line_id h = next_line_id g"
    "grid_lines h = take (g_scrollback_len g + g_rows g - settle_rows g) (grid_lines g)"
proof -
  note d = store_invD [OF grid_inv_store [OF assms(1)]]
  have "max (length (grid_lines g) - settle_rows g) 1 = g_scrollback_len g + g_rows g - settle_rows g"
    unfolding d(4) using d(3) settle_count_bounds(3) [of g "g_pending_restate g"] by linarith
  from ring.chop [OF d(1), of "settle_rows g", unfolded this]
  show "ring_ok (g_storage h)" "next_line_id h = next_line_id g"
    "grid_lines h = take (g_scrollback_len g + g_rows g - settle_rows g) (grid_lines g)"
    using settle_move_fields [OF assms(2,3)] by (simp_all add: h_def next_line_id_def)
qed

lemma settle_restate_inv [wf_intros]:
  assumes "grid_inv g"
  shows "grid_inv (fst (settle_restate g))"
proof -
  have e: "grid_inv (end_restatement_window g)" using assms by (rule cancel_restate_debt_inv)
  consider "\<not> g_rows g \<le> g_restate_rows_seen g" | "g_rows g \<le> g_restate_rows_seen g" "settle_rows g = 0"
    | "g_rows g \<le> g_restate_rows_seen g" "0 < settle_rows g" by linarith
  then show ?thesis
  proof cases
    case 2
    have "grid_inv ((end_restatement_window g)\<lparr>g_pending_restate := 0,
        g_restate_debt := g_restate_debt g + g_pending_restate g\<rparr>)"
      by (rule grid_inv_fields(8) [OF grid_inv_fields(9) [OF e]])
    then show ?thesis unfolding settle_cases(2) [OF 2] fst_conv .
  next
    case 3
    let ?h = "fst (settle_restate g)" and ?k = "settle_rows g"
    note l = settle_lines [OF assms 3]
    note d = store_invD [OF grid_inv_store [OF assms]]
    note f = settle_move_fields [OF 3]
    note b = settle_count_bounds [of g "g_pending_restate g"]
    have "\<forall>r \<in> set (grid_lines ?h). length (row_cells r) = g_cols g"
      unfolding l(3) using d(6) by (auto dest: in_set_takeD)
    moreover have "length (grid_lines ?h) = g_scrollback_len ?h + g_rows ?h"
      unfolding l(3) using f d(4) b(3) by (simp del: length_st_iter)
    moreover have "grid_ids_ok ?h"
      unfolding grid_ids_ok_def l(2,3) using d(8) [unfolded grid_ids_ok_def]
      by (rule ids_ok_take [OF _ order_refl])
    moreover have "g_scrollback_len ?h + g_settled_pull ?h \<le> g_scrollback_limit ?h"
      using f b(3) d(9) by linarith
    ultimately have "store_inv ?h" using l(1) d(2,3) f by (simp add: store_inv_def)
    then show ?thesis
      by (rule grid_inv_of_store) (use f grid_invD [OF assms] b(4) in
        \<open>simp_all add: cursor_ok_def region_ok_def\<close>)
  qed (simp add: settle_cases(1) e)
qed

lemma settle_restate_frame [frame_simps]:
  "g_cols (fst (settle_restate g)) = g_cols g" "g_rows (fst (settle_restate g)) = g_rows g"
  "g_scrollback_limit (fst (settle_restate g)) = g_scrollback_limit g"
  by (simp_all add: settle_restate_def settle_move_def Let_def frame_simps end_restatement_window_def)

section \<open>History\<close>

lemma clear_history_lines:
  assumes "grid_inv g"
  shows "ring_ok (g_storage (clear_history g))" "grid_lines (clear_history g) = drop (g_scrollback_len g) (grid_lines g)"
    "next_line_id (clear_history g) = next_line_id g" "g_scrollback_len (clear_history g) = 0"
proof -
  note d = store_invD [OF grid_inv_store [OF assms]]
  have "g_scrollback_len g < length (grid_lines g)" unfolding d(4) using d(3) by simp
  then have c: "ring_ok (remove_range (g_storage g) 0 (g_scrollback_len g)) \<and>
      st_iter (remove_range (g_storage g) 0 (g_scrollback_len g)) = drop (g_scrollback_len g) (grid_lines g) \<and>
      st_next_id (remove_range (g_storage g) 0 (g_scrollback_len g)) = st_next_id (g_storage g)"
    using ring.cut [OF d(1), of 0 "g_scrollback_len g"] by (simp del: length_st_iter)
  show "ring_ok (g_storage (clear_history g))" "grid_lines (clear_history g) = drop (g_scrollback_len g) (grid_lines g)"
    "next_line_id (clear_history g) = next_line_id g" "g_scrollback_len (clear_history g) = 0"
    using c d(1) by (simp_all add: clear_history_def Let_def next_line_id_def)
qed

lemma clear_history_inv [wf_intros]:
  assumes "grid_inv g"
  shows "grid_inv (clear_history g)"
proof -
  let ?h = "clear_history g"
  note d = store_invD [OF grid_inv_store [OF assms]] and l = clear_history_lines [OF assms]
  have f: "g_cols ?h = g_cols g" "g_rows ?h = g_rows g" "g_settled_pull ?h = g_settled_pull g"
    "g_scrollback_limit ?h = g_scrollback_limit g" "g_display_offset ?h = 0"
    "g_cursor ?h = g_cursor g" "g_region ?h = g_region g"
    by (simp_all add: clear_history_def Let_def)
  have "length (grid_lines ?h) = g_rows g" unfolding l using d(4) by (simp del: length_st_iter)
  moreover have "\<forall>r \<in> set (grid_lines ?h). length (row_cells r) = g_cols g"
    unfolding l using d(6) by (auto dest: in_set_dropD)
  moreover have "grid_ids_ok ?h"
    unfolding grid_ids_ok_def l using d(8) [unfolded grid_ids_ok_def] by (rule ids_ok_drop [OF _ order_refl])
  ultimately have "store_inv ?h" using l d(2,3,7) f by (simp add: store_inv_def)
  then show ?thesis
    by (rule grid_inv_of_store) (use f l grid_invD [OF assms] in \<open>simp_all add: cursor_ok_def region_ok_def\<close>)
qed

lemma bank_viewport_top_inv [wf_intros]:
  assumes "grid_inv g" "g_settled_pull g = 0"
  shows "grid_inv (bank_viewport_top g n t)"
  using assms
proof (cases "n = 0")
  case False
  let ?h = "bank_viewport_top g n t"
  note d = store_invD [OF grid_inv_store [OF assms(1)]]
  let ?s = "resize_rows (g_storage g) (st_len (g_storage g) + n) (g_cols g) t"
  let ?x = "g_scrollback_len g + n - g_scrollback_limit g"
  note z = grow_eqs [OF d(1), of n "g_cols g" t]
  have len: "length (st_iter ?s) = g_scrollback_len g + g_rows g + n"
    unfolding z using d(4) by (simp del: length_st_iter)
  have sl: "st_len ?s = g_scrollback_len g + g_rows g + n" using len by (simp add: st_len_def)
  have "0 < st_len ?s - ?x" "st_len ?s - ?x \<le> length (st_iter ?s)"
    using d(3,9) by (simp_all add: len sl del: length_st_iter)
  note w = ring.shrink [OF z(1) this, of "g_cols g" t]
  have xx: "length (st_iter ?s) - (st_len ?s - ?x) = ?x" using d(9) len sl by linarith
  have q: "g_storage ?h = (if g_scrollback_limit g < g_scrollback_len g + n
      then resize_rows ?s (st_len ?s - ?x) (g_cols g) t else ?s)"
    "g_scrollback_len ?h = g_scrollback_len g + n - ?x"
    unfolding bank_viewport_top_def Let_def using False by simp_all
  have l: "ring_ok (g_storage ?h) \<and> grid_lines ?h = drop ?x (grid_lines g @ fresh_rows g n t) \<and>
      next_line_id ?h = next_line_id g + n \<and> g_scrollback_len ?h = g_scrollback_len g + n - ?x"
  proof (cases "g_scrollback_limit g < g_scrollback_len g + n")
    case True
    then show ?thesis using w [unfolded xx] z(3)
      unfolding next_line_id_def q(2) q(1) if_P [OF True] fresh_rows_def z(2) by metis
  next
    case False
    then have "?x = 0" by simp
    then show ?thesis using z unfolding next_line_id_def q(2) q(1) if_not_P [OF False] fresh_rows_def by simp
  qed
  have f: "g_cols ?h = g_cols g" "g_rows ?h = g_rows g" "g_settled_pull ?h = g_settled_pull g"
    "g_scrollback_limit ?h = g_scrollback_limit g" "g_display_offset ?h \<le> g_scrollback_len ?h"
    "g_cursor ?h = g_cursor g" "g_region ?h = g_region g"
    using False assms(1) by (simp_all add: bank_viewport_top_def Let_def grid_inv_def grid_wf_def grid_shape_def)
  have "length (grid_lines ?h) = g_scrollback_len ?h + g_rows ?h"
    using l f d(4,9) by (simp del: length_st_iter)
  moreover have "\<forall>r \<in> set (grid_lines ?h). length (row_cells r) = g_cols g"
    using l d(6) by (auto simp: fresh_rows_def dest!: in_set_dropD)
  moreover have "grid_ids_ok ?h"
  proof -
    have "ids_ok (grid_lines g @ fresh_rows g n t) (next_line_id g + n)"
      using d(8) by (simp add: grid_ids_ok_def fresh_rows_def ids_ok_mint)
    then have "ids_ok (drop ?x (grid_lines g @ fresh_rows g n t)) (next_line_id g + n)"
      by (rule ids_ok_drop [OF _ order_refl])
    then show ?thesis unfolding grid_ids_ok_def using l by metis
  qed
  moreover have "g_scrollback_len ?h \<le> g_scrollback_limit g" using l by linarith
  ultimately have "store_inv ?h" using l d(2,3) f assms(2) by (simp add: store_inv_def)
  then show ?thesis
    by (rule grid_inv_of_store) (use f grid_invD [OF assms(1)] in \<open>simp_all add: cursor_ok_def region_ok_def\<close>)
qed (simp add: bank_viewport_top_def)

end
