(* ===== verification/BlocksInv.thy ===== *)
theory BlocksInv
  imports Blocks
begin

text \<open>
  The invariant of the block index: ids ascend below the next one, the floor from which the index
  is complete is not above any held block, and an open prompt is the newest block.
\<close>

section \<open>The invariant\<close>

text \<open>A block still at its prompt, with nothing run.\<close>

definition open_prompt :: "block \<Rightarrow> bool" where
  "open_prompt b \<longleftrightarrow> b_state b = Prompt \<and> b_output_line b = None"

definition blocks_sorted :: "block_index \<Rightarrow> bool" where
  "blocks_sorted x \<longleftrightarrow> sorted_wrt (\<lambda>a b. b_id a < b_id b) (bi_blocks x) \<and>
     (\<forall>b \<in> set (bi_blocks x). b_id b < bi_next_id x)"

definition blocks_ok :: "block_index \<Rightarrow> bool" where
  "blocks_ok x \<longleftrightarrow> blocks_sorted x \<and>
     (\<forall>b \<in> set (bi_blocks x). bi_authoritative_from x \<le> b_id b) \<and>
     bi_authoritative_from x \<le> bi_next_id x \<and>
     (\<forall>b \<in> set (butlast (bi_blocks x)). \<not> open_prompt b)"

lemma blocks_ok_new [wf_intros]: "blocks_ok block_index_new"
  by (simp add: blocks_ok_def blocks_sorted_def block_index_new_def)

lemma set_butlast_filter: "x \<in> set (butlast (filter p xs)) \<Longrightarrow> x \<in> set (butlast xs)"
  by (induction xs) (auto split: if_splits)

lemma set_butlast_map: "set (butlast (map f xs)) = f ` set (butlast xs)"
  by (simp flip: map_butlast)

text \<open>A filter that moves no floor upwards past what it keeps.\<close>

lemma blocks_ok_filter:
  assumes "blocks_ok x" "\<forall>b \<in> set (filter p (bi_blocks x)). f \<le> b_id b" "f \<le> bi_next_id x"
  shows "blocks_ok (x\<lparr>bi_blocks := filter p (bi_blocks x), bi_authoritative_from := f\<rparr>)"
  using assms by (auto simp: blocks_ok_def blocks_sorted_def sorted_wrt_filter dest: set_butlast_filter)

lemma update_last_ok:
  assumes "blocks_ok x" "\<And>b. b_id (f b) = b_id b"
  shows "blocks_ok (update_last f x)"
proof (cases "bi_blocks x" rule: rev_cases)
  case (snoc bs b)
  then show ?thesis using assms by (auto simp: update_last_def blocks_ok_def blocks_sorted_def sorted_wrt_append)
qed (use assms in \<open>simp add: update_last_def\<close>)

lemma begin_prompt_ok [wf_intros]:
  assumes "blocks_ok x"
  shows "blocks_ok (fst (begin_prompt x line cwd))"
proof -
  have fresh: "blocks_ok (x\<lparr>bi_next_id := bi_next_id x + 1,
      bi_blocks := bi_blocks x @ [new_block (bi_next_id x) line cwd]\<rparr>)"
    if "\<forall>b \<in> set (bi_blocks x). \<not> open_prompt b"
    using assms that by (auto simp: blocks_ok_def blocks_sorted_def sorted_wrt_append new_block_def)
  show ?thesis
  proof (cases "bi_blocks x" rule: rev_cases)
    case Nil
    then show ?thesis using fresh by (simp add: begin_prompt_def Let_def)
  next
    case (snoc bs b)
    then show ?thesis
    proof (cases "open_prompt b")
      case True
      then have "fst (begin_prompt x line cwd) =
          update_last (\<lambda>b. b\<lparr>b_prompt_line := line, b_cwd := cwd, b_command := []\<rparr>) x"
        using snoc by (simp add: begin_prompt_def Let_def open_prompt_def)
      then show ?thesis using update_last_ok [OF assms] by simp
    next
      case False
      then have "fst (begin_prompt x line cwd) = x\<lparr>bi_next_id := bi_next_id x + 1,
          bi_blocks := bi_blocks x @ [new_block (bi_next_id x) line cwd]\<rparr>"
        using snoc by (auto simp: begin_prompt_def Let_def open_prompt_def)
      moreover have "\<forall>b \<in> set (bi_blocks x). \<not> open_prompt b"
        using assms snoc False by (auto simp: blocks_ok_def)
      ultimately show ?thesis using fresh by simp
    qed
  qed
qed

lemma begin_output_ok [wf_intros]: "blocks_ok x \<Longrightarrow> blocks_ok (begin_output x line command now author)"
  unfolding begin_output_def by (rule update_last_ok) simp_all

lemma block_finish_ok [wf_intros]: "blocks_ok x \<Longrightarrow> blocks_ok (block_finish x line code now)"
  unfolding block_finish_def by (rule update_last_ok) (simp_all split: block_state.splits)

lemma map_update_first: "(\<And>x. g (f x) = g x) \<Longrightarrow> map g (update_first p f xs) = map g xs"
  by (induction xs) auto

lemma ball_map_eq:
  assumes "map g xs = map g ys"
  shows "(\<forall>x \<in> set xs. P (g x)) \<longleftrightarrow> (\<forall>y \<in> set ys. P (g y))"
proof -
  have "(\<forall>z \<in> g ` set xs. P z) \<longleftrightarrow> (\<forall>z \<in> g ` set ys. P z)" using arg_cong [OF assms, of set] by simp
  then show ?thesis by simp
qed

lemma set_context_ok [wf_intros]:
  assumes "blocks_ok x"
  shows "blocks_ok (set_context x i c)"
proof -
  let ?f = "\<lambda>b. b\<lparr>b_context := (if context_is_empty c then None else Some c)\<rparr>"
  let ?ys = "update_first (\<lambda>b. b_id b = i) ?f (bi_blocks x)"
  let ?g = "\<lambda>b. (b_id b, b_state b, b_output_line b)"
  have m: "map ?g ?ys = map ?g (bi_blocks x)" by (rule map_update_first) simp
  have ids: "map b_id ?ys = map b_id (bi_blocks x)" by (rule map_update_first) simp
  have s: "sorted_wrt (<) (map b_id ?ys) \<longleftrightarrow> sorted_wrt (<) (map b_id (bi_blocks x))" unfolding ids ..
  have a: "(\<forall>b \<in> set ?ys. P (b_id b)) \<longleftrightarrow> (\<forall>b \<in> set (bi_blocks x). P (b_id b))" for P
    by (rule ball_map_eq [OF ids])
  have "(\<forall>b \<in> set (butlast ?ys). \<not> open_prompt b) \<longleftrightarrow> (\<forall>b \<in> set (butlast (bi_blocks x)). \<not> open_prompt b)"
    using ball_map_eq [of ?g "butlast ?ys" "butlast (bi_blocks x)" "\<lambda>(i, s, l). \<not> (s = Prompt \<and> l = None)"]
      arg_cong [OF m, of butlast] by (simp add: map_butlast open_prompt_def)
  then show ?thesis
    using assms s a [of "\<lambda>n. n < bi_next_id x"] a [of "\<lambda>n. bi_authoritative_from x \<le> n"]
    by (simp add: set_context_def blocks_ok_def blocks_sorted_def sorted_wrt_map del: if_split)
qed

lemma evict_before_ok [wf_intros]:
  assumes "blocks_ok x"
  shows "blocks_ok (evict_before x oldest)"
proof (cases "bi_blocks x" rule: rev_cases)
  case (snoc bs b)
  let ?p = "\<lambda>b. case b_end_line b of None \<Rightarrow> True | Some e \<Rightarrow> oldest \<le> e"
  let ?k = "filter ?p (bi_blocks x)"
  let ?f = "case first_of ?k of None \<Rightarrow> b_id b + 1 | Some b \<Rightarrow> b_id b"
  have b: "b_id b < bi_next_id x" "bi_authoritative_from x \<le> bi_next_id x"
    using assms snoc by (auto simp: blocks_ok_def blocks_sorted_def)
  have "sorted_wrt (\<lambda>a b. b_id a < b_id b) ?k" "\<forall>b \<in> set ?k. b_id b < bi_next_id x"
    using assms by (auto simp: blocks_ok_def blocks_sorted_def sorted_wrt_filter)
  then have "(\<forall>b \<in> set ?k. ?f \<le> b_id b) \<and> ?f \<le> bi_next_id x"
    using b by (cases ?k) (auto simp: first_of_def)
  moreover have "\<forall>b \<in> set ?k. bi_authoritative_from x \<le> b_id b" using assms by (auto simp: blocks_ok_def)
  ultimately have "blocks_ok (x\<lparr>bi_blocks := ?k, bi_authoritative_from := max (bi_authoritative_from x) ?f\<rparr>)"
    using blocks_ok_filter [OF assms, of ?p] b by simp
  then show ?thesis using snoc by (simp add: evict_before_def Let_def)
qed (use assms in \<open>simp add: evict_before_def\<close>)

lemma erase_screen_ok [wf_intros]:
  assumes "blocks_ok x"
  shows "blocks_ok (erase_screen x first)"
proof -
  let ?p = "\<lambda>b. case b_end_line b of None \<Rightarrow> False | Some e \<Rightarrow> e < first"
  have "blocks_ok (x\<lparr>bi_blocks := filter ?p (bi_blocks x), bi_authoritative_from := f\<rparr>)"
    if "f \<le> bi_authoritative_from x" for f
    by (rule blocks_ok_filter [OF assms]) (use assms that in \<open>auto simp: blocks_ok_def\<close>)
  from this [of "bi_authoritative_from x"] this show ?thesis
    by (simp add: erase_screen_def Let_def)
qed

lemma retain_below_ok [wf_intros]: "blocks_ok x \<Longrightarrow> blocks_ok (retain_below x first)"
  using blocks_ok_filter [of x "\<lambda>b. b_id b < first" "bi_authoritative_from x"]
  by (simp add: retain_below_def blocks_ok_def)

lemma reanchor_block_keeps:
  "reanchor_block m oldest b = Some c \<Longrightarrow> b_id c = b_id b \<and> open_prompt c = open_prompt b"
  by (auto simp: reanchor_block_def Let_def open_prompt_def split: option.splits)

lemma set_butlast_map_filter:
  "c \<in> set (butlast (List.map_filter f xs)) \<Longrightarrow> \<exists>b \<in> set (butlast xs). f b = Some c"
  by (induction xs) (auto simp: map_filter_simps split: option.splits if_splits)

lemma reanchor_ok [wf_intros]:
  assumes "blocks_ok x"
  shows "blocks_ok (reanchor x m)"
proof (cases "reindex_oldest m")
  case (Some oldest)
  let ?f = "reanchor_block m oldest"
  have mf: "c \<in> set (List.map_filter ?f bs) \<Longrightarrow> \<exists>b \<in> set bs. ?f b = Some c" for c bs
    by (auto simp: map_filter_def)
  have "sorted_wrt (\<lambda>a b. b_id a < b_id b) (List.map_filter ?f bs)"
    if "sorted_wrt (\<lambda>a b. b_id a < b_id b) bs" for bs
    using that
  proof (induction bs)
    case (Cons b bs)
    have "?f b = Some a \<Longrightarrow> c \<in> set (List.map_filter ?f bs) \<Longrightarrow> b_id a < b_id c" for a c
      using Cons.prems reanchor_block_keeps by (fastforce dest!: mf)
    then show ?case using Cons by (cases "?f b") (auto simp: map_filter_simps)
  qed (simp add: map_filter_simps)
  then show ?thesis using assms Some
    by (auto simp: reanchor_def blocks_ok_def blocks_sorted_def dest!: mf set_butlast_map_filter
        dest: reanchor_block_keeps)
qed (use assms in \<open>simp add: reanchor_def blocks_ok_def blocks_sorted_def\<close>)

section \<open>Insertion and lookup\<close>

lemma find_first_append:
  "find_first p (xs @ ys) = (case find_first p xs of None \<Rightarrow> find_first p ys | Some x \<Rightarrow> Some x)"
  by (induction xs) auto

lemma find_first_update:
  assumes "distinct (map g xs)" "i < length xs" "g (xs ! i) = g b"
  shows "find_first (\<lambda>x. g x = k) (xs[i := b]) = (if g b = k then Some b else find_first (\<lambda>x. g x = k) xs)"
proof -
  have n: "x \<in> set (take i xs) \<Longrightarrow> g x \<noteq> g b" for x
    using assms by (auto simp: in_set_conv_nth distinct_conv_nth) (metis less_irrefl order.strict_trans)
  have "find_first (\<lambda>x. g x = k) (take i xs @ b # drop (Suc i) xs) =
      (if g b = k then Some b else find_first (\<lambda>x. g x = k) (take i xs @ xs ! i # drop (Suc i) xs))"
    using n assms(3) by (auto simp: find_first_append find_first_None split: option.splits dest: find_first_Some)
  then show ?thesis using assms(2) by (simp add: upd_conv_take_nth_drop flip: id_take_nth_drop)
qed

lemma upsert_sorted:
  assumes "blocks_sorted x"
  shows "blocks_sorted (upsert x b)"
proof -
  have s: "sorted (map b_id (bi_blocks x))"
    using assms by (simp add: blocks_sorted_def strict_sorted_iff flip: sorted_wrt_map)
  show ?thesis
  proof (cases "binary_search_by_key b_id (b_id b) (bi_blocks x)")
    case (Inr i)
    note h = binary_search_hit [OF s Inr]
    have "map b_id ((bi_blocks x)[i := b]) = map b_id (bi_blocks x)"
      using h by (simp add: map_update list_update_same_conv)
    then have "sorted_wrt (<) (map b_id ((bi_blocks x)[i := b]))"
      using assms by (simp add: blocks_sorted_def sorted_wrt_map)
    then show ?thesis using Inr h assms
      by (auto simp: upsert_def blocks_sorted_def sorted_wrt_map dest!: set_update_subset_insert [THEN subsetD])
        (metis nth_mem)
  next
    case (Inl i)
    note h = binary_search_miss [OF s Inl]
    have d: "sorted_wrt (\<lambda>a b. b_id a < b_id b) (take i (bi_blocks x) @ drop i (bi_blocks x))"
      using assms by (simp add: blocks_sorted_def)
    have "sorted_wrt (\<lambda>a b. b_id a < b_id b) (take i (bi_blocks x) @ b # drop i (bi_blocks x))"
      using h d unfolding sorted_wrt_append by auto
    then show ?thesis using Inl assms
      by (auto simp: upsert_def blocks_sorted_def less_max_iff_disj dest: in_set_takeD in_set_dropD)
  qed
qed

lemma upsert_get:
  assumes "blocks_sorted x"
  shows "block_get (upsert x b) i = (if i = b_id b then Some b else block_get x i)"
proof -
  have st: "sorted_wrt (<) (map b_id (bi_blocks x))" using assms by (simp add: blocks_sorted_def sorted_wrt_map)
  then have s: "sorted (map b_id (bi_blocks x))" "distinct (map b_id (bi_blocks x))"
    by (simp_all add: strict_sorted_iff)
  show ?thesis
  proof (cases "binary_search_by_key b_id (b_id b) (bi_blocks x)")
    case (Inr j)
    then show ?thesis using binary_search_hit [OF s(1) Inr] find_first_update [OF s(2), of j b i]
      by (auto simp: upsert_def block_get_def)
  next
    case (Inl j)
    note h = binary_search_miss [OF s(1) Inl]
    have "find_first (\<lambda>b. b_id b = i) (bi_blocks x) =
        find_first (\<lambda>b. b_id b = i) (take j (bi_blocks x) @ drop j (bi_blocks x))" by simp
    then show ?thesis using Inl h
      by (auto simp: upsert_def block_get_def find_first_append find_first_None split: option.splits
          dest!: find_first_Some simp del: append_take_drop_id)
  qed
qed

end
