(* ===== verification/TermInv.thy ===== *)
theory TermInv
  imports Osc ResizeInv BlocksInv
begin

text \<open>
  The invariant of the terminal and its preservation by every callback of the parser: both
  screens well formed and of one size, no history behind the alternate one, the Kitty stacks
  bounded and mirrored in the mode word, the colour table whole, the block index in order, and no
  structural flag in the template new cells are written from.
\<close>

section \<open>Steps of a grid\<close>

named_theorems step_intros \<open>operations that are a step of the grid\<close>

text \<open>What every operation on the active screen promises.\<close>

definition grid_step :: "grid \<Rightarrow> grid \<Rightarrow> bool" where
  "grid_step g h \<longleftrightarrow> grid_inv h \<and> g_cols h = g_cols g \<and> g_rows h = g_rows g \<and>
     g_scrollback_limit h = g_scrollback_limit g"

lemma grid_step_refl [step_intros]: "grid_inv g \<Longrightarrow> grid_step g g"
  by (simp add: grid_step_def)

lemma grid_step_trans: "grid_step g h \<Longrightarrow> grid_step h k \<Longrightarrow> grid_step g k"
  by (simp add: grid_step_def)

lemma grid_stepD:
  assumes "grid_step g h"
  shows "grid_inv h" "g_cols h = g_cols g" "g_rows h = g_rows g" "g_scrollback_limit h = g_scrollback_limit g"
  using assms by (simp_all add: grid_step_def)

lemma limit_frame [frame_simps]:
  "g_scrollback_limit (set_active_row g i r) = g_scrollback_limit g"
  "g_scrollback_limit (set_cell g row col c) = g_scrollback_limit g"
  "g_scrollback_limit (grid_set_wrapped g row b) = g_scrollback_limit g"
  "g_scrollback_limit (erase_in_row g row a e t) = g_scrollback_limit g"
  "g_scrollback_limit (insert_cells g n t) = g_scrollback_limit g"
  "g_scrollback_limit (delete_cells g n t) = g_scrollback_limit g"
  "g_scrollback_limit (insert_lines g n t) = g_scrollback_limit g"
  "g_scrollback_limit (delete_lines g n t) = g_scrollback_limit g"
  "g_scrollback_limit (cancel_restate_debt g) = g_scrollback_limit g"
  "g_scrollback_limit (end_restatement_window g) = g_scrollback_limit g"
  "g_scrollback_limit (rebank_settled g t) = g_scrollback_limit g"
  "g_scrollback_limit (note_restatement_began g cols rows t) = g_scrollback_limit g"
  "g_scrollback_limit (note_cursor_homed_while_hidden g t) = g_scrollback_limit g"
  "g_scrollback_limit (bank_viewport_top g n t) = g_scrollback_limit g"
  "g_scrollback_limit (clear_history g) = g_scrollback_limit g"
  by (simp_all add: set_active_row_def set_cell_def grid_set_wrapped_def erase_in_row_def insert_cells_def
      delete_cells_def insert_lines_def delete_lines_def cancel_restate_debt_def end_restatement_window_def
      rebank_settled_def note_restatement_began_def note_cursor_homed_while_hidden_def bank_viewport_top_def
      clear_history_def Let_def scroll_up_frame scroll_down_frame split: option.splits)

lemma fold_limit:
  assumes "\<And>x g. g_scrollback_limit (f x g) = g_scrollback_limit g"
  shows "g_scrollback_limit (fold f xs g) = g_scrollback_limit g"
  by (induction xs arbitrary: g) (simp_all add: assms)

lemma limit_folds [frame_simps]:
  "g_scrollback_limit (erase_rows g a b t) = g_scrollback_limit g"
  "g_scrollback_limit (clear_all g t) = g_scrollback_limit g"
  by (simp_all add: erase_rows_def clear_all_def Let_def fold_limit frame_simps)

lemma history_frame [frame_simps]:
  "g_cols (bank_viewport_top g n t) = g_cols g" "g_rows (bank_viewport_top g n t) = g_rows g"
  "g_cols (clear_history g) = g_cols g" "g_rows (clear_history g) = g_rows g"
  by (simp_all add: bank_viewport_top_def clear_history_def Let_def)

lemma edit_steps [step_intros]:
  assumes "grid_inv g"
  shows "grid_step g (erase_rows g a b t)" "grid_step g (insert_cells g n t)" "grid_step g (delete_cells g n t)"
    "grid_step g (insert_lines g n t)" "grid_step g (delete_lines g n t)" "grid_step g (clear_all g t)"
    "grid_step g (scroll_up g n t)" "grid_step g (scroll_down g n t)"
    "grid_step g (cancel_restate_debt g)" "grid_step g (end_restatement_window g)"
    "grid_step g (fst (settle_restate g))" "grid_step g (fst (strand_settled g t))"
    "grid_step g (note_restatement_began g cols rows t)" "grid_step g (note_cursor_homed_while_hidden g t)"
    "grid_step g (clear_history g)" "g_settled_pull g = 0 \<Longrightarrow> grid_step g (bank_viewport_top g n t)"
    "row < g_rows g \<Longrightarrow> grid_step g (erase_in_row g row a b t)"
    "row < g_rows g \<Longrightarrow> grid_step g (set_cell g row col c)"
    "row < g_rows g \<Longrightarrow> grid_step g (grid_set_wrapped g row d)"
  using assms by (simp_all add: grid_step_def frame_simps wf_intros)

lemma cursor_steps [step_intros]:
  assumes "grid_inv g"
  shows "row < g_rows g \<Longrightarrow> grid_step g (set_row row g)" "col < g_cols g \<Longrightarrow> grid_step g (set_col col g)"
    "grid_step g (clear_pending g)"
    "row < g_rows g \<Longrightarrow> col < g_cols g \<Longrightarrow> grid_step g (set_cursor_pos row col g)"
    "row < g_rows g \<Longrightarrow> col < g_cols g \<Longrightarrow> grid_step g (g\<lparr>g_cursor := \<lparr>cur_row = row, cur_col = col, cur_pending_wrap = b\<rparr>\<rparr>)"
    "sr_top q \<le> sr_bottom q \<Longrightarrow> sr_bottom q < g_rows g \<Longrightarrow> grid_step g (g\<lparr>g_region := q\<rparr>)"
  using grid_inv_fields(1,2) [OF assms] grid_invD [OF assms]
  by (simp_all add: grid_step_def set_row_def set_col_def clear_pending_def set_cursor_pos_def)

lemma view_steps [step_intros]:
  assumes "grid_inv g"
  shows "grid_step g (scroll_display g d)" "grid_step g (scroll_to_bottom g)"
    "grid_step g (fst (scroll_to_line g l))" "grid_step g (set_viewport_restated g b)"
proof -
  have "grid_step g (g\<lparr>g_display_offset := k\<rparr>)" if "k \<le> g_scrollback_len g" for k
    using assms that
    by (auto simp: grid_step_def grid_inv_def grid_wf_def grid_shape_def cursor_ok_def region_ok_def
        grid_ids_ok_def next_line_id_def)
  then show "grid_step g (scroll_display g d)" "grid_step g (scroll_to_bottom g)"
    "grid_step g (fst (scroll_to_line g l))"
    using grid_step_refl [OF assms]
    by (auto simp: scroll_display_def scroll_to_bottom_def scroll_to_line_def Let_def split: option.splits)
  show "grid_step g (set_viewport_restated g b)"
    using grid_inv_fields(4) [OF assms, of b] by (simp add: set_viewport_restated_def grid_step_def)
qed

lemma push_mark_step [step_intros]:
  assumes "grid_inv g" "row < g_rows g"
  shows "grid_step g (set_active_row g row (push_zerowidth (active_row g row) col m))"
proof -
  have "length (row_cells (push_zerowidth r col m)) = length (row_cells r) \<and>
      row_id (push_zerowidth r col m) = row_id r" for r
    by (simp add: push_zerowidth_def row_set_cell_def Let_def split: option.splits)
  then show ?thesis using assms edit_row_inv [OF assms] active_row_length [of g row] grid_invD(1) [OF assms(1)]
    by (simp add: grid_step_def frame_simps grid_invD(3))
qed

section \<open>The invariant\<close>

definition STRUCTURE :: cell_flags where
  "STRUCTURE = CF_WIDE OR CF_WIDE_SPACER OR CF_WRAPLINE"

definition template_ok :: "cell \<Rightarrow> bool" where
  "template_ok c \<longleftrightarrow> cell_flags c AND STRUCTURE = 0 \<and> cell_extra c = NO_EXTRA"

definition kitty_ok :: "byte list \<Rightarrow> bool" where
  "kitty_ok s \<longleftrightarrow> length s \<le> KITTY_STACK_DEPTH \<and> (\<forall>f \<in> set s. f AND KITTY_SUPPORTED = f)"

definition modes_ok :: "tm \<Rightarrow> bool" where
  "modes_ok t \<longleftrightarrow>
     kitty_flags_of (t_modes t) = (case last_of (kitty_stack t) of None \<Rightarrow> 0 | Some f \<Rightarrow> f) \<and>
     (flag_contains (t_modes t) M_ALT_SCREEN \<longleftrightarrow> in_alt_screen t)"

definition screens_ok :: "tm \<Rightarrow> bool" where
  "screens_ok t \<longleftrightarrow> grid_inv (t_grid t) \<and>
     (case t_alt t of
        None \<Rightarrow> True
      | Some a \<Rightarrow> grid_inv a \<and> g_cols a = g_cols (t_grid t) \<and> g_rows a = g_rows (t_grid t) \<and>
          g_scrollback_limit a = 0)"

definition state_ok :: "tm \<Rightarrow> bool" where
  "state_ok t \<longleftrightarrow> screens_ok t \<and> kitty_ok (t_kitty t) \<and> kitty_ok (t_kitty_alt t) \<and>
     palette_wf (t_palette t) \<and> blocks_ok (t_blocks t) \<and>
     template_ok (t_template t) \<and> template_ok (sc_template (t_saved t)) \<and>
     template_ok (sc_template (t_saved_alt t))"

definition term_inv :: "tm \<Rightarrow> bool" where
  "term_inv t \<longleftrightarrow> state_ok t \<and> modes_ok t"

section \<open>Fields\<close>

lemma active_fields [simp]:
  "active (t\<lparr>t_events := a1\<rparr>) = active t" "active (t\<lparr>t_damage := a2\<rparr>) = active t"
  "active (t\<lparr>t_seq := a3\<rparr>) = active t" "active (t\<lparr>t_modes := a4\<rparr>) = active t"
  "active (t\<lparr>t_template := a5\<rparr>) = active t" "active (t\<lparr>t_blocks := a6\<rparr>) = active t"
  "active (t\<lparr>t_kitty := a7\<rparr>) = active t" "active (t\<lparr>t_kitty_alt := a7\<rparr>) = active t"
  "active (t\<lparr>t_saved := a8\<rparr>) = active t" "active (t\<lparr>t_saved_alt := a8\<rparr>) = active t"
  "active (t\<lparr>t_prompt_end := a9\<rparr>) = active t" "active (t\<lparr>t_pending_command := a10\<rparr>) = active t"
  "active (t\<lparr>t_palette := a11\<rparr>) = active t" "active (t\<lparr>t_tabs := a12\<rparr>) = active t"
  "active (touch t) = active t" "active (touch_full t) = active t" "active (push_event e t) = active t"
  by (simp_all add: active_def touch_def touch_full_def push_event_def cong: option.case_cong)

lemma term_inv_fields [simp]:
  "term_inv (t\<lparr>t_events := a1\<rparr>) = term_inv t" "term_inv (t\<lparr>t_damage := a2\<rparr>) = term_inv t"
  "term_inv (t\<lparr>t_seq := a3\<rparr>) = term_inv t" "term_inv (t\<lparr>t_prompt_end := a4\<rparr>) = term_inv t"
  "term_inv (t\<lparr>t_pending_command := a5\<rparr>) = term_inv t" "term_inv (t\<lparr>t_tabs := a6\<rparr>) = term_inv t"
  "term_inv (t\<lparr>t_title := a7\<rparr>) = term_inv t" "term_inv (t\<lparr>t_progress := a8\<rparr>) = term_inv t"
  "term_inv (t\<lparr>t_cursor_style := a9\<rparr>) = term_inv t" "term_inv (t\<lparr>t_style_from_program := a10\<rparr>) = term_inv t"
  "term_inv (t\<lparr>t_default_style := a11\<rparr>) = term_inv t" "term_inv (t\<lparr>t_selection := a12\<rparr>) = term_inv t"
  "term_inv (t\<lparr>t_hyperlink := a13\<rparr>) = term_inv t" "term_inv (t\<lparr>t_next_hyperlink := a14\<rparr>) = term_inv t"
  "term_inv (t\<lparr>t_cwd := a15\<rparr>) = term_inv t" "term_inv (t\<lparr>t_cwd_host := a16\<rparr>) = term_inv t"
  "term_inv (t\<lparr>t_facts := a17\<rparr>) = term_inv t" "term_inv (t\<lparr>t_restated := a18\<rparr>) = term_inv t"
  "term_inv (touch t) = term_inv t" "term_inv (touch_full t) = term_inv t"
  "term_inv (push_event e t) = term_inv t"
  by (simp_all add: term_inv_def state_ok_def screens_ok_def modes_ok_def kitty_stack_def in_alt_screen_def
      touch_def touch_full_def push_event_def cong: option.case_cong)

lemma term_inv_put [wf_intros]:
  assumes "term_inv t"
  shows "blocks_ok b \<Longrightarrow> term_inv (t\<lparr>t_blocks := b\<rparr>)" "palette_wf p \<Longrightarrow> term_inv (t\<lparr>t_palette := p\<rparr>)"
    "template_ok c \<Longrightarrow> term_inv (t\<lparr>t_template := c\<rparr>)"
    "template_ok (sc_template s) \<Longrightarrow> term_inv (t\<lparr>t_saved := s\<rparr>)"
    "template_ok (sc_template s) \<Longrightarrow> term_inv (t\<lparr>t_saved_alt := s\<rparr>)"
  using assms by (simp_all add: term_inv_def state_ok_def screens_ok_def modes_ok_def kitty_stack_def in_alt_screen_def
      cong: option.case_cong)

lemma term_invD:
  assumes "term_inv t"
  shows "grid_inv (t_grid t)" "grid_inv (active t)" "g_cols (active t) = g_cols (t_grid t)"
    "g_rows (active t) = g_rows (t_grid t)" "template_ok (t_template t)" "blocks_ok (t_blocks t)"
    "palette_wf (t_palette t)" "kitty_ok (t_kitty t)" "kitty_ok (t_kitty_alt t)"
    "crow t < g_rows (active t)" "ccol t < g_cols (active t)" "0 < g_rows (active t)" "0 < g_cols (active t)"
proof -
  show 1: "grid_inv (t_grid t)" "grid_inv (active t)" "g_cols (active t) = g_cols (t_grid t)"
    "g_rows (active t) = g_rows (t_grid t)" "template_ok (t_template t)" "blocks_ok (t_blocks t)"
    "palette_wf (t_palette t)" "kitty_ok (t_kitty t)" "kitty_ok (t_kitty_alt t)"
    using assms by (auto simp: term_inv_def state_ok_def screens_ok_def active_def split: option.splits)
  show "crow t < g_rows (active t)" "ccol t < g_cols (active t)" "0 < g_rows (active t)" "0 < g_cols (active t)"
    using grid_invD(6-9) [OF 1(2)] by simp_all
qed

section \<open>The active screen\<close>

lemma active_on_active [simp]: "active (on_active f t) = f (active t)"
  by (simp add: active_def on_active_def split: option.splits)

lemma on_active_fields [simp]:
  "t_modes (on_active f t) = t_modes t" "t_template (on_active f t) = t_template t"
  "t_blocks (on_active f t) = t_blocks t" "t_tabs (on_active f t) = t_tabs t"
  "t_saved (on_active f t) = t_saved t" "t_saved_alt (on_active f t) = t_saved_alt t"
  "t_palette (on_active f t) = t_palette t" "t_events (on_active f t) = t_events t"
  "t_kitty (on_active f t) = t_kitty t" "t_kitty_alt (on_active f t) = t_kitty_alt t"
  "t_alt (on_active f t) = None \<longleftrightarrow> t_alt t = None"
  by (simp_all add: on_active_def split: option.splits)

lemma on_active_inv [wf_intros]:
  assumes "term_inv t" "grid_step (active t) (f (active t))"
  shows "term_inv (on_active f t)"
  using assms
  by (cases "t_alt t")
    (auto simp: term_inv_def state_ok_def screens_ok_def modes_ok_def kitty_stack_def in_alt_screen_def
      active_def on_active_def grid_step_def)

lemma touch_fields [simp]:
  "t_modes (touch t) = t_modes t" "t_template (touch t) = t_template t" "t_alt (touch t) = t_alt t"
  "t_modes (touch_full t) = t_modes t" "t_template (touch_full t) = t_template t"
  "t_alt (touch_full t) = t_alt t" "t_grid (touch t) = t_grid t" "t_grid (touch_full t) = t_grid t"
  "t_modes (push_event e t) = t_modes t" "t_template (push_event e t) = t_template t"
  "t_alt (push_event e t) = t_alt t" "t_grid (push_event e t) = t_grid t"
  "t_blocks (touch t) = t_blocks t" "t_blocks (touch_full t) = t_blocks t"
  "t_blocks (push_event e t) = t_blocks t" "t_palette (touch_full t) = t_palette t"
  by (simp_all add: touch_def touch_full_def push_event_def)

text \<open>
  What an operation that does not resize promises of the terminal: the invariant, and the size of
  the screen.
\<close>

definition term_step :: "tm \<Rightarrow> tm \<Rightarrow> bool" where
  "term_step t u \<longleftrightarrow> term_inv u \<and> g_cols (active u) = g_cols (active t) \<and> g_rows (active u) = g_rows (active t)"

lemma term_step_refl: "term_inv t \<Longrightarrow> term_step t t"
  by (simp add: term_step_def)

lemma term_step_trans: "term_step t u \<Longrightarrow> term_step u v \<Longrightarrow> term_step t v"
  by (simp add: term_step_def)

lemma term_stepD:
  assumes "term_step t u"
  shows "term_inv u" "g_cols (active u) = g_cols (active t)" "g_rows (active u) = g_rows (active t)"
  using assms by (simp_all add: term_step_def)

lemma term_step_touch [simp]:
  "term_step t (touch u) = term_step t u" "term_step t (touch_full u) = term_step t u"
  "term_step t (push_event e u) = term_step t u"
  by (simp_all add: term_step_def)

lemma term_step_active:
  assumes "term_step t u" "grid_step (active u) (f (active u))"
  shows "term_step t (on_active f u)"
  using assms on_active_inv by (simp add: term_step_def grid_step_def)

lemma strand_if_diverged_step:
  assumes "term_inv t"
  shows "term_step t (strand_if_diverged t)"
proof -
  have "term_step t (on_active (\<lambda>_. fst (strand_settled (active t) (t_template t))) t)"
    by (rule term_step_active [OF term_step_refl [OF assms]]) (rule edit_steps(12) [OF term_invD(2) [OF assms]])
  then show ?thesis using term_step_refl [OF assms]
    by (simp add: strand_if_diverged_def split_beta Let_def)
qed

lemma strand_if_diverged_fields [simp]:
  "t_modes (strand_if_diverged t) = t_modes t" "t_template (strand_if_diverged t) = t_template t"
  "t_alt (strand_if_diverged t) = None \<longleftrightarrow> t_alt t = None"
  by (simp_all add: strand_if_diverged_def split_beta Let_def)

section \<open>Modes\<close>

text \<open>The flags below the Kitty bits, other than the one that names the alternate screen.\<close>

definition plain_mode :: "modes \<Rightarrow> bool" where
  "plain_mode k \<longleftrightarrow> (\<forall>n. bit k n \<longrightarrow> n < 16 \<and> n \<noteq> 7)"

lemma plain_modes [simp]:
  "plain_mode M_AUTO_WRAP" "plain_mode M_ORIGIN" "plain_mode M_APP_CURSOR" "plain_mode M_APP_KEYPAD"
  "plain_mode M_SHOW_CURSOR" "plain_mode M_INSERT" "plain_mode M_LINE_FEED_NEW_LINE"
  "plain_mode M_BRACKETED_PASTE" "plain_mode M_MOUSE_CLICK" "plain_mode M_MOUSE_DRAG"
  "plain_mode M_MOUSE_MOTION" "plain_mode M_MOUSE_SGR" "plain_mode M_FOCUS_REPORTING"
  "plain_mode M_SYNC_UPDATE" "plain_mode M_WIN32_INPUT"
  by (simp_all only: plain_mode_def m_defs bit_single) simp_all

lemma bit_flag_set:
  "bit (flag_set m k b) n \<longleftrightarrow> (if bit k n then b else bit m n)"
  using bit_imp_le_length [of m n] bit_imp_le_length [of k n]
  by (auto simp: flag_set_def flag_remove_def bit_or_iff bit_and_iff bit_not_iff)

lemma bit_kitty_flags_of: "bit (kitty_flags_of m) n \<longleftrightarrow> (n = 0 \<or> n = 1 \<or> n = 3) \<and> bit m (16 + n)"
  by (auto simp: kitty_flags_of_def bit_and_iff bit_supported bit_ucast_iff bit_drop_bit_eq KITTY_SHIFT_def)

lemma kitty_flags_of_cong:
  assumes "bit m 16 = bit m' 16" "bit m 17 = bit m' 17" "bit m 19 = bit m' 19"
  shows "kitty_flags_of m = kitty_flags_of m'"
proof (rule bit_eqI)
  fix n
  show "bit (kitty_flags_of m) n = bit (kitty_flags_of m') n"
    using assms unfolding bit_kitty_flags_of by auto
qed

lemma bit_alt_screen: "bit M_ALT_SCREEN n \<longleftrightarrow> n = 7"
  by (simp only: m_defs bit_single) auto

lemma flag_set_reads:
  assumes "plain_mode k"
  shows "kitty_flags_of (flag_set m k b) = kitty_flags_of m"
    "flag_contains (flag_set m k b) M_ALT_SCREEN \<longleftrightarrow> flag_contains m M_ALT_SCREEN"
proof -
  show "kitty_flags_of (flag_set m k b) = kitty_flags_of m"
    by (rule kitty_flags_of_cong) (use assms in \<open>auto simp: bit_flag_set plain_mode_def\<close>)
  show "flag_contains (flag_set m k b) M_ALT_SCREEN \<longleftrightarrow> flag_contains m M_ALT_SCREEN"
    using assms by (auto simp: flag_contains_bits bit_alt_screen bit_flag_set plain_mode_def)
qed

lemma alt_flag_reads:
  "kitty_flags_of (m OR M_ALT_SCREEN) = kitty_flags_of m"
  "kitty_flags_of (flag_remove m M_ALT_SCREEN) = kitty_flags_of m"
  "flag_contains (m OR M_ALT_SCREEN) M_ALT_SCREEN"
  "\<not> flag_contains (flag_remove m M_ALT_SCREEN) M_ALT_SCREEN"
proof -
  show "kitty_flags_of (m OR M_ALT_SCREEN) = kitty_flags_of m"
    by (rule kitty_flags_of_cong) (auto simp: bit_or_iff bit_alt_screen)
  show "kitty_flags_of (flag_remove m M_ALT_SCREEN) = kitty_flags_of m"
    using bit_flag_set [of m M_ALT_SCREEN False]
    by (intro kitty_flags_of_cong) (auto simp: flag_set_def bit_alt_screen)
  show "flag_contains (m OR M_ALT_SCREEN) M_ALT_SCREEN" by (simp add: flag_simps)
  show "\<not> flag_contains (flag_remove m M_ALT_SCREEN) M_ALT_SCREEN"
    by (rule flag_contains_remove) (simp add: m_defs)
qed

lemma set_mode_step:
  assumes "term_inv t" "plain_mode k"
  shows "term_step t (t\<lparr>t_modes := flag_set (t_modes t) k b\<rparr>)"
  using assms flag_set_reads [OF assms(2)]
  by (simp add: term_step_def term_inv_def state_ok_def screens_ok_def modes_ok_def kitty_stack_def
      in_alt_screen_def cong: option.case_cong)

end
