(* ===== verification/TermSteps.thy ===== *)
theory TermSteps
  imports TermInv
begin

text \<open>
  Every operation of the terminal keeps its invariant and the size of its screen: moving and
  writing, the cursor saved and restored, the Kitty stacks, the alternate screen, and the
  character attributes.
\<close>

section \<open>Moving and writing\<close>

text \<open>Most operations first strand a settled pull that the program has written past.\<close>

lemma stranded_step:
  assumes "term_inv t" "\<And>u. term_inv u \<Longrightarrow> term_step u (f u)"
  shows "term_step t (f (strand_if_diverged t))"
  using strand_if_diverged_step [OF assms(1)] assms(2) term_step_trans term_stepD(1) by blast

lemma active_step:
  assumes "term_inv t" "grid_inv (active t) \<Longrightarrow> grid_step (active t) (f (active t))"
  shows "term_step t (on_active f t)"
  by (rule term_step_active [OF term_step_refl [OF assms(1)]]) (rule assms(2) [OF term_invD(2) [OF assms(1)]])

lemma cursor_comp_steps [step_intros]:
  assumes "grid_inv g"
  shows "row < g_rows g \<Longrightarrow> grid_step g ((clear_pending \<circ> set_row row) g)"
    "col < g_cols g \<Longrightarrow> grid_step g ((clear_pending \<circ> set_col col) g)"
  using grid_step_trans [OF cursor_steps(1) [OF assms] cursor_steps(3) [OF grid_stepD(1) [OF cursor_steps(1) [OF assms]]]]
    grid_step_trans [OF cursor_steps(2) [OF assms] cursor_steps(3) [OF grid_stepD(1) [OF cursor_steps(2) [OF assms]]]]
  by simp_all

lemma evict_blocks_step: "term_step t u \<Longrightarrow> term_step t (evict_blocks u)"
  using term_inv_put(1) [of u] evict_before_ok term_invD(6) [of u]
  by (simp add: evict_blocks_def Let_def term_step_def)

lemma linefeed_step:
  assumes "term_inv t"
  shows "term_step t (linefeed t)"
proof -
  define body where "body u = on_active clear_pending
    (if crow u = sr_bottom (g_region (active u))
     then touch_full (evict_blocks (on_active (\<lambda>g. scroll_up g 1 (t_template u)) u))
     else if crow u + 1 < g_rows (active u) then touch (on_active (set_row (crow u + 1)) u) else u)" for u
  have "term_step u (body u)" if u: "term_inv u" for u
    unfolding body_def
  proof (rule term_step_active)
    show s: "term_step u (if crow u = sr_bottom (g_region (active u))
       then touch_full (evict_blocks (on_active (\<lambda>g. scroll_up g 1 (t_template u)) u))
       else if crow u + 1 < g_rows (active u) then touch (on_active (set_row (crow u + 1)) u) else u)"
      using evict_blocks_step [OF active_step [where f = "\<lambda>g. scroll_up g 1 (t_template u)", OF u edit_steps(7)]]
        active_step [where f = "set_row (crow u + 1)", OF u cursor_steps(1)] term_step_refl [OF u] by simp
    show "grid_step (active (if crow u = sr_bottom (g_region (active u))
       then touch_full (evict_blocks (on_active (\<lambda>g. scroll_up g 1 (t_template u)) u))
       else if crow u + 1 < g_rows (active u) then touch (on_active (set_row (crow u + 1)) u) else u))
      (clear_pending (active (if crow u = sr_bottom (g_region (active u))
       then touch_full (evict_blocks (on_active (\<lambda>g. scroll_up g 1 (t_template u)) u))
       else if crow u + 1 < g_rows (active u) then touch (on_active (set_row (crow u + 1)) u) else u)))"
      by (rule cursor_steps(3)) (rule term_invD(2) [OF term_stepD(1) [OF s]])
  qed
  from stranded_step [OF assms this] show ?thesis by (simp add: linefeed_def Let_def body_def)
qed

lemma wrap_now_step:
  assumes "term_inv t"
  shows "term_step t (wrap_now t)"
proof -
  have a: "term_step t (on_active (\<lambda>g. grid_set_wrapped g (cur_row (g_cursor g)) True) t)"
    by (rule active_step [OF assms]) (simp add: edit_steps(19) grid_invD(8))
  note b = term_step_trans [OF a linefeed_step [OF term_stepD(1) [OF a]]]
  have "term_inv u \<Longrightarrow> term_step u (on_active (set_col 0) u)" for u
    by (rule active_step) (simp_all add: cursor_steps(2) grid_invD(6))
  from term_step_trans [OF b this [OF term_stepD(1) [OF b]]] show ?thesis by (simp add: wrap_now_def)
qed

lemma resolve_wrap_step:
  assumes "term_inv t"
  shows "term_step t (resolve_wrap t)"
proof -
  note w = wrap_now_step [OF assms]
  have "term_step t (on_active clear_pending (wrap_now t))"
    by (rule term_step_active [OF w]) (rule cursor_steps(3) [OF term_invD(2) [OF term_stepD(1) [OF w]]])
  then show ?thesis using term_step_refl [OF assms] by (simp add: resolve_wrap_def)
qed

lemma linefeed_fields [simp]:
  "t_modes (evict_blocks t) = t_modes t" "t_template (evict_blocks t) = t_template t"
  "t_modes (linefeed t) = t_modes t" "t_template (linefeed t) = t_template t"
  "t_modes (wrap_now t) = t_modes t" "t_template (wrap_now t) = t_template t"
  "t_modes (resolve_wrap t) = t_modes t" "t_template (resolve_wrap t) = t_template t"
  by (simp_all add: resolve_wrap_def wrap_now_def linefeed_def evict_blocks_def Let_def)

text \<open>The three edits of \<open>put_glyph\<close> on a grid.\<close>

definition glyph_cells :: "cell \<Rightarrow> uchar \<Rightarrow> nat \<Rightarrow> grid \<Rightarrow> grid" where
  "glyph_cells c x width g =
     (let row = cur_row (g_cursor g); col = cur_col (g_cursor g);
          lead = c\<lparr>cell_ch := x\<rparr>;
          lead = (if width = 2 then lead\<lparr>cell_flags := cell_flags lead OR CF_WIDE\<rparr> else lead);
          g = set_cell g row col lead
      in if width = 2
         then set_cell g row (col + 1) (c\<lparr>cell_ch := 32, cell_flags := cell_flags c OR CF_WIDE_SPACER\<rparr>)
         else g)"

definition advance_cursor :: "nat \<Rightarrow> grid \<Rightarrow> grid" where
  "advance_cursor col g =
     (if g_cols g \<le> col
      then g\<lparr>g_cursor := (g_cursor g)\<lparr>cur_col := g_cols g - 1, cur_pending_wrap := True\<rparr>\<rparr>
      else set_col col g)"

lemma on_active_on_active: "on_active f (on_active g t) = on_active (f \<circ> g) t"
  by (simp add: on_active_def split: option.split)

lemma on_active_cong: "f (active t) = h (active t) \<Longrightarrow> on_active f t = on_active h t"
  by (simp add: on_active_def active_def split: option.splits)

lemma put_glyph_grid:
  "put_glyph x width t =
     on_active (\<lambda>g. advance_cursor (cur_col (g_cursor g) + width) (glyph_cells (t_template t) x width g)) t"
  unfolding put_glyph_def Let_def
  by (simp add: on_active_on_active, intro conjI impI; rule on_active_cong;
      simp add: glyph_cells_def advance_cursor_def Let_def frame_simps)

lemma glyph_cells_step:
  assumes "grid_inv g"
  shows "grid_step g (glyph_cells c x width g)"
proof -
  have a: "grid_step g (set_cell g (cur_row (g_cursor g)) col l)" for col l
    by (rule edit_steps(18) [OF assms grid_invD(8) [OF assms]])
  have "grid_step g (set_cell (set_cell g (cur_row (g_cursor g)) col l) (cur_row (g_cursor g)) col' l')" for col l col' l'
    by (rule grid_step_trans [OF a edit_steps(18) [OF grid_stepD(1) [OF a]]])
      (simp add: frame_simps grid_invD(8) [OF assms])
  then show ?thesis using a by (simp add: glyph_cells_def Let_def)
qed

lemma glyph_cells_cursor [simp]: "g_cursor (glyph_cells c x width g) = g_cursor g"
  by (simp add: glyph_cells_def Let_def frame_simps)

lemma advance_cursor_step:
  assumes "grid_inv g"
  shows "grid_step g (advance_cursor col g)"
  using cursor_steps(2) [OF assms, of col] grid_invD(6,8) [OF assms] grid_inv_fields(1) [OF assms]
  by (simp add: advance_cursor_def grid_step_def)

lemma put_glyph_step: "term_inv t \<Longrightarrow> term_step t (put_glyph x width t)"
  unfolding put_glyph_grid
  by (rule active_step, assumption)
    (blast intro: grid_step_trans glyph_cells_step advance_cursor_step dest: grid_stepD(1) [OF glyph_cells_step])

lemma put_mark_step:
  "term_inv t \<Longrightarrow> term_step t (on_active (\<lambda>g. set_active_row g (cur_row (g_cursor g))
     (push_zerowidth (active_row g (cur_row (g_cursor g))) (cur_col (g_cursor g) - 1) x)) t)"
  by (rule active_step) (simp_all add: push_mark_step grid_invD(8))

lemma write_char_step:
  assumes "term_inv t"
  shows "term_step t (write_char cwidth t x)"
proof -
  define rest where "rest w cols u =
    (if w = 2 \<and> cols \<le> ccol u + 1 \<and> \<not> flag_contains (t_modes u) M_AUTO_WRAP then u
     else let t = (if w = 2 \<and> cols \<le> ccol u + 1 then wrap_now u else u);
              t = (if flag_contains (t_modes t) M_INSERT
                   then on_active (\<lambda>g. insert_cells g w (t_template t)) t else t)
          in touch (put_glyph x w t))" for w cols u
  have ins: "term_step u (if flag_contains (t_modes u) M_INSERT
      then on_active (\<lambda>g. insert_cells g w (t_template u)) u else u)" if "term_inv u" for u w
    using active_step [where f = "\<lambda>g. insert_cells g w (t_template u)", OF that edit_steps(2)]
      term_step_refl [OF that] by simp
  have put: "term_inv u \<Longrightarrow> term_step u (touch (put_glyph x w (if flag_contains (t_modes u) M_INSERT
      then on_active (\<lambda>g. insert_cells g w (t_template u)) u else u)))" for u w
    using term_step_trans [OF ins put_glyph_step [OF term_stepD(1) [OF ins]]] by simp
  have r: "term_inv u \<Longrightarrow> term_step u (rest w cols u)" for w cols u
    using put [of u w] term_step_trans [OF wrap_now_step put [OF term_stepD(1) [OF wrap_now_step]], of u w]
      term_step_refl [of u] by (auto simp: rest_def Let_def split: if_splits)
  define body where "body u =
    (let width = (case cwidth x of None \<Rightarrow> 0 | Some w \<Rightarrow> w)
     in if width = 0 then
          (if 0 < ccol u
           then touch (on_active (\<lambda>g. set_active_row g (cur_row (g_cursor g))
             (push_zerowidth (active_row g (cur_row (g_cursor g))) (cur_col (g_cursor g) - 1) x)) u)
           else u)
        else rest width (g_cols (active u)) (resolve_wrap u))" for u
  have "term_inv u \<Longrightarrow> term_step u (body u)" for u
    using put_mark_step [of u] term_step_refl [of u]
      term_step_trans [OF resolve_wrap_step r [OF term_stepD(1) [OF resolve_wrap_step]]]
    by (simp add: body_def Let_def)
  from stranded_step [OF assms this] show ?thesis
    by (simp add: write_char_def body_def rest_def Let_def cong: if_cong)
qed

lemma next_tab_less:
  assumes "col < cols"
  shows "next_tab t cols col < cols"
proof (cases "find_first (tab_stop t) [col + 1..<cols]")
  case (Some c)
  then show ?thesis using find_first_Some [OF Some] by (simp add: next_tab_def)
qed (use assms in \<open>simp add: next_tab_def\<close>)

lemma prev_tab_le: "prev_tab t col \<le> col"
proof (cases "find_first (tab_stop t) (rev [0..<col])")
  case (Some c)
  then show ?thesis using find_first_Some [OF Some] by (simp add: prev_tab_def)
qed (simp add: prev_tab_def)

lemma tab_iterates:
  "col < cols \<Longrightarrow> (next_tab t cols ^^ n) col < cols" "(prev_tab t ^^ n) col \<le> col"
proof -
  show "col < cols \<Longrightarrow> (next_tab t cols ^^ n) col < cols" by (induction n) (simp_all add: next_tab_less)
  show "(prev_tab t ^^ n) col \<le> col" by (induction n) (auto intro: le_trans prev_tab_le)
qed

lemma set_col_self: "cur_col (g_cursor g) = c \<Longrightarrow> set_col c g = g"
  by (auto simp: set_col_def)

text \<open>A step that strands first and then moves the cursor on the active screen.\<close>

lemma stranded_active_step:
  assumes "term_inv t"
    "\<And>u. term_inv u \<Longrightarrow> grid_inv (active u) \<Longrightarrow> crow u < g_rows (active u) \<Longrightarrow> ccol u < g_cols (active u) \<Longrightarrow>
      grid_step (active u) (f u (active u))"
  shows "term_step t (touch (on_active (f (strand_if_diverged t)) (strand_if_diverged t)))"
  using stranded_step [OF assms(1), of "\<lambda>u. on_active (f u) u"] active_step assms(2) term_invD(2,10,11)
  by (metis term_step_touch(1))

lemma move_steps:
  assumes "term_inv t"
  shows "term_step t (carriage_return t)" "term_step t (backspace t)" "term_step t (tab t n)"
    "term_step t (move_left t n)" "term_step t (move_right t n)" "term_step t (move_down t n)"
    "term_step t (back_tab t n)"
proof -
  note s = stranded_active_step [OF assms]
  show "term_step t (carriage_return t)"
    using s [of "\<lambda>_. clear_pending \<circ> set_col 0"]
    by (simp add: carriage_return_def cursor_comp_steps(2) [unfolded comp_def] grid_invD(6) comp_def)
  have "backspace t = touch (on_active (clear_pending \<circ> set_col (ccol (strand_if_diverged t) - 1)) (strand_if_diverged t))"
    by (auto simp: backspace_def Let_def on_active_on_active set_col_self intro!: arg_cong [of _ _ touch] on_active_cong)
  then show "term_step t (backspace t)"
    using s [of "\<lambda>u. clear_pending \<circ> set_col (ccol u - 1)"]
    by (simp add: cursor_comp_steps(2) less_imp_diff_less del: comp_apply)
  show "term_step t (tab t n)"
    using s [of "\<lambda>u. clear_pending \<circ> set_col ((next_tab u (g_cols (active u)) ^^ max n 1) (ccol u))"]
    by (simp add: tab_def Let_def cursor_comp_steps(2) tab_iterates(1) del: comp_apply)
  show "term_step t (move_left t n)"
    using s [of "\<lambda>u. clear_pending \<circ> set_col (ccol u - max n 1)"]
    by (simp add: move_left_def Let_def cursor_comp_steps(2) less_imp_diff_less del: comp_apply)
  show "term_step t (move_right t n)"
    using s [of "\<lambda>u. clear_pending \<circ> set_col (min (ccol u + max n 1) (g_cols (active u) - 1))"]
    by (simp add: move_right_def Let_def cursor_comp_steps(2) min_less_iff_disj grid_invD(6) del: comp_apply)
  have "sr_bottom (g_region g) < g_rows g \<and> 0 < g_rows g" if "grid_inv g" for g
    using grid_invD(7,10) [OF that] by simp
  then show "term_step t (move_down t n)"
    using s [of "\<lambda>u. clear_pending \<circ> set_row (min (crow u + max n 1)
      (if flag_contains (t_modes u) M_ORIGIN then sr_bottom (g_region (active u)) else g_rows (active u) - 1))"]
    by (simp add: move_down_def Let_def cursor_comp_steps(1) min_less_iff_disj del: comp_apply)
  show "term_step t (back_tab t n)"
    using s [of "\<lambda>u. set_col ((prev_tab u ^^ max n 1) (ccol u))"]
    by (simp add: back_tab_def Let_def cursor_steps(2) le_less_trans [OF tab_iterates(2)])
qed

lemma move_up_step:
  assumes "term_inv t"
  shows "term_step t (move_up t n)"
  using stranded_active_step [OF assms, of "\<lambda>u. clear_pending \<circ> set_row (max (crow u - max n 1)
      (if flag_contains (t_modes u) M_ORIGIN then sr_top (g_region (active u)) else 0))"]
  by (simp add: move_up_def Let_def cursor_comp_steps(1) less_imp_diff_less
      le_less_trans [OF grid_invD(11) grid_invD(10)] del: comp_apply)

lemma clamp_less: "lo \<le> hi \<Longrightarrow> hi < n \<Longrightarrow> clamp lo hi x < n"
  by (simp add: clamp_def)

lemma goto_step:
  assumes "term_inv t"
  shows "term_step t (goto t row col)"
proof -
  let ?lo = "\<lambda>u. if flag_contains (t_modes u) M_ORIGIN then sr_top (g_region (active u)) else 0"
  let ?hi = "\<lambda>u. if flag_contains (t_modes u) M_ORIGIN then sr_bottom (g_region (active u)) else g_rows (active u) - 1"
  have "grid_step (active u) (set_cursor_pos (clamp (?lo u) (?hi u) (row + ?lo u)) (min col (g_cols (active u) - 1)) (active u))"
    if "grid_inv (active u)" for u
    by (rule cursor_steps(4) [OF that]; use grid_invD [OF that] in \<open>auto intro!: clamp_less\<close>)
  from stranded_active_step [OF assms, of "\<lambda>u. set_cursor_pos (clamp (?lo u) (?hi u) (row + ?lo u)) (min col (g_cols (active u) - 1))"] this
  show ?thesis unfolding goto_def Let_def by (cases "flag_contains (t_modes t) M_ORIGIN") simp_all
qed

lemma goto_absolute_step: "term_inv t \<Longrightarrow> row < g_rows (active t) \<Longrightarrow> term_step t (goto_absolute t row col)"
  using stranded_active_step [of t "\<lambda>u. set_cursor_pos (if row < g_rows (active u) then row else 0) (min col (g_cols (active u) - 1))"]
    term_stepD(3) [OF strand_if_diverged_step [of t]]
  by (simp add: goto_absolute_def Let_def cursor_steps(4) grid_invD(6,7) min_less_iff_disj)

section \<open>Saving, the Kitty stacks and the alternate screen\<close>

lemma save_cursor_step: "term_inv t \<Longrightarrow> term_step t (save_cursor t)"
  using term_inv_put(4,5) [of t] term_invD(5) [of t]
  by (simp add: save_cursor_def Let_def term_step_def)

lemma restore_cursor_step:
  assumes "term_inv t"
  shows "term_step t (restore_cursor t)"
proof -
  let ?s = "if t_alt t \<noteq> None then t_saved_alt t else t_saved t"
  let ?m = "flag_set (t_modes t) M_ORIGIN (sc_origin_mode ?s)"
  have "template_ok (sc_template ?s)" using assms by (simp add: term_inv_def state_ok_def)
  then have a: "term_inv (t\<lparr>t_template := sc_template ?s\<rparr>)" by (rule term_inv_put(3) [OF assms])
  have b: "term_step t (t\<lparr>t_template := sc_template ?s, t_modes := ?m\<rparr>)"
    using set_mode_step [OF a, of M_ORIGIN "sc_origin_mode ?s"] by (simp add: term_step_def)
  let ?u = "t\<lparr>t_template := sc_template ?s, t_modes := ?m\<rparr>"
  have "grid_step (active ?u) (set_cursor_pos (min (cur_row (sc_cursor ?s)) (g_rows (active ?u) - 1))
      (min (cur_col (sc_cursor ?s)) (g_cols (active ?u) - 1)) (active ?u))"
    by (rule cursor_steps(4) [OF term_invD(2) [OF term_stepD(1) [OF b]]])
      (use term_invD(12,13) [OF assms] in \<open>auto simp: min_less_iff_disj\<close>)
  then have "term_step t (on_active (set_cursor_pos (min (cur_row (sc_cursor ?s)) (g_rows (active ?u) - 1))
      (min (cur_col (sc_cursor ?s)) (g_cols (active ?u) - 1))) ?u)"
    by (rule term_step_active [OF b])
  then show ?thesis unfolding restore_cursor_def Let_def term_step_touch .
qed

lemma kitty_read:
  assumes "kitty_ok s"
  shows "(case last_of s of None \<Rightarrow> 0 | Some f \<Rightarrow> f) AND KITTY_SUPPORTED = (case last_of s of None \<Rightarrow> 0 | Some f \<Rightarrow> f)"
  using assms by (cases s rule: rev_cases) (simp_all add: kitty_ok_def)

lemma with_kitty_flags_alt: "flag_contains (with_kitty_flags m f) M_ALT_SCREEN \<longleftrightarrow> flag_contains m M_ALT_SCREEN"
  by (rule with_kitty_flags_contains) (simp add: bit_alt_screen)

text \<open>\<open>sync_kitty_modes\<close> restores the part of the invariant the other operations on the stacks break.\<close>

lemma sync_kitty_modes_step:
  assumes "state_ok t" "flag_contains (t_modes t) M_ALT_SCREEN \<longleftrightarrow> in_alt_screen t"
  shows "term_step t (sync_kitty_modes t)"
proof -
  let ?m = "with_kitty_flags (t_modes t) (case last_of (kitty_stack t) of None \<Rightarrow> 0 | Some f \<Rightarrow> f)"
  have k: "kitty_ok (kitty_stack t)" using assms(1) by (simp add: state_ok_def kitty_stack_def)
  have "kitty_stack (t\<lparr>t_modes := ?m\<rparr>) = kitty_stack t" by (simp add: kitty_stack_def)
  then have "modes_ok (t\<lparr>t_modes := ?m\<rparr>)" using assms(2)
    by (simp add: modes_ok_def kitty_flags_roundtrip kitty_read [OF k] with_kitty_flags_alt in_alt_screen_def)
  moreover have "state_ok (t\<lparr>t_modes := ?m\<rparr>)"
    using assms(1) by (simp add: state_ok_def screens_ok_def cong: option.case_cong)
  ultimately have i: "term_inv (t\<lparr>t_modes := ?m\<rparr>)" by (simp add: term_inv_def)
  show ?thesis
  proof (cases "?m = t_modes t")
    case True
    have "t\<lparr>t_modes := t_modes t\<rparr> = t" by simp
    then have "term_inv t" using i unfolding True by metis
    moreover have "sync_kitty_modes t = t" by (simp only: sync_kitty_modes_def Let_def True) simp
    ultimately show ?thesis by (simp add: term_step_refl)
  next
    case False
    then have "sync_kitty_modes t = touch (t\<lparr>t_modes := ?m\<rparr>)" by (simp add: sync_kitty_modes_def Let_def)
    then show ?thesis using i by (simp add: term_step_def)
  qed
qed

lemma set_kitty_stack_ok:
  assumes "term_inv t" "kitty_ok s"
  shows "state_ok (set_kitty_stack s t)" "active (set_kitty_stack s t) = active t"
    "flag_contains (t_modes (set_kitty_stack s t)) M_ALT_SCREEN \<longleftrightarrow> in_alt_screen (set_kitty_stack s t)"
  using assms by (simp_all add: set_kitty_stack_def term_inv_def state_ok_def screens_ok_def modes_ok_def
      in_alt_screen_def cong: option.case_cong)

lemma set_kitty_step:
  assumes "term_inv t" "kitty_ok s"
  shows "term_step t (sync_kitty_modes (set_kitty_stack s t))"
  using sync_kitty_modes_step [OF set_kitty_stack_ok(1,3) [OF assms]] set_kitty_stack_ok(2) [OF assms]
  by (simp add: term_step_def)

lemma kitty_stack_ok: "term_inv t \<Longrightarrow> kitty_ok (kitty_stack t)"
  by (simp add: kitty_stack_def term_invD(8,9))

lemma kitty_steps:
  assumes "term_inv t"
  shows "term_step t (kitty_push t f)" "term_step t (kitty_pop t n)" "term_step t (kitty_set t f mode)"
proof -
  let ?s = "kitty_stack t"
  have k: "length ?s \<le> 8" "\<forall>f \<in> set ?s. f AND KITTY_SUPPORTED = f"
    using kitty_stack_ok [OF assms] by (simp_all add: kitty_ok_def KITTY_STACK_DEPTH_def)
  have "kitty_ok ((if length ?s = KITTY_STACK_DEPTH then tl ?s else ?s) @ [f AND KITTY_SUPPORTED])"
    using k by (auto simp: kitty_ok_def KITTY_STACK_DEPTH_def and.assoc dest: list.set_sel(2) [rotated])
  then show "term_step t (kitty_push t f)"
    unfolding kitty_push_def Let_def by (rule set_kitty_step [OF assms])
  have "kitty_ok (take (length ?s - n) ?s)"
    using k by (auto simp: kitty_ok_def KITTY_STACK_DEPTH_def dest: in_set_takeD)
  then show "term_step t (kitty_pop t n)"
    unfolding kitty_pop_def Let_def by (rule set_kitty_step [OF assms])
  have sup: "x AND KITTY_SUPPORTED = x" if "x = a AND KITTY_SUPPORTED" for x a
    using that by (simp add: and.assoc)
  let ?c = "kitty_flags_of (t_modes t)" and ?f = "f AND KITTY_SUPPORTED"
  have c: "?c AND KITTY_SUPPORTED = ?c" by (simp add: kitty_flags_of_def and.assoc)
  have "(?c OR ?f) AND KITTY_SUPPORTED = ?c OR ?f"
    by (simp add: bit.conj_disj_distrib2 and.assoc c)
  moreover have "(?c AND NOT ?f) AND KITTY_SUPPORTED = ?c AND NOT ?f"
    using c by (metis and.assoc and.commute)
  ultimately have "kitty_ok (butlast ?s @ [if mode = 2 then ?c OR ?f else if mode = 3 then ?c AND NOT ?f else ?f])"
    using k by (auto simp: kitty_ok_def KITTY_STACK_DEPTH_def and.assoc dest: in_set_butlastD)
  then show "term_step t (kitty_set t f mode)"
    unfolding kitty_set_def Let_def by (rule set_kitty_step [OF assms])
qed

lemma leave_alt_screen:
  assumes "state_ok t" "in_alt_screen t"
  shows "term_inv (set_alt_screen t False)" "active (set_alt_screen t False) = t_grid t"
    "t_template (set_alt_screen t False) = t_template t"
proof -
  let ?u = "t\<lparr>t_alt := None, t_modes := flag_remove (t_modes t) M_ALT_SCREEN\<rparr>"
  have u: "state_ok ?u" using assms(1) by (simp add: state_ok_def screens_ok_def split: option.splits)
  have "set_alt_screen t False = touch_full (sync_kitty_modes ?u)"
    using assms(2) by (simp add: set_alt_screen_def Let_def in_alt_screen_def)
  moreover have "active (sync_kitty_modes ?u) = t_grid t" "t_template (sync_kitty_modes ?u) = t_template t"
    by (simp_all add: sync_kitty_modes_def Let_def active_def)
  ultimately show "term_inv (set_alt_screen t False)" "active (set_alt_screen t False) = t_grid t"
    "t_template (set_alt_screen t False) = t_template t"
    using term_stepD(1) [OF sync_kitty_modes_step [OF u]] by (simp_all add: in_alt_screen_def alt_flag_reads)
qed

definition fresh_alt :: "tm \<Rightarrow> grid" where
  "fresh_alt t = set_viewport_restated
     (clear_all (grid_new (g_cols (t_grid t)) (g_rows (t_grid t)) 0) (t_template t)) (t_restated t)"

lemma fresh_alt_inv:
  assumes "grid_inv (t_grid t)"
  shows "grid_inv (fresh_alt t)" "g_cols (fresh_alt t) = g_cols (t_grid t)"
    "g_rows (fresh_alt t) = g_rows (t_grid t)" "g_scrollback_limit (fresh_alt t) = 0"
proof -
  let ?n = "grid_new (g_cols (t_grid t)) (g_rows (t_grid t)) 0"
  have "grid_step ?n (fresh_alt t)" unfolding fresh_alt_def
    by (rule grid_step_trans [OF edit_steps(6) view_steps(4)])
      (simp_all add: grid_inv_new clear_all_inv(1))
  moreover have "g_cols ?n = g_cols (t_grid t)" "g_rows ?n = g_rows (t_grid t)" "g_scrollback_limit ?n = 0"
    using grid_invD(6,7) [OF assms] by (simp_all add: grid_new_def Let_def)
  ultimately show "grid_inv (fresh_alt t)" "g_cols (fresh_alt t) = g_cols (t_grid t)"
    "g_rows (fresh_alt t) = g_rows (t_grid t)" "g_scrollback_limit (fresh_alt t) = 0"
    using grid_stepD by simp_all
qed

lemma set_alt_screen_step:
  assumes "term_inv t"
  shows "term_step t (set_alt_screen t e)"
proof -
  note g = term_invD(1,3,4) [OF assms]
  consider "e = in_alt_screen t" | "\<not> e" "in_alt_screen t" | "e" "\<not> in_alt_screen t" by blast
  then show ?thesis
  proof cases
    case 1
    then show ?thesis by (simp add: set_alt_screen_def in_alt_screen_def term_step_refl assms)
  next
    case 2
    have "state_ok t" using assms by (simp add: term_inv_def)
    with 2 leave_alt_screen g show ?thesis by (simp add: term_step_def)
  next
    case 3
    let ?u = "t\<lparr>t_alt := Some (fresh_alt t), t_modes := t_modes t OR M_ALT_SCREEN\<rparr>"
    have u: "state_ok ?u" using assms fresh_alt_inv [OF g(1)]
      by (simp add: term_inv_def state_ok_def screens_ok_def)
    have eq: "set_alt_screen t e = touch_full (sync_kitty_modes ?u)"
      using 3 by (simp add: set_alt_screen_def Let_def in_alt_screen_def fresh_alt_def)
    have "active ?u = fresh_alt t" by (simp add: active_def)
    with sync_kitty_modes_step [OF u] fresh_alt_inv [OF g(1)] g(2,3) show ?thesis
      unfolding eq by (simp add: in_alt_screen_def alt_flag_reads term_step_def)
  qed
qed

section \<open>Character attributes\<close>

lemma structure_bits: "bit STRUCTURE n \<longleftrightarrow> n = 10 \<or> n = 11 \<or> n = 12"
  by (simp only: STRUCTURE_def cf_defs bit_or_iff bit_single) auto

lemma and_zero_bits: "a AND b = 0 \<longleftrightarrow> (\<forall>n. \<not> (bit a n \<and> bit b n))" for a b :: "'a::len word"
  by (auto simp: bit_eq_iff bit_and_iff dest: bit_imp_le_length)

lemma template_ok_bits:
  "template_ok c \<longleftrightarrow> \<not> bit (cell_flags c) 10 \<and> \<not> bit (cell_flags c) 11 \<and> \<not> bit (cell_flags c) 12 \<and>
     cell_extra c = NO_EXTRA"
proof -
  show ?thesis by (auto simp: template_ok_def and_zero_bits structure_bits)
qed

lemma sgr_keeps:
  assumes "template_ok c"
  shows "f AND STRUCTURE = 0 \<Longrightarrow> template_ok (sgr_on f c)" "template_ok (sgr_off f c)"
    "template_ok (c\<lparr>cell_fg := x\<rparr>)" "template_ok (c\<lparr>cell_bg := x\<rparr>)"
proof -
  show "template_ok (c\<lparr>cell_fg := x\<rparr>)" "template_ok (c\<lparr>cell_bg := x\<rparr>)" using assms by (simp_all add: template_ok_def)
  show "template_ok (sgr_off f c)" using assms
    by (simp add: template_ok_bits sgr_off_def flag_remove_def bit_and_iff)
  assume "f AND STRUCTURE = 0"
  then have "\<not> (bit f n \<and> bit STRUCTURE n)" for n by (simp add: and_zero_bits)
  then show "template_ok (sgr_on f c)" using assms
    by (auto simp: template_ok_bits sgr_on_def bit_or_iff structure_bits)
qed

lemma style_flags [simp]:
  "CF_BOLD AND STRUCTURE = 0" "CF_DIM AND STRUCTURE = 0" "CF_ITALIC AND STRUCTURE = 0"
  "CF_UNDERLINE AND STRUCTURE = 0" "CF_BLINK AND STRUCTURE = 0" "CF_INVERSE AND STRUCTURE = 0"
  "CF_HIDDEN AND STRUCTURE = 0" "CF_STRIKEOUT AND STRUCTURE = 0"
  "CF_DOUBLE_UNDERLINE AND STRUCTURE = 0" "CF_UNDERCURL AND STRUCTURE = 0"
  by (simp_all add: STRUCTURE_def cf_defs)

lemma template_ok_default [simp]: "template_ok default_cell"
  by (simp add: template_ok_def)

lemma sgr_single_ok: "template_ok c \<Longrightarrow> template_ok (sgr_single n c)"
  by (simp add: sgr_single_def sgr_keeps del: One_nat_def)

lemma sgr_step_ok: "template_ok c \<Longrightarrow> template_ok (fst (sgr_step p it c))"
  by (auto simp: sgr_step_def sgr_single_ok sgr_underline_style_def sgr_keeps split: list.split option.split prod.split)

lemma sgr_loop_ok: "template_ok c \<Longrightarrow> template_ok (sgr_loop ps c)"
proof (induction ps c rule: sgr_loop.induct)
  case (2 p it c)
  then show ?case using sgr_step_ok [of c p it] by (cases "sgr_step p it c") simp
qed simp

lemma apply_sgr_step: "term_inv t \<Longrightarrow> term_step t (apply_sgr t ps)"
  using term_inv_put(3) [OF _ sgr_loop_ok [OF term_invD(5)], of t t ps] by (simp add: apply_sgr_def term_step_def)

end
