(* ===== verification/PerformInv.thy ===== *)
theory PerformInv
  imports TermSteps
begin

text \<open>
  Every callback of the parser and every verb of the embedder keeps the invariant of the terminal;
  the callbacks also keep the size of the screen.
\<close>

section \<open>Controls, erasing and scrolling\<close>

lemma execute_step: "term_inv t \<Longrightarrow> term_step t (execute t b)"
  using linefeed_step [of t] move_steps [of t] term_step_refl [of t]
    term_step_trans [OF linefeed_step move_steps(1) [OF term_stepD(1) [OF linefeed_step]], of t]
  by (simp add: execute_def raise_attention_def Let_def)

lemma reverse_index_step:
  assumes "term_inv t"
  shows "term_step t (reverse_index t)"
proof -
  define body where "body u = (if crow u = sr_top (g_region (active u))
      then touch_full (on_active (\<lambda>g. scroll_down g 1 (t_template u)) u)
      else if 0 < crow u then touch (on_active (set_row (crow u - 1)) u) else u)" for u
  have "term_inv u \<Longrightarrow> term_step u (body u)" for u
    using active_step [of u "\<lambda>g. scroll_down g 1 (t_template u)"] active_step [of u "set_row (crow u - 1)"]
      term_step_refl [of u] term_invD(10) [of u]
    by (simp add: body_def edit_steps(8) cursor_steps(1) less_imp_diff_less)
  from stranded_step [OF assms this] show ?thesis by (simp add: reverse_index_def Let_def body_def)
qed

lemma clear_history_step:
  assumes "term_inv t"
  shows "term_step t (t\<lparr>t_grid := clear_history (t_grid t)\<rparr>)"
  using assms edit_steps(15) [OF term_invD(1) [OF assms]]
  by (auto simp: term_step_def term_inv_def state_ok_def screens_ok_def modes_ok_def kitty_stack_def
      in_alt_screen_def active_def grid_step_def split: option.splits)

lemma put_blocks_step: "term_inv t \<Longrightarrow> blocks_ok b \<Longrightarrow> term_step t (t\<lparr>t_blocks := b\<rparr>)"
  by (simp add: term_step_def term_inv_put(1))

lemma forget_screen_step:
  assumes "term_inv t"
  shows "term_step t (forget_screen t)"
proof -
  define pre where "pre = (if t_alt t = None then
      (let t = (case active_line_id_at (t_grid t) 0 of
                  None \<Rightarrow> t
                | Some first \<Rightarrow> t\<lparr>t_blocks := erase_screen (t_blocks t) first\<rparr>)
       in t\<lparr>t_prompt_end := None, t_pending_command := None\<rparr>)
     else t)"
  have "term_step t pre"
    using put_blocks_step [OF assms erase_screen_ok [OF term_invD(6) [OF assms]]] assms
    by (simp add: pre_def Let_def term_step_def split: option.splits)
  moreover have "term_step u (on_active cancel_restate_debt u)" if "term_inv u" for u
    by (rule active_step [OF that], rule edit_steps(9))
  ultimately have "term_step t (on_active cancel_restate_debt pre)" using term_step_trans term_stepD(1) by blast
  then show ?thesis by (simp add: forget_screen_def pre_def Let_def)
qed

lemma forget_history_step:
  assumes "term_inv t"
  shows "term_step t (forget_history t)"
proof -
  note c = clear_history_step [OF assms]
  have "term_step t ((t\<lparr>t_grid := clear_history (t_grid t)\<rparr>)\<lparr>t_blocks := erase_screen (t_blocks t) 0\<rparr>)"
    by (rule term_step_trans [OF c put_blocks_step [OF term_stepD(1) [OF c]]])
      (rule erase_screen_ok [OF term_invD(6) [OF assms]])
  then show ?thesis by (simp add: forget_history_def)
qed

lemma erase_row_rows_step:
  assumes "grid_inv g" "row < g_rows g"
  shows "grid_step g (erase_rows (erase_in_row g row a b c) k l c)"
    "grid_step g (erase_in_row (erase_rows g k l c) row a b c)"
proof -
  note e = edit_steps(17) [OF assms, of a b c] and r = edit_steps(1) [OF assms(1), of k l c]
  show "grid_step g (erase_rows (erase_in_row g row a b c) k l c)"
    by (rule grid_step_trans [OF e edit_steps(1) [OF grid_stepD(1) [OF e]]])
  show "grid_step g (erase_in_row (erase_rows g k l c) row a b c)"
    by (rule grid_step_trans [OF r edit_steps(17) [OF grid_stepD(1) [OF r]]])
      (simp add: grid_stepD(3) [OF r] assms(2))
qed

lemma erase_in_display_step:
  assumes "term_inv t"
  shows "term_step t (erase_in_display t mode)"
proof -
  define below where "below u = on_active (\<lambda>g.
      let g = erase_in_row g (crow u) (ccol u) (g_cols (active u) - 1) (t_template u)
      in if crow u + 1 < g_rows (active u)
         then erase_rows g (crow u + 1) (g_rows (active u) - 1) (t_template u) else g) u" for u
  define above where "above u = on_active (\<lambda>g.
      let g = (if 0 < crow u then erase_rows g 0 (crow u - 1) (t_template u) else g)
      in erase_in_row g (crow u) 0 (ccol u) (t_template u)) u" for u
  define scr where "scr u = forget_screen (on_active (\<lambda>g. erase_rows g 0 (g_rows (active u) - 1) (t_template u)) u)" for u
  have b: "term_step u (below u)" if u: "term_inv u" for u
    unfolding below_def by (rule active_step [OF u])
      (use edit_steps(17) erase_row_rows_step(1) term_invD(10) [OF u] in \<open>simp add: Let_def\<close>)
  have a: "term_step u (above u)" if u: "term_inv u" for u
    unfolding above_def by (rule active_step [OF u])
      (use edit_steps(17) erase_row_rows_step(2) term_invD(10) [OF u] in \<open>simp add: Let_def\<close>)
  have s: "term_step u (scr u)" if u: "term_inv u" for u
  proof -
    have e: "term_step u (on_active (\<lambda>g. erase_rows g 0 (g_rows (active u) - 1) (t_template u)) u)"
      by (rule active_step [OF u], rule edit_steps(1))
    show ?thesis unfolding scr_def by (rule term_step_trans [OF e forget_screen_step [OF term_stepD(1) [OF e]]])
  qed
  have h: "term_step u (forget_history (scr u))" if u: "term_inv u" for u
    by (rule term_step_trans [OF s [OF u] forget_history_step [OF term_stepD(1) [OF s [OF u]]]])
  define body where "body u = touch_full (if mode = 0 then below u else if mode = 1 then above u
      else if mode = 2 \<or> mode = 3 then (if mode = 3 then forget_history (scr u) else scr u) else u)" for u
  have "term_inv u \<Longrightarrow> term_step u (body u)" for u
    using b [of u] a [of u] s [of u] h [of u] term_step_refl [of u] by (simp add: body_def)
  from stranded_step [OF assms this] show ?thesis
    by (simp add: erase_in_display_def body_def below_def above_def scr_def Let_def cong: if_cong)
qed

lemma erase_row_step:
  assumes "term_inv t"
  shows "term_step t (erase_in_line t mode)" "term_step t (erase_chars t n)"
proof -
  let ?e = "\<lambda>u a b. \<lambda>g. erase_in_row g (crow u) a b (t_template u)"
  have e: "term_step u (on_active (?e u a b) u)" if u: "term_inv u" for u a b
    by (rule active_step [OF u]) (rule edit_steps(17), assumption, rule term_invD(10) [OF u])
  define body where "body u = (if mode = 0 then on_active (?e u (ccol u) (g_cols (active u) - 1)) u
      else if mode = 1 then on_active (?e u 0 (ccol u)) u
      else if mode = 2 then on_active (?e u 0 (g_cols (active u) - 1)) u else u)" for u
  have "term_inv u \<Longrightarrow> term_step u (body u)" for u
    using e [of u] term_step_refl [of u] by (simp add: body_def)
  from stranded_step [OF assms this] show "term_step t (erase_in_line t mode)"
    by (simp add: erase_in_line_def body_def Let_def)
  from stranded_step [OF assms e] show "term_step t (erase_chars t n)"
    by (simp add: erase_chars_def Let_def)
qed

section \<open>Resets and modes\<close>

lemma grid_step_fold:
  assumes "grid_inv g" "\<And>x h. x \<in> set xs \<Longrightarrow> grid_step g h \<Longrightarrow> grid_step h (f x h)"
  shows "grid_step g (fold f xs g)"
proof -
  have "grid_step g (fold f xs h)" if "grid_step g h" "\<And>x h. x \<in> set xs \<Longrightarrow> grid_step g h \<Longrightarrow> grid_step h (f x h)" for h xs
    using that
  proof (induction xs arbitrary: h)
    case (Cons x xs)
    have "grid_step g (f x h)"
      by (rule grid_step_trans [OF Cons.prems(1) Cons.prems(2)]) (use Cons.prems(1) in simp_all)
    then show ?case using Cons.IH [OF _ Cons.prems(2)] by simp
  qed simp
  from this [OF grid_step_refl [OF assms(1)] assms(2)] show ?thesis .
qed

definition e_row :: "nat \<Rightarrow> grid \<Rightarrow> grid" where
  "e_row row g = fold (\<lambda>col g.
     case row_get (active_row g row) col of
       None \<Rightarrow> g
     | Some c \<Rightarrow> set_cell g row col (c\<lparr>cell_ch := ch (CHR ''E'')\<rparr>)) [0..<g_cols g] g"

lemma e_row_step:
  assumes "grid_inv g" "row < g_rows g"
  shows "grid_step g (e_row row g)"
  unfolding e_row_def
  by (rule grid_step_fold [OF assms(1)])
    (use assms(2) in \<open>auto simp: grid_step_def wf_intros frame_simps split: option.split\<close>)

lemma decaln_step: "term_inv t \<Longrightarrow> term_step t (decaln t)"
  unfolding decaln_def term_step_touch e_row_def [symmetric]
  by (rule active_step, assumption, rule grid_step_fold) (auto simp: grid_stepD(3) intro: e_row_step dest: grid_stepD(1))

lemma kitty_reset_state:
  assumes "state_ok t"
  shows "state_ok (kitty_reset t)" "kitty_flags_of (t_modes (kitty_reset t)) = 0"
    "t_kitty (kitty_reset t) = []" "active (kitty_reset t) = active t" "t_grid (kitty_reset t) = t_grid t"
    "t_alt (kitty_reset t) = t_alt t"
    "flag_contains (t_modes (kitty_reset t)) M_ALT_SCREEN = flag_contains (t_modes t) M_ALT_SCREEN"
proof -
  let ?u = "t\<lparr>t_kitty := [], t_kitty_alt := []\<rparr>"
  have s: "kitty_stack ?u = []" by (simp add: kitty_stack_def)
  have m: "t_modes (kitty_reset t) = with_kitty_flags (t_modes t) 0"
    unfolding kitty_reset_def sync_kitty_modes_def Let_def s by simp
  then show "kitty_flags_of (t_modes (kitty_reset t)) = 0" by (simp add: kitty_flags_roundtrip)
  show "flag_contains (t_modes (kitty_reset t)) M_ALT_SCREEN = flag_contains (t_modes t) M_ALT_SCREEN"
    unfolding m by (rule with_kitty_flags_alt)
  have "kitty_reset t = ?u \<or> kitty_reset t = touch (?u\<lparr>t_modes := with_kitty_flags (t_modes t) 0\<rparr>)"
    unfolding kitty_reset_def sync_kitty_modes_def Let_def s by auto
  then show "state_ok (kitty_reset t)" "t_kitty (kitty_reset t) = []" "active (kitty_reset t) = active t"
    "t_grid (kitty_reset t) = t_grid t" "t_alt (kitty_reset t) = t_alt t"
    using assms by (auto simp: state_ok_def screens_ok_def kitty_ok_def touch_def active_def split: option.splits)
qed

lemma initial_modes_reads:
  "kitty_flags_of initial_modes = 0" "\<not> flag_contains initial_modes M_ALT_SCREEN"
  by (simp_all add: initial_modes_def kitty_flags_of_def m_defs flag_contains_def KITTY_SHIFT_def KITTY_SUPPORTED_def)

lemma full_reset_step:
  assumes "term_inv t"
  shows "term_step t (full_reset t)"
proof -
  let ?u = "t\<lparr>t_template := default_cell, t_modes := initial_modes\<rparr>"
  have "state_ok ?u" using assms by (simp add: term_inv_def state_ok_def screens_ok_def cong: option.case_cong)
  note k = kitty_reset_state [OF this]
  let ?k = "kitty_reset ?u"
  note g = term_invD(3,4) [OF assms]
  have s: "term_inv (set_alt_screen ?k False) \<and> active (set_alt_screen ?k False) = t_grid t"
  proof (cases "in_alt_screen ?k")
    case True
    then show ?thesis using leave_alt_screen [OF k(1)] k(5) by simp
  next
    case False
    then have a: "t_alt t = None" using k(6) by (simp add: in_alt_screen_def)
    then have "set_alt_screen ?k False = ?k" using k(6) by (simp add: set_alt_screen_def)
    moreover have "modes_ok ?k"
      using k(2,3,6,7) a initial_modes_reads(2) by (simp add: modes_ok_def kitty_stack_def in_alt_screen_def)
    moreover have "active ?k = t_grid t" using k(4) a by (simp add: active_def)
    ultimately show ?thesis using k(1) by (simp add: term_inv_def)
  qed
  let ?c = "on_active (\<lambda>g. clear_all g default_cell) (set_alt_screen ?k False)"
  have c: "term_step t ?c"
  proof -
    have "term_step (set_alt_screen ?k False) ?c" by (rule active_step [OF conjunct1 [OF s]], rule edit_steps(6))
    then show ?thesis using s g by (simp add: term_step_def)
  qed
  let ?p = "reset_cursor_color (reset_background (reset_foreground (reset_indexed (t_palette ?c) None)))"
  have "term_inv (?c\<lparr>t_palette := ?p\<rparr>)"
    by (rule term_inv_put(2) [OF term_stepD(1) [OF c]])
      (intro palette_wf_ops(4,6,8,10) term_invD(7) [OF term_stepD(1) [OF c]])
  then have "term_inv (?c\<lparr>t_palette := ?p\<rparr>\<lparr>t_blocks := block_index_new\<rparr>)"
    by (rule term_inv_put(1) [OF _ blocks_ok_new])
  then show ?thesis using c by (simp add: full_reset_def Let_def term_step_def)
qed

lemma term_settle_restate_step:
  assumes "term_inv t"
  shows "term_step t (term_settle_restate t)"
proof -
  have "term_step t (on_active (\<lambda>_. fst (settle_restate (active t))) t)"
    by (rule active_step [OF assms], rule edit_steps(11))
  then show ?thesis by (simp add: term_settle_restate_def split_beta Let_def)
qed

lemma private_mode_step:
  assumes "term_inv t"
  shows "term_step t (private_mode mode e t)"
proof -
  have m: "plain_mode k \<Longrightarrow> term_step t (set_mode k e t)" for k
    unfolding set_mode_def by (rule set_mode_step [OF assms])
  note o = term_step_trans [OF m goto_step [OF term_stepD(1) [OF m]], of M_ORIGIN 0 0]
  note v = term_stepD(1) [OF m [of M_SHOW_CURSOR]]
  have "term_step (set_mode M_SHOW_CURSOR e t) (on_active end_restatement_window (set_mode M_SHOW_CURSOR e t))"
    using v by (intro active_step, simp) (rule edit_steps(10))
  then have w: "term_step t (on_active end_restatement_window (set_mode M_SHOW_CURSOR e t))"
    using term_step_trans [OF m [of M_SHOW_CURSOR]] by simp
  have x: "term_step t (term_settle_restate (set_mode M_SHOW_CURSOR e t))"
    using term_step_trans [OF m term_settle_restate_step] v by simp
  have y: "term_step t (set_alt_screen (save_cursor t) True)" "term_step t (restore_cursor (set_alt_screen t False))"
    using term_step_trans [OF save_cursor_step set_alt_screen_step] term_step_trans [OF set_alt_screen_step restore_cursor_step]
      assms term_stepD(1) [OF save_cursor_step] term_stepD(1) [OF set_alt_screen_step] by blast+
  show ?thesis
    using m o w x y set_alt_screen_step [OF assms, of e] save_cursor_step [OF assms] restore_cursor_step [OF assms]
      term_step_refl [OF assms] by (simp add: private_mode_def Let_def del: One_nat_def)
qed

lemma term_step_fold:
  assumes "term_inv t" "\<And>x u. term_inv u \<Longrightarrow> term_step u (f x u)"
  shows "term_step t (fold f xs t)"
proof -
  have "term_step t u \<Longrightarrow> term_step t (fold f xs u)" for u
  proof (induction xs arbitrary: u)
    case (Cons x xs)
    have "term_step t (f x u)"
      by (rule term_step_trans [OF Cons.prems assms(2) [OF term_stepD(1) [OF Cons.prems]]])
    then show ?case using Cons.IH by simp
  qed simp
  then show ?thesis using term_step_refl [OF assms(1)] by blast
qed

lemma mode_list_steps:
  assumes "term_inv t"
  shows "term_step t (set_private_modes t ps e)" "term_step t (set_ansi_modes t ps e)"
  unfolding set_private_modes_def set_ansi_modes_def term_step_touch
  by (rule term_step_fold [OF assms]; use private_mode_step set_mode_step term_step_refl in
      \<open>simp add: set_mode_def split: option.split\<close>)+

section \<open>Control and escape sequences\<close>

lemma csi_move_step:
  assumes "term_inv t"
  shows "term_step t (csi_move t ps c)"
proof -
  have n: "term_step t (on_active (\<lambda>g. note_cursor_homed_while_hidden g (t_template t)) t)"
    by (rule active_step [OF assms], rule edit_steps(14))
  have p: "term_step t (cursor_position t ps)"
    using term_step_trans [OF n goto_step [OF term_stepD(1) [OF n]]] goto_step [OF assms]
    by (simp add: cursor_position_def Let_def)
  have a: "term_step t (carriage_return (move_down t k))" "term_step t (carriage_return (move_up t k))" for k
    by (rule term_step_trans [OF move_steps(6) [OF assms] move_steps(1) [OF term_stepD(1) [OF move_steps(6) [OF assms]]]])
      (rule term_step_trans [OF move_up_step [OF assms] move_steps(1) [OF term_stepD(1) [OF move_up_step [OF assms]]]])
  show ?thesis
    unfolding csi_move_def
    using move_steps [OF assms] move_up_step [OF assms] a goto_absolute_step [OF assms term_invD(10) [OF assms]]
      goto_step [OF assms] p term_step_refl [OF assms] by (simp del: One_nat_def)
qed

lemma csi_edit_step:
  assumes "term_inv t"
  shows "term_step t (csi_edit t ps c)"
proof -
  have e: "term_step t (on_active (\<lambda>g. insert_cells g n (t_template t)) t)"
    "term_step t (on_active (\<lambda>g. delete_cells g n (t_template t)) t)"
    "term_step t (on_active (\<lambda>g. insert_lines g n (t_template t)) t)"
    "term_step t (on_active (\<lambda>g. delete_lines g n (t_template t)) t)"
    "term_step t (on_active (\<lambda>g. scroll_up g n (t_template t)) t)"
    "term_step t (on_active (\<lambda>g. scroll_down g n (t_template t)) t)" for n
    by (rule active_step [OF assms], erule edit_steps)+
  show ?thesis
    unfolding csi_edit_def term_step_touch
    using e evict_blocks_step [OF e(5)] erase_in_display_step [OF assms] erase_row_step [OF assms]
      term_step_refl [OF assms] by (simp del: One_nat_def)
qed

lemma csi_scroll_region_step:
  assumes "term_inv t"
  shows "term_step t (csi_scroll_region t ps)"
proof -
  define q where "q = (if arg ps 0 1 - 1 < arg ps 1 (g_rows (active t)) - 1 \<and> arg ps 1 (g_rows (active t)) - 1 < g_rows (active t)
      then \<lparr>sr_top = arg ps 0 1 - 1, sr_bottom = arg ps 1 (g_rows (active t)) - 1\<rparr> else region_full (g_rows (active t)))"
  have q: "sr_top q \<le> sr_bottom q" "sr_bottom q < g_rows (active t)"
    using term_invD(12) [OF assms] by (auto simp: q_def region_full_def)
  have r: "term_step t (on_active (\<lambda>g. g\<lparr>g_region := q\<rparr>) t)"
    by (rule active_step [OF assms], rule cursor_steps(6)) (use q in simp_all)
  from term_step_trans [OF this goto_step [OF term_stepD(1) [OF this]]] show ?thesis
    unfolding csi_scroll_region_def Let_def q_def term_step_touch by simp
qed

lemma plain_field_steps:
  assumes "term_inv t"
  shows "term_step t (csi_cursor_style t n)" "term_step t (csi_clear_tabs t n)" "term_step t (set_tab b t)"
    "term_step t (reply bs t)" "term_step t (raise_attention cause t)"
proof -
  have a: "active (t\<lparr>t_style_from_program := x, t_cursor_style := y\<rparr>) = active t" for x y
    by (simp add: active_def cong: option.case_cong)
  show "term_step t (csi_cursor_style t n)" "term_step t (csi_clear_tabs t n)" "term_step t (set_tab b t)"
    "term_step t (reply bs t)" "term_step t (raise_attention cause t)"
    using assms a by (simp_all add: csi_cursor_style_def csi_clear_tabs_def set_tab_def reply_def
        raise_attention_def Let_def term_step_def)
qed

text \<open>A result that may be a panic.\<close>

definition opt_step :: "tm \<Rightarrow> tm option \<Rightarrow> bool" where
  "opt_step t r \<longleftrightarrow> (case r of None \<Rightarrow> True | Some u \<Rightarrow> term_step t u)"

lemma opt_step_simps [simp]: "opt_step t None" "opt_step t (Some u) = term_step t u"
  by (simp_all add: opt_step_def)

lemma step_if [intro]:
  "term_step t u \<Longrightarrow> term_step t v \<Longrightarrow> term_step t (if b then u else v)"
  "opt_step t q \<Longrightarrow> opt_step t r \<Longrightarrow> opt_step t (if b then q else r)"
  by simp_all

lemma csi_kitty_step: "term_inv t \<Longrightarrow> term_step t (csi_kitty t ps i)"
  by (simp add: csi_kitty_def plain_field_steps kitty_steps term_step_refl del: One_nat_def)

lemma csi_dispatch_step:
  assumes "term_inv t"
  shows "opt_step t (csi_dispatch t ps ims ignored c)"
proof -
  have r: "opt_step t (csi_report t n)" for n
    using plain_field_steps(4) [OF assms] term_step_refl [OF assms]
    by (simp add: csi_report_def Let_def)
  have n: "term_step t (on_active (\<lambda>g. note_restatement_began g x y (t_template t)) t)" for x y
    by (rule active_step [OF assms], rule edit_steps(13))
  show ?thesis
    unfolding csi_dispatch_def Let_def
    by (intro step_if)
      (auto simp: r n csi_move_step [OF assms] csi_edit_step [OF assms] mode_list_steps [OF assms]
        apply_sgr_step [OF assms] csi_scroll_region_step [OF assms] plain_field_steps [OF assms]
        save_cursor_step [OF assms] restore_cursor_step [OF assms] csi_kitty_step [OF assms]
        term_step_refl [OF assms] split: option.split)
qed

lemma esc_dispatch_step:
  assumes "term_inv t"
  shows "term_step t (esc_dispatch t ims b)"
  unfolding esc_dispatch_def Let_def
  using save_cursor_step [OF assms] restore_cursor_step [OF assms] linefeed_step [OF assms]
    term_step_trans [OF linefeed_step move_steps(1) [OF term_stepD(1) [OF linefeed_step]], of t] assms
    reverse_index_step [OF assms] plain_field_steps(3) [OF assms] full_reset_step [OF assms]
    decaln_step [OF assms] term_step_refl [OF assms]
  by simp

section \<open>Operating-system commands\<close>

lemma active_osc [simp]:
  "active (t\<lparr>t_title := a1\<rparr>) = active t" "active (t\<lparr>t_progress := a2\<rparr>) = active t"
  "active (t\<lparr>t_hyperlink := a3\<rparr>) = active t" "active (t\<lparr>t_next_hyperlink := a4\<rparr>) = active t"
  "active (t\<lparr>t_cwd := a5\<rparr>) = active t" "active (t\<lparr>t_cwd_host := a6\<rparr>) = active t"
  "active (t\<lparr>t_facts := a7\<rparr>) = active t"
  by (simp_all add: active_def cong: option.case_cong)

lemma osc_plain_steps:
  assumes "term_inv t"
  shows "term_step t (osc_title t ps)" "term_step t (osc_hyperlink t ps)" "term_step t (osc_cwd t ps)"
    "term_step t (osc_progress t ps)" "term_step t (set_cwd t h p)" "term_step t (set_shell_fact t k v)"
  using assms
  by (simp_all add: osc_title_def osc_hyperlink_def osc_cwd_def osc_progress_def set_cwd_def set_shell_fact_def
      raise_attention_def Let_def term_step_def split: option.split prod.split)

lemma block_steps:
  assumes "term_inv t"
  shows "term_step t (block_prompt_start t)" "term_step t (block_prompt_end t)"
    "term_step t (block_output_start t c)" "term_step t (term_block_finish t e)"
proof -
  have b: "blocks_ok x \<Longrightarrow> term_inv (t\<lparr>t_blocks := x\<rparr>)" for x using term_inv_put(1) [OF assms] .
  have bb: "blocks_ok x \<Longrightarrow> term_inv (t\<lparr>t_pending_command := None, t_blocks := x\<rparr>)" for x
    using term_inv_put(1) [of "t\<lparr>t_pending_command := None\<rparr>"] assms by simp
  note i = term_invD(6) [OF assms]
  show "term_step t (block_prompt_start t)"
    using assms b [OF begin_prompt_ok [OF i]] by (simp add: block_prompt_start_def term_step_def split: option.split)
  show "term_step t (block_prompt_end t)"
    using assms by (simp add: block_prompt_end_def term_step_def split: option.split)
  show "term_step t (block_output_start t c)"
    using assms b [OF begin_output_ok [OF i]] bb [OF begin_output_ok [OF i]]
    by (simp add: block_output_start_def term_step_def Let_def split: option.split)
  show "term_step t (term_block_finish t e)"
    using assms b [OF block_finish_ok [OF i]]
    by (simp add: term_block_finish_def term_step_def Let_def split: option.split)
qed

lemma osc_marker_steps:
  assumes "term_inv t"
  shows "term_step t (osc_prompt t ps)" "term_step t (osc_vscode t ps)"
  using block_steps [OF assms] term_step_refl [OF assms] osc_plain_steps(5,6) [OF assms] assms
  by (simp_all add: osc_prompt_def osc_vscode_def term_step_def split: option.split prod.split)

lemma put_palette_step: "term_inv t \<Longrightarrow> palette_wf p \<Longrightarrow> term_step t (touch_full (t\<lparr>t_palette := p\<rparr>))"
  by (simp add: term_step_def term_inv_put(2))

lemma opt_step_trans: "term_step t u \<Longrightarrow> opt_step u r \<Longrightarrow> opt_step t r"
  using term_step_trans by (cases r) auto

lemma osc_palette_step: "term_inv t \<Longrightarrow> opt_step t (osc_palette t ps)"
proof (induction ps arbitrary: t rule: induct_list012)
  case (3 p q ps)
  note n = plain_field_steps(4) [OF 3(3)]
  note s = put_palette_step [OF 3(3) palette_wf_ops(3) [OF term_invD(7) [OF 3(3)]]]
  have "opt_step t (osc_palette (reply bs t) ps)" for bs
    by (rule opt_step_trans [OF n 3(1) [OF term_stepD(1) [OF n]]])
  moreover have "opt_step t (osc_palette (touch_full (t\<lparr>t_palette := set_indexed (t_palette t) i c\<rparr>)) ps)" for i c
    by (rule opt_step_trans [OF s 3(1) [OF term_stepD(1) [OF s]]])
  ultimately show ?case using 3(1) [OF 3(3)] by (simp add: Let_def split: option.split)
qed (simp_all add: term_step_refl)

lemma osc_dynamic_color_step:
  assumes "term_inv t"
  shows "opt_step t (osc_dynamic_color t code ps)"
  using plain_field_steps(4) [OF assms] term_step_refl [OF assms] put_palette_step [OF assms]
    palette_wf_ops(5,7,9) [OF term_invD(7) [OF assms]]
  by (simp add: osc_dynamic_color_def Let_def split: option.split)

lemma osc_dispatch_step:
  assumes "term_inv t"
  shows "opt_step t (osc_dispatch t ps)"
proof -
  note p = put_palette_step [OF assms] palette_wf_ops(4,6,8,10) [OF term_invD(7) [OF assms]]
  show ?thesis
    unfolding osc_dispatch_def
    using p osc_palette_step [OF assms] osc_dynamic_color_step [OF assms] osc_plain_steps [OF assms]
      osc_marker_steps [OF assms] plain_field_steps(5) [OF assms] term_step_refl [OF assms]
    by (simp del: One_nat_def add: Let_def split: option.split)
qed

section \<open>Every callback\<close>

lemma perform_step:
  assumes "term_inv t"
  shows "opt_step t (perform cwidth a t)"
  using write_char_step [OF assms] execute_step [OF assms] csi_dispatch_step [OF assms] esc_dispatch_step [OF assms]
    osc_dispatch_step [OF assms] by (cases a) simp_all

section \<open>The embedder's verbs\<close>

lemma term_inv_new: "term_inv (term_new cols rows limit)"
proof -
  have "length (ps_colors palette_seed) = 256"
    by (simp add: palette_seed_def fill_standard_extended_def)
  then have "palette_wf (palette_new palette_seed)" by (rule palette_wf_ops(1))
  then show ?thesis
    by (simp add: term_inv_def state_ok_def screens_ok_def modes_ok_def term_new_def grid_inv_new kitty_ok_def
        blocks_ok_new default_saved_cursor_def in_alt_screen_def kitty_stack_def initial_modes_reads)
qed

lemma embedder_steps:
  assumes "term_inv t"
  shows "term_step t (term_scroll_display t d)" "term_step t (term_scroll_to_bottom t)"
    "term_step t (fst (term_scroll_to_line t l))" "term_step t (set_block_context t i c)"
    "term_step t (set_selection t s)" "term_step t (snd (take_events t))" "term_step t (snd (take_damage t))"
    "term_step t (set_default_cursor_style t style)"
    "length (ps_colors seed) = 256 \<Longrightarrow> term_step t (set_palette t seed)"
proof -
  have a: "term_step t (on_active (\<lambda>g. scroll_display g d) t)" "term_step t (on_active scroll_to_bottom t)"
    by (rule active_step [OF assms], erule view_steps)+
  have l: "term_step t (t\<lparr>t_grid := fst (scroll_to_line (t_grid t) l)\<rparr>)" if "t_alt t = None"
  proof -
    have "term_step t (on_active (\<lambda>g. fst (scroll_to_line g l)) t)"
      by (rule active_step [OF assms], rule view_steps(3))
    then show ?thesis using that by (simp add: on_active_def)
  qed
  have d: "term_step t u \<Longrightarrow> term_step t (u\<lparr>t_damage := x\<rparr>)" for u x by (simp add: term_step_def)
  show "term_step t (term_scroll_display t d)" "term_step t (term_scroll_to_bottom t)"
    using a by (simp_all add: term_scroll_display_def term_scroll_to_bottom_def Let_def d)
  show "term_step t (fst (term_scroll_to_line t l))"
    using l term_step_refl [OF assms] by (simp add: term_scroll_to_line_def Let_def split_beta d)
  show "term_step t (set_block_context t i c)"
    using put_blocks_step [OF assms set_context_ok [OF term_invD(6) [OF assms]]] by (simp add: set_block_context_def)
  have f: "active (t\<lparr>t_selection := x\<rparr>) = active t" "active (t\<lparr>t_cursor_style := y\<rparr>) = active t"
    "active (t\<lparr>t_default_style := y, t_cursor_style := z\<rparr>) = active t" "active (t\<lparr>t_default_style := y\<rparr>) = active t" for x y z
    by (simp_all add: active_def cong: option.case_cong)
  show "term_step t (set_selection t s)" "term_step t (snd (take_events t))" "term_step t (snd (take_damage t))"
    "term_step t (set_default_cursor_style t style)"
    using assms f
    by (simp_all add: set_selection_def take_events_def take_damage_def set_default_cursor_style_def Let_def term_step_def)
  assume "length (ps_colors seed) = 256"
  then have "palette_wf (reseed (t_palette t) seed)" by (rule palette_wf_ops(2))
  then show "term_step t (set_palette t seed)"
    using assms by (simp add: set_palette_def term_step_def term_inv_put(2))
qed

lemma term_set_restated_step:
  assumes "term_inv t"
  shows "term_step t (term_set_restated t b)"
proof -
  have "grid_inv g \<Longrightarrow> grid_step g (set_viewport_restated g b)" for g by (rule view_steps(4))
  then show ?thesis using assms
    by (auto simp: term_set_restated_def term_step_def term_inv_def state_ok_def screens_ok_def modes_ok_def
        kitty_stack_def in_alt_screen_def active_def grid_step_def split: option.splits)
qed

section \<open>Resizing\<close>

lemma resize_width_frame [frame_simps]:
  "g_settled_pull (fst (resize_width g cols t)) = g_settled_pull g"
proof -
  have "g_settled_pull (fst (place_rows g s c out n tgt m)) = g_settled_pull g" for s c out n tgt m
    by (simp add: place_rows_def Let_def)
  then have "g_settled_pull (fst (reflow g cols t)) = g_settled_pull g"
    by (simp add: reflow_def Let_def split: prod.split)
  then show ?thesis by (simp add: resize_width_def split_beta)
qed

text \<open>The height and the end of a resize take no new rows from a settle.\<close>

lemma finish_resize_pull:
  "g_settled_pull (finish_resize (resize_height h cs rs t)) \<le> g_settled_pull h"
  "g_restatement_open (finish_resize (resize_height h cs rs t)) = g_restatement_open h"
proof -
  have "g_settled_pull (shrink_rows h rs) \<le> g_settled_pull h" "g_restatement_open (shrink_rows h rs) = g_restatement_open h"
    "g_settled_pull (grow_rows h rs) = g_settled_pull h" "g_restatement_open (grow_rows h rs) = g_restatement_open h"
    by (simp_all add: shrink_rows_def grow_rows_def Let_def)
  then have "g_settled_pull (resize_height h cs rs t) \<le> g_settled_pull h"
    "g_restatement_open (resize_height h cs rs t) = g_restatement_open h"
    by (simp_all add: resize_height_def set_height_def)
  then show "g_settled_pull (finish_resize (resize_height h cs rs t)) \<le> g_settled_pull h"
    "g_restatement_open (finish_resize (resize_height h cs rs t)) = g_restatement_open h"
    by (simp_all add: finish_resize_def)
qed

lemma resize_width_pull:
  assumes "snd (grid_resize g cols rows t) \<noteq> []" "grid_inv g"
  shows "g_settled_pull (fst (grid_resize g cols rows t)) = 0"
proof -
  let ?b = "begin_resize g (max cols 1)"
  have c: "max cols 1 \<noteq> g_cols g" "\<not> (max cols 1 = g_cols g \<and> max rows 1 = g_rows g)"
    using assms(1) by (auto simp: grid_resize_def Let_def resize_width_def begin_resize_def split: prod.splits if_splits)
  then have b: "g_settled_pull ?b = 0" by (simp add: begin_resize_def)
  have w: "g_settled_pull (fst (resize_width ?b (max cols 1) t)) = 0"
    using b by (simp add: resize_width_frame)
  note finish_resize_pull(1) [of _ "max cols 1" "max rows 1" t]
  then show ?thesis using w c(2) unfolding grid_resize_def Let_def by (simp add: split_beta) (metis le_zero_eq)
qed

lemma reindex_lookup_empty [simp]: "reindex_lookup [] l = None"
  by (simp add: reindex_lookup_def binary_search_by_key_def bsearch.simps)

lemma rows_above_anchor_map: "rows_above_anchor g m anchor = Some k \<Longrightarrow> m \<noteq> []"
  by (auto simp: rows_above_anchor_def split: option.splits)

text \<open>The screens after a resize, and after the rows above the anchor are filed.\<close>

lemma resize_screens:
  fixes t :: tm and cols rows :: nat
  assumes "term_inv t"
  defines "g \<equiv> fst (grid_resize (t_grid t) cols rows (t_template t))"
    and "a \<equiv> map_option (\<lambda>a. fst (grid_resize a cols rows (t_template t))) (t_alt t)"
  shows "term_inv (t\<lparr>t_grid := g, t_alt := a\<rparr>)"
  using assms(1) grid_resize_inv [OF term_invD(1) [OF assms(1)], of cols rows "t_template t"]
  by (auto simp: term_inv_def state_ok_def screens_ok_def modes_ok_def kitty_stack_def in_alt_screen_def
      g_def a_def grid_resize_inv split: option.splits)

lemma bank_anchor_inv:
  assumes "term_inv t" "g_settled_pull (t_grid t) = 0"
  shows "term_inv (t\<lparr>t_grid := bank_viewport_top (t_grid t) k (t_template t)\<rparr>)"
  using assms edit_steps(16) [OF term_invD(1) [OF assms(1)] assms(2), of k "t_template t"]
  by (auto simp: term_inv_def state_ok_def screens_ok_def modes_ok_def kitty_stack_def in_alt_screen_def
      grid_step_def split: option.splits)

lemma term_resize_inv:
  assumes "term_inv t"
  shows "term_inv (term_resize t cols rows)"
proof -
  define t1 where "t1 = (if cols \<noteq> g_cols (t_grid t) then t\<lparr>t_selection := None\<rparr> else t)"
  define m where "m = snd (grid_resize (t_grid t1) cols rows (t_template t1))"
  define t2 where "t2 = t1\<lparr>t_grid := fst (grid_resize (t_grid t1) cols rows (t_template t1)),
    t_alt := map_option (\<lambda>a. fst (grid_resize a cols rows (t_template t1))) (t_alt t1)\<rparr>"
  define t3 where "t3 = (case rows_above_anchor (t_grid t2) m (resize_anchor t1 cols) of
      None \<Rightarrow> t2
    | Some k \<Rightarrow> push_event ViewportRebased (t2\<lparr>t_grid := bank_viewport_top (t_grid t2) k (t_template t2)\<rparr>))"
  have i1: "term_inv t1" using assms by (simp add: t1_def)
  have i2: "term_inv t2" unfolding t2_def by (rule resize_screens [OF i1])
  have i3: "term_inv t3"
  proof (cases "rows_above_anchor (t_grid t2) m (resize_anchor t1 cols)")
    case (Some k)
    have "m \<noteq> []" by (rule rows_above_anchor_map [OF Some])
    then have "g_settled_pull (t_grid t2) = 0"
      using resize_width_pull [OF _ term_invD(1) [OF i1]] by (simp add: t2_def m_def)
    then show ?thesis using bank_anchor_inv [OF i2] Some by (simp add: t3_def)
  qed (use i2 in \<open>simp add: t3_def\<close>)
  have "term_inv (t3\<lparr>t_blocks := reanchor (t_blocks t3) m\<rparr>)"
    by (rule term_inv_put(1) [OF i3 reanchor_ok [OF term_invD(6) [OF i3]]])
  moreover have "term_resize t cols rows = touch_full ((if \<not> reindex_is_empty m
      then t3\<lparr>t_blocks := reanchor (t_blocks t3) m, t_prompt_end := None\<rparr> else t3)\<lparr>t_tabs := default_tabs cols\<rparr>)"
    unfolding term_resize_def Let_def t1_def [symmetric] split_beta m_def [symmetric]
      t2_def [symmetric] t3_def [symmetric] by (simp add: t2_def t3_def)
  ultimately show ?thesis using i3 by simp
qed

section \<open>The terminal as a state machine\<close>

text \<open>One step of a terminal: a callback of the parser that does not panic, or a verb of the embedder.\<close>

inductive term_moves :: "(uchar \<Rightarrow> nat option) \<Rightarrow> tm \<Rightarrow> tm \<Rightarrow> bool" for cwidth where
  Parsed: "perform cwidth a t = Some u \<Longrightarrow> term_moves cwidth t u"
| Resized: "term_moves cwidth t (term_resize t cols rows)"
| Settled: "term_moves cwidth t (term_settle_restate t)"
| Restated: "term_moves cwidth t (term_set_restated t b)"
| Scrolled: "term_moves cwidth t (term_scroll_display t d)"
| ScrolledDown: "term_moves cwidth t (term_scroll_to_bottom t)"
| ScrolledTo: "term_moves cwidth t (fst (term_scroll_to_line t l))"
| Selected: "term_moves cwidth t (set_selection t s)"
| Stamped: "term_moves cwidth t (set_block_context t i c)"
| Recoloured: "length (ps_colors seed) = 256 \<Longrightarrow> term_moves cwidth t (set_palette t seed)"
| Restyled: "term_moves cwidth t (set_default_cursor_style t style)"
| EventsTaken: "term_moves cwidth t (snd (take_events t))"
| DamageTaken: "term_moves cwidth t (snd (take_damage t))"

inductive_cases term_movesE: "term_moves cwidth t u"

definition term_start :: "tm \<Rightarrow> bool" where
  "term_start t \<longleftrightarrow> (\<exists>cols rows limit. t = term_new cols rows limit)"

lemma term_moves_inv:
  assumes "term_moves cwidth t u" "term_inv t"
  shows "term_inv u"
  using assms
proof (cases rule: term_moves.cases)
  case (Parsed a)
  then show ?thesis using perform_step [OF assms(2), of cwidth a] by (simp add: term_step_def)
qed (use assms(2) embedder_steps [OF assms(2)] term_settle_restate_step [OF assms(2)]
    term_set_restated_step [OF assms(2)] in \<open>simp_all add: term_step_def term_resize_inv\<close>)

interpretation terminal: machine term_start "term_moves cwidth" term_inv for cwidth
  by unfold_locales (auto simp: term_start_def term_inv_new intro: term_moves_inv)

end
