(* ===== verification/TermSpec.thy ===== *)
theory TermSpec
  imports PerformInv
begin

text \<open>
  What the terminal promises: its invariant along every run and the size of the screen under any
  output of the program.
\<close>

section \<open>Runs\<close>

text \<open>
  C1. Whatever a program prints and whatever the embedder does between two chunks of it (resizing,
  settling a repaint, scrolling, selecting, recolouring), a terminal that started from
  \<open>TermState::new\<close> satisfies its invariant: both grids are well formed with ascending line ids and
  the cursor and the scroll region inside the screen, the alternate screen has the size of the
  primary one and no history, the Kitty stacks are at most eight deep and their top is what the
  mode word says, the colour table has 256 entries, block ids ascend, and no structural cell flag
  sits in a template.
\<close>

theorem terminal_invariant:
  assumes "term_start t" "(term_moves cwidth)\<^sup>*\<^sup>* t u"
  shows "term_inv u"
  using assms by (rule terminal.reachable_inv)

theorem terminal_invariant_witness:
  "term_inv (write_char (\<lambda>_. Some 2) (term_resize (term_new 4 2 10) 3 5) 0x4e00)"
proof (rule terminal_invariant [of "term_new 4 2 10" "\<lambda>_. Some 2"])
  have "term_moves (\<lambda>_. Some 2) (term_new 4 2 10) (term_resize (term_new 4 2 10) 3 5)" by (rule Resized)
  moreover have "term_moves (\<lambda>_. Some 2) (term_resize (term_new 4 2 10) 3 5)
      (write_char (\<lambda>_. Some 2) (term_resize (term_new 4 2 10) 3 5) 0x4e00)"
    by (rule Parsed [of _ "Print 0x4e00"]) simp
  ultimately show "(term_moves (\<lambda>_. Some 2))\<^sup>*\<^sup>* (term_new 4 2 10)
      (write_char (\<lambda>_. Some 2) (term_resize (term_new 4 2 10) 3 5) 0x4e00)" by simp
qed (auto simp: term_start_def)

text \<open>
  C2. Nothing a program prints changes the size of the screen: only the embedder resizes.  The
  primary and the alternate screen keep one common size throughout.
\<close>

theorem output_keeps_size:
  assumes "term_inv t" "perform_all cwidth as t = Some u"
  shows "term_inv u \<and> g_cols (active u) = g_cols (active t) \<and> g_rows (active u) = g_rows (active t)"
proof -
  have "term_step t u" using assms
  proof (induction as arbitrary: t)
    case (Cons a as)
    then obtain v where v: "perform cwidth a t = Some v" "perform_all cwidth as v = Some u"
      by (auto split: option.splits)
    then have "term_step t v" using perform_step [OF Cons.prems(1), of cwidth a] by simp
    then show ?case using Cons.IH [OF _ v(2)] term_step_trans term_stepD(1) by blast
  qed (simp add: term_step_refl)
  then show ?thesis by (simp add: term_step_def)
qed

theorem output_keeps_size_witness:
  "g_cols (active (execute (term_new 4 2 10) 10)) = 4 \<and> g_rows (active (execute (term_new 4 2 10) 10)) = 2"
  using output_keeps_size [OF term_inv_new, of "\<lambda>_. None" "[Execute 10]" 4 2 10 "execute (term_new 4 2 10) 10"]
  by (simp add: term_new_def active_def grid_new_def Let_def)

end
