(* ===== verification/GridSpec.thy ===== *)
theory GridSpec
  imports ResizeInv
begin

text \<open>
  What the grid promises: which lines a scroll keeps and which it gives up, a reader stays on the text
  being read, edits touch exactly the cells they name, a drag of the window is reversible, and the
  restatement protocol moves only blank rows.
\<close>

section \<open>Scrolling\<close>

text \<open>Scrolling the whole screen, in terms of the rows.\<close>

lemma scroll_up_lines:
  assumes "grid_inv g" "full_region g" "\<not> (g_restated g \<and> g_restatement_open g)" "0 < n" "n \<le> g_rows g"
  shows "grid_lines (scroll_up g n t) = drop (overflow g n) (grid_lines g @ fresh_rows g n t)"
    "g_scrollback_len (scroll_up g n t) = min (g_scrollback_len g + n) (g_scrollback_limit g)"
    "g_evicted (scroll_up g n t) = g_evicted g @
      (if g_capture_evicted g then map evict_row (take (overflow g n) (grid_lines g @ fresh_rows g n t)) else [])"
    "scroll_up g n t = scroll_screen_up (cancel_restate_debt g) n t"
proof -
  note d = grid_invD [OF assms(1)]
  have n: "min n (region_height g) = n" using assms(2,5) d(7) by simp
  show e: "scroll_up g n t = scroll_screen_up (cancel_restate_debt g) n t"
    using scroll_up_screen [OF assms(4,2,3), of t] unfolding n .
  have c: "grid_shape (cancel_restate_debt g)" "g_settled_pull (cancel_restate_debt g) = 0"
    using grid_invD(3) [OF cancel_restate_debt_inv(1) [OF assms(1)]]
    by (simp_all add: cancel_restate_debt_def end_restatement_window_def)
  have f: "fresh_rows (cancel_restate_debt g) n t = fresh_rows g n t" "overflow (cancel_restate_debt g) n = overflow g n"
    by (simp_all add: fresh_rows_def overflow_def frame_simps next_line_id_def cancel_restate_debt_def
        end_restatement_window_def)
  show "grid_lines (scroll_up g n t) = drop (overflow g n) (grid_lines g @ fresh_rows g n t)"
    "g_scrollback_len (scroll_up g n t) = min (g_scrollback_len g + n) (g_scrollback_limit g)"
    "g_evicted (scroll_up g n t) = g_evicted g @
      (if g_capture_evicted g then map evict_row (take (overflow g n) (grid_lines g @ fresh_rows g n t)) else [])"
    using scroll_screen_up_rows [OF c, of n t] unfolding e f
    by (simp_all add: frame_simps cancel_restate_debt_def end_restatement_window_def)
qed

text \<open>
  C3. What scrolling the whole screen up by \<open>n\<close> keeps. Outside an open restatement bracket, \<open>n\<close>
  blank rows come in at the bottom under fresh ids, and exactly the oldest rows the scrollback has no
  room for go: none while it has room. Those are handed over, oldest first, when
  \<open>capture_evicted\<close> is on, and are gone when it is off, as it is by default. Inside an open bracket of a
  restated grid (the repaint overflowing the bottom) the history keeps every row and instead the top
  \<open>n\<close> rows of the viewport are dropped, handed to nobody.
\<close>

theorem scroll_keeps_history:
  assumes "grid_inv g" "full_region g" "0 < n" "n \<le> g_rows g"
  shows "if g_restated g \<and> g_restatement_open g
    then scrollback (scroll_up g n t) = scrollback g \<and>
      screen (scroll_up g n t) = drop n (screen g) @ fresh_rows g n t \<and>
      g_evicted (scroll_up g n t) = g_evicted g
    else grid_lines (scroll_up g n t) =
        drop (n - (g_scrollback_limit g - g_scrollback_len g)) (grid_lines g) @ fresh_rows g n t \<and>
      g_scrollback_len (scroll_up g n t) = min (g_scrollback_len g + n) (g_scrollback_limit g) \<and>
      g_evicted (scroll_up g n t) = g_evicted g @
        (if g_capture_evicted g
         then map evict_row (take (n - (g_scrollback_limit g - g_scrollback_len g)) (grid_lines g)) else [])"
proof (cases "g_restated g \<and> g_restatement_open g")
  case True
  have sh: "grid_shape g" using grid_invD(3) [OF assms(1)] .
  note r = scroll_up_restatement [OF sh conjunct1 [OF True] conjunct2 [OF True] _ _ assms(3), of t]
  have "g_evicted (scroll_up g n t) = g_evicted g"
    using assms(2) True by (simp add: scroll_up_def Let_def)
  then show ?thesis using True r assms(2,4) by (simp add: min_absorb1)
next
  case False
  have le: "overflow g n \<le> length (grid_lines g)"
    unfolding grid_shapeD(5) [OF grid_invD(3) [OF assms(1)], unfolded st_len_def, folded length_st_iter]
    using assms(4) by (simp add: overflow_def grid_shapeD(4) [OF grid_invD(3) [OF assms(1)]])
  show ?thesis
    using scroll_up_lines(1-3) [OF assms(1,2) False assms(3,4), of t] le False by (auto simp: overflow_def)
qed

theorem scroll_keeps_history_witness:
  "g_evicted (scroll_up ((grid_new 3 2 1)\<lparr>g_capture_evicted := True\<rparr>) 2 default_cell) =
     map evict_row (take 1 (grid_lines (grid_new 3 2 1)))"
proof -
  have "grid_inv ((grid_new 3 2 1)\<lparr>g_capture_evicted := True\<rparr>)" by (rule grid_inv_fields(12) [OF grid_inv_new])
  from scroll_keeps_history [OF this, of 2 default_cell] show ?thesis
    by (simp add: grid_new_def region_full_def)
qed

text \<open>
  C4. A reader scrolled back into history keeps looking at the same rows while the program prints
  below: every row of the display is unchanged, as long as the offset can grow with the scrollback.
\<close>

theorem scroll_holds_reader:
  assumes "grid_inv g" "full_region g" "\<not> (g_restated g \<and> g_restatement_open g)" "0 < n" "n \<le> g_rows g"
    "0 < g_display_offset g" "g_display_offset g + n \<le> min (g_scrollback_len g + n) (g_scrollback_limit g)"
    "i < g_rows g"
  shows "grid_row (scroll_up g n t) i = grid_row g i"
proof -
  have c: "grid_shape (cancel_restate_debt g)" "g_settled_pull (cancel_restate_debt g) = 0"
    using grid_invD(3) [OF cancel_restate_debt_inv(1) [OF assms(1)]]
    by (simp_all add: cancel_restate_debt_def end_restatement_window_def)
  have "grid_row (cancel_restate_debt g) i = grid_row g i"
    by (simp add: grid_row_def viewport_base_def cancel_restate_debt_def end_restatement_window_def)
  then show ?thesis
    using scroll_screen_up_holds_reader [OF c(1) _ c(2), of n t] assms(6,7,8) scroll_up_lines(4) [OF assms(1-5)]
    by (simp add: frame_simps)
qed

lemma grid_inv_offset: "grid_inv g \<Longrightarrow> k \<le> g_scrollback_len g \<Longrightarrow> grid_inv (g\<lparr>g_display_offset := k\<rparr>)"
  by (simp add: grid_inv_def grid_wf_def grid_shape_def cursor_ok_def region_ok_def grid_ids_ok_def next_line_id_def)

text \<open>A grid of two rows over one of history, scrolled back by one.\<close>

definition scrolled_back :: grid where
  "scrolled_back = scroll_display (scroll_up (grid_new 3 2 5) 1 default_cell) 1"

lemma scrolled_back_facts:
  "grid_inv scrolled_back" "full_region scrolled_back" "g_display_offset scrolled_back = 1"
  "g_scrollback_len scrolled_back = 1" "g_rows scrolled_back = 2" "g_scrollback_limit scrolled_back = 5"
  "g_restated scrolled_back = False"
proof -
  let ?g = "grid_new 3 2 5"
  have b: "full_region ?g" "\<not> (g_restated ?g \<and> g_restatement_open ?g)" "g_rows ?g = 2" "g_scrollback_len ?g = 0"
    "g_scrollback_limit ?g = 5" "g_restated ?g = False"
    by (simp_all add: grid_new_def region_full_def)
  have l: "g_scrollback_len (scroll_up ?g 1 default_cell) = 1" "g_display_offset (scroll_up ?g 1 default_cell) = 0"
    using scroll_up_lines(2) [OF grid_inv_new b(1,2), of 1 default_cell] b
    grid_shapeD(8) [OF grid_invD(3) [OF scroll_inv(1) [OF grid_inv_new]]]
    by (simp_all add: grid_new_def scroll_up_def Let_def scroll_screen_up_def scroll_one_def region_full_def
        cancel_restate_debt_def end_restatement_window_def)
  have i: "grid_inv (scroll_up ?g 1 default_cell)" by (rule scroll_inv(1) [OF grid_inv_new])
  have eq: "scrolled_back = (scroll_up ?g 1 default_cell)\<lparr>g_display_offset := 1\<rparr>"
    using l by (simp add: scrolled_back_def scroll_display_def)
  show "grid_inv scrolled_back" "full_region scrolled_back" "g_display_offset scrolled_back = 1"
    "g_scrollback_len scrolled_back = 1" "g_rows scrolled_back = 2" "g_scrollback_limit scrolled_back = 5"
    "g_restated scrolled_back = False"
    unfolding eq using grid_inv_offset [OF i, of 1] b l by (simp_all add: frame_simps)
qed

theorem scroll_holds_reader_witness:
  "grid_row (scroll_up scrolled_back 2 default_cell) 0 = grid_row scrolled_back 0"
  by (rule scroll_holds_reader [OF scrolled_back_facts(1,2)]) (simp_all add: scrolled_back_facts)

text \<open>
  C5. Scrolling a region that is not the whole screen moves the cells of its rows up by \<open>n\<close> (at
  most its height), blanks the rows that come in at the bottom, and leaves every other row of the
  screen, the whole history, and every line id in place.
\<close>

theorem scroll_region_rows:
  assumes "grid_inv g" "\<not> full_region g" "0 < n" "n \<le> region_height g" "i < g_rows g"
  shows "row_cells (active_row (scroll_up g n t) i) =
      (if sr_top (g_region g) \<le> i \<and> i + n \<le> sr_bottom (g_region g) then row_cells (active_row g (i + n))
       else if sr_top (g_region g) \<le> i \<and> i \<le> sr_bottom (g_region g) then replicate (g_cols g) (blank_with t)
       else row_cells (active_row g i)) \<and>
    row_id (active_row (scroll_up g n t) i) = row_id (active_row g i) \<and>
    scrollback (scroll_up g n t) = scrollback g"
proof -
  let ?c = "cancel_restate_debt g" and ?h = "scroll_up g n t"
  note d = grid_invD [OF assms(1)]
  have w: "grid_wf ?c" by (rule cancel_restate_debt_wf [OF d(1)])
  have e: "?h = scroll_region_up ?c n t"
    using scroll_up_region [OF assms(3,2), of t] assms(4) by (simp add: min_absorb1)
  note r = scroll_region_up_rows [OF w assms(3), of t, folded e]
  have c: "grid_lines ?c = grid_lines g" "g_scrollback_len ?c = g_scrollback_len g" "g_region ?c = g_region g"
    by (simp_all add: cancel_restate_debt_def end_restatement_window_def)
  have hi: "grid_inv ?h" by (rule scroll_inv(1) [OF assms(1)])
  have hl: "g_scrollback_len ?h = g_scrollback_len g" unfolding e scroll_region_up_def Let_def by (simp add: c)
  have len: "length (grid_lines g) = g_scrollback_len g + g_rows g" using d(3) by (simp add: grid_shapeD)
  have a: "active_row ?h k = grid_lines ?h ! (g_scrollback_len g + k)" "active_row g k = grid_lines g ! (g_scrollback_len g + k)"
    if "k < g_rows g" for k
    using active_row_eq [OF grid_invD(3) [OF hi], of k] active_row_eq [OF d(3), of k] that hl by (simp_all add: frame_simps)
  have k: "g_scrollback_len g + i < length (grid_lines g)" using assms(5) len by simp
  have z: "length (row_cells (active_row g i)) = g_cols g" using active_row_length d(3) assms(5) by simp
  have row: "active_row ?h i = (if sr_top (g_region g) \<le> i \<and> i \<le> sr_bottom (g_region g)
      then up_result (grid_lines g) (g_scrollback_len g) n (sr_bottom (g_region g)) t (g_scrollback_len g + i)
      else active_row g i)"
    using r k unfolding c a(1) [OF assms(5)] a(2) [OF assms(5)] by (simp del: length_st_iter)
  have "row_cells (active_row g (i + n)) = row_cells (grid_lines g ! (g_scrollback_len g + i + n))"
    if "i + n \<le> sr_bottom (g_region g)"
    using a(2) [of "i + n"] that d(10) by (simp add: add.assoc)
  then have cells: "row_cells (active_row ?h i) =
      (if sr_top (g_region g) \<le> i \<and> i + n \<le> sr_bottom (g_region g) then row_cells (active_row g (i + n))
       else if sr_top (g_region g) \<le> i \<and> i \<le> sr_bottom (g_region g) then replicate (g_cols g) (blank_with t)
       else row_cells (active_row g i))"
    unfolding row using z a(2) [OF assms(5)] by (auto simp: up_result_def cleared_row_def row_reset_def)
  have "row_id (active_row ?h i) = row_id (active_row g i)"
    unfolding row using a(2) [OF assms(5)] by (auto simp: up_result_def)
  moreover have "scrollback ?h = scrollback g"
    unfolding scrollback_def hl
    by (rule nth_equalityI) (use r len c in \<open>auto simp del: length_st_iter\<close>)
  ultimately show ?thesis using cells by blast
qed

theorem scroll_region_rows_witness:
  "row_id (active_row (scroll_up ((grid_new 3 4 2)\<lparr>g_region := \<lparr>sr_top = 1, sr_bottom = 3\<rparr>\<rparr>) 1 default_cell) 3) =
     row_id (active_row ((grid_new 3 4 2)\<lparr>g_region := \<lparr>sr_top = 1, sr_bottom = 3\<rparr>\<rparr>) 3)"
proof -
  let ?g = "(grid_new 3 4 2)\<lparr>g_region := \<lparr>sr_top = 1, sr_bottom = 3\<rparr>\<rparr>"
  have i: "grid_inv ?g" by (rule grid_inv_fields(2) [OF grid_inv_new]) (simp_all add: grid_new_def)
  have r: "g_rows ?g = 4" by (simp add: grid_new_def)
  show ?thesis using scroll_region_rows [OF i, of 1 3 default_cell] r by simp
qed

section \<open>Dropping history\<close>

text \<open>
  The loop walks upwards from index \<open>i\<close>; the rows from \<open>i\<close> to \<open>stop\<close> are a run of named rows not
  yet cut.  At the end the storage holds the rows below \<open>stop\<close> untouched, and above it only those
  not named.
\<close>

abbreviation run_end :: "nat \<Rightarrow> nat option \<Rightarrow> nat" where
  "run_end i e \<equiv> (case e of None \<Rightarrow> i | Some k \<Rightarrow> k)"

lemma bsearch_member:
  assumes "sorted xs"
  shows "k \<in> set xs \<longleftrightarrow> (\<exists>i. binary_search_by_key (\<lambda>y. y) k xs = Inr i)"
proof (cases "binary_search_by_key (\<lambda>y. y) k xs")
  case (Inl i)
  have "k \<notin> set (take i xs)" "k \<notin> set (drop i xs)"
    using binary_search_miss [of "\<lambda>y. y" xs k i] assms Inl by auto
  then have "k \<notin> set xs" using set_append [of "take i xs" "drop i xs"] unfolding append_take_drop_id by blast
  then show ?thesis using Inl by simp
next
  case (Inr i)
  then show ?thesis using binary_search_hit [of "\<lambda>y. y" xs k i] assms nth_mem [of i xs] by auto
qed

lemma flush_run_lines:
  assumes "ring_ok s" "i \<le> run_end i e" "run_end i e < length (st_iter s)"
  shows "ring_ok (fst (flush_run s i e rm)) \<and>
    st_iter (fst (flush_run s i e rm)) = take i (st_iter s) @ drop (run_end i e) (st_iter s) \<and>
    st_next_id (fst (flush_run s i e rm)) = st_next_id s \<and>
    snd (flush_run s i e rm) = rm + (run_end i e - i)"
proof (cases e)
  case (Some k)
  have "i + (k - i) \<le> length (st_iter s)" "k - i < length (st_iter s)" using assms Some by simp_all
  from ring.cut [OF assms(1) this] show ?thesis using assms(2) Some by (simp add: flush_run_def)
qed (use assms in \<open>simp add: flush_run_def\<close>)

lemma drop_loop_lines:
  assumes "ring_ok s" "i \<le> run_end i e" "run_end i e < length (st_iter s)"
    and "sorted_wrt (<) (map row_id (take i (st_iter s)))"
    and "sorted named" "\<forall>x \<in> set named. flr \<le> x"
  shows "ring_ok (fst (drop_loop named flr s i e rm)) \<and>
    st_iter (fst (drop_loop named flr s i e rm)) =
      filter (\<lambda>r. row_id r \<notin> set named) (take i (st_iter s)) @ drop (run_end i e) (st_iter s) \<and>
    st_next_id (fst (drop_loop named flr s i e rm)) = st_next_id s \<and>
    snd (drop_loop named flr s i e rm) = rm + (run_end i e - i) +
      length (filter (\<lambda>r. row_id r \<in> set named) (take i (st_iter s)))"
  using assms(1-4)
proof (induction i arbitrary: s e rm)
  case 0
  then show ?case using flush_run_lines [of s 0 e rm] by simp
next
  case (Suc i)
  let ?L = "st_iter s" and ?x = "row_id (st_row s i)"
  have il: "i < length ?L" using Suc.prems(2,3) by simp
  have x: "?x = row_id (?L ! i)" using ring.get [OF Suc.prems(1) il] by simp
  have t: "take (Suc i) ?L = take i ?L @ [?L ! i]" using il by (rule take_Suc_conv_app_nth)
  have so: "sorted_wrt (<) (map row_id (take i ?L))" "\<forall>r \<in> set (take i ?L). row_id r < ?x"
    using Suc.prems(4) unfolding t x by (simp_all add: sorted_wrt_append)
  show ?case
  proof (cases "flr \<le> ?x")
    case True
    show ?thesis
    proof (cases "binary_search_by_key (\<lambda>y. y) ?x named")
      case (Inr k)
      have named: "?x \<in> set named"
        using bsearch_member [OF assms(5), of ?x] Inr by simp
      let ?e = "Some (case e of None \<Rightarrow> Suc i | Some e \<Rightarrow> e)"
      have "drop_loop named flr s (Suc i) e rm = drop_loop named flr s i ?e rm" using True Inr by (simp add: Let_def)
      moreover have "run_end i ?e = run_end (Suc i) e" by (simp split: option.split)
      ultimately show ?thesis
        using Suc.IH [OF Suc.prems(1), of ?e rm] Suc.prems(2,3) so named unfolding t x
        by (auto simp del: length_st_iter)
    next
      case (Inl k)
      have named: "?x \<notin> set named"
        using bsearch_member [OF assms(5), of ?x] Inl by simp
      define s' where "s' = fst (flush_run s (Suc i) e rm)"
      define rm' where "rm' = snd (flush_run s (Suc i) e rm)"
      note f = flush_run_lines [OF Suc.prems(1-3), of rm, folded s'_def rm'_def]
      have eq: "drop_loop named flr s (Suc i) e rm = drop_loop named flr s' i None rm'"
        using True Inl by (simp add: Let_def split_beta s'_def rm'_def)
      have len: "i < length (st_iter s')" using f il Suc.prems(3) by (simp del: length_st_iter)
      have ti: "take i (st_iter s') = take i ?L" "drop i (st_iter s') = ?L ! i # drop (run_end (Suc i) e) ?L"
        using f il t by (simp_all del: length_st_iter)
      have "sorted_wrt (<) (map row_id (take i (st_iter s')))" using so ti by simp
      from Suc.IH [OF conjunct1 [OF f] _ _ this, of None rm'] show ?thesis
        unfolding eq using f len named ti t x by (simp del: length_st_iter)
    qed
  next
    case False
    have none: "\<forall>r \<in> set (take (Suc i) ?L). row_id r \<notin> set named"
      unfolding t using so(2) False assms(6) x by fastforce
    have eq: "drop_loop named flr s (Suc i) e rm = flush_run s (Suc i) e rm" using False by (simp add: Let_def)
    have "filter (\<lambda>r. row_id r \<notin> set named) (take (Suc i) ?L) = take (Suc i) ?L"
      "filter (\<lambda>r. row_id r \<in> set named) (take (Suc i) ?L) = []"
      using none by (simp_all add: filter_id_conv filter_empty_conv)
    then show ?thesis unfolding eq using flush_run_lines [OF Suc.prems(1-3), of rm] by simp
  qed
qed

lemma drop_scrollback_lines:
  assumes "grid_inv g"
  shows "ring_ok (g_storage (fst (drop_scrollback_rows g named))) \<and>
    grid_lines (fst (drop_scrollback_rows g named)) =
      filter (\<lambda>r. row_id r \<notin> set named) (scrollback g) @ screen g \<and>
    snd (drop_scrollback_rows g named) = length (filter (\<lambda>r. row_id r \<in> set named) (scrollback g)) \<and>
    g_scrollback_len (fst (drop_scrollback_rows g named)) =
      g_scrollback_len g - length (filter (\<lambda>r. row_id r \<in> set named) (scrollback g))"
proof (cases "named = []")
  case True
  then show ?thesis using grid_shapeD(1,4) [OF grid_invD(3) [OF assms]]
    by (simp add: drop_scrollback_rows_def scrollback_def screen_def)
next
  case False
  let ?n = "sort named" and ?s = "g_storage g" and ?k = "g_scrollback_len g"
  note d = store_invD [OF grid_inv_store [OF assms]]
  have k: "?k < length (st_iter ?s)" unfolding d(4) using d(3) by simp
  have so: "sorted_wrt (<) (map row_id (take ?k (st_iter ?s)))"
    using ids_ok_take [OF d(8) [unfolded grid_ids_ok_def] order_refl, of ?k] by (simp add: ids_ok_def)
  have fl: "\<forall>x \<in> set ?n. ?n ! 0 \<le> x"
  proof
    fix x assume "x \<in> set ?n"
    then obtain j where "j < length ?n" "x = ?n ! j" by (auto simp: in_set_conv_nth simp del: set_sort)
    then show "?n ! 0 \<le> x" using sorted_nth_mono [of ?n 0 j] by simp
  qed
  have l: "ring_ok (fst (drop_loop ?n (?n ! 0) ?s ?k None 0)) \<and>
      st_iter (fst (drop_loop ?n (?n ! 0) ?s ?k None 0)) =
        filter (\<lambda>r. row_id r \<notin> set named) (scrollback g) @ screen g \<and>
      snd (drop_loop ?n (?n ! 0) ?s ?k None 0) = length (filter (\<lambda>r. row_id r \<in> set named) (scrollback g))"
    using drop_loop_lines [OF d(1) _ _ so sorted_sort fl, of None 0] k
    by (simp add: scrollback_def screen_def del: length_st_iter)
  then show ?thesis using False by (simp add: drop_scrollback_rows_def Let_def split_beta)
qed

lemma drop_scrollback_frame [frame_simps]:
  "g_cols (fst (drop_scrollback_rows g named)) = g_cols g" "g_rows (fst (drop_scrollback_rows g named)) = g_rows g"
  "g_cursor (fst (drop_scrollback_rows g named)) = g_cursor g"
  "g_region (fst (drop_scrollback_rows g named)) = g_region g"
  "g_settled_pull (fst (drop_scrollback_rows g named)) = g_settled_pull g"
  "g_scrollback_limit (fst (drop_scrollback_rows g named)) = g_scrollback_limit g"
  by (simp_all add: drop_scrollback_rows_def Let_def split_beta)

lemma drop_scrollback_wf:
  assumes "grid_inv g"
  shows "grid_wf (fst (drop_scrollback_rows g named))"
proof -
  note l = drop_scrollback_lines [OF assms, of named] and d = grid_invD [OF assms]
  let ?in = "filter (\<lambda>r. row_id r \<in> set named) (scrollback g)"
  have n: "length (filter (\<lambda>r. row_id r \<notin> set named) (scrollback g)) + length ?in = length (scrollback g)"
    using sum_length_filter_compl [of "\<lambda>r. row_id r \<in> set named" "scrollback g"] by simp
  have s: "length (scrollback g) = g_scrollback_len g" "length (screen g) = g_rows g"
    using grid_shapeD(4) [OF d(3)] by (simp_all add: scrollback_def screen_def)
  have "set (scrollback g) \<union> set (screen g) \<subseteq> set (grid_lines g)"
    by (auto simp: scrollback_def screen_def dest: in_set_takeD in_set_dropD)
  then have w: "\<forall>r \<in> set (scrollback g) \<union> set (screen g). length (row_cells r) = g_cols g"
    using d(3) by (auto simp: grid_shape_def)
  have off: "g_display_offset (fst (drop_scrollback_rows g named)) \<le> g_scrollback_len (fst (drop_scrollback_rows g named))"
    using d(3) by (simp add: drop_scrollback_rows_def Let_def split_beta grid_shape_def)
  show ?thesis using l n s w off d
    by (auto simp: grid_wf_def grid_shape_def cursor_ok_def region_ok_def frame_simps simp del: length_st_iter)
qed

text \<open>
  \<open>drop_scrollback_rows\<close> removes from the history exactly the rows whose ids it was given, in
  whatever order and however often they were named, keeps the live screen row for row, and returns
  how many rows went.
\<close>

theorem drop_scrollback_rows_exact:
  assumes "grid_inv g"
  shows "grid_lines (fst (drop_scrollback_rows g named)) =
      filter (\<lambda>r. row_id r \<notin> set named) (scrollback g) @ screen g \<and>
    snd (drop_scrollback_rows g named) = length (filter (\<lambda>r. row_id r \<in> set named) (scrollback g)) \<and>
    g_scrollback_len (fst (drop_scrollback_rows g named)) =
      g_scrollback_len g - length (filter (\<lambda>r. row_id r \<in> set named) (scrollback g))"
  using drop_scrollback_lines [OF assms] by simp

theorem drop_scrollback_rows_exact_witness:
  "snd (drop_scrollback_rows scrolled_back [7, 0, 7, 0]) = length (filter (\<lambda>r. row_id r \<in> set [7, 0, 7, 0]) (scrollback scrolled_back))"
  using drop_scrollback_rows_exact [OF scrolled_back_facts(1), of "[7, 0, 7, 0]"] by blast

text \<open>
  \<open>scroll_to_line\<close> finds every line the grid still holds, and then that line is one of the rows of
  the display.
\<close>

theorem scroll_to_line_shows:
  assumes "grid_inv g" "line \<in> row_id ` set (grid_lines g)"
  shows "snd (scroll_to_line g line) = True \<and>
    (\<exists>i < g_rows g. row_id (grid_row (fst (scroll_to_line g line)) i) = line)"
proof -
  note d = grid_shapeD [OF grid_invD(3) [OF assms(1)]]
  let ?p = "\<lambda>i. row_id (st_row (g_storage g) i) = line" and ?n = "st_len (g_storage g)"
  have row: "i < ?n \<Longrightarrow> st_row (g_storage g) i = grid_lines g ! i" for i
    using ring.get [OF d(1)] by (simp add: st_len_def)
  obtain j where "j < ?n" "?p j" using assms(2) row by (auto simp: in_set_conv_nth st_len_def)
  then obtain k where k: "find_first ?p [0..<?n] = Some k"
    using find_first_None [of ?p "[0..<?n]"] by (cases "find_first ?p [0..<?n]") auto
  then have i: "k < ?n" "?p k" using find_first_Some [OF k] by simp_all
  let ?h = "fst (scroll_to_line g line)"
  have h: "?h = g\<lparr>g_display_offset := min (g_scrollback_len g - k) (g_scrollback_len g)\<rparr>"
    using k d(5) by (simp add: scroll_to_line_def Let_def)
  have "viewport_base ?h \<le> k" "k - viewport_base ?h < g_rows g"
    unfolding h using d(3,5) i(1) by (auto simp: viewport_base_def)
  then have "k - viewport_base ?h < g_rows g \<and> row_id (grid_row ?h (k - viewport_base ?h)) = line"
    using i(2) unfolding h by (simp add: grid_row_def)
  moreover have "snd (scroll_to_line g line) = True" using k by (simp add: scroll_to_line_def Let_def)
  ultimately show ?thesis by blast
qed

theorem scroll_to_line_shows_witness: "snd (scroll_to_line (grid_new 3 2 5) 1) = True"
  using scroll_to_line_shows [OF grid_inv_new, of 1 3 2 5] by (simp add: grid_new_def storage_new_iter)

section \<open>Editing\<close>

text \<open>
  \<open>erase_in_row\<close> blanks exactly the columns of its range, clipped to the width, with the colours
  of the template; every other cell, and every other row of the screen, is untouched.
\<close>

theorem erase_in_row_exact:
  assumes "grid_inv g" "row < g_rows g" "i < g_rows g" "col < g_cols g"
  shows "row_cells (active_row (erase_in_row g row frm to t) i) ! col =
    (if i = row \<and> frm \<le> col \<and> col \<le> to then blank_with t else row_cells (active_row g i) ! col)"
proof -
  have "length (row_cells (active_row g row)) = g_cols g"
    using active_row_length grid_invD(3) [OF assms(1)] assms(2) by simp
  then show ?thesis
    using erase_in_row_row [OF grid_invD(1) [OF assms(1)] assms(2,3), of frm to t] assms(4)
    by (auto simp: nth_erase_span)
qed

theorem erase_in_row_exact_witness:
  "row_cells (active_row (erase_in_row (grid_new 4 2 0) 1 1 9 (default_cell\<lparr>cell_bg := Indexed 4\<rparr>)) 1) ! 3 =
     default_cell\<lparr>cell_bg := Indexed 4\<rparr>"
proof -
  have g: "g_rows (grid_new 4 2 0) = 2" "g_cols (grid_new 4 2 0) = 4" by (simp_all add: grid_new_def)
  have "blank_with (default_cell\<lparr>cell_bg := Indexed 4\<rparr>) = default_cell\<lparr>cell_bg := Indexed 4\<rparr>"
    by (simp add: blank_with_def default_cell_def)
  then show ?thesis
    using erase_in_row_exact [OF grid_inv_new, of 1 4 2 0 1 3 1 9 "default_cell\<lparr>cell_bg := Indexed 4\<rparr>"] g by simp
qed

text \<open>
  Deleting the cells one has just inserted puts the row back as it was, but for the cells that
  the insertion pushed off its right end: those columns are blank.
\<close>

theorem delete_undoes_insert:
  assumes "grid_inv g"
  shows "row_cells (active_row (delete_cells (insert_cells g n t) n t) (cur_row (g_cursor g))) =
    take (g_cols g - min n (g_cols g - cur_col (g_cursor g))) (row_cells (active_row g (cur_row (g_cursor g)))) @
    replicate (min n (g_cols g - cur_col (g_cursor g))) (blank_with t)"
proof -
  define row where "row = cur_row (g_cursor g)"
  define k where "k = min n (g_cols g - cur_col (g_cursor g))"
  let ?c = "row_cells (active_row g row)" and ?col = "cur_col (g_cursor g)" and ?h = "insert_cells g n t"
  note d = grid_invD [OF assms(1)]
  have row: "row < g_rows g" using d(8) by (simp add: row_def)
  have len: "length ?c = g_cols g" using active_row_length d(3) row by simp
  define ins where "ins = take ?col ?c @ replicate k (blank_with t) @ take (g_cols g - ?col - n) (drop ?col ?c)"
  have h: "?h = set_active_row g row ((active_row g row)\<lparr>row_cells := ins\<rparr>)"
    using insert_cells_row [OF assms(1), of n t] by (simp add: ins_def row_def k_def)
  have ilen: "length ins = g_cols g" using len d(9) by (simp add: ins_def k_def min_absorb2)
  have r1: "active_row ?h row = (active_row g row)\<lparr>row_cells := ins\<rparr>"
    unfolding h by (subst active_row_set) (use d(3) row ilen in simp_all)
  have hi: "grid_inv ?h" by (rule insert_delete_cells_inv(1) [OF assms(1)])
  have f: "g_cursor ?h = g_cursor g" "g_cols ?h = g_cols g" "g_rows ?h = g_rows g" by (simp_all add: frame_simps)
  define del where "del = take ?col ins @ drop (?col + n) ins @ replicate k (blank_with t)"
  have "delete_cells ?h n t = set_active_row ?h row ((active_row ?h row)\<lparr>row_cells := del\<rparr>)"
    using delete_cells_row [OF hi, of n t] unfolding f row_def [symmetric] r1 by (simp add: del_def k_def)
  moreover have dlen: "length del = g_cols g" using ilen d(9) by (simp add: del_def k_def)
  ultimately have "row_cells (active_row (delete_cells ?h n t) row) = del"
    by (simp add: active_row_set grid_invD(3) [OF hi] f row)
  moreover have "del = take (g_cols g - k) ?c @ replicate k (blank_with t)"
  proof (cases "n \<le> g_cols g - ?col")
    case True
    then have k: "k = n" by (simp add: k_def)
    have "take ?col ins = take ?col ?c" "drop (?col + n) ins = take (g_cols g - ?col - n) (drop ?col ?c)"
      using len d(9) k by (simp_all add: ins_def)
    moreover have "take ?col ?c @ take (g_cols g - ?col - n) (drop ?col ?c) = take (g_cols g - n) ?c"
      using d(9) True by (simp add: take_add [symmetric])
    ultimately show ?thesis unfolding del_def k by simp
  next
    case False
    then have "take ?col ins = take ?col ?c" "drop (?col + n) ins = []" "g_cols g - k = ?col"
      using len ilen d(9) by (simp_all add: ins_def k_def min_def)
    then show ?thesis by (simp add: del_def)
  qed
  ultimately show ?thesis unfolding row_def [symmetric] k_def [symmetric] by simp
qed

theorem delete_undoes_insert_witness:
  "row_cells (active_row (delete_cells (insert_cells (grid_new 4 2 0) 2 default_cell) 2 default_cell) 0) =
     replicate 4 default_cell"
proof -
  have "row_cells (active_row (grid_new 4 2 0) 0) = replicate 4 default_cell"
    using active_row_eq [OF grid_invD(3) [OF grid_inv_new], of 0 4 2 0]
    by (simp add: grid_new_def storage_new_iter row_new_def upt_rec)
  then show ?thesis
    using delete_undoes_insert [OF grid_inv_new, of 4 2 0 2 default_cell]
    by (simp add: grid_new_def default_cursor_def flip: replicate_add)
qed

section \<open>Resizing\<close>

lemma resize_height_only:
  assumes "grid_inv g" "0 < rows" "rows \<noteq> g_rows g"
  shows "fst (grid_resize g (g_cols g) rows t) =
    finish_resize (resize_height (begin_resize g (g_cols g)) (g_cols g) rows t)"
  using grid_invD(6) [OF assms(1)] assms(2,3)
  by (simp add: grid_resize_def Let_def resize_width_def begin_resize_def max_absorb1 Suc_leI)

lemma finish_resize_fields:
  "g_storage (finish_resize g) = g_storage g" "g_scrollback_len (finish_resize g) = g_scrollback_len g"
  "g_rows (finish_resize g) = g_rows g" "g_cols (finish_resize g) = g_cols g"
  "g_restated (finish_resize g) = g_restated g" "g_scrollback_limit (finish_resize g) = g_scrollback_limit g"
  "g_cursor (finish_resize g) = \<lparr>cur_row = min (cur_row (g_cursor g)) (g_rows g - 1),
     cur_col = min (cur_col (g_cursor g)) (g_cols g - 1), cur_pending_wrap = False\<rparr>"
  by (simp_all add: finish_resize_def)

lemma begin_resize_fields:
  "g_storage (begin_resize g c) = g_storage g" "g_scrollback_len (begin_resize g c) = g_scrollback_len g"
  "g_rows (begin_resize g c) = g_rows g" "g_cols (begin_resize g c) = g_cols g" "g_cursor (begin_resize g c) = g_cursor g"
  "g_restated (begin_resize g c) = g_restated g" "g_scrollback_limit (begin_resize g c) = g_scrollback_limit g"
  by (simp_all add: begin_resize_def)

lemma begin_resize_store: "store_inv g \<Longrightarrow> store_inv (begin_resize g (g_cols g))"
  by (simp add: begin_resize_def store_inv_def grid_ids_ok_def next_line_id_def)

text \<open>
  C9. On a pty that does not repaint, dragging the window shorter and back is one reversible
  gesture: with the cursor on the bottom row and room in the scrollback, every row, the boundary of
  the history and the cursor are back where they were.
\<close>

theorem shrink_grow_restores:
  assumes "grid_inv g" "\<not> g_restated g" "0 < rows" "rows < g_rows g"
    and "cur_row (g_cursor g) = g_rows g - 1"
    and "g_scrollback_len g + (g_rows g - rows) \<le> g_scrollback_limit g"
  shows "grid_lines (fst (grid_resize (fst (grid_resize g (g_cols g) rows t)) (g_cols g) (g_rows g) t)) = grid_lines g \<and>
    g_scrollback_len (fst (grid_resize (fst (grid_resize g (g_cols g) rows t)) (g_cols g) (g_rows g) t)) = g_scrollback_len g \<and>
    cur_row (g_cursor (fst (grid_resize (fst (grid_resize g (g_cols g) rows t)) (g_cols g) (g_rows g) t))) = cur_row (g_cursor g) \<and>
    cur_col (g_cursor (fst (grid_resize (fst (grid_resize g (g_cols g) rows t)) (g_cols g) (g_rows g) t))) = cur_col (g_cursor g)"
proof -
  note d = grid_invD [OF assms(1)]
  let ?R = "g_rows g" and ?b = "begin_resize g (g_cols g)"
  let ?h = "fst (grid_resize g (g_cols g) rows t)"
  have h: "?h = finish_resize (resize_height ?b (g_cols g) rows t)"
    by (rule resize_height_only [OF assms(1)]) (use assms in simp_all)
  have hi: "grid_inv ?h" by (rule grid_resize_inv(1) [OF assms(1)])
  have sb: "store_inv ?b" by (rule begin_resize_store [OF grid_inv_store [OF assms(1)]])
  have k: "shrink_bottom ?b rows = 0" "shrink_top ?b rows = ?R - rows" "shrink_len ?b rows = g_scrollback_len g + (?R - rows)"
    using assms(4,5,6) by (simp_all add: shrink_bottom_def shrink_top_def shrink_len_def begin_resize_fields)
  have rb: "rows < g_rows ?b" using assms(4) by (simp add: begin_resize_fields)
  note s = shrink_height_lines [OF sb assms(3) rb, unfolded k begin_resize_fields]
  have cols: "g_cols ?h = g_cols g" "g_rows ?h = rows" unfolding h finish_resize_fields by (simp_all add: frame_simps begin_resize_fields)
  have len: "length (grid_lines g) = g_scrollback_len g + ?R" using d(3) by (simp add: grid_shapeD)
  have lh: "grid_lines ?h = grid_lines g" "g_scrollback_len ?h = g_scrollback_len g + (?R - rows)"
    unfolding h finish_resize_fields using s(2,4) len by (simp_all del: length_st_iter)
  have ch: "cur_row (g_cursor (resize_height ?b (g_cols g) rows t)) = rows - 1"
    "cur_col (g_cursor (resize_height ?b (g_cols g) rows t)) = cur_col (g_cursor g)"
    "g_restated (resize_height ?b (g_cols g) rows t) = g_restated g"
    using rb k assms(3,4,5)
    by (simp_all add: resize_height_def set_height_def shrink_rows_def Let_def begin_resize_fields)
  have cur: "cur_row (g_cursor ?h) = rows - 1" "cur_col (g_cursor ?h) = cur_col (g_cursor g)" "\<not> g_restated ?h"
    unfolding h finish_resize_fields using ch d(9) assms(2) by (simp_all add: frame_simps begin_resize_fields)
  let ?b2 = "begin_resize ?h (g_cols ?h)"
  have u: "fst (grid_resize ?h (g_cols ?h) ?R t) = finish_resize (resize_height ?b2 (g_cols ?h) ?R t)"
    by (rule resize_height_only [OF hi]) (use assms(4) cols in simp_all)
  have sb2: "store_inv ?b2" by (rule begin_resize_store [OF grid_inv_store [OF hi]])
  have rb2: "g_rows ?b2 < ?R" using assms(4) cols by (simp add: begin_resize_fields)
  have g2: "grow_len ?b2 ?R = g_scrollback_len g" "grow_fresh ?b2 ?R = 0"
    using cur(3) lh(2) cols assms(4) by (simp_all add: grow_len_def grow_fresh_def begin_resize_fields)
  note w = grow_height_lines [OF sb2 rb2, unfolded g2 begin_resize_fields fresh_rows_0]
  have "cur_row (g_cursor (resize_height ?b2 (g_cols ?h) ?R t)) = ?R - 1"
    "cur_col (g_cursor (resize_height ?b2 (g_cols ?h) ?R t)) = cur_col (g_cursor g)"
    using rb2 cur lh(2) assms(3,4) cols
    by (simp_all add: resize_height_def set_height_def grow_rows_def Let_def begin_resize_fields)
  then show ?thesis
    using w(2,4) lh(1) assms(5) d(9) unfolding u [unfolded cols(1)] finish_resize_fields
    by (simp add: frame_simps begin_resize_fields cols)
qed

theorem shrink_grow_restores_witness:
  "grid_lines (fst (grid_resize (fst (grid_resize ((grid_new 3 4 9)\<lparr>g_cursor := \<lparr>cur_row = 3, cur_col = 1, cur_pending_wrap = False\<rparr>\<rparr>)
     3 2 default_cell)) 3 4 default_cell)) = grid_lines (grid_new 3 4 9)"
proof -
  let ?g = "(grid_new 3 4 9)\<lparr>g_cursor := \<lparr>cur_row = 3, cur_col = 1, cur_pending_wrap = False\<rparr>\<rparr>"
  have "grid_inv ?g" by (rule grid_inv_fields(1) [OF grid_inv_new]) (simp_all add: grid_new_def)
  from shrink_grow_restores [OF this, of 2 default_cell] show ?thesis by (simp add: grid_new_def)
qed

end
