(* ===== verification/SettleSpec.thy ===== *)
theory SettleSpec
  imports GridSpec
begin

text \<open>
  What the restatement protocol promises: a settle moves only rows the repaint left blank, and
  taking it back restores what was before.
\<close>

section \<open>The restatement protocol\<close>

text \<open>The rows counted as the blank tail are blank.\<close>

lemma blank_tail_rows:
  assumes "grid_inv g" "k \<le> blank_tail g" "k \<le> g_rows g"
  shows "list_all (\<lambda>r. trimmed_len r = 0) (drop (g_scrollback_len g + g_rows g - k) (grid_lines g))"
proof -
  note d = store_invD [OF grid_inv_store [OF assms(1)]]
  let ?p = "\<lambda>r. trimmed_len (st_row (g_storage g) (active_base g + r)) = 0" and ?xs = "rev [0..<g_rows g]"
  have base: "active_base g = g_scrollback_len g" by (rule grid_shapeD(9) [OF grid_invD(3) [OF assms(1)]])
  have tail: "?p (g_rows g - 1 - i)" if "i < k" for i
  proof -
    have i: "i < length (takeWhile ?p ?xs)" using that assms(2) by (simp add: blank_tail_def)
    have "?p (takeWhile ?p ?xs ! i)" using set_takeWhileD [OF nth_mem [OF i]] by (rule conjunct2)
    moreover have "takeWhile ?p ?xs ! i = ?xs ! i" by (rule takeWhile_nth [OF i])
    ultimately show ?thesis using that assms(3) by (simp add: rev_nth)
  qed
  have "trimmed_len (grid_lines g ! j) = 0" if j: "g_scrollback_len g + g_rows g - k \<le> j" "j < length (grid_lines g)" for j
  proof -
    let ?i = "g_scrollback_len g + g_rows g - 1 - j"
    have "?i < k" "g_scrollback_len g + (g_rows g - 1 - ?i) = j" using j assms(3) d(4) by auto
    then show ?thesis using tail [of ?i] ring.get [OF d(1) j(2)] by (simp add: base)
  qed
  then show ?thesis unfolding list_all_length using d(4) by (simp del: length_st_iter)
qed

text \<open>
  C7. When the repaint of a restating pty closes, \<open>settle_restate\<close> pulls history back over rows the
  repaint left blank and over nothing else: only blank rows leave the bottom of the grid, no other
  row changes, the cursor stays on its line, and what was owed is either paid or still owed.
\<close>

theorem settle_restate_safe:
  assumes "grid_inv g"
  shows "grid_lines (fst (settle_restate g)) = take (length (grid_lines (fst (settle_restate g)))) (grid_lines g) \<and>
    list_all (\<lambda>r. trimmed_len r = 0) (drop (length (grid_lines (fst (settle_restate g)))) (grid_lines g)) \<and>
    g_scrollback_len (fst (settle_restate g)) + cur_row (g_cursor (fst (settle_restate g))) =
      g_scrollback_len g + cur_row (g_cursor g) \<and>
    g_restate_debt (fst (settle_restate g)) + g_pending_restate (fst (settle_restate g)) +
      (if snd (settle_restate g) then g_settled_pull (fst (settle_restate g)) else 0) =
      g_restate_debt g + g_pending_restate g"
proof -
  consider "\<not> g_rows g \<le> g_restate_rows_seen g" | "g_rows g \<le> g_restate_rows_seen g" "settle_rows g = 0"
    | "g_rows g \<le> g_restate_rows_seen g" "0 < settle_rows g" by linarith
  then show ?thesis
  proof cases
    case 1
    then show ?thesis unfolding settle_cases(1) [OF 1] by (simp add: end_restatement_window_def)
  next
    case 2
    show ?thesis unfolding settle_cases(2) [OF 2] by (simp add: end_restatement_window_def)
  next
    case 3
    note l = settle_lines [OF assms 3] and f = settle_move_fields [OF 3]
    note b = settle_count_bounds [of g "g_pending_restate g"]
    have s: "snd (settle_restate g)" using settle_cases(3) [OF 3] by simp
    have k: "settle_rows g \<le> g_rows g" using b(4) grid_invD(8) [OF assms] by simp
    have len: "length (grid_lines (fst (settle_restate g))) = g_scrollback_len g + g_rows g - settle_rows g"
      unfolding l(3) using store_invD(4) [OF grid_inv_store [OF assms]] by (simp del: length_st_iter)
    have "list_all (\<lambda>r. trimmed_len r = 0) (drop (g_scrollback_len g + g_rows g - settle_rows g) (grid_lines g))"
      by (rule blank_tail_rows [OF assms b(2) k])
    then show ?thesis unfolding len using l(3) f b(1,3) s by simp
  qed
qed

theorem settle_restate_safe_witness:
  "g_scrollback_len (fst (settle_restate scrolled_back)) + cur_row (g_cursor (fst (settle_restate scrolled_back))) =
     g_scrollback_len scrolled_back + cur_row (g_cursor scrolled_back)"
  using settle_restate_safe [OF scrolled_back_facts(1)] by blast

text \<open>
  C8. Taking a settle back undoes it: the boundary of the history, the cursor and the rows owed are
  what they were before, and the rows that had been dropped come back as blank rows under fresh ids.
\<close>

theorem rebank_undoes_settle:
  assumes "grid_inv g" "snd (settle_restate g)"
  shows "g_scrollback_len (rebank_settled (fst (settle_restate g)) t) = g_scrollback_len g \<and>
    cur_row (g_cursor (rebank_settled (fst (settle_restate g)) t)) = cur_row (g_cursor g) \<and>
    g_restate_debt (rebank_settled (fst (settle_restate g)) t) + g_pending_restate (rebank_settled (fst (settle_restate g)) t) =
      g_restate_debt g + g_pending_restate g \<and>
    grid_lines (rebank_settled (fst (settle_restate g)) t) =
      take (g_scrollback_len g + g_rows g - settle_rows g) (grid_lines g) @ fresh_rows g (settle_rows g) t"
proof -
  have c: "g_rows g \<le> g_restate_rows_seen g" "0 < settle_rows g"
    using assms(2) settle_cases(1,2) [of g] by fastforce+
  let ?h = "fst (settle_restate g)" and ?k = "settle_rows g"
  note l = settle_lines [OF assms(1) c] and f = settle_move_fields [OF c]
  note b = settle_count_bounds [of g "g_pending_restate g"]
  have hi: "grid_inv ?h" by (rule settle_restate_inv [OF assms(1)])
  have p: "g_settled_pull ?h = ?k" using f by simp
  let ?r = "rebank_settled ?h t"
  have rf: "g_scrollback_len ?r = g_scrollback_len ?h + ?k" "g_cursor ?r = (g_cursor ?h)\<lparr>cur_row := cur_row (g_cursor ?h) - ?k\<rparr>"
    "g_pending_restate ?r = g_pending_restate ?h + ?k" "g_restate_debt ?r = g_restate_debt ?h"
    "g_storage ?r = resize_rows (g_storage ?h) (g_scrollback_len ?h + ?k + g_rows ?h) (g_cols ?h) t"
    "g_settled_pull ?r = 0" "g_scrollback_limit ?r = g_scrollback_limit ?h"
    using p c(2) by (simp_all add: rebank_settled_def Let_def)
  have "grid_lines ?r = grid_lines ?h @ fresh_rows ?h (g_settled_pull ?h) t"
    by (rule grow_by_pull(2) [OF grid_inv_store [OF hi], where h = ?r]) (use rf p in \<open>simp_all add: frame_simps\<close>)
  moreover have "fresh_rows ?h n t = fresh_rows g n t" for n using l(2) f by (simp add: fresh_rows_def)
  ultimately show ?thesis using l(3) f b(1,3) rf p by simp
qed

lemma blank_tail_pos:
  assumes "grid_inv g" "trimmed_len (last (grid_lines g)) = 0"
  shows "0 < blank_tail g"
proof -
  note d = store_invD [OF grid_inv_store [OF assms(1)]]
  have ne: "grid_lines g \<noteq> []" by (rule ring.nonempty [OF d(1)])
  have k: "g_rows g = Suc (g_rows g - 1)" using d(3) by simp
  have "active_base g + (g_rows g - 1) = length (grid_lines g) - 1"
    using d(3,4) grid_shapeD(9) [OF grid_invD(3) [OF assms(1)]] by (simp del: length_st_iter)
  then have "st_row (g_storage g) (active_base g + (g_rows g - 1)) = last (grid_lines g)"
    using ring.get [OF d(1), of "length (grid_lines g) - 1"] ne by (simp add: last_conv_nth del: length_st_iter)
  then show ?thesis unfolding blank_tail_def by (subst k) (simp add: assms(2))
qed

text \<open>A covered repaint of a grid whose bottom row is blank and which owes one row.\<close>

definition repainted :: grid where
  "repainted = scrolled_back\<lparr>g_pending_restate := 1, g_restate_rows_seen := 2\<rparr>"

lemma scrolled_back_cursor: "g_cursor scrolled_back = default_cursor"
  by (simp add: scrolled_back_def scroll_display_def frame_simps) (simp add: grid_new_def)

theorem rebank_undoes_settle_witness:
  "g_scrollback_len (rebank_settled (fst (settle_restate repainted)) default_cell) = 1"
proof -
  have i: "grid_inv repainted"
    unfolding repainted_def by (intro grid_inv_fields(3) grid_inv_fields(9) scrolled_back_facts(1))
  have l: "grid_lines repainted = grid_lines (grid_new 3 2 5) @ fresh_rows (grid_new 3 2 5) 1 default_cell"
    using scroll_up_lines(1) [OF grid_inv_new, of 3 2 5 1 default_cell]
    by (simp add: repainted_def scrolled_back_def scroll_display_def grid_new_def region_full_def overflow_def)
  have b: "0 < blank_tail repainted"
    by (rule blank_tail_pos [OF i]) (simp add: l fresh_rows_def trimmed_len_def trim_len_eq_0 is_padding_default [unfolded is_padding_def])
  have "g_pending_restate repainted = 1" "g_rows repainted = 2" "g_scrollback_len repainted = 1"
    "g_cursor repainted = default_cursor"
    by (simp_all add: repainted_def scrolled_back_facts scrolled_back_cursor)
  then have "0 < settle_rows repainted" using b by (simp add: settle_count_def default_cursor_def)
  then have "snd (settle_restate repainted)"
    using settle_cases(3) [of repainted] by (simp add: repainted_def scrolled_back_facts)
  from rebank_undoes_settle [OF i this, of default_cell] show ?thesis by (simp add: repainted_def scrolled_back_facts)
qed

end
