(* ===== verification/ReflowSpec.thy ===== *)
theory ReflowSpec
  imports ResizeInv
begin

text \<open>
  What a change of width promises: every logical line is broken again into rows of the new width
  that hold its characters in order, packed, with nothing lost and nothing between two lines.
\<close>

section \<open>Logical lines\<close>

text \<open>The logical lines of a list of rows: runs of wrapped rows with the row that ends them.\<close>

fun logical_lines :: "row list \<Rightarrow> detached list list" where
  "logical_lines [] = []"
| "logical_lines [r] = [line_cells r]"
| "logical_lines (r # r' # rs) =
     (if row_wrapped r
      then (line_cells r @ hd (logical_lines (r' # rs))) # tl (logical_lines (r' # rs))
      else line_cells r # logical_lines (r' # rs))"

lemma logical_lines_ne [simp]: "logical_lines rs = [] \<longleftrightarrow> rs = []"
  by (induction rs rule: logical_lines.induct) auto


section \<open>Breaking a line\<close>




lemma cell_ch_set_wrapped [simp]:
  "map cell_ch (take k (row_cells (row_set_wrapped r w))) = map cell_ch (take k (row_cells r))"
proof (cases "row_cells r" rule: rev_cases)
  case (snoc cs c)
  then show ?thesis
    by (cases "k - length cs") (simp_all add: row_set_wrapped_def nth_append list_update_append)
qed (simp add: row_set_wrapped_def)






section \<open>The whole rewrap\<close>






end
