(* ===== verification/WriteSpec.thy ===== *)
theory WriteSpec
  imports PerformInv
begin

text \<open>
  What the operations of the terminal do, beyond keeping its invariant: where a printed character
  lands, which parameters of a character-attribute sequence mean the same, and what the stacks and
  the saved cursor give back.
\<close>

section \<open>A printed character\<close>

text \<open>The cells a character of width one or two is written as.\<close>

definition lead_cell :: "cell \<Rightarrow> uchar \<Rightarrow> nat \<Rightarrow> cell" where
  "lead_cell c x width =
     (if width = 2 then c\<lparr>cell_ch := x, cell_flags := cell_flags c OR CF_WIDE\<rparr> else c\<lparr>cell_ch := x\<rparr>)"

definition spacer_cell :: "cell \<Rightarrow> cell" where
  "spacer_cell c = c\<lparr>cell_ch := 32, cell_flags := cell_flags c OR CF_WIDE_SPACER\<rparr>"

lemma set_cell_row:
  assumes "grid_inv g" "row < g_rows g" "i < g_rows g" "col < g_cols g"
  shows "row_cells (active_row (set_cell g row col c) i) =
    (if i = row then (row_cells (active_row g row))[col := c] else row_cells (active_row g i))"
  using assms active_row_set [OF grid_invD(3) [OF assms(1)] assms(2,3), of "row_set_cell (active_row g row) col c"]
  by (simp add: set_cell_def row_get_def slice_get_def active_row_length grid_invD row_set_cell_def
      split: option.splits)

lemma glyph_cells_row:
  assumes "grid_inv g" "w = 1 \<or> w = 2" "cur_col (g_cursor g) + w \<le> g_cols g" "i < g_rows g"
  shows "row_cells (active_row (glyph_cells c x w g) i) =
    (if i = cur_row (g_cursor g)
     then (if w = 2
           then (row_cells (active_row g i))[cur_col (g_cursor g) := lead_cell c x w,
                  cur_col (g_cursor g) + 1 := spacer_cell c]
           else (row_cells (active_row g i))[cur_col (g_cursor g) := lead_cell c x w])
     else row_cells (active_row g i))"
proof -
  let ?row = "cur_row (g_cursor g)" and ?col = "cur_col (g_cursor g)"
  let ?h = "set_cell g ?row ?col (lead_cell c x w)"
  note s = set_cell_row [OF assms(1) grid_invD(8) [OF assms(1)] assms(4)]
  have h: "grid_inv ?h" "?row < g_rows ?h" "g_rows ?h = g_rows g" "g_cols ?h = g_cols g"
    using set_cell_inv [OF assms(1) grid_invD(8) [OF assms(1)]] grid_invD(8) [OF assms(1)] by (simp_all add: frame_simps)
  have "glyph_cells c x w g = (if w = 2 then set_cell ?h ?row (?col + 1) (spacer_cell c) else ?h)"
    by (simp add: glyph_cells_def lead_cell_def spacer_cell_def Let_def)
  then show ?thesis
    using assms(2-4) s [of ?col "lead_cell c x w"] set_cell_row [OF h(1,2), of i "?col + 1" "spacer_cell c"] h(3,4)
      set_cell_row [OF h(1,2) h(2), of "?col + 1" "spacer_cell c"]
      set_cell_row [OF assms(1) grid_invD(8) [OF assms(1)] grid_invD(8) [OF assms(1)], of ?col "lead_cell c x w"]
    by auto
qed

text \<open>Where the cursor of \<open>u\<close> stands after a character of width \<open>w\<close> was put at column \<open>col\<close>.\<close>

definition after_glyph :: "nat \<Rightarrow> nat \<Rightarrow> tm \<Rightarrow> bool" where
  "after_glyph w col u \<longleftrightarrow>
     (if col + w = g_cols (active u)
      then ccol u = g_cols (active u) - 1 \<and> cur_pending_wrap (g_cursor (active u))
      else ccol u = col + w \<and> \<not> cur_pending_wrap (g_cursor (active u)))"

lemma advance_cursor_frame [simp]:
  "active_row (advance_cursor col g) = active_row g" "g_cols (advance_cursor col g) = g_cols g"
  "g_rows (advance_cursor col g) = g_rows g" "cur_row (g_cursor (advance_cursor col g)) = cur_row (g_cursor g)"
  "cur_col (g_cursor (advance_cursor col g)) = (if g_cols g \<le> col then g_cols g - 1 else col)"
  "cur_pending_wrap (g_cursor (advance_cursor col g)) \<longleftrightarrow> g_cols g \<le> col \<or> cur_pending_wrap (g_cursor g)"
  by (simp_all add: advance_cursor_def set_col_def fun_eq_iff active_row_def active_abs_index_def
      active_base_def)

lemma glyph_cells_frame [simp]:
  "g_cols (glyph_cells c x w g) = g_cols g" "g_rows (glyph_cells c x w g) = g_rows g"
  by (simp_all add: glyph_cells_def Let_def frame_simps)

text \<open>The cells a character of width one or two takes, and a row with such cells put in at a column.\<close>

definition glyph :: "cell \<Rightarrow> uchar \<Rightarrow> nat \<Rightarrow> cell list" where
  "glyph c x w = lead_cell c x w # (if w = 2 then [spacer_cell c] else [])"

definition put_in_row :: "bool \<Rightarrow> nat \<Rightarrow> cell list \<Rightarrow> cell list \<Rightarrow> cell list" where
  "put_in_row inserting col new cells =
     take col cells @ new @
       (if inserting then take (length cells - col - length new) (drop col cells)
        else drop (col + length new) cells)"

lemma length_glyph [simp]: "w = 1 \<or> w = 2 \<Longrightarrow> length (glyph c x w) = w"
  by (auto simp: glyph_def)

lemma glyph_put:
  assumes "w = 1 \<or> w = 2" "col + w \<le> length cells"
  shows "(if w = 2 then cells[col := lead_cell c x w, col + 1 := spacer_cell c] else cells[col := lead_cell c x w]) =
    put_in_row False col (glyph c x w) cells"
proof -
  have "cells = take col cells @ cells ! col # drop (Suc col) cells" if "col < length cells"
    using that by (rule id_take_nth_drop)
  moreover have "drop (Suc col) cells = cells ! Suc col # drop (Suc (Suc col)) cells" if "Suc col < length cells"
    using that by (rule Cons_nth_drop_Suc [symmetric])
  ultimately show ?thesis using assms
    by (auto simp: put_in_row_def glyph_def upd_conv_take_nth_drop list_update_append)
qed

text \<open>
  The screen a character is put on when a wrap is due: unchanged but for the mark of the row, or
  scrolled by one when the row is the last of the region.
\<close>

definition wrapped_screen :: "tm \<Rightarrow> grid" where
  "wrapped_screen s =
     (let g = grid_set_wrapped (active s) (crow s) True
      in if crow s = sr_bottom (g_region (active s)) then scroll_up g 1 (t_template s) else g)"

lemma stranded_settled: "\<not> needs_strand (active (strand_if_diverged t))"
  by (simp add: strand_if_diverged_def strand_settled_def needs_strand_def Let_def)

lemma set_wrapped_fields [simp]:
  "g_settled_pull (grid_set_wrapped g i b) = g_settled_pull g"
  "g_restatement_open (grid_set_wrapped g i b) = g_restatement_open g"
  by (simp_all add: grid_set_wrapped_def set_active_row_def)

lemma evict_blocks_active [simp]: "active (evict_blocks t) = active t"
  by (simp add: evict_blocks_def active_def Let_def split: option.splits)

lemma wrap_now_screen:
  assumes "\<not> needs_strand (active s)"
  shows "active_row (active (wrap_now s)) = active_row (wrapped_screen s) \<and>
    crow (wrap_now s) =
      (if crow s \<noteq> sr_bottom (g_region (active s)) \<and> crow s + 1 < g_rows (active s) then crow s + 1 else crow s)"
proof -
  let ?m = "on_active (\<lambda>g. grid_set_wrapped g (cur_row (g_cursor g)) True) s"
  have "strand_if_diverged ?m = ?m"
    using assms by (simp add: strand_if_diverged_def needs_strand_def)
  then show ?thesis
    by (simp add: wrap_now_def linefeed_def wrapped_screen_def Let_def frame_simps fun_eq_iff active_row_def
        active_abs_index_def active_base_def clear_pending_def set_col_def set_row_def)
qed

lemma put_glyph_lands:
  assumes "term_inv t" "w = 1 \<or> w = 2" "ccol t + w \<le> g_cols (active t)" "\<not> cur_pending_wrap (g_cursor (active t))"
  shows "after_glyph w (ccol t) (put_glyph x w t)" "crow (put_glyph x w t) = crow t"
    "i < g_rows (active t) \<Longrightarrow> row_cells (active_row (active (put_glyph x w t)) i) =
      (if i = crow t then put_in_row False (ccol t) (glyph (t_template t) x w) (row_cells (active_row (active t) i))
       else row_cells (active_row (active t) i))"
proof -
  note g = term_invD(2,10,11) [OF assms(1)]
  have len: "length (row_cells (active_row (active t) (crow t))) = g_cols (active t)"
    using active_row_length grid_invD(3) [OF g(1)] g(2) by simp
  show "after_glyph w (ccol t) (put_glyph x w t)" "crow (put_glyph x w t) = crow t"
    using assms(2-4) g(2,3) by (auto simp: after_glyph_def put_glyph_grid)
  show "i < g_rows (active t) \<Longrightarrow> row_cells (active_row (active (put_glyph x w t)) i) =
      (if i = crow t then put_in_row False (ccol t) (glyph (t_template t) x w) (row_cells (active_row (active t) i))
       else row_cells (active_row (active t) i))"
    using glyph_cells_row [OF g(1) assms(2,3), of i "t_template t" x] assms(3) len
      glyph_put [OF assms(2), of "ccol t" "row_cells (active_row (active t) i)" "t_template t" x]
    by (auto simp: put_glyph_grid)
qed

text \<open>Room made for the character by insert mode, and the row it then stands in.\<close>

lemma insert_cells_rows:
  assumes "grid_inv g" "i < g_rows g"
  shows "row_cells (active_row (insert_cells g n t) i) =
    (if i = cur_row (g_cursor g)
     then take (cur_col (g_cursor g)) (row_cells (active_row g i)) @
       replicate (min n (g_cols g - cur_col (g_cursor g))) (blank_with t) @
       take (g_cols g - cur_col (g_cursor g) - n) (drop (cur_col (g_cursor g)) (row_cells (active_row g i)))
     else row_cells (active_row g i))"
proof -
  let ?r = "active_row g (cur_row (g_cursor g))" and ?col = "cur_col (g_cursor g)"
  have len: "length (row_cells ?r) = g_cols g" "?col < g_cols g"
    using assms(1) by (simp_all add: active_row_length grid_invD)
  then have "length (row_cells (?r\<lparr>row_cells := take ?col (row_cells ?r) @
      replicate (min n (g_cols g - ?col)) (blank_with t) @
      take (g_cols g - ?col - n) (drop ?col (row_cells ?r))\<rparr>)) = g_cols g"
    by simp
  from active_row_set [OF grid_invD(3) [OF assms(1)] grid_invD(8) [OF assms(1)] assms(2) this]
  show ?thesis unfolding insert_cells_row [OF assms(1)] by simp
qed

lemma insert_put:
  assumes "length new = n" "col + n \<le> length cells"
  shows "put_in_row False col new (take col cells @ replicate n b @ take (length cells - col - n) (drop col cells)) =
    put_in_row True col new cells"
  using assms by (simp add: put_in_row_def min_absorb1)

lemma wrap_now_col [simp]: "ccol (wrap_now t) = 0"
  by (simp add: wrap_now_def set_col_def)

lemma wrap_now_pending [simp]: "\<not> cur_pending_wrap (g_cursor (active (wrap_now t)))"
  by (simp add: wrap_now_def linefeed_def set_col_def clear_pending_def Let_def)

lemma resolve_wrap_pending:
  "flag_contains (t_modes t) M_AUTO_WRAP \<Longrightarrow> \<not> cur_pending_wrap (g_cursor (active (resolve_wrap t)))"
  by (simp add: resolve_wrap_def clear_pending_def)

lemma insert_cells_cursor [simp]: "g_cursor (insert_cells g n t) = g_cursor g"
  by (simp add: frame_simps)

text \<open>
  C10. With autowrap on, where a character of width one or two lands, and that it touches nothing
  else. Let the pull of a settled repaint be stranded first. If no wrap is pending and the character
  fits right of the cursor, it lands in the row and column of the cursor; otherwise at the first
  column of the next row, which is the same row, scrolled up by one, when the cursor is on the last
  row of the region, and the same row too on the last row of a screen below the region. In that row
  its one cell, or its cell and the spacer, replace the cells there, and in insert mode push them
  right, off the edge; every other cell of every row stays what it was. The cursor stands right of
  the character, or at the margin with the wrap pending.
\<close>

theorem write_char_lands:
  assumes "term_inv t" "cwidth x = Some w" "w = 1 \<or> w = 2" "w \<le> g_cols (active t)"
    and "flag_contains (t_modes t) M_AUTO_WRAP"
  shows "let s = strand_if_diverged t; v = write_char cwidth t x;
      wraps = (cur_pending_wrap (g_cursor (active s)) \<or> g_cols (active s) < ccol s + w);
      g = (if wraps then wrapped_screen s else active s);
      col = (if wraps then 0 else ccol s)
    in crow v = (if wraps \<and> crow s \<noteq> sr_bottom (g_region (active s)) \<and> crow s + 1 < g_rows (active s)
                 then crow s + 1 else crow s) \<and>
      (\<forall>i<g_rows (active t). row_cells (active_row (active v) i) =
        (if i = crow v
         then put_in_row (flag_contains (t_modes t) M_INSERT) col (glyph (t_template t) x w) (row_cells (active_row g i))
         else row_cells (active_row g i))) \<and>
      after_glyph w col v"
proof -
  define s where "s = strand_if_diverged t"
  define wraps where "wraps \<longleftrightarrow> cur_pending_wrap (g_cursor (active s)) \<or> g_cols (active s) < ccol s + w"
  define t1 where "t1 = resolve_wrap s"
  define t2 where "t2 = (if w = 2 \<and> g_cols (active t1) \<le> ccol t1 + 1 then wrap_now t1 else t1)"
  define t3 where "t3 = (if flag_contains (t_modes t2) M_INSERT
    then on_active (\<lambda>g. insert_cells g w (t_template t2)) t2 else t2)"
  have s0: "term_step t s" unfolding s_def by (rule strand_if_diverged_step [OF assms(1)])
  have s1: "term_step t t1" unfolding t1_def by (rule term_step_trans [OF s0 resolve_wrap_step [OF term_stepD(1) [OF s0]]])
  have s2: "term_step t t2"
    using s1 term_step_trans [OF s1 wrap_now_step [OF term_stepD(1) [OF s1]]] by (simp add: t2_def)
  have "term_step t (on_active (\<lambda>g. insert_cells g w (t_template t2)) t2)"
    by (rule term_step_active [OF s2]) (rule edit_steps(2) [OF term_invD(2) [OF term_stepD(1) [OF s2]]])
  then have s3: "term_step t t3" using s2 by (simp add: t3_def)
  note i2 = term_invD(2,10,11) [OF term_stepD(1) [OF s2]] and i3 = term_stepD(1) [OF s3]
  note dim = term_stepD(2,3) [OF s0] term_stepD(2,3) [OF s1] term_stepD(2,3) [OF s2] term_stepD(2,3) [OF s3]
  have m: "t_modes s = t_modes t" "t_modes t2 = t_modes t" "t_template t2 = t_template t" "t_template t3 = t_template t"
    by (simp_all add: s_def t1_def t2_def t3_def)
  have v: "write_char cwidth t x = touch (put_glyph x w t3)"
    using assms(3,5) m dim by (auto simp: write_char_def assms(2) Let_def t3_def t2_def t1_def s_def)
  have "t2 = s \<and> \<not> cur_pending_wrap (g_cursor (active s)) \<and> \<not> wraps \<or> wraps \<and> t2 \<in> {wrap_now s, on_active clear_pending (wrap_now s)}"
    using assms(3-5) m dim term_invD(11) [OF term_stepD(1) [OF s0]] wrap_now_col [of s]
    by (auto simp: clear_pending_def t2_def t1_def resolve_wrap_def wraps_def)
  then have t2: "active_row (active t2) = active_row (if wraps then wrapped_screen s else active s)"
      "ccol t2 = (if wraps then 0 else ccol s)" "\<not> cur_pending_wrap (g_cursor (active t2))"
      "crow t2 = (if wraps \<and> crow s \<noteq> sr_bottom (g_region (active s)) \<and> crow s + 1 < g_rows (active s)
                  then crow s + 1 else crow s)"
    using wrap_now_screen [OF stranded_settled, of t] wrap_now_col [of s] wrap_now_pending [of s]
    unfolding s_def [symmetric]
    by (auto simp: clear_pending_def active_row_def active_abs_index_def active_base_def fun_eq_iff)
  have fits: "ccol t2 + w \<le> g_cols (active t2)"
    using assms(3,4) dim i2(3) t2(2) by (auto simp: wraps_def)
  have cur: "g_cursor (active t3) = g_cursor (active t2)" by (simp add: t3_def frame_simps)
  have f3: "ccol t3 + w \<le> g_cols (active t3)" "\<not> cur_pending_wrap (g_cursor (active t3))"
    using fits t2(3) dim by (simp_all add: cur)
  note p = put_glyph_lands [where x = x, OF i3 assms(3) f3, unfolded cur m(4)]
  have rows: "row_cells (active_row (active (put_glyph x w t3)) i) =
      (if i = crow t2 then put_in_row (flag_contains (t_modes t) M_INSERT) (ccol t2) (glyph (t_template t) x w)
         (row_cells (active_row (active t2) i)) else row_cells (active_row (active t2) i))"
    if i: "i < g_rows (active t)" for i
  proof -
    have len: "length (row_cells (active_row (active t2) i)) = g_cols (active t2)"
      using i dim by (intro active_row_length [OF grid_invD(3) [OF i2(1)]]) simp
    have mw: "min w (g_cols (active t2) - ccol t2) = w" using fits by simp
    have "row_cells (active_row (active t3) i) = (if i = crow t2 \<and> flag_contains (t_modes t) M_INSERT
        then take (ccol t2) (row_cells (active_row (active t2) i)) @ replicate w (blank_with (t_template t)) @
          take (g_cols (active t2) - ccol t2 - w) (drop (ccol t2) (row_cells (active_row (active t2) i)))
        else row_cells (active_row (active t2) i))"
      using insert_cells_rows [OF i2(1), of i w "t_template t", unfolded mw] i dim m by (auto simp: t3_def)
    then show ?thesis using p(3) [where i = i] i dim fits
        insert_put [OF length_glyph [OF assms(3)], of "ccol t2" "row_cells (active_row (active t2) i)" "t_template t" x
          "blank_with (t_template t)", unfolded len]
      by (auto simp: dim)
  qed
  have "after_glyph w (ccol t2) (touch (put_glyph x w t3)) \<and> crow (touch (put_glyph x w t3)) = crow t2"
    using p(1,2) by (simp add: after_glyph_def)
  then show ?thesis
    unfolding Let_def s_def [symmetric] wraps_def [symmetric] v
    using rows t2(1,2,4) by simp
qed

text \<open>A new terminal, with every character as wide as its code point says.\<close>

lemma term_new_facts:
  "term_inv (term_new 4 2 3)" "g_cols (active (term_new 4 2 3)) = 4" "g_rows (active (term_new 4 2 3)) = 2"
  "flag_contains (t_modes (term_new 4 2 3)) M_AUTO_WRAP" "t_alt (term_new 4 2 3) = None"
  by (simp_all add: term_inv_new) (simp_all add: term_new_def active_def grid_new_def initial_modes_def flag_contains_def m_defs)

theorem write_char_lands_witness:
  "crow (write_char (\<lambda>_. Some 2) (term_new 4 2 3) 0x4e16) = 0 \<and>
   ccol (write_char (\<lambda>_. Some 2) (term_new 4 2 3) 0x4e16) = 2 \<and>
   row_cells (active_row (active (write_char (\<lambda>_. Some 2) (term_new 4 2 3) 0x4e16)) 0) =
     put_in_row False 0 (glyph default_cell 0x4e16 2) (row_cells (active_row (active (term_new 4 2 3)) 0))"
proof -
  let ?t = "term_new 4 2 3"
  have f: "strand_if_diverged ?t = ?t" "g_cursor (active ?t) = \<lparr>cur_row = 0, cur_col = 0, cur_pending_wrap = False\<rparr>"
    "t_template ?t = default_cell" "\<not> flag_contains (t_modes ?t) M_INSERT"
    by (simp_all add: strand_if_diverged_def needs_strand_def term_new_def active_def grid_new_def initial_modes_def default_cursor_def
        flag_contains_def m_defs)
  have "term_step ?t (write_char (\<lambda>_. Some 2) ?t 0x4e16)" by (rule write_char_step [OF term_new_facts(1)])
  from term_stepD(2,3) [OF this] show ?thesis
    using write_char_lands [where cwidth = "\<lambda>_. Some 2" and x = "0x4e16" and w = "2", OF term_new_facts(1)] f term_new_facts
    by (auto simp: after_glyph_def Let_def)
qed

section \<open>Character attributes\<close>

text \<open>
  C13. The ways to spell a colour agree: with colons or with semicolons, and with a colour space
  between the kind and the components or without one, a character-attribute sequence sets the same
  24-bit or indexed colour of the same layer, and what follows it is read the same.
\<close>

theorem sgr_color_spellings:
  "sgr_loop ([38, 2, r, g, b] # ps) c = sgr_loop ([38] # [2] # [r] # [g] # [b] # ps) c \<and>
   sgr_loop ([38, 2, cs, r, g, b] # ps) c = sgr_loop ([38, 2, r, g, b] # ps) c \<and>
   sgr_loop ([48, 2, r, g, b] # ps) c = sgr_loop ([48] # [2] # [r] # [g] # [b] # ps) c \<and>
   sgr_loop ([48, 2, cs, r, g, b] # ps) c = sgr_loop ([48, 2, r, g, b] # ps) c \<and>
   sgr_loop ([38, 5, i] # ps) c = sgr_loop ([38] # [5] # [i] # ps) c \<and>
   sgr_loop ([48, 5, i] # ps) c = sgr_loop ([48] # [5] # [i] # ps) c \<and>
   sgr_loop ([38, 2, r, g, b] # ps) c = sgr_loop ps (c\<lparr>cell_fg := Rgb (as_byte r) (as_byte g) (as_byte b)\<rparr>) \<and>
   sgr_loop ([48, 5, i] # ps) c = sgr_loop ps (c\<lparr>cell_bg := Indexed (as_byte i)\<rparr>)"
  by (simp add: sgr_step_def parse_extended_color_def next_param_def first_of_def)

section \<open>The Kitty stacks\<close>

text \<open>
  A program that pushes keyboard flags and pops them leaves the stack and the mode word as it
  found them, unless the stack was full; in between, the flags in force are the supported part of
  those it pushed.
\<close>

theorem kitty_push_pop:
  assumes "term_inv t" "length (kitty_stack t) < KITTY_STACK_DEPTH"
  shows "kitty_flags_of (t_modes (kitty_push t f)) = f AND KITTY_SUPPORTED \<and>
    kitty_stack (kitty_pop (kitty_push t f) 1) = kitty_stack t \<and>
    t_modes (kitty_pop (kitty_push t f) 1) AND modes_all = t_modes t AND modes_all"
proof -
  have s: "kitty_stack (sync_kitty_modes u) = kitty_stack u" for u
    by (auto simp: sync_kitty_modes_def kitty_stack_def touch_def Let_def)
  have k: "kitty_stack (set_kitty_stack ks u) = ks" "t_modes (set_kitty_stack ks u) = t_modes u" for ks u
    by (auto simp: set_kitty_stack_def kitty_stack_def)
  have p: "kitty_stack (kitty_push t f) = kitty_stack t @ [f AND KITTY_SUPPORTED]"
    using assms(2) by (simp add: kitty_push_def Let_def s k)
  have m: "t_modes (sync_kitty_modes u) =
      with_kitty_flags (t_modes u) (case last_of (kitty_stack u) of None \<Rightarrow> 0 | Some x \<Rightarrow> x)" for u
    by (simp add: sync_kitty_modes_def touch_def Let_def)
  have q: "kitty_stack (kitty_pop (kitty_push t f) 1) = kitty_stack t"
    by (simp add: kitty_pop_def Let_def s k p)
  have "t_modes (kitty_push t f) = with_kitty_flags (t_modes t) (f AND KITTY_SUPPORTED)"
    using assms(2) by (simp add: kitty_push_def Let_def m k)
  moreover have "t_modes (kitty_pop (kitty_push t f) 1) =
      with_kitty_flags (t_modes (kitty_push t f)) (kitty_flags_of (t_modes t))"
    using assms(1) by (simp add: kitty_pop_def Let_def m k p term_inv_def modes_ok_def)
  ultimately have "t_modes (kitty_pop (kitty_push t f) 1) AND modes_all = t_modes t AND modes_all"
    by (intro bit_eqI) (auto simp: with_kitty_flags_idem bit_and_iff bit_modes_all bit_with_kitty_flags bit_kitty_flags_of)
  moreover have "kitty_flags_of (t_modes (kitty_push t f)) = f AND KITTY_SUPPORTED"
    using assms(2) by (simp add: kitty_push_def Let_def m k kitty_flags_roundtrip and.assoc)
  ultimately show ?thesis using q by simp
qed

theorem kitty_push_pop_witness:
  "kitty_stack (kitty_pop (kitty_push (term_new 4 2 3) 5) 1) = kitty_stack (term_new 4 2 3)"
proof -
  have "length (kitty_stack (term_new 4 2 3)) < KITTY_STACK_DEPTH"
    by (simp add: term_new_def kitty_stack_def KITTY_STACK_DEPTH_def)
  from kitty_push_pop [OF term_new_facts(1) this, of 5] show ?thesis by simp
qed

end
