(* ===== verification/AltSpec.thy ===== *)
theory AltSpec
  imports PerformInv
begin

text \<open>
  What a program that runs on the alternate screen can do to the primary one: nothing, short of
  leaving it.
\<close>

named_theorems behind_simps \<open>operations that leave the primary grid alone while the alternate screen shows\<close>

lemma behind_on_active [behind_simps]:
  "(t_alt (on_active f t) = None) = (t_alt t = None)"
  "t_alt t \<noteq> None \<Longrightarrow> t_grid (on_active f t) = t_grid t"
  by (auto simp: on_active_def split: option.splits)

lemma behind_marks [behind_simps]:
  "t_alt (touch t) = t_alt t" "t_alt (touch_full t) = t_alt t" "t_alt (push_event e t) = t_alt t"
  "t_grid (touch t) = t_grid t" "t_grid (touch_full t) = t_grid t" "t_grid (push_event e t) = t_grid t"
  "t_alt (reply bs t) = t_alt t" "t_grid (reply bs t) = t_grid t"
  "t_alt (raise_attention k t) = t_alt t" "t_grid (raise_attention k t) = t_grid t"
  "t_alt (set_mode m b t) = t_alt t" "t_grid (set_mode m b t) = t_grid t"
  by (simp_all add: touch_def touch_full_def push_event_def reply_def raise_attention_def set_mode_def)

lemma behind_strand [behind_simps]:
  "(t_alt (strand_if_diverged t) = None) = (t_alt t = None)"
  "t_alt t \<noteq> None \<Longrightarrow> t_grid (strand_if_diverged t) = t_grid t"
  by (simp_all add: strand_if_diverged_def split_beta Let_def behind_simps)

lemma behind_linefeed [behind_simps]:
  "(t_alt (evict_blocks t) = None) = (t_alt t = None)" "t_grid (evict_blocks t) = t_grid t"
  "(t_alt (linefeed t) = None) = (t_alt t = None)"
  "t_alt t \<noteq> None \<Longrightarrow> t_grid (linefeed t) = t_grid t"
  by (simp_all add: evict_blocks_def linefeed_def Let_def behind_simps)

lemma behind_wrap [behind_simps]:
  "(t_alt (wrap_now t) = None) = (t_alt t = None)" "t_alt t \<noteq> None \<Longrightarrow> t_grid (wrap_now t) = t_grid t"
  "(t_alt (put_glyph x w t) = None) = (t_alt t = None)" "t_alt t \<noteq> None \<Longrightarrow> t_grid (put_glyph x w t) = t_grid t"
  by (simp_all add: wrap_now_def put_glyph_def Let_def behind_simps)

lemma behind_resolve [behind_simps]:
  "(t_alt (resolve_wrap t) = None) = (t_alt t = None)" "t_alt t \<noteq> None \<Longrightarrow> t_grid (resolve_wrap t) = t_grid t"
  by (simp_all add: resolve_wrap_def behind_simps)

lemma behind_write [behind_simps]:
  "(t_alt (write_char cwidth t x) = None) = (t_alt t = None)"
  "t_alt t \<noteq> None \<Longrightarrow> t_grid (write_char cwidth t x) = t_grid t"
  by (simp_all add: write_char_def Let_def behind_simps)

lemma behind_moves [behind_simps]:
  "(t_alt (carriage_return t) = None) = (t_alt t = None)" "t_alt t \<noteq> None \<Longrightarrow> t_grid (carriage_return t) = t_grid t"
  "(t_alt (backspace t) = None) = (t_alt t = None)" "t_alt t \<noteq> None \<Longrightarrow> t_grid (backspace t) = t_grid t"
  "(t_alt (tab t n) = None) = (t_alt t = None)" "t_alt t \<noteq> None \<Longrightarrow> t_grid (tab t n) = t_grid t"
  "(t_alt (back_tab t n) = None) = (t_alt t = None)" "t_alt t \<noteq> None \<Longrightarrow> t_grid (back_tab t n) = t_grid t"
  "(t_alt (goto t r c) = None) = (t_alt t = None)" "t_alt t \<noteq> None \<Longrightarrow> t_grid (goto t r c) = t_grid t"
  "(t_alt (goto_absolute t r c) = None) = (t_alt t = None)" "t_alt t \<noteq> None \<Longrightarrow> t_grid (goto_absolute t r c) = t_grid t"
  "(t_alt (move_up t n) = None) = (t_alt t = None)" "t_alt t \<noteq> None \<Longrightarrow> t_grid (move_up t n) = t_grid t"
  "(t_alt (move_down t n) = None) = (t_alt t = None)" "t_alt t \<noteq> None \<Longrightarrow> t_grid (move_down t n) = t_grid t"
  "(t_alt (move_left t n) = None) = (t_alt t = None)" "t_alt t \<noteq> None \<Longrightarrow> t_grid (move_left t n) = t_grid t"
  "(t_alt (move_right t n) = None) = (t_alt t = None)" "t_alt t \<noteq> None \<Longrightarrow> t_grid (move_right t n) = t_grid t"
  "(t_alt (reverse_index t) = None) = (t_alt t = None)" "t_alt t \<noteq> None \<Longrightarrow> t_grid (reverse_index t) = t_grid t"
  by (simp_all add: carriage_return_def backspace_def tab_def back_tab_def goto_def goto_absolute_def move_up_def
      move_down_def move_left_def move_right_def reverse_index_def Let_def behind_simps)

lemma behind_cursor [behind_simps]:
  "(t_alt (save_cursor t) = None) = (t_alt t = None)" "t_grid (save_cursor t) = t_grid t"
  "(t_alt (restore_cursor t) = None) = (t_alt t = None)" "t_alt t \<noteq> None \<Longrightarrow> t_grid (restore_cursor t) = t_grid t"
  "(t_alt (sync_kitty_modes t) = None) = (t_alt t = None)" "t_grid (sync_kitty_modes t) = t_grid t"
  "(t_alt (set_kitty_stack s t) = None) = (t_alt t = None)" "t_grid (set_kitty_stack s t) = t_grid t"
  by (simp_all add: save_cursor_def restore_cursor_def sync_kitty_modes_def set_kitty_stack_def Let_def behind_simps)

lemma behind_erase [behind_simps]:
  "(t_alt (erase_in_line t n) = None) = (t_alt t = None)" "t_alt t \<noteq> None \<Longrightarrow> t_grid (erase_in_line t n) = t_grid t"
  "(t_alt (erase_chars t n) = None) = (t_alt t = None)" "t_alt t \<noteq> None \<Longrightarrow> t_grid (erase_chars t n) = t_grid t"
  "(t_alt (decaln t) = None) = (t_alt t = None)" "t_alt t \<noteq> None \<Longrightarrow> t_grid (decaln t) = t_grid t"
  "(t_alt (forget_screen t) = None) = (t_alt t = None)" "t_alt t \<noteq> None \<Longrightarrow> t_grid (forget_screen t) = t_grid t"
  by (simp_all add: erase_in_line_def erase_chars_def decaln_def forget_screen_def Let_def behind_simps split: option.splits)

lemma behind_kitty [behind_simps]:
  "(t_alt (kitty_push t f) = None) = (t_alt t = None)" "t_grid (kitty_push t f) = t_grid t"
  "(t_alt (kitty_pop t n) = None) = (t_alt t = None)" "t_grid (kitty_pop t n) = t_grid t"
  "(t_alt (kitty_set t f mode) = None) = (t_alt t = None)" "t_grid (kitty_set t f mode) = t_grid t"
  "t_alt (apply_sgr t ps) = t_alt t" "t_grid (apply_sgr t ps) = t_grid t"
  by (simp_all add: kitty_push_def kitty_pop_def kitty_set_def apply_sgr_def Let_def behind_simps)

section \<open>The dispatch\<close>

lemma behind_csi [behind_simps]:
  "t_alt t \<noteq> None \<Longrightarrow> t_grid (csi_move t ps c) = t_grid t"
  "t_alt t \<noteq> None \<Longrightarrow> t_grid (csi_cursor_style t n) = t_grid t"
  "t_alt t \<noteq> None \<Longrightarrow> t_grid (csi_scroll_region t ps) = t_grid t"
  "t_grid (csi_clear_tabs t n) = t_grid t"
  "t_grid (csi_kitty t ps i) = t_grid t"
  by (simp_all add: csi_move_def cursor_position_def csi_cursor_style_def csi_scroll_region_def csi_clear_tabs_def
      set_tab_def csi_kitty_def Let_def behind_simps)

lemma behind_report: "csi_report t n = Some u \<Longrightarrow> t_grid u = t_grid t"
  by (auto simp: csi_report_def Let_def behind_simps split: if_splits)

lemma behind_history:
  assumes "grid_inv (t_grid t)" "t_alt t \<noteq> None"
  shows "screen (t_grid (csi_edit t ps c)) = screen (t_grid t)"
proof -
  have h: "screen (clear_history (t_grid t)) = screen (t_grid t)"
    using clear_history_lines [OF assms(1)] by (simp add: screen_def)
  have e: "screen (t_grid (erase_in_display t n)) = screen (t_grid t)" for n
    using assms(2) by (simp add: erase_in_display_def forget_history_def Let_def behind_simps h)
  show ?thesis using assms(2) by (simp add: csi_edit_def e behind_simps)
qed

text \<open>The private modes that leave the alternate screen, and the sequences that reset one of them.\<close>

definition leaves_alt :: "action \<Rightarrow> bool" where
  "leaves_alt a \<longleftrightarrow>
     (case a of Csi ps ims ignored c \<Rightarrow>
        c = ch (CHR ''l'') \<and> list_ex (\<lambda>p. first_of p \<in> {Some 47, Some 1047, Some 1049}) ps | _ \<Rightarrow> False)"

lemma behind_private_mode:
  assumes "t_alt t \<noteq> None" "enable \<or> n \<noteq> 47 \<and> n \<noteq> 1047 \<and> n \<noteq> 1049"
  shows "t_alt (private_mode n enable t) \<noteq> None \<and> t_grid (private_mode n enable t) = t_grid t"
proof -
  have enter: "set_alt_screen u True = u" if "t_alt u \<noteq> None" for u using that by (simp add: set_alt_screen_def)
  have settle: "t_alt (term_settle_restate u) \<noteq> None \<and> t_grid (term_settle_restate u) = t_grid u" if "t_alt u \<noteq> None" for u
    using that by (simp del: not_None_eq add: term_settle_restate_def Let_def behind_simps split_beta)
  show ?thesis
  proof (cases "n = 47 \<or> n = 1047 \<or> n = 1049")
    case True
    then have "enable" using assms(2) by blast
    then show ?thesis using True assms(1) by (auto simp: private_mode_def enter behind_simps simp del: not_None_eq)
  next
    case False
    then have n: "n \<noteq> 47" "n \<noteq> 1047" "n \<noteq> 1049" by simp_all
    have k: "t_alt (if b then u else v) \<noteq> None \<and> t_grid (if b then u else v) = t_grid t"
      if "b \<Longrightarrow> t_alt u \<noteq> None \<and> t_grid u = t_grid t" "\<not> b \<Longrightarrow> t_alt v \<noteq> None \<and> t_grid v = t_grid t" for b u v
      using that by simp
    show ?thesis unfolding private_mode_def Let_def
      by (intro k) (use assms(1) n settle in \<open>simp_all del: not_None_eq add: behind_simps\<close>)
  qed
qed

lemma behind_private_modes:
  assumes "t_alt t \<noteq> None" "enable \<or> \<not> list_ex (\<lambda>p. first_of p \<in> {Some 47, Some 1047, Some 1049}) ps"
  shows "t_grid (set_private_modes t ps enable) = t_grid t"
proof -
  let ?f = "\<lambda>p t. case first_of p of None \<Rightarrow> t | Some mode \<Rightarrow> private_mode mode enable t"
  have "t_alt (fold ?f ps t) \<noteq> None \<and> t_grid (fold ?f ps t) = t_grid t"
    using assms
  proof (induction ps arbitrary: t)
    case (Cons p ps)
    have "t_alt (?f p t) \<noteq> None \<and> t_grid (?f p t) = t_grid t"
      using Cons.prems behind_private_mode by (cases "first_of p") auto
    then show ?case using Cons.IH [of "?f p t"] Cons.prems(2) by auto
  qed simp
  then show ?thesis by (simp add: set_private_modes_def behind_simps)
qed

lemma behind_ansi_modes: "t_grid (set_ansi_modes t ps enable) = t_grid t"
proof -
  let ?f = "\<lambda>p t. if first_of p = Some 4 then set_mode M_INSERT enable t
    else if first_of p = Some 20 then set_mode M_LINE_FEED_NEW_LINE enable t else t"
  have "t_grid (fold ?f ps t) = t_grid t"
    by (induction ps arbitrary: t) (auto simp: behind_simps)
  then show ?thesis by (simp add: set_ansi_modes_def behind_simps)
qed

lemma behind_osc [behind_simps]:
  "t_grid (osc_title t ps) = t_grid t" "t_grid (osc_hyperlink t ps) = t_grid t"
  "t_grid (set_cwd t h p) = t_grid t" "t_grid (osc_cwd t ps) = t_grid t"
  "t_grid (osc_progress t ps) = t_grid t" "t_grid (set_shell_fact t k v) = t_grid t"
  "t_grid (block_prompt_start t) = t_grid t" "t_grid (block_prompt_end t) = t_grid t"
  "t_grid (block_output_start t cmd) = t_grid t" "t_grid (term_block_finish t e) = t_grid t"
  by (simp_all add: osc_title_def osc_hyperlink_def set_cwd_def osc_cwd_def osc_progress_def set_shell_fact_def
      block_prompt_start_def block_prompt_end_def block_output_start_def term_block_finish_def Let_def
      behind_simps split_beta split: option.split prod.split)

lemma behind_osc_markers [behind_simps]: "t_grid (osc_prompt t ps) = t_grid t" "t_grid (osc_vscode t ps) = t_grid t"
  by (simp_all add: osc_prompt_def osc_vscode_def behind_simps split: option.split prod.split)

lemma behind_osc_palette: "pred_option (\<lambda>u. t_grid u = t_grid t) (osc_palette t ps)"
proof (induction ps arbitrary: t rule: induct_list012)
  case (3 p q ps)
  have "pred_option (\<lambda>u. t_grid u = t_grid t) (osc_palette (reply bs t) ps)" for bs
    using 3(1) [of "reply bs t"] by (simp add: behind_simps)
  moreover have "pred_option (\<lambda>u. t_grid u = t_grid t) (osc_palette (touch_full (t\<lparr>t_palette := x\<rparr>)) ps)" for x
    using 3(1) [of "touch_full (t\<lparr>t_palette := x\<rparr>)"] by (simp add: behind_simps)
  ultimately show ?case using 3(1) [of t] by (simp add: Let_def split: option.split)
qed simp_all

lemma behind_osc_dispatch: "pred_option (\<lambda>u. t_grid u = t_grid t) (osc_dispatch t ps)"
proof -
  have "pred_option (\<lambda>u. t_grid u = t_grid t) (osc_dynamic_color t n ps)" for n
    by (simp add: osc_dynamic_color_def Let_def behind_simps split: option.split)
  then show ?thesis
    by (simp add: osc_dispatch_def Let_def behind_simps behind_osc_palette del: One_nat_def split: option.split)
qed

lemma behind_execute: "t_alt t \<noteq> None \<Longrightarrow> t_grid (execute t b) = t_grid t"
  by (simp add: execute_def Let_def behind_simps)

lemma full_reset_leaves: "t_alt (full_reset t) = None"
proof -
  have "t_alt (set_alt_screen t False) = None" for t
    by (simp add: set_alt_screen_def behind_simps Let_def)
  then show ?thesis by (simp add: full_reset_def Let_def behind_simps)
qed

lemma behind_esc:
  assumes "t_alt t \<noteq> None" "t_alt (esc_dispatch t ims b) \<noteq> None"
  shows "t_grid (esc_dispatch t ims b) = t_grid t"
  using assms
  by (simp add: esc_dispatch_def Let_def full_reset_leaves behind_simps set_tab_def split: if_splits)

lemma behind_csi_dispatch:
  assumes "grid_inv (t_grid t)" "t_alt t \<noteq> None" "\<not> leaves_alt (Csi ps ims ignored c)"
  shows "pred_option (\<lambda>u. screen (t_grid u) = screen (t_grid t)) (csi_dispatch t ps ims ignored c)"
proof -
  have r: "pred_option (\<lambda>u. screen (t_grid u) = screen (t_grid t)) (csi_report t n)" for n
    by (simp add: csi_report_def Let_def behind_simps)
  have l: "c = ch (CHR ''l'') \<Longrightarrow> t_grid (set_private_modes t ps False) = t_grid t"
    using behind_private_modes [OF assms(2), of False ps] assms(3) by (simp add: leaves_alt_def)
  show ?thesis
    using assms(2) behind_private_modes [OF assms(2), of True ps] l
    by (simp add: csi_dispatch_def Let_def r behind_history [OF assms(1,2)] behind_ansi_modes behind_simps
        split: option.split del: One_nat_def)
qed

text \<open>
  C11. A full-screen program cannot scribble on what it covers: while the alternate screen shows, no
  callback of the parser changes a row of the primary screen, except one that leaves the alternate
  screen.
\<close>

theorem alt_screen_protects_primary:
  assumes "term_inv t" "in_alt_screen t" "perform cwidth a t = Some u" "in_alt_screen u" "\<not> leaves_alt a"
  shows "screen (t_grid u) = screen (t_grid t)"
proof (cases a)
  case (Csi ps ims ignored c)
  then show ?thesis
    using behind_csi_dispatch [OF term_invD(1) [OF assms(1)], of ps ims ignored c] assms by (simp add: in_alt_screen_def)
next
  case (Osc ps)
  then show ?thesis using behind_osc_dispatch [of t ps] assms(3) by simp
next
  case (Esc ims b)
  then show ?thesis using behind_esc [of t ims b] assms(2-4) by (simp add: in_alt_screen_def)
qed (use assms in \<open>auto simp: in_alt_screen_def behind_execute behind_simps\<close>)

theorem alt_screen_protects_primary_witness:
  "screen (t_grid (erase_in_display (set_alt_screen (term_new 4 2 3) True) 3)) =
    screen (t_grid (set_alt_screen (term_new 4 2 3) True))"
proof -
  let ?t = "set_alt_screen (term_new 4 2 3) True"
  have i: "term_inv ?t" by (rule term_stepD(1) [OF set_alt_screen_step [OF term_inv_new]])
  have a: "in_alt_screen ?t" by (simp add: set_alt_screen_def in_alt_screen_def term_new_def Let_def behind_simps)
  have p: "perform (\<lambda>_. None) (Csi [[3]] [] False (ch (CHR ''J''))) ?t = Some (erase_in_display ?t 3)"
    by (simp add: csi_dispatch_def csi_edit_def arg_def slice_get_def first_of_def ch_def lit_def)
  have b: "in_alt_screen (erase_in_display ?t 3)"
    using a by (simp add: erase_in_display_def forget_history_def in_alt_screen_def Let_def behind_simps)
  show ?thesis by (rule alt_screen_protects_primary [OF i a p b]) (simp add: leaves_alt_def ch_def)
qed

end
