(* ===== verification/OscSpec.thy ===== *)
theory OscSpec
  imports PerformInv
begin

text \<open>
  What the payload parsers give back, and two kinds of output at which the terminal panics.
\<close>

section \<open>Numbers and colours\<close>

lemma from_utf8_bytes:
  assumes "list_all (\<lambda>c. c < 128) s"
  shows "from_utf8 (bytes s) = Some s"
proof -
  have "bytes s = utf8_encode s"
    using assms by (induction s) (simp_all add: bytes_def utf8_encode_def encode_char_def)
  moreover have "list_all is_scalar s" using assms by (auto simp: list_all_iff is_scalar_def)
  ultimately show ?thesis using from_utf8_encode by simp
qed

lemma dec_digits_ascii: "list_all is_ascii_digit (dec_digits n)"
proof (induction n rule: dec_digits.induct)
  case (1 n)
  then show ?case by (cases "n < 10") (simp_all add: dec_digits.simps [of n] is_ascii_digit_def)
qed

lemma dec_digits_ne [simp]: "dec_digits n \<noteq> []"
  by (subst dec_digits.simps) simp

lemma digits_scalar: "list_all is_ascii_digit s \<Longrightarrow> list_all is_scalar s"
  by (auto simp: list_all_iff is_ascii_digit_def is_scalar_def)

text \<open>
  The exit status of a finished command is read back as the shell printed it: every decimal
  number that fits the code's 32-bit integer, whatever follows it, as long as that is no digit.
\<close>

theorem exit_status_roundtrip:
  assumes "n < 2 ^ 31" "list_all is_scalar rest" "\<not> is_ascii_digit (hd (rest @ [59]))"
  shows "parse_exit_status (utf8_encode (dec_digits n @ rest)) = Some (int n)"
proof -
  have "from_utf8 (utf8_encode (dec_digits n @ rest)) = Some (dec_digits n @ rest)"
    using assms(2) digits_scalar [OF dec_digits_ascii, of n] by (intro from_utf8_encode) simp
  moreover have "takeWhile is_ascii_digit (dec_digits n @ rest) = dec_digits n"
    using dec_digits_ascii [of n] assms(3)
    by (cases rest) (auto simp: list_all_iff takeWhile_append2 takeWhile_eq_all_conv)
  moreover have "digits_val 10 (2 ^ 31 - 1) 0 (dec_digits n) = Some n"
    using assms(1) by (intro parse_dec_digits) simp
  ultimately show ?thesis by (simp add: parse_exit_status_def)
qed

theorem exit_status_roundtrip_witness:
  "parse_exit_status (utf8_encode (dec_digits 130 @ lit '';err'')) = Some 130"
  using exit_status_roundtrip [of 130 "lit '';err''"] by (simp add: lit_def is_ascii_digit_def is_scalar_def)

lemma hex_digit_val: "d < 16 \<Longrightarrow> digit_val (hex_digit d) = Some d"
  by (simp add: hex_digit_def digit_val_def)

lemma hex_digit_plain: "d < 16 \<Longrightarrow> hex_digit d < 128 \<and> hex_digit d \<noteq> 47 \<and> hex_digit d \<noteq> 43"
  by (auto simp: hex_digit_def)

lemma hex4_shape: "length (hex4 n) = 4" "list_all (\<lambda>c. c < 128 \<and> c \<noteq> 47 \<and> c \<noteq> 43) (hex4 n)"
  by (simp_all add: hex4_def hex_digit_plain)

lemma digits_val_hex:
  "list_all (\<lambda>d. d < 16) ds \<Longrightarrow> foldl (\<lambda>a d. a * 16 + d) acc ds \<le> bound \<Longrightarrow>
    digits_val 16 bound acc (map hex_digit ds) = Some (foldl (\<lambda>a d. a * 16 + d) acc ds)"
proof (induction ds arbitrary: acc)
  case (Cons d ds)
  have "a \<le> foldl (\<lambda>a d. a * 16 + d) a ds" for a :: nat
  proof (induction ds arbitrary: a)
    case (Cons d ds)
    show ?case using Cons [of "a * 16 + d"] by simp
  qed simp
  from le_trans [OF this [of "acc * 16 + d"]] have "acc * 16 + d \<le> bound" using Cons.prems(2) by simp
  then show ?case using Cons by (simp add: hex_digit_val not_less)
qed simp

lemma hex4_val:
  fixes n :: nat
  assumes "n < 65536"
  shows "foldl (\<lambda>a d. a * 16 + d) 0 [n div 4096 mod 16, n div 256 mod 16, n div 16 mod 16, n mod 16] = n"
proof -
  have "n div 4096 < 16" using assms by (simp add: less_mult_imp_div_less)
  moreover have "n div 4096 = n div 256 div 16" "n div 256 = n div 16 div 16"
    by (simp_all only: div_mult2_eq [symmetric]) simp_all
  ultimately show ?thesis
    using div_mult_mod_eq [of n 16] div_mult_mod_eq [of "n div 16" 16] div_mult_mod_eq [of "n div 256" 16]
    by (simp only: foldl_Cons foldl_Nil mod_less mult_0 add_0)
qed

lemma parse_hex4:
  assumes "n < 65536" "n \<le> bound"
  shows "parse_uint 16 bound (hex4 n) = Some n"
proof -
  have "digits_val 16 bound 0 (hex4 n) = Some n"
    unfolding hex4_def by (subst digits_val_hex) (simp_all only: hex4_val [OF assms(1)] assms(2), simp)
  moreover have "hex4 n \<noteq> []" "hd (hex4 n) \<noteq> 43" by (simp_all add: hex4_def hex_digit_plain)
  ultimately show ?thesis by (cases "hex4 n") (simp_all add: parse_uint_def)
qed

lemma split_on_plain:
  "list_all (\<lambda>c. c \<noteq> sep) s \<Longrightarrow> split_on sep s = [s]"
  "list_all (\<lambda>c. c \<noteq> sep) s \<Longrightarrow> split_on sep (s @ sep # r) = s # split_on sep r"
  by (induction s) simp_all

lemma scale_hex4:
  fixes b :: byte
  shows "scale_component (hex4 (unat b * 257)) = Some b"
proof -
  have lt: "unat b < 256" using unsigned_less [of b] by simp
  have "length (utf8_encode (hex4 (unat b * 257))) = 4"
    using hex4_shape(2) by (simp add: hex4_def utf8_encode_def encode_char_def)
  moreover have "unat b * 257 div 256 = unat b" using lt by simp
  ultimately show ?thesis
    using parse_hex4 [of "unat b * 257" "2 ^ 32 - 1"] lt by (simp add: scale_component_def Let_def)
qed

text \<open>
  A program that asks for a colour and sets it from the answer sets the colour it was told: the
  reply names it in a form \<open>parse_color_spec\<close> reads back exactly.
\<close>

theorem color_reply_roundtrip:
  "\<exists>spec. color_reply prefix c = bytes ([27, 93] @ prefix @ lit '';'' @ spec @ [7]) \<and>
     parse_color_spec spec = Some (Some c)"
proof -
  let ?h = "\<lambda>b. hex4 (unat b * 257)"
  let ?rest = "?h (rgb_r c) @ 47 # ?h (rgb_g c) @ 47 # ?h (rgb_b c)"
  have n: "list_all (\<lambda>c. c \<noteq> 47) (?h b)" for b :: byte
    using hex4_shape(2) [of "unat b * 257"] by (auto simp: list_all_iff)
  have "strip_prefix (lit ''rgb:'') (lit ''rgb:'' @ ?rest) = Some ?rest" by (simp add: strip_prefix_def)
  then have "parse_color_spec (lit ''rgb:'' @ ?rest) = Some (Some c)"
    by (simp add: parse_color_spec_def split_on_plain n scale_hex4 rgb_new_def)
  moreover have "color_reply prefix c = bytes ([27, 93] @ prefix @ lit '';'' @ (lit ''rgb:'' @ ?rest) @ [7])"
    by (simp add: color_reply_def lit_def)
  ultimately show ?thesis by blast
qed

section \<open>Panics\<close>

lemma origin_set: "flag_contains (flag_set m M_ORIGIN b) M_ORIGIN \<longleftrightarrow> b"
  by (rule flag_contains_set) (simp add: m_defs)

text \<open>A colour written with \<open>#\<close> whose slices fall inside a character.\<close>

definition split_hex_spec :: "ustring \<Rightarrow> bool" where
  "split_hex_spec s \<longleftrightarrow> (case strip_prefix (lit ''#'') s of None \<Rightarrow> False
     | Some h \<Rightarrow> length (utf8_encode h) \<in> {3, 6} \<and> \<not> list_all (\<lambda>c. c < 128) h)"

lemma ascii_boundary:
  assumes "list_all (\<lambda>c. c < 128) h" "i \<le> length (utf8_encode h)"
  shows "is_char_boundary (utf8_encode h) i"
proof -
  have "list_all (\<lambda>b. \<not> is_cont (unat b)) (utf8_encode h)"
    using assms(1)
    by (induction h) (simp_all add: utf8_encode_def encode_char_def is_cont_def unat_byte)
  then show ?thesis using assms(2) by (auto simp: is_char_boundary_def list_all_length)
qed

lemma hex_triple_ascii:
  assumes "list_all (\<lambda>c. c < 128) h" "3 * w \<le> length (utf8_encode h)"
  shows "hex_triple (utf8_encode h) w f \<noteq> None"
proof -
  have "hex_at (utf8_encode h) i j \<noteq> None" if "i \<le> j" "j \<le> length (utf8_encode h)" for i j
    using ascii_boundary [OF assms(1), of i] ascii_boundary [OF assms(1), of j] that
    by (simp add: hex_at_def str_slice_def)
  then have "hex_at (utf8_encode h) 0 w \<noteq> None" "hex_at (utf8_encode h) w (2 * w) \<noteq> None"
      "hex_at (utf8_encode h) (2 * w) (3 * w) \<noteq> None"
    using assms(2) by simp_all
  then show ?thesis by (auto simp: hex_triple_def split: option.split)
qed

lemma parse_color_spec_None:
  assumes "parse_color_spec s = None"
  shows "split_hex_spec s"
proof (cases "strip_prefix (lit ''rgb:'') s")
  case None
  then obtain h where h: "strip_prefix (lit ''#'') s = Some h"
    using assms by (cases "strip_prefix (lit ''#'') s") (simp_all add: parse_color_spec_def)
  note ps = assms [unfolded parse_color_spec_def None h option.case Let_def]
  have "length (utf8_encode h) \<in> {3, 6}" using ps by (auto split: if_splits)
  moreover have "\<not> list_all (\<lambda>c. c < 128) h"
    using ps hex_triple_ascii [of h 1 17] hex_triple_ascii [of h 2 1] by (auto split: if_splits)
  ultimately show ?thesis by (simp add: split_hex_spec_def h)
qed (use assms in \<open>auto simp: parse_color_spec_def split: list.splits option.splits\<close>)

abbreviation has_split_spec :: "byte list list \<Rightarrow> bool" where
  "has_split_spec ps \<equiv> list_ex (\<lambda>p. case from_utf8 p of None \<Rightarrow> False | Some s \<Rightarrow> split_hex_spec s) ps"

lemma parse_color_spec_empty [simp]: "parse_color_spec [] = Some None"
  by (simp add: parse_color_spec_def strip_prefix_def lit_def)

lemma osc_palette_fine: "\<not> has_split_spec ps \<Longrightarrow> osc_palette t ps \<noteq> None"
proof (induction ps arbitrary: t rule: induct_list012)
  case (3 p q ps)
  then have "\<And>u. osc_palette u ps \<noteq> None" "\<And>s. from_utf8 q = Some s \<Longrightarrow> parse_color_spec s \<noteq> None"
    using parse_color_spec_None by fastforce+
  then show ?case by (simp add: Let_def split: option.split del: not_None_eq)
qed simp_all

lemma osc_dynamic_color_fine:
  assumes "\<not> has_split_spec ps"
  shows "osc_dynamic_color t n ps \<noteq> None"
proof -
  have "parse_color_spec (osc_str_or_empty ps 1) \<noteq> None"
  proof (cases "osc_str ps 1")
    case (Some s)
    then have p: "1 < length ps" "from_utf8 (ps ! 1) = Some s" by (auto simp: osc_str_def slice_get_def split: if_splits)
    then have "split_hex_spec s \<Longrightarrow> has_split_spec ps"
      unfolding list_ex_iff by (intro bexI [OF _ nth_mem [OF p(1)]]) simp
    then have "\<not> split_hex_spec s" using assms by blast
    then show ?thesis using parse_color_spec_None Some by (auto simp: osc_str_or_empty_def)
  qed (simp add: osc_str_or_empty_def)
  then show ?thesis by (simp add: osc_dynamic_color_def Let_def split: option.split del: not_None_eq)
qed

lemma osc_dispatch_fine:
  assumes "\<not> has_split_spec ps"
  shows "osc_dispatch t ps \<noteq> None"
proof -
  have "\<not> has_split_spec (tl ps)" using assms by (cases ps) simp_all
  then show ?thesis using osc_palette_fine osc_dynamic_color_fine [OF assms]
    by (simp add: osc_dispatch_def Let_def del: not_None_eq One_nat_def split: option.split)
qed

lemma csi_dispatch_fine:
  assumes "csi_dispatch t ps ims ignored c = None"
  shows "\<not> ignored \<and> c = ch (CHR ''n'') \<and> arg ps 0 0 = 6 \<and>
    flag_contains (t_modes t) M_ORIGIN \<and> crow t < sr_top (g_region (active t))"
proof -
  have "\<not> ignored \<and> c = ch (CHR ''n'') \<and> csi_report t (arg ps 0 0) = None"
    using assms by (simp add: csi_dispatch_def Let_def split: if_splits option.splits)
  then show ?thesis by (auto simp: csi_report_def Let_def split: if_splits)
qed

lemma euro_spec_panics:
  "osc_dispatch t [bytes (lit ''11''), utf8_encode (lit ''#'' @ [0x20AC, 0x20AC])] = None"
proof -
  have "from_utf8 (bytes (lit ''11'')) = Some (lit ''11'')" by (rule from_utf8_bytes) (simp add: lit_def)
  moreover have "from_utf8 (utf8_encode (lit ''#'' @ [0x20AC, 0x20AC])) = Some (lit ''#'' @ [0x20AC, 0x20AC])"
    by (rule from_utf8_encode) (simp add: lit_def is_scalar_def)
  moreover have "parse_color_spec (lit ''#'' @ [0x20AC, 0x20AC]) = None"
    by (simp add: parse_color_spec_def strip_prefix_def lit_def utf8_encode_def encode_char_def hex_triple_def
        hex_at_def str_slice_def is_char_boundary_def is_cont_def)
  moreover have "parse_uint 10 65535 (lit ''11'') = Some 11"
    by (simp add: lit_def parse_uint_def digit_val_def)
  ultimately show ?thesis
    by (simp add: osc_dispatch_def first_of_def osc_dynamic_color_def osc_str_or_empty_def osc_str_def slice_get_def
        lit_def)
qed

text \<open>
  Of the two callbacks whose panics are modelled, nothing but these inputs gives \<open>None\<close>: a cursor
  report asked for in origin mode with the cursor above the scroll region, and a colour command
  with a specification of three or six bytes after the number sign that are not all ASCII.
\<close>

lemma perform_None:
  assumes "perform cwidth a t = None"
  shows "(\<exists>ps ims. a = Csi ps ims False (ch (CHR ''n'')) \<and> arg ps 0 0 = 6 \<and>
      flag_contains (t_modes t) M_ORIGIN \<and> crow t < sr_top (g_region (active t))) \<or>
    (\<exists>ps. a = Osc ps \<and> has_split_spec ps)"
proof (cases a)
  case (Osc ps)
  then show ?thesis using assms osc_dispatch_fine [of ps t] by fastforce
qed (use assms csi_dispatch_fine [of t] in auto)

lemma csi_report_restored:
  assumes "t_alt t = None" "sc_origin_mode (t_saved t)"
    and "cur_row (sc_cursor (t_saved t)) < sr_top (g_region (t_grid t))"
  shows "perform cwidth (Csi [[6]] [] False (ch (CHR ''n''))) (restore_cursor t) = None"
proof -
  let ?u = "restore_cursor t"
  have a: "active t = t_grid t" using assms(1) by (simp add: active_def)
  have "flag_contains (t_modes ?u) M_ORIGIN"
    using assms(1,2) by (simp add: restore_cursor_def Let_def origin_set)
  moreover have "crow ?u < sr_top (g_region (active ?u))"
    using assms(1,3) a by (simp add: restore_cursor_def Let_def set_cursor_pos_def)
  ultimately have "csi_report ?u 6 = None" by (simp add: csi_report_def)
  then show ?thesis
    by (simp add: csi_dispatch_def arg_def slice_get_def first_of_def ch_def lit_def)
qed

text \<open>Origin mode on, the cursor saved at the top, and a region set that begins below it.\<close>

definition region_below_saved :: "action list" where
  "region_below_saved =
     [Csi [[6]] [0x3f] False (ch (CHR ''h'')), Esc [] 0x37,
      Csi [[2], [3]] [] False (ch (CHR ''r'')), Esc [] 0x38]"

lemma region_below_saved_runs:
  "perform_all cwidth region_below_saved t =
     Some (restore_cursor (csi_scroll_region (save_cursor (set_private_modes t [[6]] True)) [[2], [3]]))"
  by (simp add: region_below_saved_def csi_dispatch_def esc_dispatch_def first_of_def ch_def lit_def arg_def
      slice_get_def)

lemma region_below_saved_state:
  fixes cols rows limit :: nat
  assumes "3 \<le> rows"
  defines "t \<equiv> csi_scroll_region (save_cursor (set_private_modes (term_new cols rows limit) [[6]] True)) [[2], [3]]"
  shows "t_alt t = None" "sc_origin_mode (t_saved t)" "cur_row (sc_cursor (t_saved t)) < sr_top (g_region (t_grid t))"
proof -
  let ?t = "set_private_modes (term_new cols rows limit) [[6]] True"
  have o: "t_alt ?t = None" "g_cursor (t_grid ?t) = default_cursor" "flag_contains (t_modes ?t) M_ORIGIN"
      "g_rows (t_grid ?t) = rows" "g_settled_pull (t_grid ?t) = 0"
    using assms(1)
    by (simp_all add: set_private_modes_def private_mode_def set_mode_def goto_def strand_if_diverged_def needs_strand_def
        term_new_def active_def on_active_def grid_new_def touch_def set_cursor_pos_def clamp_def region_full_def
        default_cursor_def Let_def origin_set first_of_def)
  have a: "arg [[2], [3]] 0 (Suc 0) = 2" "arg [[2], [3]] (Suc 0) n = 3" for n
    by (simp_all add: arg_def slice_get_def first_of_def)
  have u: "t_alt t = None" "t_saved t = t_saved (save_cursor ?t)" "g_region (t_grid t) = \<lparr>sr_top = 1, sr_bottom = 2\<rparr>"
    using o assms(1) unfolding t_def
    by (simp_all add: csi_scroll_region_def a goto_def strand_if_diverged_def needs_strand_def save_cursor_def
        active_def on_active_def touch_def touch_full_def set_cursor_pos_def Let_def)
  show "t_alt t = None" by (rule u(1))
  show "sc_origin_mode (t_saved t)" unfolding u(2) using o by (simp add: save_cursor_def)
  show "cur_row (sc_cursor (t_saved t)) < sr_top (g_region (t_grid t))"
    unfolding u(2,3) using o by (simp add: save_cursor_def active_def default_cursor_def)
qed

text \<open>
  C12. What a program prints can make the terminal panic. On a new terminal of three rows or more,
  turning origin mode on, saving the cursor, setting a region that begins at the second row and
  restoring the cursor all succeed, and the cursor report asked for next subtracts the top of the
  region from a smaller row (a panic where overflow is checked, a report of row zero in a release
  build). And a colour command panics in every state of the terminal, in every build, when it
  slices a specification inside a character: for the background, a number sign and two euro signs.
\<close>

theorem program_can_panic:
  assumes "3 \<le> rows"
  shows "(\<exists>u. perform_all cwidth region_below_saved (term_new cols rows limit) = Some u \<and>
      perform cwidth (Csi [[6]] [] False (ch (CHR ''n''))) u = None) \<and>
    perform cwidth (Osc [bytes (lit ''11''), utf8_encode (lit ''#'' @ [0x20AC, 0x20AC])]) t = None"
  using csi_report_restored [OF region_below_saved_state [OF assms]]
  by (simp only: region_below_saved_runs perform.simps(5) euro_spec_panics option.inject) blast

theorem program_can_panic_witness:
  "perform (\<lambda>_. None) (Csi [[6]] [] False (ch (CHR ''n'')))
     (the (perform_all (\<lambda>_. None) region_below_saved (term_new 2 3 0))) = None"
  using program_can_panic [of 3 "\<lambda>_. None" 2 0 "term_new 2 3 0"] by auto

end
