(* ===== verification/SelectSpec.thy ===== *)
theory SelectSpec
  imports Search BlocksInv
begin

text \<open>
  What a selection covers, what a search finds, and what the index of command blocks announces.
\<close>

section \<open>Selections\<close>

text \<open>
  C14. A selection covers what its two ends say, whichever of them was put down first: a column of a
  line is in the span exactly when its position lies between the ends in reading order (for a
  selection of characters or words), when its line does (for lines), or when it lies in the rectangle
  they span (for a block).
\<close>

theorem selection_covers:
  assumes "col < cols"
  shows "(case span_on s line cols of None \<Rightarrow> False | Some (frm, to) \<Rightarrow> frm \<le> col \<and> col < to) \<longleftrightarrow>
    (case sel_mode s of
       Line \<Rightarrow> ap_line (min (sel_anchor s) (sel_head s)) \<le> line \<and> line \<le> ap_line (max (sel_anchor s) (sel_head s))
     | Block \<Rightarrow> ap_line (min (sel_anchor s) (sel_head s)) \<le> line \<and> line \<le> ap_line (max (sel_anchor s) (sel_head s)) \<and>
         min (ap_col (sel_anchor s)) (ap_col (sel_head s)) \<le> col \<and> col \<le> max (ap_col (sel_anchor s)) (ap_col (sel_head s))
     | _ \<Rightarrow> min (sel_anchor s) (sel_head s) \<le> AbsPos line col \<and> AbsPos line col \<le> max (sel_anchor s) (sel_head s))"
proof -
  obtain a b where r: "selection_range s = (a, b)" "min (sel_anchor s) (sel_head s) = a"
      "max (sel_anchor s) (sel_head s) = b"
    by (cases "sel_anchor s \<le> sel_head s") (auto simp: selection_range_def min_def max_def)
  show ?thesis unfolding r(2,3) using assms
    by (cases "sel_mode s") (auto simp: span_on_def r(1) less_eq_abs_pos_def abs_pos_le_def Let_def min_def max_def)
qed

theorem selection_covers_witness:
  "(case span_on (selection_new (AbsPos 4 7) Word) 4 80 of None \<Rightarrow> False | Some (frm, to) \<Rightarrow> frm \<le> 7 \<and> 7 < to)"
  using selection_covers [of 7 80 "selection_new (AbsPos 4 7) Word" 4] by (simp add: selection_new_def)

section \<open>Search\<close>

text \<open>
  The starts of the hits: each begins the needle, they do not overlap, and unless the search was cut
  short every place the needle begins is covered by one of them.
\<close>

definition hits_cover ::
  "(uchar \<Rightarrow> uchar list) \<Rightarrow> bool \<Rightarrow> ustring \<Rightarrow> flat list \<Rightarrow> nat \<Rightarrow> nat list \<Rightarrow> bool" where
  "hits_cover lower cs needle line i starts \<longleftrightarrow>
     list_all (\<lambda>j. hit_at lower cs needle line j \<longrightarrow> list_ex (\<lambda>s. s \<le> j \<and> j < s + length needle) starts)
       [i..<Suc (length line) - length needle]"

definition hits_ok ::
  "(uchar \<Rightarrow> uchar list) \<Rightarrow> bool \<Rightarrow> ustring \<Rightarrow> flat list \<Rightarrow> nat \<Rightarrow> nat list \<Rightarrow> bool" where
  "hits_ok lower cs needle line i starts \<longleftrightarrow>
     sorted_wrt (\<lambda>a b. a + length needle \<le> b) starts \<and>
     list_all (\<lambda>s. i \<le> s \<and> s + length needle \<le> length line \<and> hit_at lower cs needle line s) starts"

lemma scan_from_finds:
  assumes "needle \<noteq> []" "length (m_hits found) < limit" "\<not> m_truncated found"
  shows "\<exists>starts. m_hits (scan_from lower cs needle limit line i found) = m_hits found @ map (hit_of needle line) starts \<and>
    hits_ok lower cs needle line i starts \<and>
    (if m_truncated (scan_from lower cs needle limit line i found)
     then length (m_hits (scan_from lower cs needle limit line i found)) = limit
     else hits_cover lower cs needle line i starts)"
  using assms
proof (induction lower cs needle limit line i found rule: scan_from.induct)
  case (1 lower cs needle limit line i found)
  let ?n = "length needle" and ?r = "scan_from lower cs needle limit line"
  have n: "0 < ?n" using 1(3) by simp
  show ?case
  proof (cases "length line < i + ?n")
    case True
    then show ?thesis using 1(5)
      by (intro exI [of _ "[]"]) (simp add: scan_from.simps [of _ _ _ _ _ i] hits_ok_def hits_cover_def)
  next
    case fits: False
    show ?thesis
    proof (cases "hit_at lower cs needle line i")
      case False
      then have eq: "?r i found = ?r (i + 1) found" using fits 1(3) by (simp add: scan_from.simps [of _ _ _ _ _ i])
      obtain starts where s: "m_hits (?r (i + 1) found) = m_hits found @ map (hit_of needle line) starts"
          "hits_ok lower cs needle line (i + 1) starts"
          "if m_truncated (?r (i + 1) found) then length (m_hits (?r (i + 1) found)) = limit
           else hits_cover lower cs needle line (i + 1) starts"
        using 1(1) [OF _ _ 1(3-5)] fits False 1(3) by auto
      have "hits_cover lower cs needle line (i + 1) starts \<Longrightarrow> hits_cover lower cs needle line i starts"
        using False fits by (auto simp: hits_cover_def list_all_iff le_eq_less_or_eq Suc_le_eq)
      moreover have "hits_ok lower cs needle line i starts" using s(2) by (auto simp: hits_ok_def list_all_iff)
      ultimately show ?thesis using s(1,3) unfolding eq by (intro exI [of _ starts]) (simp split: if_splits)
    next
      case hit: True
      define f where "f = found\<lparr>m_hits := m_hits found @ [hit_of needle line i]\<rparr>"
      show ?thesis
      proof (cases "limit \<le> length (m_hits f)")
        case True
        then have "?r i found = f\<lparr>m_truncated := True\<rparr>"
          using fits hit 1(3) by (simp add: scan_from.simps [of _ _ _ _ _ i] f_def Let_def)
        then show ?thesis using fits hit True 1(4)
          by (intro exI [of _ "[i]"]) (simp add: f_def hits_ok_def)
      next
        case False
        then have eq: "?r i found = ?r (i + ?n) f"
          using fits hit 1(3) by (simp add: scan_from.simps [of _ _ _ _ _ i] f_def Let_def)
        obtain starts where s: "m_hits (?r (i + ?n) f) = m_hits f @ map (hit_of needle line) starts"
            "hits_ok lower cs needle line (i + ?n) starts"
            "if m_truncated (?r (i + ?n) f) then length (m_hits (?r (i + ?n) f)) = limit
             else hits_cover lower cs needle line (i + ?n) starts"
          using 1(2) [OF _ _ f_def _ 1(3)] fits hit 1(3,5) False by (auto simp: f_def)
        have "hits_cover lower cs needle line (i + ?n) starts \<Longrightarrow> hits_cover lower cs needle line i (i # starts)"
          by (auto simp: hits_cover_def list_all_iff)
        moreover have "hits_ok lower cs needle line i (i # starts)"
          using s(2) fits hit n by (auto simp: hits_ok_def list_all_iff)
        ultimately show ?thesis using s(1,3) unfolding eq
          by (intro exI [of _ "i # starts"]) (simp add: f_def split: if_splits)
      qed
    qed
  qed
qed

text \<open>
  C15. Within a logical line the search finds everything there is to find: its hits begin the needle,
  run from left to right without overlapping, and every place where the needle begins is covered by
  one of them, unless the limit was reached, and then exactly that many hits are reported.
\<close>

theorem scan_line_complete:
  assumes "needle \<noteq> []" "length (m_hits found) < limit" "\<not> m_truncated found"
  shows "\<exists>starts. m_hits (scan_line lower cs needle limit line found) = m_hits found @ map (hit_of needle line) starts \<and>
    hits_ok lower cs needle line 0 starts \<and>
    (if m_truncated (scan_line lower cs needle limit line found)
     then length (m_hits (scan_line lower cs needle limit line found)) = limit
     else hits_cover lower cs needle line 0 starts)"
proof (cases "length line < length needle")
  case True
  then show ?thesis using assms(3) by (intro exI [of _ "[]"]) (simp add: scan_line_def hits_ok_def hits_cover_def)
next
  case False
  then have "scan_line lower cs needle limit line found = scan_from lower cs needle limit line 0 found"
    by (simp add: scan_line_def)
  then show ?thesis using scan_from_finds [OF assms, of lower cs line 0] by (simp only:)
qed

theorem scan_line_complete_witness:
  "\<exists>starts. m_hits (scan_line (\<lambda>c. [c]) True [97] 5 [(97, AbsPos 0 0, 0), (97, AbsPos 0 1, 1)]
      \<lparr>m_hits = [], m_truncated = False\<rparr>) = map (hit_of [97] [(97, AbsPos 0 0, 0), (97, AbsPos 0 1, 1)]) starts"
  using scan_line_complete [of "[97]" "\<lparr>m_hits = [], m_truncated = False\<rparr>" 5 "\<lambda>c. [c]" True
      "[(97, AbsPos 0 0, 0), (97, AbsPos 0 1, 1)]"] by auto

section \<open>The block index\<close>

text \<open>
  C16. Erasing the screen forgets exactly the blocks that do not end above it.  The announcement that
  goes with it falls to zero, below every block that was ever evicted, when no block is left, and
  does not move otherwise.
\<close>

theorem erase_screen_floor:
  assumes "blocks_ok x"
  shows "bi_blocks (erase_screen x first) =
      filter (\<lambda>b. case b_end_line b of None \<Rightarrow> False | Some e \<Rightarrow> e < first) (bi_blocks x) \<and>
    bi_authoritative_from (erase_screen x first) =
      (if bi_blocks (erase_screen x first) = [] \<and> bi_blocks x \<noteq> [] then 0 else bi_authoritative_from x)"
proof -
  let ?p = "\<lambda>b. case b_end_line b of None \<Rightarrow> False | Some e \<Rightarrow> e < first"
  have "bi_authoritative_from x \<le> b_id (last (filter ?p (bi_blocks x)))" if "filter ?p (bi_blocks x) \<noteq> []"
    using assms last_in_set [OF that] by (auto simp: blocks_ok_def)
  then show ?thesis
    by (auto simp: erase_screen_def Let_def last_of_def min_def split: if_splits)
qed

theorem erase_screen_floor_witness:
  "bi_authoritative_from (erase_screen
      \<lparr>bi_blocks = [new_block 3 7 []], bi_next_id = 4, bi_authoritative_from = 3\<rparr> 0) = 0"
proof -
  have "blocks_ok \<lparr>bi_blocks = [new_block 3 7 []], bi_next_id = 4, bi_authoritative_from = 3\<rparr>"
    by (simp add: blocks_ok_def blocks_sorted_def new_block_def)
  from erase_screen_floor [OF this, of 0] show ?thesis by (simp add: new_block_def)
qed

end
