(* ===== verification/Remote.thy ===== *)
theory Remote
  imports Term
begin

text \<open>
  Writing state computed elsewhere (\<open>RemoteWriter\<close> in \<open>crates/zest-core/src/apply.rs\<close>): a
  replica's grid is written by decoded rows rather than by a byte stream.
\<close>

definition write_row :: "tm \<Rightarrow> nat \<Rightarrow> line_id \<Rightarrow> cell list \<Rightarrow> bool \<Rightarrow> tm" where
  "write_row t row i cells wrapped =
     (if g_rows (active t) \<le> row then t
      else
        touch (on_active (\<lambda>g.
          let r = (active_row g row)\<lparr>row_id := i\<rparr>;
              r = r\<lparr>row_cells := map (\<lambda>k. case slice_get cells k of Some c \<Rightarrow> c | None \<Rightarrow> default_cell)
                     [0..<length (row_cells r)]\<rparr>
          in set_active_row g row (row_set_wrapped r wrapped)) t))"

definition push_marks :: "tm \<Rightarrow> nat \<Rightarrow> nat \<Rightarrow> ustring \<Rightarrow> tm" where
  "push_marks t row col marks =
     (if marks = [] \<or> g_rows (active t) \<le> row then t
      else on_active (\<lambda>g. set_active_row g row (fold (\<lambda>m r. push_zerowidth r col m) marks (active_row g row))) t)"

text \<open>The loop subtractions of the region assume its top is not below its bottom.\<close>

definition remote_scroll :: "tm \<Rightarrow> nat \<Rightarrow> nat \<Rightarrow> int \<Rightarrow> tm" where
  "remote_scroll t tp bottom lines =
     (if lines = 0 \<or> bottom < tp then t
      else
        let rows = g_rows (active t); full = (tp = 0 \<and> rows \<le> bottom + 1); template = t_template t
        in touch_full (on_active (\<lambda>g.
             let saved = g_region g;
                 g = (if \<not> full then g\<lparr>g_region := \<lparr>sr_top = tp, sr_bottom = min bottom (rows - 1)\<rparr>\<rparr> else g);
                 g = (if 0 < lines then scroll_up g (nat lines) template
                      else scroll_down g (nat (- lines)) template)
             in if \<not> full then g\<lparr>g_region := saved\<rparr> else g) t))"

definition remote_erase :: "tm \<Rightarrow> nat \<Rightarrow> nat \<Rightarrow> nat \<Rightarrow> nat \<Rightarrow> cell \<Rightarrow> tm" where
  "remote_erase t tp left bottom right template =
     (let rows = g_rows (active t); cols = g_cols (active t)
      in if bottom < tp \<or> right < left \<or> rows \<le> tp \<or> cols \<le> left then t
         else touch (on_active (\<lambda>g.
           fold (\<lambda>row g. erase_in_row g row left (min right (cols - 1)) template)
             [tp..<Suc (min bottom (rows - 1))] g) t))"

definition prepend_history :: "tm \<Rightarrow> (line_id \<times> cell list \<times> bool) list \<Rightarrow> tm" where
  "prepend_history t rows =
     (if rows = [] then t else touch_full (on_active (\<lambda>g. push_history g rows) t))"

definition drop_history :: "tm \<Rightarrow> line_id list \<Rightarrow> tm" where
  "drop_history t named =
     (case drop_scrollback_rows (active t) named of
        (g, removed) \<Rightarrow>
          let t = on_active (\<lambda>_. g) t in if 0 < removed then touch_full t else t)"

definition bank_displaced :: "tm \<Rightarrow> nat \<Rightarrow> tm" where
  "bank_displaced t n =
     (if n = 0 then t else touch_full (on_active (\<lambda>g. bank_viewport_top g n (t_template t)) t))"

definition remote_clear_history :: "tm \<Rightarrow> tm" where
  "remote_clear_history t = touch_full (t\<lparr>t_grid := clear_history (t_grid t)\<rparr>)"

definition sync_next_line_id :: "tm \<Rightarrow> line_id \<Rightarrow> tm" where
  "sync_next_line_id t i = on_active (\<lambda>g. set_next_line_id g i) t"

definition remote_set_cursor :: "tm \<Rightarrow> nat \<Rightarrow> nat \<Rightarrow> tm" where
  "remote_set_cursor t row col =
     touch (on_active (\<lambda>g. set_row (min row (g_rows g - 1)) (set_col (min col (g_cols g - 1)) g)) t)"

definition remote_set_cursor_style :: "tm \<Rightarrow> cursor_style \<Rightarrow> tm" where
  "remote_set_cursor_style t style = touch (t\<lparr>t_cursor_style := style\<rparr>)"

definition remote_set_title :: "tm \<Rightarrow> ustring \<Rightarrow> tm" where
  "remote_set_title t s = touch (t\<lparr>t_title := s\<rparr>)"

definition remote_set_progress :: "tm \<Rightarrow> progress \<Rightarrow> tm" where
  "remote_set_progress t p = t\<lparr>t_progress := p\<rparr>"

definition remote_set_modes :: "tm \<Rightarrow> modes \<Rightarrow> tm" where
  "remote_set_modes t m =
     (let want_alt = flag_contains m M_ALT_SCREEN;
          t = (if want_alt \<noteq> flag_contains (t_modes t) M_ALT_SCREEN then set_alt_screen t want_alt else t)
      in touch (t\<lparr>t_modes := m\<rparr>))"

definition remote_resize :: "tm \<Rightarrow> nat \<Rightarrow> nat \<Rightarrow> tm" where
  "remote_resize t cols rows = term_resize (term_set_restated t True) cols rows"

definition upsert_block :: "tm \<Rightarrow> block \<Rightarrow> tm" where
  "upsert_block t b = touch (t\<lparr>t_blocks := upsert (t_blocks t) b\<rparr>)"

definition drop_blocks_from :: "tm \<Rightarrow> block_id \<Rightarrow> tm" where
  "drop_blocks_from t first = touch (t\<lparr>t_blocks := retain_below (t_blocks t) first\<rparr>)"

definition set_seq :: "tm \<Rightarrow> nat \<Rightarrow> tm" where
  "set_seq t s = t\<lparr>t_seq := s\<rparr>"

end
