(* ===== verification/Subscribe.thy ===== *)
theory Subscribe
  imports Term
begin

text \<open>
  Deciding what a subscriber is sent (\<open>crates/zest-core/src/subscribe.rs\<close>).
\<close>

datatype update = Idle | Delta nat nat | Keyframe nat

definition KEYFRAME_THRESHOLD :: nat where
  "KEYFRAME_THRESHOLD = 256"

definition update_for :: "nat \<Rightarrow> nat \<Rightarrow> update" where
  "update_for current_seq acked =
     (if current_seq \<le> acked then Idle
      else if KEYFRAME_THRESHOLD < current_seq - acked then Keyframe current_seq
      else Delta acked current_seq)"

section \<open>The terminal as a source of changes\<close>

definition source_seq :: "tm \<Rightarrow> nat" where
  "source_seq t = t_seq t"

definition source_update_for :: "tm \<Rightarrow> nat \<Rightarrow> update" where
  "source_update_for t acked = update_for (t_seq t) acked"

definition source_oldest_line :: "tm \<Rightarrow> line_id" where
  "source_oldest_line t = oldest_line_id (active t)"

text \<open>What an answer says of the two sequence numbers; one that is ahead of the terminal gets none.\<close>

lemma update_for_iff:
  "update_for n a = Idle \<longleftrightarrow> n \<le> a"
  "update_for n a = Delta frm to \<longleftrightarrow> a < n \<and> n - a \<le> KEYFRAME_THRESHOLD \<and> frm = a \<and> to = n"
  "update_for n a = Keyframe at' \<longleftrightarrow> KEYFRAME_THRESHOLD < n - a \<and> at' = n"
  by (auto simp: update_for_def)

end
