(* ===== verification/Wire.thy ===== *)
theory Wire
  imports Remote
begin

text \<open>
  The grid on the wire (\<open>crates/zest-proto/src/delta.rs\<close>, \<open>hex.rs\<close>, \<open>auth.rs\<close>): rows as runs of
  cells sharing one interned attribute, the operations of a delta, and the wire form of a command
  block.  The derived serialisers are not modelled.  Line ids travel as \<open>i64\<close>, here \<open>int\<close>; the
  16-bit counts of the wire are \<open>nat\<close> with the saturation the code writes.
\<close>

section \<open>Bounded integers\<close>

definition I64_MAX :: int where "I64_MAX = 2 ^ 63 - 1"

definition I64_MIN :: int where "I64_MIN = - (2 ^ 63)"

definition U16_MAX :: nat where "U16_MAX = 65535"

text \<open>\<open>i64::try_from(l).unwrap_or(i64::MAX)\<close> and \<open>u64::try_from(l).unwrap_or(0)\<close>.\<close>

definition to_i64 :: "nat \<Rightarrow> int" where
  "to_i64 n = (if int n \<le> I64_MAX then int n else I64_MAX)"

definition wire_line_id :: "int \<Rightarrow> line_id" where
  "wire_line_id l = (if l < 0 then 0 else nat l)"

text \<open>\<open>u16::try_from(n).unwrap_or(u16::MAX)\<close>.\<close>

definition to_u16 :: "nat \<Rightarrow> nat" where
  "to_u16 n = min n U16_MAX"

section \<open>Rows and operations\<close>

type_synonym attr_id = nat

record attr_def =
  ad_id :: attr_id
  ad_fg :: color
  ad_bg :: color
  ad_flags :: cell_flags

definition CF_ALL :: cell_flags where
  "CF_ALL = CF_BOLD OR CF_DIM OR CF_ITALIC OR CF_UNDERLINE OR CF_DOUBLE_UNDERLINE OR CF_UNDERCURL OR CF_STRIKEOUT OR
     CF_INVERSE OR CF_HIDDEN OR CF_BLINK OR CF_WIDE OR CF_WIDE_SPACER OR CF_WRAPLINE"

text \<open>\<open>flags_as_bits\<close>: unknown bits are dropped on receipt.\<close>

definition flags_from_bits :: "16 word \<Rightarrow> cell_flags" where
  "flags_from_bits w = w AND CF_ALL"

record cell_marks =
  cm_at :: nat
  cm_marks :: ustring

record run =
  rn_attr :: attr_id
  rn_cells :: nat
  rn_text :: ustring
  rn_marks :: "cell_marks list"

record row_payload =
  rp_line :: int
  rp_runs :: "run list"
  rp_wrapped :: bool

record cursor_state =
  cu_row :: nat
  cu_col :: nat
  cu_visible :: bool
  cu_shape :: nat

datatype delta_op =
    OpScroll nat nat int
  | OpRow nat row_payload
  | OpErase nat nat nat nat attr_id
  | OpCursor cursor_state
  | OpSbPush row_payload
  | OpAltScreen bool
  | OpTitle ustring
  | OpModes "32 word"

text \<open>The row the encoder and the decoder pad with.\<close>

definition absent_row :: row_payload where
  "absent_row = \<lparr>rp_line = I64_MIN, rp_runs = [], rp_wrapped = False\<rparr>"

section \<open>Progress\<close>

datatype wire_progress_state = WNormal | WError | WWarning

datatype wire_progress = WNoProgress | WAt nat wire_progress_state | WIndeterminate

fun progress_state_to_wire :: "progress_state \<Rightarrow> wire_progress_state" where
  "progress_state_to_wire ProgressNormal = WNormal"
| "progress_state_to_wire ProgressError = WError"
| "progress_state_to_wire ProgressWarning = WWarning"

fun progress_to_wire :: "progress \<Rightarrow> wire_progress" where
  "progress_to_wire NoProgress = WNoProgress"
| "progress_to_wire Indeterminate = WIndeterminate"
| "progress_to_wire (ProgressAt p s) = WAt p (progress_state_to_wire s)"

fun progress_state_of_wire :: "wire_progress_state \<Rightarrow> progress_state" where
  "progress_state_of_wire WNormal = ProgressNormal"
| "progress_state_of_wire WError = ProgressError"
| "progress_state_of_wire WWarning = ProgressWarning"

fun progress_of_wire :: "wire_progress \<Rightarrow> progress" where
  "progress_of_wire WNoProgress = NoProgress"
| "progress_of_wire WIndeterminate = Indeterminate"
| "progress_of_wire (WAt p s) = ProgressAt p (progress_state_of_wire s)"

lemma progress_roundtrip: "progress_of_wire (progress_to_wire p) = p"
proof -
  have "progress_state_of_wire (progress_state_to_wire s) = s" for s by (cases s) simp_all
  then show ?thesis by (cases p) simp_all
qed

section \<open>Command blocks\<close>

datatype wire_state = WPrompt | WRunning | WFinished "int option"

record context_payload =
  cp_branch :: ustring
  cp_venv :: ustring
  cp_kube :: ustring

record block_payload =
  bp_id :: block_id
  bp_prompt_line :: int
  bp_output_line :: "int option"
  bp_end_line :: "int option"
  bp_state :: wire_state
  bp_command :: ustring
  bp_cwd :: ustring
  bp_started_ms :: "nat option"
  bp_ended_ms :: "nat option"
  bp_context :: "context_payload option"
  bp_author :: "byte list option"

fun state_to_wire :: "block_state \<Rightarrow> wire_state" where
  "state_to_wire Prompt = WPrompt"
| "state_to_wire Running = WRunning"
| "state_to_wire (Finished c) = WFinished c"

fun state_of_wire :: "wire_state \<Rightarrow> block_state" where
  "state_of_wire WPrompt = Prompt"
| "state_of_wire WRunning = Running"
| "state_of_wire (WFinished c) = Finished c"

definition context_to_wire :: "block_context \<Rightarrow> context_payload" where
  "context_to_wire c = \<lparr>cp_branch = bc_branch c, cp_venv = bc_venv c, cp_kube = bc_kube c\<rparr>"

definition context_of_wire :: "context_payload \<Rightarrow> block_context" where
  "context_of_wire c = \<lparr>bc_branch = cp_branch c, bc_venv = cp_venv c, bc_kube = cp_kube c\<rparr>"

definition from_block :: "block \<Rightarrow> block_payload" where
  "from_block b =
     \<lparr>bp_id = b_id b, bp_prompt_line = to_i64 (b_prompt_line b),
      bp_output_line = map_option to_i64 (b_output_line b),
      bp_end_line = map_option to_i64 (b_end_line b), bp_state = state_to_wire (b_state b),
      bp_command = b_command b, bp_cwd = b_cwd b, bp_started_ms = b_started_ms b,
      bp_ended_ms = b_ended_ms b, bp_context = map_option context_to_wire (b_context b),
      bp_author = b_author b\<rparr>"

definition to_block :: "block_payload \<Rightarrow> block" where
  "to_block p =
     \<lparr>b_id = bp_id p, b_prompt_line = wire_line_id (bp_prompt_line p),
      b_output_line = map_option wire_line_id (bp_output_line p),
      b_end_line = map_option wire_line_id (bp_end_line p), b_state = state_of_wire (bp_state p),
      b_command = bp_command p, b_cwd = bp_cwd p, b_started_ms = bp_started_ms p,
      b_ended_ms = bp_ended_ms p, b_context = map_option context_of_wire (bp_context p),
      b_author = bp_author p\<rparr>"

record delta =
  dl_attrs :: "attr_def list"
  dl_ops :: "delta_op list"
  dl_blocks :: "block_payload list"

record keyframe =
  kf_cols :: nat
  kf_rows :: nat
  kf_rows_data :: "row_payload list"
  kf_attrs :: "attr_def list"
  kf_cursor :: cursor_state
  kf_modes :: modes
  kf_blocks :: "block_payload list"
  kf_blocks_from :: nat
  kf_history_clears :: nat
  kf_title :: ustring

lemma line_id_roundtrip [simp]: "int l \<le> I64_MAX \<Longrightarrow> wire_line_id (to_i64 l) = l"
  by (simp add: wire_line_id_def to_i64_def)

lemma to_i64_nonneg [simp]: "0 \<le> to_i64 l"
  by (simp add: to_i64_def I64_MAX_def)

lemma to_i64_not_min [simp]: "to_i64 l \<noteq> I64_MIN"
proof -
  have "I64_MIN < 0" by (simp add: I64_MIN_def)
  then show ?thesis using to_i64_nonneg [of l] by linarith
qed

text \<open>The lines of a block fit the wire.\<close>

definition block_fits :: "block \<Rightarrow> bool" where
  "block_fits b \<longleftrightarrow> int (b_prompt_line b) \<le> I64_MAX \<and>
     (case b_output_line b of None \<Rightarrow> True | Some l \<Rightarrow> int l \<le> I64_MAX) \<and>
     (case b_end_line b of None \<Rightarrow> True | Some l \<Rightarrow> int l \<le> I64_MAX)"

lemma block_roundtrip [simp]:
  assumes "block_fits b"
  shows "to_block (from_block b) = b"
proof -
  have "state_of_wire (state_to_wire s) = s" for s by (cases s) simp_all
  moreover have "context_of_wire (context_to_wire c) = c" for c by (simp add: context_of_wire_def context_to_wire_def)
  ultimately show ?thesis using assms
    by (cases b) (auto simp: from_block_def to_block_def block_fits_def option.map_comp comp_def
        option.map_ident split: option.splits)
qed

lemma from_block_id [simp]: "bp_id (from_block b) = b_id b" "b_id (to_block p) = bp_id p"
  by (simp_all add: from_block_def to_block_def)

section \<open>Fixed-width values as hex\<close>

text \<open>\<open>hex::encode\<close>: two lower-case digits a byte.\<close>

definition hex_encode :: "byte list \<Rightarrow> ustring" where
  "hex_encode bs = concat (map (\<lambda>b. [hex_digit (unat b div 16), hex_digit (unat b mod 16)]) bs)"

text \<open>\<open>char::to_digit(16)\<close>.\<close>

definition to_digit16 :: "uchar \<Rightarrow> nat option" where
  "to_digit16 c =
     (if 48 \<le> c \<and> c \<le> 57 then Some (c - 48)
      else if 97 \<le> c \<and> c \<le> 102 then Some (c - 87)
      else if 65 \<le> c \<and> c \<le> 70 then Some (c - 55)
      else None)"

text \<open>The pairs of characters of the loop, which leaves out a last odd one.\<close>

fun hex_pairs :: "uchar list \<Rightarrow> byte list option" where
  "hex_pairs (a # b # r) =
     (case to_digit16 a of
        None \<Rightarrow> None
      | Some hi \<Rightarrow>
          (case to_digit16 b of
             None \<Rightarrow> None
           | Some lo \<Rightarrow> map_option ((#) (of_nat (hi * 16 + lo))) (hex_pairs r)))"
| "hex_pairs _ = Some []"

text \<open>
  \<open>hex::deserialize\<close> of a value of \<open>n\<close> bytes from a string, whose length is counted in bytes; what
  the loop does not reach keeps its zero.
\<close>

definition hex_decode :: "nat \<Rightarrow> ustring \<Rightarrow> byte list option" where
  "hex_decode n s =
     (if length (utf8_encode s) \<noteq> n * 2 then None
      else map_option (\<lambda>bs. bs @ replicate (n - length bs) 0) (hex_pairs s))"

definition short_id :: "byte list \<Rightarrow> ustring" where
  "short_id bs = hex_encode (take 4 bs)"

section \<open>Handshake values\<close>

definition is_absent :: "byte list \<Rightarrow> bool" where
  "is_absent bs \<longleftrightarrow> bs = replicate 32 0"

datatype auth_failure = AfSignature | AfUnknownClient | AfDenied | AfTimedOut | AfRevoked | AfRateLimited | AfVersion

definition is_retryable :: "auth_failure \<Rightarrow> bool" where
  "is_retryable f \<longleftrightarrow> f = AfTimedOut \<or> f = AfRateLimited"

end
