(* ===== verification/Frame.thy ===== *)
theory Frame
  imports Wire OscSpec
begin

text \<open>
  Messages on a byte stream (\<open>crates/zest-proto/src/frame.rs\<close>).  The MessagePack library is the
  pair of parameters \<open>ser\<close> and \<open>de\<close>.
\<close>

section \<open>Writing\<close>

definition MAX_FRAME :: nat where
  "MAX_FRAME = 8 * 1024 * 1024"

datatype frame_error = FeTooLarge nat | FeEncode ustring | FeDecode ustring

definition u32_le_bytes :: "nat \<Rightarrow> byte list" where
  "u32_le_bytes n = map of_nat [n mod 256, n div 256 mod 256, n div 65536 mod 256, n div 16777216 mod 256]"

definition u32_of_le :: "byte list \<Rightarrow> nat" where
  "u32_of_le bs = unat (bs ! 0) + 256 * unat (bs ! 1) + 65536 * unat (bs ! 2) + 16777216 * unat (bs ! 3)"

text \<open>\<open>u32::try_from(n).unwrap_or(u32::MAX)\<close> in the prefix.\<close>

definition frame_bytes :: "byte list \<Rightarrow> frame_error + byte list" where
  "frame_bytes body =
     (if MAX_FRAME < length body then Inl (FeTooLarge (length body))
      else Inr (u32_le_bytes (min (length body) (2 ^ 32 - 1)) @ body))"

definition encode_body :: "('m \<Rightarrow> ustring + byte list) \<Rightarrow> 'm \<Rightarrow> frame_error + byte list" where
  "encode_body ser msg = (case ser msg of Inl e \<Rightarrow> Inl (FeEncode e) | Inr b \<Rightarrow> Inr b)"

definition encode_frame :: "('m \<Rightarrow> ustring + byte list) \<Rightarrow> 'm \<Rightarrow> frame_error + byte list" where
  "encode_frame ser msg = (case encode_body ser msg of Inl e \<Rightarrow> Inl e | Inr b \<Rightarrow> frame_bytes b)"

definition decode_frame :: "(byte list \<Rightarrow> ustring + 'm) \<Rightarrow> byte list \<Rightarrow> frame_error + 'm" where
  "decode_frame de body = (case de body of Inl e \<Rightarrow> Inl (FeDecode e) | Inr m \<Rightarrow> Inr m)"

section \<open>Reading\<close>

text \<open>The state of a \<open>FrameReader\<close> is the bytes it holds.\<close>

definition feed :: "byte list \<Rightarrow> byte list \<Rightarrow> byte list" where
  "feed buf bs = buf @ bs"

definition next_frame :: "byte list \<Rightarrow> frame_error + (byte list option \<times> byte list)" where
  "next_frame buf =
     (if length buf < 4 then Inr (None, buf)
      else
        let len = u32_of_le buf
        in if MAX_FRAME < len then Inl (FeTooLarge len)
           else if length buf < 4 + len then Inr (None, buf)
           else Inr (Some (take len (drop 4 buf)), drop (4 + len) buf))"

text \<open>The loop of a client: take frames until there is none, or the length is refused.\<close>

lemma next_frame_shorter: "next_frame buf = Inr (Some b, r) \<Longrightarrow> length r < length buf"
  by (auto simp: next_frame_def Let_def split: if_splits)

function drain :: "byte list \<Rightarrow> byte list list \<times> frame_error option \<times> byte list" where
  "drain buf =
     (case next_frame buf of
        Inl e \<Rightarrow> ([], Some e, buf)
      | Inr (None, r) \<Rightarrow> ([], None, r)
      | Inr (Some b, r) \<Rightarrow> (case drain r of (bs, e, r') \<Rightarrow> (b # bs, e, r')))"
  by pat_completeness auto
termination by (relation "measure length") (auto dest: next_frame_shorter)

declare drain.simps [simp del]

text \<open>Reads of any size, each followed by that loop.\<close>

fun read_chunks :: "byte list \<Rightarrow> byte list list \<Rightarrow> byte list list \<times> frame_error option \<times> byte list" where
  "read_chunks buf [] = ([], None, buf)"
| "read_chunks buf (c # cs) =
     (case drain (feed buf c) of
        (bs, Some e, r) \<Rightarrow> (bs, Some e, r)
      | (bs, None, r) \<Rightarrow> (case read_chunks r cs of (bs', e, r') \<Rightarrow> (bs @ bs', e, r')))"

section \<open>Round trip\<close>

lemma u32_le_length [simp]: "length (u32_le_bytes n) = 4"
  by (simp add: u32_le_bytes_def)

lemma u32_le_roundtrip:
  assumes "n < 2 ^ 32"
  shows "u32_of_le (u32_le_bytes n @ r) = n"
proof -
  have b: "unat (of_nat (m mod 256) :: byte) = m mod 256" for m :: nat by (rule unat_byte) simp
  have t: "n div 16777216 < 256" using assms by (simp add: less_mult_imp_div_less)
  have d: "n div 65536 = n div 256 div 256" "n div 16777216 = n div 256 div 256 div 256"
    by (simp_all only: div_mult2_eq [symmetric]) simp_all
  have "u32_of_le (u32_le_bytes n @ r) =
      n mod 256 + 256 * (n div 256 mod 256) + 65536 * (n div 65536 mod 256) + 16777216 * (n div 16777216)"
    using b unat_byte [OF t] t by (simp add: u32_of_le_def u32_le_bytes_def nth_append)
  then show ?thesis unfolding d
    using div_mult_mod_eq [of n 256] div_mult_mod_eq [of "n div 256" 256] div_mult_mod_eq [of "n div 256 div 256" 256]
    by linarith
qed

lemma u32_of_le_append: "4 \<le> length b \<Longrightarrow> u32_of_le (b @ r) = u32_of_le b"
  by (auto simp: u32_of_le_def nth_append)

text \<open>Bytes to come do not change what is there already.\<close>

lemma next_frame_append:
  "next_frame buf = Inr (Some b, r) \<Longrightarrow> next_frame (buf @ c) = Inr (Some b, r @ c)"
  "next_frame buf = Inl e \<Longrightarrow> next_frame (buf @ c) = Inl e"
  by (auto simp: next_frame_def Let_def u32_of_le_append split: if_splits)

lemma drain_cases:
  obtains (refused) e where "next_frame buf = Inl e" "drain buf = ([], Some e, buf)"
  | (waits) "next_frame buf = Inr (None, buf)" "drain buf = ([], None, buf)"
  | (frame) b r0 where "next_frame buf = Inr (Some b, r0)"
      "drain buf = (b # fst (drain r0), snd (drain r0))"
proof (cases "next_frame buf")
  case (Inl e)
  then show ?thesis using refused by (simp add: drain.simps [of buf])
next
  case (Inr q)
  obtain res r0 where q: "q = (res, r0)" by (cases q)
  show ?thesis
  proof (cases res)
    case None
    then have "r0 = buf" using Inr q by (auto simp: next_frame_def Let_def split: if_splits)
    then show ?thesis using waits Inr q None by (simp add: drain.simps [of buf])
  next
    case (Some b)
    then show ?thesis using frame Inr q by (simp add: drain.simps [of buf] split_beta)
  qed
qed

lemma drain_append:
  "drain buf = (bs, None, r) \<Longrightarrow>
    drain (buf @ c) = (case drain (r @ c) of (bs', e, r') \<Rightarrow> (bs @ bs', e, r'))"
proof (induction "length buf" arbitrary: buf bs r rule: less_induct)
  case less
  show ?case
  proof (cases buf rule: drain_cases)
    case (frame b r0)
    then have d: "drain r0 = (fst (drain r0), None, r)" "bs = b # fst (drain r0)"
      using less(2) by (simp_all add: prod_eq_iff)
    show ?thesis
      using less(1) [OF next_frame_shorter [OF frame(1)] d(1)] next_frame_append(1) [OF frame(1), of c] d(2)
      by (simp add: drain.simps [of "buf @ c"] split: prod.split)
  qed (use less(2) in \<open>auto split: prod.split\<close>)
qed

lemma next_frame_frame:
  assumes "frame_bytes body = Inr f"
  shows "next_frame (f @ r) = Inr (Some body, r)"
proof -
  have m: "length body \<le> MAX_FRAME" "length body < 2 ^ 32"
    using assms by (auto simp: frame_bytes_def MAX_FRAME_def split: if_splits)
  then have f: "f = u32_le_bytes (length body) @ body" using assms by (auto simp: frame_bytes_def)
  show ?thesis using m u32_le_roundtrip [OF m(2), of "body @ r"]
    by (simp add: next_frame_def f Let_def)
qed

lemma drain_frames:
  "list_all2 (\<lambda>b f. frame_bytes b = Inr f) bodies frames \<Longrightarrow> drain (concat frames) = (bodies, None, [])"
proof (induction rule: list_all2_induct)
  case Nil
  then show ?case by (subst drain.simps) (simp add: next_frame_def)
next
  case (Cons b bs f fs)
  then show ?case by (subst drain.simps) (simp add: next_frame_frame)
qed

lemma drain_idle: "fst (snd (drain buf)) = None \<Longrightarrow> drain (snd (snd (drain buf))) = ([], None, snd (snd (drain buf)))"
proof (induction "length buf" arbitrary: buf rule: less_induct)
  case less
  show ?case
  proof (cases buf rule: drain_cases)
    case (frame b r0)
    then show ?thesis using less next_frame_shorter [OF frame(1)] by simp
  qed (use less in simp_all)
qed

lemma drain_refused: "fst (snd (drain buf)) = Some e \<Longrightarrow> fst (snd (drain (buf @ c))) = Some e"
proof (induction "length buf" arbitrary: buf rule: less_induct)
  case less
  show ?case
  proof (cases buf rule: drain_cases)
    case (refused e')
    then show ?thesis using less(2) next_frame_append(2) [of buf e' c] by (simp add: drain.simps [of "buf @ c"])
  next
    case (frame b r0)
    then show ?thesis
      using less next_frame_shorter [OF frame(1)] next_frame_append(1) [OF frame(1), of c]
      by (simp add: drain.simps [of "buf @ c"] split_beta)
  qed (use less(2) in simp)
qed

lemma read_chunks_drain:
  "drain buf = ([], None, buf) \<Longrightarrow> fst (snd (drain (buf @ concat cs))) = None \<Longrightarrow>
    read_chunks buf cs = drain (buf @ concat cs)"
proof (induction cs arbitrary: buf)
  case (Cons c cs)
  obtain bs e r where d: "drain (buf @ c) = (bs, e, r)" by (metis prod_cases3)
  have e: "e = None" using drain_refused [of "buf @ c" _ "concat cs"] d Cons.prems(2) by (cases e) simp_all
  have idle: "drain r = ([], None, r)" using drain_idle [of "buf @ c"] d e by simp
  have t: "drain (buf @ concat (c # cs)) = (case drain (r @ concat cs) of (bs', e, r') \<Rightarrow> (bs @ bs', e, r'))"
    using drain_append [of "buf @ c" bs r "concat cs"] d e by simp
  then have "fst (snd (drain (r @ concat cs))) = None" using Cons.prems(2) by (simp add: split_beta)
  then show ?case using Cons.IH [OF idle] t by (simp add: feed_def d e)
qed simp

text \<open>
  C23. Framing is transparent to how the stream is cut: whatever sizes the reads have, the frames of a
  sequence of messages come out whole, in order and once each, with nothing left over.
\<close>

theorem frames_survive_any_chunking:
  assumes "list_all2 (\<lambda>b f. frame_bytes b = Inr f) bodies frames" "concat chunks = concat frames"
  shows "read_chunks [] chunks = (bodies, None, [])"
proof -
  have "drain [] = ([], None, [])" by (subst drain.simps) (simp add: next_frame_def)
  from read_chunks_drain [OF this, of chunks] show ?thesis using drain_frames [OF assms(1)] assms(2) by simp
qed

theorem frames_survive_any_chunking_witness:
  "read_chunks [] [[1, 0], [0, 0, 7, 0], [], [0, 0, 0]] = ([[7], []], None, [])"
proof (rule frames_survive_any_chunking)
  show "list_all2 (\<lambda>b f. frame_bytes b = Inr f) [[7], []] [[1, 0, 0, 0, 7], [0, 0, 0, 0]]"
    by (simp add: frame_bytes_def u32_le_bytes_def MAX_FRAME_def)
qed simp

text \<open>
  A length prefix beyond the limit is refused as soon as its four bytes are there, before any of
  the announced bytes, and a frame within the limit never is.
\<close>

theorem oversized_frame_refused:
  "(case next_frame buf of
      Inl e \<Rightarrow> e = FeTooLarge (u32_of_le buf) \<and> 4 \<le> length buf \<and> MAX_FRAME < u32_of_le buf
    | Inr (None, r) \<Rightarrow> r = buf
    | Inr (Some b, r) \<Rightarrow> length b \<le> MAX_FRAME \<and> buf = take 4 buf @ b @ r)"
proof -
  have d: "drop (4 + n) buf = drop n (drop 4 buf)" for n by (simp add: add.commute)
  show ?thesis unfolding next_frame_def Let_def d by (auto simp del: drop_drop simp: append_take_drop_id)
qed

section \<open>Hex\<close>

lemma to_digit16_hex: "d < 16 \<Longrightarrow> to_digit16 (hex_digit d) = Some d"
  by (auto simp: to_digit16_def hex_digit_def)

lemma hex_pairs_encode: "hex_pairs (hex_encode bs) = Some bs"
proof (induction bs)
  case (Cons b bs)
  have "unat b < 256" using unsigned_less [of b] by simp
  moreover have "word_of_nat (unat b div 16 * 16 + unat b mod 16) = b" unfolding div_mult_mod_eq by simp
  ultimately show ?case using Cons
    by (simp add: hex_encode_def to_digit16_hex less_mult_imp_div_less)
qed (simp add: hex_encode_def)

lemma hex_encode_ascii: "utf8_encode (hex_encode bs) = map of_nat (hex_encode bs) \<and> length (hex_encode bs) = 2 * length bs"
proof (induction bs)
  case (Cons b bs)
  have "unat b < 256" using unsigned_less [of b] by simp
  then show ?case using Cons
    by (simp add: hex_encode_def utf8_encode_def encode_char_def hex_digit_plain less_mult_imp_div_less)
qed (simp add: hex_encode_def utf8_encode_def)

text \<open>
  An identity survives the wire, and a string of any other length in bytes is refused; but the
  length is checked in bytes and the digits are read in pairs of characters, so sixty-two digits and
  one two-byte character pass for thirty-two bytes, the last of them made up as zero.
\<close>

theorem hex_ids_roundtrip:
  "hex_decode n (hex_encode bs) = (if length bs = n then Some bs else None) \<and>
   hex_decode 32 (hex_encode (replicate 31 b) @ [0xE9]) = Some (replicate 31 b @ [0])"
proof -
  note e = hex_encode_ascii
  have p: "hex_pairs (hex_encode (replicate 31 b) @ [0xE9]) = Some (replicate 31 b)"
  proof -
    have "hex_pairs (hex_encode bs @ [x]) = hex_pairs (hex_encode bs)" for bs x
    proof (induction bs)
      case (Cons b bs)
      then show ?case by (simp add: hex_encode_def cong: option.case_cong)
    qed (simp add: hex_encode_def)
    then show ?thesis by (simp only: hex_pairs_encode)
  qed
  have "length (utf8_encode (hex_encode (replicate 31 b) @ [0xE9])) = 64"
    using e [of "replicate 31 b"] by (simp add: utf8_encode_def encode_char_def)
  with p have "hex_decode 32 (hex_encode (replicate 31 b) @ [0xE9]) = Some (replicate 31 b @ [0])"
    by (simp add: hex_decode_def)
  moreover have "hex_decode n (hex_encode bs) = (if length bs = n then Some bs else None)"
    using e [of bs] by (simp add: hex_decode_def hex_pairs_encode)
  ultimately show ?thesis by simp
qed

end
