(* ===== verification/Encode.thy ===== *)
theory Encode
  imports Wire
begin

text \<open>
  Turning a grid into keyframes and deltas (\<open>crates/zest-proto/src/encode.rs\<close>): one encoder per
  subscriber, with the rows and blocks as that subscriber last saw them.  The interning table is an
  association list in the order of definition; the code's hash map is only looked up in and listed
  sorted by id.
\<close>

section \<open>The encoder\<close>

type_synonym attr_key = "color \<times> color \<times> cell_flags"

record encoder =
  en_attrs :: "(attr_key \<times> attr_id) list"
  en_pending :: "attr_def list"
  en_seen :: "row_payload list"
  en_seen_blocks :: "block_payload list"
  en_cursor :: cursor_state
  en_modes :: modes
  en_title :: ustring
  en_next_attr :: nat

definition initial_cursor :: cursor_state where
  "initial_cursor = \<lparr>cu_row = 0, cu_col = 0, cu_visible = True, cu_shape = 0\<rparr>"

definition encoder_new :: encoder where
  "encoder_new =
     \<lparr>en_attrs = [], en_pending = [], en_seen = [], en_seen_blocks = [], en_cursor = initial_cursor,
      en_modes = 0, en_title = [], en_next_attr = 0\<rparr>"

definition attr_key_of :: "cell \<Rightarrow> attr_key" where
  "attr_key_of c = (cell_fg c, cell_bg c, cell_flags c)"

definition def_of :: "attr_key \<times> attr_id \<Rightarrow> attr_def" where
  "def_of e = (case e of ((fg, bg, fl), i) \<Rightarrow> \<lparr>ad_id = i, ad_fg = fg, ad_bg = bg, ad_flags = fl\<rparr>)"

definition intern_attr :: "encoder \<Rightarrow> cell \<Rightarrow> encoder \<times> attr_id" where
  "intern_attr e c =
     (case map_of (en_attrs e) (attr_key_of c) of
        Some i \<Rightarrow> (e, i)
      | None \<Rightarrow>
          let i = en_next_attr e
          in (e\<lparr>en_next_attr := (i + 1) mod 65536, en_attrs := en_attrs e @ [(attr_key_of c, i)],
                en_pending := en_pending e @ [def_of (attr_key_of c, i)]\<rparr>, i))"

section \<open>Rows\<close>

text \<open>\<open>rposition\<close>: where the blank tail of the row begins.\<close>

definition encoded_len :: "cell list \<Rightarrow> nat" where
  "encoded_len cells = trim_len (\<lambda>c. cell_ch c \<noteq> space \<or> cell_bg c \<noteq> DefaultColor \<or> cell_flags c \<noteq> 0) cells"

text \<open>What one cell adds to the text and to the marks of its run.\<close>

definition run_text :: "cell list \<Rightarrow> ustring" where
  "run_text cs = map cell_ch (filter (\<lambda>c. \<not> has_flag c CF_WIDE_SPACER) cs)"

fun run_marks :: "row \<Rightarrow> nat \<Rightarrow> cell list \<Rightarrow> cell_marks list" where
  "run_marks r count [] = []"
| "run_marks r count (c # cs) =
     (case row_extra r c of
        None \<Rightarrow> []
      | Some x \<Rightarrow> if ce_zerowidth x = [] then [] else [\<lparr>cm_at = count, cm_marks = ce_zerowidth x\<rparr>])
     @ run_marks r (min (count + 1) U16_MAX) cs"

definition make_run :: "row \<Rightarrow> attr_id \<Rightarrow> cell list \<Rightarrow> run" where
  "make_run r a cs =
     \<lparr>rn_attr = a, rn_cells = min (length cs) U16_MAX, rn_text = run_text cs, rn_marks = run_marks r 0 cs\<rparr>"

function encode_runs :: "row \<Rightarrow> cell list \<Rightarrow> encoder \<Rightarrow> encoder \<times> run list" where
  "encode_runs r [] e = (e, [])"
| "encode_runs r (c # cs) e =
     (let same = (\<lambda>d. attr_key_of d = attr_key_of c);
          (e, a) = intern_attr e c;
          (e, rs) = encode_runs r (dropWhile same cs) e
      in (e, make_run r a (c # takeWhile same cs) # rs))"
  by pat_completeness auto
termination
  by (relation "measure (\<lambda>(r, cs, e). length cs)") (auto simp: less_Suc_eq_le length_dropWhile_le)

definition encode_row :: "encoder \<Rightarrow> row \<Rightarrow> encoder \<times> row_payload" where
  "encode_row e r =
     (let cells = row_cells r;
          (e, runs) = encode_runs r (take (encoded_len cells) cells) e
      in (e, \<lparr>rp_line = to_i64 (row_id r), rp_runs = runs, rp_wrapped = row_wrapped r\<rparr>))"

fun encode_rows :: "encoder \<Rightarrow> row list \<Rightarrow> encoder \<times> row_payload list" where
  "encode_rows e [] = (e, [])"
| "encode_rows e (r # rs) =
     (case encode_row e r of (e, p) \<Rightarrow> case encode_rows e rs of (e, ps) \<Rightarrow> (e, p # ps))"

definition active_rows :: "grid \<Rightarrow> row list" where
  "active_rows g = map (active_row g) [0..<g_rows g]"

definition encode_all_rows :: "encoder \<Rightarrow> grid \<Rightarrow> encoder \<times> row_payload list" where
  "encode_all_rows e g = encode_rows e (active_rows g)"

definition all_attrs :: "encoder \<Rightarrow> attr_def list" where
  "all_attrs e = sort_key ad_id (map def_of (en_attrs e))"

section \<open>Keyframes\<close>

definition encode_keyframe ::
  "encoder \<Rightarrow> grid \<Rightarrow> cursor_state \<Rightarrow> modes \<Rightarrow> ustring \<Rightarrow> block_index \<Rightarrow> encoder \<times> keyframe" where
  "encode_keyframe e g cursor modes title blocks =
     (let (e, rows) = encode_all_rows e g;
          attrs = all_attrs e;
          bs = map from_block (bi_blocks blocks);
          e = e\<lparr>en_pending := [], en_seen := rows, en_cursor := cursor, en_modes := modes, en_title := title,
                en_seen_blocks := bs\<rparr>
      in (e, \<lparr>kf_cols = to_u16 (g_cols g), kf_rows = to_u16 (g_rows g), kf_rows_data = rows, kf_attrs = attrs,
              kf_cursor = cursor, kf_modes = modes, kf_blocks = bs,
              kf_blocks_from = bi_authoritative_from blocks, kf_history_clears = g_history_clears g,
              kf_title = title\<rparr>))"

text \<open>Skipping the blocks the host has below the one looked for, then looking.\<close>

fun lost_a_block :: "nat \<Rightarrow> block_payload list \<Rightarrow> nat list \<Rightarrow> bool" where
  "lost_a_block flr [] fresh = False"
| "lost_a_block flr (old # olds) fresh =
     (if bp_id old < flr then lost_a_block flr olds fresh
      else
        let fresh = dropWhile (\<lambda>i. i < bp_id old) fresh
        in case fresh of
             i # rest \<Rightarrow> if i = bp_id old then lost_a_block flr olds rest else True
           | [] \<Rightarrow> True)"

definition blocks_need_keyframe :: "encoder \<Rightarrow> block_index \<Rightarrow> bool" where
  "blocks_need_keyframe e blocks =
     lost_a_block (bi_authoritative_from blocks) (en_seen_blocks e) (map b_id (bi_blocks blocks))"

definition encode_history :: "encoder \<Rightarrow> row list \<Rightarrow> encoder \<times> row_payload list \<times> attr_def list" where
  "encode_history e rows = (case encode_rows e rows of (e, ps) \<Rightarrow> (e, ps, all_attrs e))"

section \<open>Deltas\<close>

text \<open>The merge of \<open>diff_blocks\<close> over two lists that ascend by id.\<close>

fun changed_blocks :: "block_payload list \<Rightarrow> block_payload list \<Rightarrow> block_payload list" where
  "changed_blocks old [] = []"
| "changed_blocks old (b # bs) =
     (let old = dropWhile (\<lambda>x. bp_id x < bp_id b) old
      in case old of
           x # rest \<Rightarrow>
             if bp_id x = bp_id b then (if x \<noteq> b then [b] else []) @ changed_blocks rest bs
             else b # changed_blocks old bs
         | [] \<Rightarrow> b # changed_blocks old bs)"

definition diff_blocks :: "encoder \<Rightarrow> block_index \<Rightarrow> encoder \<times> block_payload list" where
  "diff_blocks e blocks =
     (let fresh = map from_block (bi_blocks blocks)
      in (e\<lparr>en_seen_blocks := fresh\<rparr>, changed_blocks (en_seen_blocks e) fresh))"

definition to_i16 :: "int \<Rightarrow> int" where
  "to_i16 n = (if - 32768 \<le> n \<and> n \<le> 32767 then n else 32767)"

text \<open>The mode changes that open a delta.\<close>

definition mode_ops :: "encoder \<Rightarrow> modes \<Rightarrow> delta_op list" where
  "mode_ops e modes =
     (let alt = flag_contains modes M_ALT_SCREEN
      in (if alt \<noteq> flag_contains (en_modes e) M_ALT_SCREEN then [OpAltScreen alt] else []) @
         (if modes \<noteq> en_modes e then [OpModes modes] else []))"

text \<open>
  The scroll, from the ids of the first rows then and now: the operations, and the shadow shifted to
  match.
\<close>

definition scroll_ops :: "row_payload list \<Rightarrow> line_id \<Rightarrow> nat \<Rightarrow> delta_op list \<times> row_payload list" where
  "scroll_ops seen new_first rows =
     (case seen of
        [] \<Rightarrow> ([], seen)
      | first # _ \<Rightarrow>
          let moved = to_i64 new_first - rp_line first; height = int (length seen)
          in if 0 < moved \<and> moved < height then
               let n = min (nat moved) (length seen)
               in (OpScroll 0 (to_u16 (length seen - 1)) (to_i16 moved) # map OpSbPush (take n seen),
                   vec_resize rows absent_row (drop n seen))
             else ([], seen))"

text \<open>The rows that differ from the shadow.\<close>

definition row_ops :: "row_payload list \<Rightarrow> row_payload list \<Rightarrow> delta_op list" where
  "row_ops seen fresh =
     map (\<lambda>i. OpRow (to_u16 i) (fresh ! i))
       (filter (\<lambda>i. slice_get seen i \<noteq> Some (fresh ! i)) [0..<length fresh])"

definition encode_delta ::
  "encoder \<Rightarrow> grid \<Rightarrow> cursor_state \<Rightarrow> modes \<Rightarrow> ustring \<Rightarrow> block_index \<Rightarrow> encoder \<times> delta" where
  "encode_delta e g cursor modes title blocks =
     (let ops1 = mode_ops e modes;
          e = e\<lparr>en_modes := modes\<rparr>;
          (ops2, seen) = scroll_ops (en_seen e) (row_id (active_row g 0)) (g_rows g);
          (e, fresh) = encode_all_rows e g;
          seen = (if length fresh \<noteq> length seen then vec_resize (length fresh) absent_row seen else seen);
          ops3 = row_ops seen fresh;
          ops4 = (if cursor \<noteq> en_cursor e then [OpCursor cursor] else []);
          ops5 = (if title \<noteq> en_title e then [OpTitle title] else []);
          attrs = en_pending e;
          (e, bs) = diff_blocks (e\<lparr>en_seen := fresh, en_cursor := cursor, en_title := title, en_pending := []\<rparr>) blocks
      in (e, \<lparr>dl_attrs = attrs, dl_ops = ops1 @ ops2 @ ops3 @ ops4 @ ops5, dl_blocks = bs\<rparr>))"

end
