(* ===== verification/Decode.thy ===== *)
theory Decode
  imports Encode
begin

text \<open>
  The reference decoder of clients without a terminal (\<open>GridView\<close> in
  \<open>crates/zest-proto/src/decode.rs\<close>).
\<close>

record grid_view =
  gv_cols :: nat
  gv_rows :: "row_payload list"
  gv_attrs :: "attr_id \<rightharpoonup> attr_def"
  gv_cursor :: cursor_state
  gv_alt_screen :: bool
  gv_modes :: "32 word"
  gv_title :: ustring
  gv_scrollback :: "row_payload list"
  gv_blocks :: "block_payload list"
  gv_history_clears :: nat

definition grid_view_new :: grid_view where
  "grid_view_new =
     \<lparr>gv_cols = 0, gv_rows = [], gv_attrs = Map.empty, gv_cursor = initial_cursor, gv_alt_screen = False,
      gv_modes = 0, gv_title = [], gv_scrollback = [], gv_blocks = [], gv_history_clears = 0\<rparr>"

definition insert_attrs :: "attr_def list \<Rightarrow> (attr_id \<rightharpoonup> attr_def) \<Rightarrow> attr_id \<rightharpoonup> attr_def" where
  "insert_attrs ads m = fold (\<lambda>a m. m(ad_id a \<mapsto> a)) ads m"

section \<open>Keyframes\<close>

text \<open>
  What becomes of the rows the view holds: those the screen lost off its top are filed as history,
  or else those it took back stop being history.
\<close>

definition carry_rows :: "grid_view \<Rightarrow> keyframe \<Rightarrow> grid_view" where
  "carry_rows v k =
     (case find_first (\<lambda>l. l \<noteq> I64_MIN) (map rp_line (kf_rows_data k)) of
        None \<Rightarrow> v
      | Some first \<Rightarrow>
          let last_held = map_option rp_line (last_of (gv_scrollback v));
              displaced = filter (\<lambda>r. rp_line r \<noteq> I64_MIN \<and> rp_line r < first \<and>
                (case last_held of None \<Rightarrow> True | Some l \<Rightarrow> l < rp_line r)) (gv_rows v)
          in if displaced \<noteq> [] then v\<lparr>gv_scrollback := gv_scrollback v @ displaced\<rparr>
             else if (case last_held of None \<Rightarrow> False | Some l \<Rightarrow> first \<le> l)
             then v\<lparr>gv_scrollback := filter (\<lambda>r. rp_line r \<notin> set (map rp_line (kf_rows_data k))) (gv_scrollback v)\<rparr>
             else v)"

definition view_keyframe :: "grid_view \<Rightarrow> keyframe \<Rightarrow> grid_view" where
  "view_keyframe v k =
     (let cleared = gv_history_clears v < kf_history_clears k;
          v = (if cleared then v\<lparr>gv_scrollback := [], gv_history_clears := kf_history_clears k\<rparr> else v);
          renumbered = (gv_cols v \<noteq> 0 \<and> kf_cols k \<noteq> gv_cols v);
          v = (if renumbered then v\<lparr>gv_scrollback := []\<rparr> else v);
          v = (if gv_cols v = kf_cols k \<and> \<not> cleared then carry_rows v k else v)
      in v\<lparr>gv_cols := kf_cols k, gv_rows := kf_rows_data k, gv_attrs := insert_attrs (kf_attrs k) (gv_attrs v),
           gv_cursor := kf_cursor k, gv_modes := kf_modes k,
           gv_alt_screen := flag_contains (kf_modes k) M_ALT_SCREEN, gv_blocks := kf_blocks k\<rparr>)"

section \<open>Deltas\<close>

definition view_upsert_block :: "block_payload list \<Rightarrow> block_payload \<Rightarrow> block_payload list" where
  "view_upsert_block bs b =
     (case binary_search_by_key bp_id (bp_id b) bs of
        Inr i \<Rightarrow> bs[i := b]
      | Inl i \<Rightarrow> take i bs @ b # drop i bs)"

text \<open>The loop over a region moved up by \<open>n\<close>, one row after the other.\<close>

definition view_scroll :: "nat \<Rightarrow> nat \<Rightarrow> int \<Rightarrow> row_payload list \<Rightarrow> row_payload list" where
  "view_scroll tp bottom lines rows =
     (let n = nat lines
      in if n = 0 \<or> bottom < tp \<or> length rows \<le> bottom then rows
         else
           let e = min bottom (length rows - 1)
           in fold (\<lambda>i rows. rows[i := if i + n \<le> e then rows ! (i + n) else absent_row]) [tp..<Suc e] rows)"

definition view_row :: "nat \<Rightarrow> row_payload \<Rightarrow> row_payload list \<Rightarrow> row_payload list" where
  "view_row i p rows =
     (if i < length rows then rows[i := p] else (vec_resize (i + 1) absent_row rows)[i := p])"

text \<open>The characters of a run, one a cell, with spaces once its text is used up.\<close>

definition run_chars :: "run \<Rightarrow> uchar list" where
  "run_chars r = map (\<lambda>i. if i < length (rn_text r) then rn_text r ! i else space) [0..<rn_cells r]"

definition flat_row :: "row_payload \<Rightarrow> (attr_id \<times> uchar) list" where
  "flat_row p = concat (map (\<lambda>r. map (Pair (rn_attr r)) (run_chars r)) (rp_runs p))"

fun coalesce :: "run list \<Rightarrow> (attr_id \<times> uchar) list \<Rightarrow> run list" where
  "coalesce runs [] = runs"
| "coalesce runs ((a, c) # cs) =
     coalesce (case last_of runs of
         Some l \<Rightarrow> if rn_attr l = a
           then butlast runs @ [l\<lparr>rn_cells := rn_cells l + 1, rn_text := rn_text l @ [c]\<rparr>]
           else runs @ [\<lparr>rn_attr = a, rn_cells = 1, rn_text = [c], rn_marks = []\<rparr>]
       | None \<Rightarrow> runs @ [\<lparr>rn_attr = a, rn_cells = 1, rn_text = [c], rn_marks = []\<rparr>]) cs"

definition view_erase_span :: "row_payload \<Rightarrow> nat \<Rightarrow> nat \<Rightarrow> attr_id \<Rightarrow> row_payload" where
  "view_erase_span p left right a =
     (let flat = flat_row p;
          flat = (if length flat \<le> right then vec_resize (right + 1) (a, space) flat else flat);
          flat = map (\<lambda>i. if left \<le> i \<and> i \<le> right then (a, space) else flat ! i) [0..<length flat]
      in p\<lparr>rp_runs := coalesce [] flat\<rparr>)"

definition view_erase :: "nat \<Rightarrow> nat \<Rightarrow> nat \<Rightarrow> nat \<Rightarrow> attr_id \<Rightarrow> row_payload list \<Rightarrow> row_payload list" where
  "view_erase tp left bottom right a rows =
     (if bottom < tp \<or> right < left then rows
      else map (\<lambda>i. if tp \<le> i \<and> i \<le> bottom then view_erase_span (rows ! i) left right a else rows ! i)
        [0..<length rows])"

fun view_op :: "delta_op \<Rightarrow> grid_view \<Rightarrow> grid_view" where
  "view_op (OpScroll tp bottom lines) v = v\<lparr>gv_rows := view_scroll tp bottom lines (gv_rows v)\<rparr>"
| "view_op (OpRow i p) v = v\<lparr>gv_rows := view_row i p (gv_rows v)\<rparr>"
| "view_op (OpErase tp left bottom right a) v = v\<lparr>gv_rows := view_erase tp left bottom right a (gv_rows v)\<rparr>"
| "view_op (OpCursor c) v = v\<lparr>gv_cursor := c\<rparr>"
| "view_op (OpSbPush p) v = v\<lparr>gv_scrollback := gv_scrollback v @ [p]\<rparr>"
| "view_op (OpAltScreen b) v = v\<lparr>gv_alt_screen := b\<rparr>"
| "view_op (OpTitle s) v = v\<lparr>gv_title := s\<rparr>"
| "view_op (OpModes m) v = v\<lparr>gv_modes := m\<rparr>"

definition view_delta :: "grid_view \<Rightarrow> delta \<Rightarrow> grid_view" where
  "view_delta v d =
     (let v = v\<lparr>gv_attrs := insert_attrs (dl_attrs d) (gv_attrs v)\<rparr>;
          v = fold view_op (dl_ops d) v
      in v\<lparr>gv_blocks := fold (\<lambda>b bs. view_upsert_block bs b) (dl_blocks d) (gv_blocks v)\<rparr>)"

end
