(* ===== verification/Applier.thy ===== *)
theory Applier
  imports Encode
begin

text \<open>
  The reference decoder of clients that keep a terminal (\<open>crates/zest-proto/src/apply.rs\<close>): wire
  deltas written into a replica.
\<close>

datatype applied_result = AppliedOk | NeedsKeyframe

record applier =
  ap_attrs :: "attr_id \<rightharpoonup> attr_def"
  ap_applied :: nat
  ap_history_clears :: nat

definition applier_new :: applier where
  "applier_new = \<lparr>ap_attrs = Map.empty, ap_applied = 0, ap_history_clears = 0\<rparr>"

definition absorb_attrs :: "applier \<Rightarrow> attr_def list \<Rightarrow> applier" where
  "absorb_attrs a ads = a\<lparr>ap_attrs := fold (\<lambda>d m. m(ad_id d \<mapsto> d)) ads (ap_attrs a)\<rparr>"

section \<open>Rows\<close>

text \<open>The cells of a run, and of a payload; the flag says whether every attribute was known.\<close>

definition fill_run :: "(attr_id \<rightharpoonup> attr_def) \<Rightarrow> run \<Rightarrow> cell list" where
  "fill_run m r =
     (let (fg, bg, fl) = (case m (rn_attr r) of None \<Rightarrow> (DefaultColor, DefaultColor, 0)
                          | Some d \<Rightarrow> (ad_fg d, ad_bg d, ad_flags d))
      in map (\<lambda>i. default_cell\<lparr>cell_ch := (if i < length (rn_text r) then rn_text r ! i else space),
                               cell_fg := fg, cell_bg := bg, cell_flags := fl\<rparr>) [0..<rn_cells r])"

definition fill :: "(attr_id \<rightharpoonup> attr_def) \<Rightarrow> row_payload \<Rightarrow> cell list \<times> bool" where
  "fill m p =
     (concat (map (fill_run m) (rp_runs p)), list_all (\<lambda>r. m (rn_attr r) \<noteq> None) (rp_runs p))"

text \<open>The marks of the runs, with the columns they belong to.\<close>

fun marks_from :: "nat \<Rightarrow> run list \<Rightarrow> (nat \<times> ustring) list" where
  "marks_from base [] = []"
| "marks_from base (r # rs) =
     map (\<lambda>m. (base + cm_at m, cm_marks m)) (rn_marks r) @ marks_from (base + rn_cells r) rs"

definition apply_row :: "applier \<Rightarrow> nat \<Rightarrow> row_payload \<Rightarrow> tm \<Rightarrow> tm \<times> bool" where
  "apply_row a i p t =
     (case fill (ap_attrs a) p of
        (cells, known) \<Rightarrow>
          let t = write_row t i (wire_line_id (rp_line p)) cells (rp_wrapped p);
              t = fold (\<lambda>(col, ms) t. push_marks t i col ms) (marks_from 0 (rp_runs p)) t
          in (t, known))"

definition sync_lines :: "tm \<Rightarrow> int \<Rightarrow> tm" where
  "sync_lines t max_line =
     (if I64_MIN < max_line
      then sync_next_line_id t (wire_line_id (min (max_line + 1) I64_MAX)) else t)"

definition apply_cursor :: "cursor_state \<Rightarrow> tm \<Rightarrow> tm" where
  "apply_cursor c t =
     (let t = remote_set_cursor t (cu_row c) (cu_col c);
          t = remote_set_modes t (flag_set (t_modes t) M_SHOW_CURSOR (cu_visible c))
      in remote_set_cursor_style t (from_decscusr (of_nat (cu_shape c))))"

section \<open>Keyframes\<close>

text \<open>The rows at the top of the replica's screen that come before what the keyframe starts with.\<close>

definition displaced_rows :: "grid \<Rightarrow> line_id \<Rightarrow> nat" where
  "displaced_rows g first =
     (let last_held = (if 0 < g_scrollback_len g
                       then map_option row_id (grid_line g (g_scrollback_len g - 1)) else None)
      in length (takeWhile (\<lambda>i. i < first \<and> (case last_held of None \<Rightarrow> True | Some l \<Rightarrow> l < i))
           (map (\<lambda>r. row_id (active_row g r)) [0..<g_rows g])))"

fun min_of :: "nat list \<Rightarrow> nat option" where
  "min_of [] = None"
| "min_of (x # xs) = (case min_of xs of None \<Rightarrow> Some x | Some y \<Rightarrow> Some (min x y))"

definition reconcile_history :: "bool \<Rightarrow> line_id list \<Rightarrow> tm \<Rightarrow> tm" where
  "reconcile_history cleared named t =
     (case min_of named of
        None \<Rightarrow> t
      | Some first \<Rightarrow>
          let displaced = (if cleared then 0 else displaced_rows (active t) first)
          in if 0 < displaced then bank_displaced t displaced else drop_history t named)"

fun apply_rows :: "applier \<Rightarrow> nat \<Rightarrow> row_payload list \<Rightarrow> tm \<Rightarrow> tm" where
  "apply_rows a i [] t = t"
| "apply_rows a i (p # ps) t = apply_rows a (i + 1) ps (fst (apply_row a i p t))"

definition max_line_of :: "row_payload list \<Rightarrow> int" where
  "max_line_of ps = foldl (\<lambda>m p. max m (rp_line p)) I64_MIN ps"

definition apply_keyframe :: "applier \<Rightarrow> tm \<Rightarrow> keyframe \<Rightarrow> nat \<Rightarrow> applier \<times> tm" where
  "apply_keyframe a t k sequence =
     (let a = absorb_attrs a (kf_attrs k);
          t = (if g_cols (active t) \<noteq> kf_cols k \<or> g_rows (active t) \<noteq> kf_rows k
               then remote_resize t (kf_cols k) (kf_rows k) else t);
          t = remote_set_modes t (kf_modes k);
          cleared = ap_history_clears a < kf_history_clears k;
          t = (if cleared then remote_clear_history t else t);
          a = (if cleared then a\<lparr>ap_history_clears := kf_history_clears k\<rparr> else a);
          named = map wire_line_id (filter (\<lambda>l. 0 \<le> l) (map rp_line (kf_rows_data k)));
          t = reconcile_history cleared named t;
          t = apply_rows a 0 (kf_rows_data k) t;
          t = sync_lines t (max_line_of (kf_rows_data k));
          t = apply_cursor (kf_cursor k) t;
          t = drop_blocks_from t (kf_blocks_from k);
          t = fold (\<lambda>b t. upsert_block t (to_block b)) (kf_blocks k) t;
          t = (if kf_title k \<noteq> [] then remote_set_title t (kf_title k) else t);
          t = touch_full t;
          t = set_seq t sequence
      in (a\<lparr>ap_applied := sequence\<rparr>, t))"

section \<open>Deltas\<close>

text \<open>The state of the loop over the operations: the outcome and the highest line written.\<close>

fun is_scroll :: "delta_op \<Rightarrow> bool" where
  "is_scroll (OpScroll _ _ _) = True"
| "is_scroll _ = False"

fun apply_op :: "applier \<Rightarrow> bool \<Rightarrow> delta_op \<Rightarrow> tm \<times> applied_result \<times> int \<Rightarrow> tm \<times> applied_result \<times> int" where
  "apply_op a scrolled (OpScroll tp bottom lines) (t, out, ml) = (remote_scroll t tp bottom lines, out, ml)"
| "apply_op a scrolled (OpRow i p) (t, out, ml) =
     (if g_rows (active t) \<le> i then (t, NeedsKeyframe, ml)
      else case apply_row a i p t of
             (t, known) \<Rightarrow> (t, if known then out else NeedsKeyframe, max ml (rp_line p)))"
| "apply_op a scrolled (OpErase tp left bottom right i) (t, out, ml) =
     (case ap_attrs a i of
        None \<Rightarrow> (t, NeedsKeyframe, ml)
      | Some d \<Rightarrow>
          (remote_erase t tp left bottom right
             (default_cell\<lparr>cell_ch := space, cell_fg := ad_fg d, cell_bg := ad_bg d, cell_flags := ad_flags d\<rparr>),
           out, ml))"
| "apply_op a scrolled (OpCursor c) (t, out, ml) = (apply_cursor c t, out, ml)"
| "apply_op a scrolled (OpSbPush p) (t, out, ml) =
     (if scrolled then (t, out, ml)
      else (prepend_history t [(wire_line_id (rp_line p), fst (fill (ap_attrs a) p), rp_wrapped p)], out, ml))"
| "apply_op a scrolled (OpAltScreen b) (t, out, ml) = (set_alt_screen t b, out, ml)"
| "apply_op a scrolled (OpModes m) (t, out, ml) = (remote_set_modes t (from_bits_truncate m), out, ml)"
| "apply_op a scrolled (OpTitle s) (t, out, ml) = (remote_set_title t s, out, ml)"

definition apply_delta :: "applier \<Rightarrow> tm \<Rightarrow> delta \<Rightarrow> nat \<Rightarrow> nat \<Rightarrow> applier \<times> tm \<times> applied_result" where
  "apply_delta a t d base sequence =
     (if base \<noteq> ap_applied a then (a, t, NeedsKeyframe)
      else
        let a = absorb_attrs a (dl_attrs d);
            scrolled = list_ex is_scroll (dl_ops d);
            (t, out, ml) = fold (apply_op a scrolled) (dl_ops d) (t, AppliedOk, I64_MIN);
            t = sync_lines t ml;
            t = fold (\<lambda>b t. upsert_block t (to_block b)) (dl_blocks d) t;
            t = set_seq t sequence;
            a = (if out = AppliedOk then a\<lparr>ap_applied := sequence\<rparr> else a)
        in (a, t, out))"

definition apply_scrollback :: "applier \<Rightarrow> tm \<Rightarrow> row_payload list \<Rightarrow> tm" where
  "apply_scrollback a t rows =
     prepend_history t (map (\<lambda>p. (wire_line_id (rp_line p), fst (fill (ap_attrs a) p), rp_wrapped p)) rows)"

end
