(* ===== verification/EncodeInv.thy ===== *)
theory EncodeInv
  imports Decode Applier
begin

text \<open>
  The interning table of an encoder only grows, names every style once, and defines what it uses: the
  facts both decoders rest on.
\<close>

section \<open>Interning\<close>

text \<open>
  The table: keys once each, ids counted from zero.  A session may use 65536 styles before the ids,
  16 bits on the wire, wrap.
\<close>

definition attrs_ok :: "encoder \<Rightarrow> bool" where
  "attrs_ok e \<longleftrightarrow> distinct (map fst (en_attrs e)) \<and> map snd (en_attrs e) = [0..<length (en_attrs e)] \<and>
     en_next_attr e = length (en_attrs e) mod 65536"

text \<open>What encoding rows does to the encoder: it appends to the table and to what is pending.\<close>

definition grew :: "encoder \<Rightarrow> encoder \<Rightarrow> bool" where
  "grew e e' \<longleftrightarrow> (\<exists>new. en_attrs e' = en_attrs e @ new \<and> en_pending e' = en_pending e @ map def_of new) \<and>
     en_seen e' = en_seen e \<and> en_seen_blocks e' = en_seen_blocks e \<and> en_cursor e' = en_cursor e \<and>
     en_modes e' = en_modes e \<and> en_title e' = en_title e"

lemma grew_refl: "grew e e"
  by (simp add: grew_def)

lemma grew_trans: "grew e f \<Longrightarrow> grew f h \<Longrightarrow> grew e h"
  by (auto simp: grew_def)

lemma grew_length: "grew e f \<Longrightarrow> length (en_attrs e) \<le> length (en_attrs f)"
  by (auto simp: grew_def)

lemma grew_set: "grew e f \<Longrightarrow> set (en_attrs e) \<subseteq> set (en_attrs f)"
  by (auto simp: grew_def)

lemma intern_grew: "grew e (fst (intern_attr e c))"
  by (auto simp: intern_attr_def grew_def Let_def split: option.split)

lemma intern_ok:
  assumes "attrs_ok e" "length (en_attrs (fst (intern_attr e c))) \<le> 65536"
  shows "attrs_ok (fst (intern_attr e c)) \<and>
    (attr_key_of c, snd (intern_attr e c)) \<in> set (en_attrs (fst (intern_attr e c)))"
proof (cases "map_of (en_attrs e) (attr_key_of c)")
  case None
  then have n: "attr_key_of c \<notin> set (map fst (en_attrs e))" by (simp add: map_of_eq_None_iff)
  have l: "length (en_attrs e) < 65536" using assms(2) None by (simp add: intern_attr_def Let_def)
  then show ?thesis using assms(1) None n by (simp add: intern_attr_def attrs_ok_def Let_def mod_Suc)
next
  case (Some i)
  then show ?thesis using assms(1) by (simp add: intern_attr_def map_of_SomeD)
qed

lemma encode_runs_grew: "grew e (fst (encode_runs r cs e))"
proof (induction r cs e rule: encode_runs.induct)
  case (2 r c cs e)
  show ?case
  proof -
    let ?f = "fst (intern_attr e c)"
    have "grew ?f (fst (encode_runs r (dropWhile (\<lambda>d. attr_key_of d = attr_key_of c) cs) ?f))"
      by (rule 2 [OF refl refl prod.collapse])
    then show ?thesis using grew_trans [OF intern_grew] by (simp add: Let_def split_beta)
  qed
qed (simp add: grew_refl)

lemma encode_row_grew: "grew e (fst (encode_row e r))"
  using encode_runs_grew by (simp add: encode_row_def Let_def split_beta)

lemma encode_rows_grew: "grew e (fst (encode_rows e rs))"
proof (induction rs arbitrary: e)
  case (Cons r rs)
  then show ?case using grew_trans [OF encode_row_grew Cons] by (simp add: split_beta)
qed (simp add: grew_refl)

section \<open>Rows decode to what they encode\<close>

text \<open>A client that knows the definitions of a table.\<close>

definition knows :: "(attr_id \<rightharpoonup> attr_def) \<Rightarrow> encoder \<Rightarrow> bool" where
  "knows m e \<longleftrightarrow> (\<forall>d \<in> set (en_attrs e). m (snd d) = Some (def_of d))"

lemma knows_grew: "knows m f \<Longrightarrow> grew e f \<Longrightarrow> knows m e"
  using grew_set by (fastforce simp: knows_def)

text \<open>What the wire carries of a cell; the second half of a wide character holds a space.\<close>

definition wire_cell :: "cell \<Rightarrow> cell" where
  "wire_cell c = c\<lparr>cell_extra := NO_EXTRA\<rparr>"

definition spacer_ok :: "cell \<Rightarrow> bool" where
  "spacer_ok c \<longleftrightarrow> (has_flag c CF_WIDE_SPACER \<longrightarrow> cell_ch c = space)"

lemma run_text_char:
  assumes "list_all (\<lambda>d. attr_key_of d = attr_key_of c) cs" "list_all spacer_ok cs" "i < length cs"
  shows "(if i < length (run_text cs) then run_text cs ! i else space) = cell_ch (cs ! i)"
proof -
  have f: "cell_flags d = cell_flags c" if "d \<in> set cs" for d
    using assms(1) that by (auto simp: list_all_iff attr_key_of_def)
  have k: "spacer_ok (cs ! i)" using assms(2,3) by (simp add: list_all_length)
  show ?thesis
  proof (cases "has_flag c CF_WIDE_SPACER")
    case True
    then have "run_text cs = []" using f by (simp add: run_text_def has_flag_def filter_empty_conv)
    moreover have "has_flag (cs ! i) CF_WIDE_SPACER" using True f [of "cs ! i"] assms(3) by (simp add: has_flag_def)
    ultimately show ?thesis using k by (simp add: spacer_ok_def)
  next
    case False
    then have "filter (\<lambda>c. \<not> has_flag c CF_WIDE_SPACER) cs = cs" using f by (simp add: filter_id_conv has_flag_def)
    then show ?thesis using assms(3) by (simp add: run_text_def)
  qed
qed

lemma fill_run_make:
  assumes "m a = Some (def_of (attr_key_of c, a))" "list_all (\<lambda>d. attr_key_of d = attr_key_of c) cs"
    "list_all spacer_ok cs" "length cs \<le> U16_MAX"
  shows "fill_run m (make_run r a cs) = map wire_cell cs"
proof (rule nth_equalityI)
  fix i assume "i < length (fill_run m (make_run r a cs))"
  then have i: "i < length cs" using assms(4) by (simp add: fill_run_def make_run_def Let_def split_beta)
  have k: "attr_key_of (cs ! i) = attr_key_of c" using assms(2) i by (simp add: list_all_length)
  note t = run_text_char [OF assms(2,3) i]
  have "fill_run m (make_run r a cs) ! i =
      default_cell\<lparr>cell_ch := (if i < length (run_text cs) then run_text cs ! i else space),
        cell_fg := cell_fg c, cell_bg := cell_bg c, cell_flags := cell_flags c\<rparr>"
    using i assms(1,4) by (simp add: fill_run_def make_run_def def_of_def attr_key_of_def)
  then show "fill_run m (make_run r a cs) ! i = map wire_cell cs ! i"
    using i k unfolding t by (cases "cs ! i") (simp add: attr_key_of_def wire_cell_def default_cell_def)
qed (use assms(4) in \<open>simp add: fill_run_def make_run_def Let_def split_beta\<close>)

lemma encode_runs_fill:
  assumes "attrs_ok e" "length (en_attrs (fst (encode_runs r cs e))) \<le> 65536" "knows m (fst (encode_runs r cs e))"
    "list_all spacer_ok cs" "length cs \<le> U16_MAX"
  shows "attrs_ok (fst (encode_runs r cs e)) \<and> concat (map (fill_run m) (snd (encode_runs r cs e))) = map wire_cell cs \<and>
    list_all (\<lambda>r. m (rn_attr r) \<noteq> None) (snd (encode_runs r cs e))"
  using assms
proof (induction r cs e rule: encode_runs.induct)
  case (2 r c cs e)
  let ?same = "\<lambda>d. attr_key_of d = attr_key_of c" and ?e1 = "fst (intern_attr e c)" and ?a = "snd (intern_attr e c)"
  let ?e2 = "fst (encode_runs r (dropWhile ?same cs) ?e1)"
  have eq: "encode_runs r (c # cs) e =
      (?e2, make_run r ?a (c # takeWhile ?same cs) # snd (encode_runs r (dropWhile ?same cs) ?e1))"
    by (simp add: Let_def split_beta)
  have g: "grew ?e1 ?e2" by (rule encode_runs_grew)
  have i: "attrs_ok ?e1" "(attr_key_of c, ?a) \<in> set (en_attrs ?e1)"
    using intern_ok [OF 2(2)] grew_length [OF g] 2(3) eq by simp_all
  have s: "list_all spacer_ok (takeWhile ?same cs)" "list_all spacer_ok (dropWhile ?same cs)"
    using 2(5) by (auto simp: list_all_iff dest: set_takeWhileD set_dropWhileD)
  have l: "length (takeWhile ?same cs) \<le> length cs" "length (dropWhile ?same cs) \<le> length cs"
    by (simp_all add: length_takeWhile_le length_dropWhile_le)
  have ih: "attrs_ok ?e2 \<and>
      concat (map (fill_run m) (snd (encode_runs r (dropWhile ?same cs) ?e1))) = map wire_cell (dropWhile ?same cs) \<and>
      list_all (\<lambda>r. m (rn_attr r) \<noteq> None) (snd (encode_runs r (dropWhile ?same cs) ?e1))"
    using 2(1) [OF refl refl, of ?e1 ?a] i(1) 2(3,4,6) eq s(2) l(2) by simp
  have m: "m ?a = Some (def_of (attr_key_of c, ?a))"
  proof -
    have "knows m ?e2" using 2(4) unfolding eq by simp
    moreover have "(attr_key_of c, ?a) \<in> set (en_attrs ?e2)" using grew_set [OF g] i(2) by blast
    ultimately show ?thesis by (fastforce simp: knows_def)
  qed
  have "fill_run m (make_run r ?a (c # takeWhile ?same cs)) = map wire_cell (c # takeWhile ?same cs)"
    by (rule fill_run_make [where c = c], rule m)
      (use 2(5,6) s(1) l(1) in \<open>auto simp: list_all_iff dest: set_takeWhileD\<close>)
  then show ?case using ih m unfolding eq
    by (simp add: make_run_def flip: map_append)
qed simp

lemma encode_row_fill:
  assumes "attrs_ok e" "length (en_attrs (fst (encode_row e r))) \<le> 65536" "knows m (fst (encode_row e r))"
    "list_all spacer_ok (row_cells r)" "length (row_cells r) \<le> U16_MAX"
  shows "attrs_ok (fst (encode_row e r))"
    "fill m (snd (encode_row e r)) = (map wire_cell (take (encoded_len (row_cells r)) (row_cells r)), True)"
proof -
  let ?cs = "take (encoded_len (row_cells r)) (row_cells r)"
  have s: "list_all spacer_ok ?cs" "length ?cs \<le> U16_MAX"
    using assms(4,5) by (auto simp: list_all_iff dest: in_set_takeD)
  have "encode_row e r = (fst (encode_runs r ?cs e),
      \<lparr>rp_line = to_i64 (row_id r), rp_runs = snd (encode_runs r ?cs e), rp_wrapped = row_wrapped r\<rparr>)"
    by (simp add: encode_row_def Let_def split_beta)
  then show "attrs_ok (fst (encode_row e r))"
    "fill m (snd (encode_row e r)) = (map wire_cell ?cs, True)"
    using encode_runs_fill [OF assms(1) _ _ s, of r m] assms(2,3) by (simp_all add: fill_def)
qed

lemma encode_row_fields [simp]:
  "rp_line (snd (encode_row e r)) = to_i64 (row_id r)" "rp_wrapped (snd (encode_row e r)) = row_wrapped r"
  by (simp_all add: encode_row_def Let_def split_beta)

text \<open>All rows, with the encoder each of them starts from.\<close>

lemma encode_rows_fill:
  assumes "attrs_ok e" "length (en_attrs (fst (encode_rows e rs))) \<le> 65536" "knows m (fst (encode_rows e rs))"
    "list_all (\<lambda>r. list_all spacer_ok (row_cells r) \<and> length (row_cells r) \<le> U16_MAX) rs"
  shows "attrs_ok (fst (encode_rows e rs)) \<and> length (snd (encode_rows e rs)) = length rs \<and>
    list_all2 (\<lambda>p r. fill m p = (map wire_cell (take (encoded_len (row_cells r)) (row_cells r)), True) \<and>
      rp_line p = to_i64 (row_id r) \<and> rp_wrapped p = row_wrapped r) (snd (encode_rows e rs)) rs"
  using assms
proof (induction rs arbitrary: e)
  case (Cons r rs)
  let ?e1 = "fst (encode_row e r)"
  have eq: "encode_rows e (r # rs) = (fst (encode_rows ?e1 rs), snd (encode_row e r) # snd (encode_rows ?e1 rs))"
    by (simp add: split_beta)
  have g: "grew ?e1 (fst (encode_rows ?e1 rs))" by (rule encode_rows_grew)
  have l: "length (en_attrs ?e1) \<le> 65536" "knows m ?e1"
    using grew_length [OF g] Cons.prems(2,3) knows_grew [OF _ g] eq by simp_all
  note f = encode_row_fill [OF Cons.prems(1) l]
  show ?case unfolding eq using f Cons.IH [of ?e1] Cons.prems(2-4) eq by simp
qed simp

end
