(* ===== verification/ViewSpec.thy ===== *)
theory ViewSpec
  imports EncodeInv WriteSpec
begin

text \<open>
  What a client without a terminal shows is what the encoder believes it shows: the properties of the
  encoder together with the reference decoder \<open>GridView\<close>.
\<close>

section \<open>Definitions reach the client\<close>

lemma insert_attrs_other: "i \<notin> ad_id ` set ds \<Longrightarrow> insert_attrs ds m i = m i"
  by (induction ds arbitrary: m) (auto simp: insert_attrs_def)

lemma insert_attrs_mem:
  "distinct (map ad_id ds) \<Longrightarrow> d \<in> set ds \<Longrightarrow> insert_attrs ds m (ad_id d) = Some d"
proof (induction ds arbitrary: m)
  case (Cons a ds)
  have step: "insert_attrs (a # ds) m = insert_attrs ds (m(ad_id a \<mapsto> a))" by (simp add: insert_attrs_def)
  show ?case
  proof (cases "d = a")
    case True
    then show ?thesis using Cons.prems(1) insert_attrs_other [of "ad_id a" ds] unfolding step by simp
  next
    case False
    then show ?thesis using Cons unfolding step by simp
  qed
qed simp

lemma ad_id_def_of [simp]: "ad_id (def_of d) = snd d"
  by (cases d) (auto simp: def_of_def split: prod.split)

lemma attrs_ok_distinct: "attrs_ok e \<Longrightarrow> distinct (map snd (en_attrs e))"
  by (simp add: attrs_ok_def)

text \<open>The ids are handed out in order, so sorting by them changes nothing.\<close>

lemma all_attrs_eq: "attrs_ok e \<Longrightarrow> all_attrs e = map def_of (en_attrs e)"
  unfolding all_attrs_def by (rule sort_key_id_if_sorted) (simp add: attrs_ok_def comp_def)

lemma all_attrs_known: "attrs_ok e \<Longrightarrow> knows (insert_attrs (all_attrs e) m) e"
  unfolding knows_def
proof
  fix d assume a: "attrs_ok e" "d \<in> set (en_attrs e)"
  have "all_attrs e = map def_of (en_attrs e)" using a(1) by (rule all_attrs_eq)
  then have "distinct (map ad_id (all_attrs e))" using attrs_ok_distinct [OF a(1)] by (simp add: comp_def)
  moreover have "def_of d \<in> set (all_attrs e)" using a(2) by (simp add: all_attrs_def)
  ultimately show "insert_attrs (all_attrs e) m (snd d) = Some (def_of d)"
    using insert_attrs_mem by fastforce
qed

lemma pending_known:
  assumes "attrs_ok f" "grew e f" "en_pending e = []" "knows m e"
  shows "knows (insert_attrs (en_pending f) m) f"
proof -
  obtain new where n: "en_attrs f = en_attrs e @ new" "en_pending f = map def_of new"
    using assms(2,3) by (auto simp: grew_def)
  have d: "distinct (map snd (en_attrs e) @ map snd new)" using attrs_ok_distinct [OF assms(1)] n(1) by simp
  show ?thesis unfolding knows_def
  proof
    fix x assume x: "x \<in> set (en_attrs f)"
    show "insert_attrs (en_pending f) m (snd x) = Some (def_of x)"
    proof (cases "x \<in> set new")
      case True
      then show ?thesis using insert_attrs_mem [of "map def_of new" "def_of x" m] d n(2) by (simp add: comp_def)
    next
      case False
      then have "x \<in> set (en_attrs e)" using x n(1) by simp
      moreover from this have "snd x \<notin> ad_id ` set (map def_of new)" using d by (auto simp: image_iff)
      ultimately show ?thesis using assms(4) n(2) insert_attrs_other by (auto simp: knows_def)
    qed
  qed
qed

lemma runs_ok:
  "attrs_ok e \<Longrightarrow> length (en_attrs (fst (encode_runs r cs e))) \<le> 65536 \<Longrightarrow> attrs_ok (fst (encode_runs r cs e))"
proof (induction r cs e rule: encode_runs.induct)
  case (2 r c cs e)
  let ?same = "\<lambda>d. attr_key_of d = attr_key_of c" and ?e1 = "fst (intern_attr e c)"
  have eq: "fst (encode_runs r (c # cs) e) = fst (encode_runs r (dropWhile ?same cs) ?e1)"
    by (simp add: Let_def split_beta)
  have "attrs_ok ?e1"
    using intern_ok [OF 2(2)] grew_length [OF encode_runs_grew, of ?e1 r "dropWhile ?same cs"] 2(3) eq by simp
  then show ?case using 2(1) [OF refl refl, of ?e1 "snd (intern_attr e c)"] 2(3) unfolding eq by simp
qed simp

lemma rows_ok:
  "attrs_ok e \<Longrightarrow> length (en_attrs (fst (encode_rows e rs))) \<le> 65536 \<Longrightarrow> attrs_ok (fst (encode_rows e rs))"
proof (induction rs arbitrary: e)
  case (Cons r rs)
  let ?e1 = "fst (encode_row e r)"
  have eq: "fst (encode_rows e (r # rs)) = fst (encode_rows ?e1 rs)" by (simp add: split_beta)
  have "attrs_ok ?e1"
    using runs_ok [OF Cons.prems(1)] grew_length [OF encode_rows_grew, of ?e1 rs] Cons.prems(2) eq
    by (simp add: encode_row_def Let_def split_beta)
  then show ?case using Cons.IH Cons.prems(2) unfolding eq by simp
qed simp

lemma rows_length [simp]: "length (snd (encode_rows e rs)) = length rs"
  by (induction rs arbitrary: e) (simp_all add: split_beta)

section \<open>The operations of a delta on the view\<close>

lemma update_prefix:
  assumes "k < length xs" "length xs = length ys"
  shows "(take k ys @ drop k xs)[k := ys ! k] = take (Suc k) ys @ drop (Suc k) xs"
proof -
  have "drop k xs = xs ! k # drop (Suc k) xs" using assms(1) by (simp add: Cons_nth_drop_Suc)
  then show ?thesis using assms by (simp add: list_update_append take_Suc_conv_app_nth)
qed

lemma view_scroll_up:
  assumes "n < length rows"
  shows "view_scroll 0 (length rows - 1) (int n) rows = drop n rows @ replicate n absent_row"
proof (cases "n = 0")
  case False
  define f where "f = (\<lambda>i rs. rs[i := if i + n \<le> length rows - 1 then rs ! (i + n) else absent_row])"
  let ?t = "drop n rows @ replicate n absent_row"
  have "fold f [0..<k] rows = take k ?t @ drop k rows" if "k \<le> length rows" for k
    using that
  proof (induction k)
    case (Suc k)
    have k: "k < length rows" using Suc.prems by simp
    have v: "(if k + n \<le> length rows - 1 then (take k ?t @ drop k rows) ! (k + n) else absent_row) = ?t ! k"
      using False assms k by (auto simp: nth_append add.commute)
    have "fold f [0..<Suc k] rows = f k (take k ?t @ drop k rows)" using Suc.IH k by simp
    also have "\<dots> = (take k ?t @ drop k rows)[k := ?t ! k]" unfolding f_def v ..
    also have "\<dots> = take (Suc k) ?t @ drop (Suc k) rows"
      by (rule update_prefix) (use k assms in simp_all)
    finally show ?case .
  qed simp
  moreover have "Suc (length rows - 1) = length rows" using assms by simp
  ultimately have "fold f [0..<Suc (length rows - 1)] rows = ?t" using assms by simp
  moreover have "view_scroll 0 (length rows - 1) (int n) rows = fold f [0..<Suc (length rows - 1)] rows"
    using assms False unfolding view_scroll_def Let_def f_def by (simp del: upt_Suc cong: if_cong)
  ultimately show ?thesis by simp
qed (simp add: view_scroll_def)

lemma view_pushes:
  "fold view_op (map OpSbPush ps) v = v\<lparr>gv_scrollback := gv_scrollback v @ ps\<rparr>"
  by (induction ps arbitrary: v) simp_all

lemma view_row_ops:
  assumes "gv_rows v = seen" "length seen = length fresh" "length fresh \<le> 65536"
  shows "fold view_op (row_ops seen fresh) v = v\<lparr>gv_rows := fresh\<rparr>"
proof -
  have "k \<le> length fresh \<Longrightarrow>
      fold view_op (map (\<lambda>i. OpRow (to_u16 i) (fresh ! i))
        (filter (\<lambda>i. slice_get seen i \<noteq> Some (fresh ! i)) [0..<k])) v =
      v\<lparr>gv_rows := take k fresh @ drop k seen\<rparr>" for k
  proof (induction k)
    case (Suc k)
    have k: "k < length fresh" "to_u16 k = k" using Suc.prems assms(3) by (simp_all add: to_u16_def U16_MAX_def)
    have u: "(take k fresh @ drop k seen)[k := fresh ! k] = take (Suc k) fresh @ drop (Suc k) seen"
      by (rule update_prefix) (use k(1) assms(2) in simp_all)
    moreover have "(take k fresh @ drop k seen)[k := fresh ! k] = take k fresh @ drop k seen" if "seen ! k = fresh ! k"
      by (rule list_update_same_conv [THEN iffD2]) (use k(1) assms(2) that in \<open>simp_all add: nth_append\<close>)
    ultimately show ?case using Suc.IH k assms(2) by (simp add: view_row_def slice_get_def)
  qed (use assms(1) in simp)
  from this [of "length fresh"] show ?thesis using assms(2) by (simp add: row_ops_def)
qed

section \<open>Agreement\<close>

text \<open>
  The view holds what the encoder's shadow says it does, and can look up every style the encoder has
  used.
\<close>

definition view_agrees :: "encoder \<Rightarrow> grid_view \<Rightarrow> bool" where
  "view_agrees e v \<longleftrightarrow> attrs_ok e \<and> en_pending e = [] \<and> knows (gv_attrs v) e \<and> gv_rows v = en_seen e \<and>
     gv_cursor v = en_cursor e \<and> gv_modes v = en_modes e \<and>
     gv_alt_screen v = flag_contains (en_modes e) M_ALT_SCREEN"

lemma carry_rows_fields [simp]:
  "gv_cols (carry_rows v k) = gv_cols v" "gv_attrs (carry_rows v k) = gv_attrs v" "gv_title (carry_rows v k) = gv_title v"
  "gv_rows (carry_rows v k) = gv_rows v" "gv_history_clears (carry_rows v k) = gv_history_clears v"
  by (simp_all add: carry_rows_def Let_def split: option.split)

lemma view_keyframe_fields [simp]:
  "gv_rows (view_keyframe v k) = kf_rows_data k" "gv_cursor (view_keyframe v k) = kf_cursor k"
  "gv_modes (view_keyframe v k) = kf_modes k" "gv_blocks (view_keyframe v k) = kf_blocks k"
  "gv_alt_screen (view_keyframe v k) = flag_contains (kf_modes k) M_ALT_SCREEN"
  "gv_attrs (view_keyframe v k) = insert_attrs (kf_attrs k) (gv_attrs v)"
  "gv_title (view_keyframe v k) = gv_title v"
  by (simp_all add: view_keyframe_def Let_def)

lemma encode_keyframe_eq:
  "encode_keyframe e g c m t bs =
     (let f = fst (encode_all_rows e g); rows = snd (encode_all_rows e g); wire = map from_block (bi_blocks bs)
      in (f\<lparr>en_pending := [], en_seen := rows, en_cursor := c, en_modes := m, en_title := t, en_seen_blocks := wire\<rparr>,
          \<lparr>kf_cols = to_u16 (g_cols g), kf_rows = to_u16 (g_rows g), kf_rows_data = rows, kf_attrs = all_attrs f,
           kf_cursor = c, kf_modes = m, kf_blocks = wire, kf_blocks_from = bi_authoritative_from bs,
           kf_history_clears = g_history_clears g, kf_title = t\<rparr>))"
  by (simp add: encode_keyframe_def Let_def split_beta)

lemma keyframe_agrees:
  assumes "attrs_ok e" "length (en_attrs (fst (encode_all_rows e g))) \<le> 65536"
  shows "view_agrees (fst (encode_keyframe e g c m t bs)) (view_keyframe v (snd (encode_keyframe e g c m t bs)))"
proof -
  let ?f = "fst (encode_all_rows e g)"
  have ok: "attrs_ok ?f" using rows_ok assms by (simp add: encode_all_rows_def)
  have k: "knows (insert_attrs (all_attrs ?f) (gv_attrs v)) ?f" by (rule all_attrs_known [OF ok])
  show ?thesis using ok k by (simp add: encode_keyframe_eq Let_def view_agrees_def attrs_ok_def knows_def)
qed

lemma scroll_ops_view:
  assumes "gv_rows v = seen" "length seen = rows" "rows \<le> 32768"
  shows "\<exists>sb. fold view_op (fst (scroll_ops seen first rows)) v =
    v\<lparr>gv_rows := snd (scroll_ops seen first rows), gv_scrollback := sb\<rparr>"
    and "length (snd (scroll_ops seen first rows)) = rows"
proof -
  let ?moved = "to_i64 first - rp_line (hd seen)"
  have "(\<exists>sb. fold view_op (fst (scroll_ops seen first rows)) v =
      v\<lparr>gv_rows := snd (scroll_ops seen first rows), gv_scrollback := sb\<rparr>) \<and>
    length (snd (scroll_ops seen first rows)) = rows"
  proof (cases "seen \<noteq> [] \<and> 0 < ?moved \<and> ?moved < int (length seen)")
    case False
    then have "scroll_ops seen first rows = ([], seen)" by (cases seen) (auto simp: scroll_ops_def Let_def)
    then show ?thesis using assms by (auto intro!: exI [of _ "gv_scrollback v"])
  next
    case True
    define n where "n = nat ?moved"
    have n: "n < length seen" "?moved = int n" "min (nat ?moved) (length seen) = n" using True by (auto simp: n_def)
    have i: "to_i16 ?moved = int n" "to_u16 (length seen - 1) = length seen - 1"
      using n assms by (auto simp: to_i16_def to_u16_def U16_MAX_def)
    have "scroll_ops seen first rows =
        (OpScroll 0 (to_u16 (length seen - 1)) (to_i16 ?moved) # map OpSbPush (take (min (nat ?moved) (length seen)) seen),
         vec_resize rows absent_row (drop (min (nat ?moved) (length seen)) seen))"
      using True by (cases seen) (simp_all add: scroll_ops_def Let_def)
    then have s: "scroll_ops seen first rows =
        (OpScroll 0 (length seen - 1) (int n) # map OpSbPush (take n seen), drop n seen @ replicate n absent_row)"
      unfolding i n(3) using n(1) assms(2) by (simp add: vec_resize_def)
    show ?thesis unfolding s using view_scroll_up [OF n(1)] assms(1,2) n(1) by (auto simp: view_pushes)
  qed
  then show "\<exists>sb. fold view_op (fst (scroll_ops seen first rows)) v =
    v\<lparr>gv_rows := snd (scroll_ops seen first rows), gv_scrollback := sb\<rparr>"
    "length (snd (scroll_ops seen first rows)) = rows" by simp_all
qed

lemma encode_delta_eq:
  assumes "g_rows g = length (en_seen e)" "length (en_seen e) \<le> 32768"
  shows "encode_delta e g c m t bs =
     (let f = fst (encode_all_rows (e\<lparr>en_modes := m\<rparr>) g); fresh = snd (encode_all_rows (e\<lparr>en_modes := m\<rparr>) g);
          sc = scroll_ops (en_seen e) (row_id (active_row g 0)) (g_rows g);
          wire = map from_block (bi_blocks bs)
      in (f\<lparr>en_seen := fresh, en_cursor := c, en_title := t, en_pending := [], en_seen_blocks := wire\<rparr>,
          \<lparr>dl_attrs = en_pending f,
           dl_ops = mode_ops e m @ fst sc @ row_ops (snd sc) fresh @
             (if c \<noteq> en_cursor e then [OpCursor c] else []) @ (if t \<noteq> en_title e then [OpTitle t] else []),
           dl_blocks = changed_blocks (en_seen_blocks e) wire\<rparr>))"
proof -
  have l: "length (snd (encode_all_rows (e\<lparr>en_modes := m\<rparr>) g)) = length (en_seen e)"
    using assms(1) by (simp add: encode_all_rows_def active_rows_def)
  have s: "length (snd (scroll_ops (en_seen e) (row_id (active_row g 0)) (g_rows g))) = length (en_seen e)"
    using scroll_ops_view(2) [of "grid_view_new\<lparr>gv_rows := en_seen e\<rparr>" "en_seen e" "g_rows g"] assms by simp
  have g: "grew (e\<lparr>en_modes := m\<rparr>) (fst (encode_all_rows (e\<lparr>en_modes := m\<rparr>) g))"
    unfolding encode_all_rows_def by (rule encode_rows_grew)
  show ?thesis using l s g
    by (simp add: encode_delta_def Let_def split_beta diff_blocks_def grew_def)
qed

lemma view_op_fields [simp]:
  "gv_rows (fold view_op (mode_ops e m) v) = gv_rows v"
  "gv_attrs (fold view_op (mode_ops e m) v) = gv_attrs v"
  "gv_cursor (fold view_op (mode_ops e m) v) = gv_cursor v"
  "gv_title (fold view_op (mode_ops e m) v) = gv_title v"
  by (simp_all add: mode_ops_def Let_def)

lemma mode_ops_view:
  assumes "gv_modes v = en_modes e" "gv_alt_screen v = flag_contains (en_modes e) M_ALT_SCREEN"
  shows "gv_modes (fold view_op (mode_ops e m) v) = m"
    "gv_alt_screen (fold view_op (mode_ops e m) v) = flag_contains m M_ALT_SCREEN"
  using assms by (auto simp: mode_ops_def Let_def)

lemma delta_agrees:
  assumes "view_agrees e v" "g_rows g = length (en_seen e)" "length (en_seen e) \<le> 32768"
    "length (en_attrs (fst (encode_delta e g c m t bs))) \<le> 65536"
  shows "view_agrees (fst (encode_delta e g c m t bs)) (view_delta v (snd (encode_delta e g c m t bs)))"
proof -
  let ?e = "e\<lparr>en_modes := m\<rparr>"
  let ?f = "fst (encode_all_rows ?e g)" and ?fresh = "snd (encode_all_rows ?e g)"
  let ?sc = "scroll_ops (en_seen e) (row_id (active_row g 0)) (length (en_seen e))"
  note ag = assms(1) [unfolded view_agrees_def]
  have g: "grew ?e ?f" unfolding encode_all_rows_def by (rule encode_rows_grew)
  have l: "length (en_attrs ?f) \<le> 65536" using assms(4) by (simp add: encode_delta_eq assms(2,3) Let_def)
  have ok: "attrs_ok ?f" unfolding encode_all_rows_def
    by (rule rows_ok) (use ag l in \<open>simp_all add: encode_all_rows_def attrs_ok_def\<close>)
  define v1 where "v1 = fold view_op (mode_ops e m) (v\<lparr>gv_attrs := insert_attrs (en_pending ?f) (gv_attrs v)\<rparr>)"
  have v1: "gv_rows v1 = en_seen e" "gv_attrs v1 = insert_attrs (en_pending ?f) (gv_attrs v)" "gv_modes v1 = m"
    "gv_cursor v1 = en_cursor e" "gv_alt_screen v1 = flag_contains m M_ALT_SCREEN"
    using ag mode_ops_view [of "v\<lparr>gv_attrs := insert_attrs (en_pending ?f) (gv_attrs v)\<rparr>" e m] by (simp_all add: v1_def)
  obtain sb where s: "fold view_op (fst ?sc) v1 = v1\<lparr>gv_rows := snd ?sc, gv_scrollback := sb\<rparr>"
    using scroll_ops_view(1) [of v1 "en_seen e" "length (en_seen e)"] v1(1) assms(2,3) by auto
  have sl: "length (snd ?sc) = length ?fresh" "length ?fresh \<le> 65536"
    using scroll_ops_view(2) [of v1 "en_seen e" "length (en_seen e)"] v1(1) assms(2,3)
    by (simp_all add: encode_all_rows_def active_rows_def)
  have r: "fold view_op (row_ops (snd ?sc) ?fresh) (v1\<lparr>gv_rows := snd ?sc, gv_scrollback := sb\<rparr>) =
      v1\<lparr>gv_rows := ?fresh, gv_scrollback := sb\<rparr>"
    by (subst view_row_ops [OF _ sl]) simp_all
  have k: "knows (insert_attrs (en_pending ?f) (gv_attrs v)) ?f"
    by (rule pending_known [OF ok g]) (use ag in \<open>simp_all add: knows_def\<close>)
  have modes: "en_modes ?f = m" using g by (simp add: grew_def)
  show ?thesis using ok k v1 modes
    by (simp add: encode_delta_eq assms(2,3) Let_def view_agrees_def view_delta_def
        v1_def [symmetric] s r attrs_ok_def knows_def)
qed

section \<open>A subscription\<close>

text \<open>
  What a daemon does for one client: a keyframe when it attaches and whenever it owes it one, which it
  does after every change of size, and deltas otherwise.  A subscription uses at most 65536 styles.
\<close>

inductive subscription :: "encoder \<Rightarrow> grid_view \<Rightarrow> grid \<Rightarrow> cursor_state \<Rightarrow> modes \<Rightarrow> bool" where
  attach:
    "length (en_attrs (fst (encode_all_rows encoder_new g))) \<le> 65536 \<Longrightarrow>
     subscription (fst (encode_keyframe encoder_new g c m t bs))
       (view_keyframe v (snd (encode_keyframe encoder_new g c m t bs))) g c m"
| keyframe:
    "subscription e v g0 c0 m0 \<Longrightarrow> length (en_attrs (fst (encode_all_rows e g))) \<le> 65536 \<Longrightarrow>
     subscription (fst (encode_keyframe e g c m t bs)) (view_keyframe v (snd (encode_keyframe e g c m t bs))) g c m"
| delta:
    "subscription e v g0 c0 m0 \<Longrightarrow> g_rows g = length (en_seen e) \<Longrightarrow> length (en_seen e) \<le> 32768 \<Longrightarrow>
     length (en_attrs (fst (encode_delta e g c m t bs))) \<le> 65536 \<Longrightarrow>
     subscription (fst (encode_delta e g c m t bs)) (view_delta v (snd (encode_delta e g c m t bs))) g c m"

text \<open>The cells a row decodes to are the host's, up to the blanks that end it, which do not travel.\<close>

definition decodes_to :: "(attr_id \<rightharpoonup> attr_def) \<Rightarrow> row_payload \<Rightarrow> row \<Rightarrow> bool" where
  "decodes_to m p r \<longleftrightarrow>
     (list_all spacer_ok (row_cells r) \<and> length (row_cells r) \<le> U16_MAX \<longrightarrow>
      fill m p = (map wire_cell (take (encoded_len (row_cells r)) (row_cells r)), True)) \<and>
     rp_line p = to_i64 (row_id r) \<and> rp_wrapped p = row_wrapped r"

lemma encoder_new_ok: "attrs_ok encoder_new"
  by (simp add: attrs_ok_def encoder_new_def)

lemma row_decodes:
  assumes "attrs_ok e" "length (en_attrs (fst (encode_row e r))) \<le> 65536" "knows m (fst (encode_row e r))"
  shows "decodes_to m (snd (encode_row e r)) r"
  using encode_row_fill(2) [OF assms, of] by (simp add: decodes_to_def)

lemma rows_decode:
  assumes "attrs_ok e" "length (en_attrs (fst (encode_rows e rs))) \<le> 65536" "knows m (fst (encode_rows e rs))"
  shows "list_all2 (decodes_to m) (snd (encode_rows e rs)) rs"
  using assms
proof (induction rs arbitrary: e)
  case (Cons r rs)
  let ?e1 = "fst (encode_row e r)"
  have eq: "encode_rows e (r # rs) = (fst (encode_rows ?e1 rs), snd (encode_row e r) # snd (encode_rows ?e1 rs))"
    by (simp add: split_beta)
  have g: "grew ?e1 (fst (encode_rows ?e1 rs))" by (rule encode_rows_grew)
  have l: "length (en_attrs ?e1) \<le> 65536" "knows m ?e1"
    using grew_length [OF g] Cons.prems(2,3) knows_grew [OF _ g] eq by simp_all
  have "attrs_ok ?e1" using rows_ok [of e "[r]"] Cons.prems(1) l(1) by (simp add: split_beta)
  then show ?case unfolding eq
    using row_decodes [OF Cons.prems(1) l] Cons.IH [of ?e1] Cons.prems(2,3) eq by simp
qed simp

lemma subscription_agrees: "subscription e v g c m \<Longrightarrow> view_agrees e v"
proof (induction rule: subscription.induct)
  case (attach g c m t bs v)
  then show ?case by (intro keyframe_agrees encoder_new_ok)
next
  case (keyframe e v g0 c0 m0 g c m t bs)
  then show ?case by (intro keyframe_agrees) (simp_all add: view_agrees_def)
next
  case (delta e v g0 c0 m0 g c m t bs)
  then show ?case by (intro delta_agrees)
qed

lemma keyframe_encoder [simp]:
  "en_cursor (fst (encode_keyframe e g c m t bs)) = c" "en_modes (fst (encode_keyframe e g c m t bs)) = m"
  by (simp_all add: encode_keyframe_eq Let_def)

lemma delta_encoder:
  assumes "g_rows g = length (en_seen e)" "length (en_seen e) \<le> 32768"
  shows "en_cursor (fst (encode_delta e g c m t bs)) = c" "en_modes (fst (encode_delta e g c m t bs)) = m"
  using encode_rows_grew [of "e\<lparr>en_modes := m\<rparr>" "active_rows g"]
  by (simp_all add: encode_delta_eq assms Let_def encode_all_rows_def grew_def)

lemma keyframe_decodes:
  assumes "attrs_ok e" "length (en_attrs (fst (encode_all_rows e g))) \<le> 65536"
  shows "list_all2 (decodes_to (gv_attrs (view_keyframe v (snd (encode_keyframe e g c m t bs)))))
    (gv_rows (view_keyframe v (snd (encode_keyframe e g c m t bs)))) (active_rows g)"
proof -
  have "knows (insert_attrs (all_attrs (fst (encode_all_rows e g))) (gv_attrs v)) (fst (encode_all_rows e g))"
    by (rule all_attrs_known) (use rows_ok assms in \<open>simp add: encode_all_rows_def\<close>)
  then show ?thesis
    using rows_decode [OF assms(1), of "active_rows g"] assms(2)
    by (simp add: encode_keyframe_eq Let_def encode_all_rows_def)
qed

lemma delta_decodes:
  assumes "view_agrees e v" "g_rows g = length (en_seen e)" "length (en_seen e) \<le> 32768"
    "length (en_attrs (fst (encode_delta e g c m t bs))) \<le> 65536"
  shows "list_all2 (decodes_to (gv_attrs (view_delta v (snd (encode_delta e g c m t bs)))))
    (gv_rows (view_delta v (snd (encode_delta e g c m t bs)))) (active_rows g)"
proof -
  let ?v = "view_delta v (snd (encode_delta e g c m t bs))" and ?e = "e\<lparr>en_modes := m\<rparr>"
  have a: "view_agrees (fst (encode_delta e g c m t bs)) ?v" by (rule delta_agrees [OF assms])
  have r: "gv_rows ?v = snd (encode_rows ?e (active_rows g))"
    and k: "knows (gv_attrs ?v) (fst (encode_rows ?e (active_rows g)))"
    and l: "length (en_attrs (fst (encode_rows ?e (active_rows g)))) \<le> 65536"
    using a assms(4) by (simp_all add: view_agrees_def encode_delta_eq assms(2,3) Let_def encode_all_rows_def knows_def)
  have "attrs_ok ?e" using assms(1) by (simp add: view_agrees_def attrs_ok_def)
  from rows_decode [OF this l k] show ?thesis unfolding r .
qed

lemma subscription_rows: "subscription e v g c m \<Longrightarrow> list_all2 (decodes_to (gv_attrs v)) (gv_rows v) (active_rows g)"
proof (induction rule: subscription.induct)
  case (attach g c m t bs v)
  then show ?case by (intro keyframe_decodes encoder_new_ok)
next
  case (keyframe e v g0 c0 m0 g c m t bs)
  then show ?case using subscription_agrees by (intro keyframe_decodes) (auto simp: view_agrees_def)
next
  case (delta e v g0 c0 m0 g c m t bs)
  then show ?case using subscription_agrees by (intro delta_decodes)
qed

lemma subscription_state: "subscription e v g c m \<Longrightarrow> en_cursor e = c \<and> en_modes e = m"
  by (cases rule: subscription.cases) (auto simp: delta_encoder)

text \<open>
  C17. Whatever sequence of keyframes and deltas a daemon sends a client, after each of them the client's
  view decodes to the cells, line ids and wrap flags of every row of the host's screen, with no attribute
  unknown, and has the host's cursor, modes and choice of screen.  The shifts, row updates and style
  definitions of a delta are relative to what the encoder remembers; this says that memory is never wrong.
\<close>

theorem subscriber_shows_host:
  assumes "subscription e v g c m"
  shows "list_all2 (decodes_to (gv_attrs v)) (gv_rows v) (active_rows g) \<and>
    gv_cursor v = c \<and> gv_modes v = m \<and> gv_alt_screen v = flag_contains m M_ALT_SCREEN"
  using subscription_rows [OF assms] subscription_agrees [OF assms] subscription_state [OF assms]
  by (simp add: view_agrees_def)

text \<open>A two-row screen, shown, then written to and shown again.\<close>

definition demo_host :: tm where
  "demo_host = write_char (\<lambda>_. Some 1) (term_new 4 2 3) 0x61"

lemma encode_runs_attrs: "length (en_attrs (fst (encode_runs r cs e))) \<le> length (en_attrs e) + length cs"
proof (induction r cs e rule: encode_runs.induct)
  case (2 r c cs e)
  let ?same = "\<lambda>d. attr_key_of d = attr_key_of c" and ?e1 = "fst (intern_attr e c)"
  have "length (en_attrs ?e1) \<le> length (en_attrs e) + 1" by (simp add: intern_attr_def Let_def split: option.split)
  then show ?case
    using 2 [OF refl refl, of ?e1 "snd (intern_attr e c)"] length_dropWhile_le [of ?same cs]
    by (simp add: Let_def split_beta)
qed simp

lemma encode_rows_attrs:
  "list_all (\<lambda>r. length (row_cells r) \<le> w) rs \<Longrightarrow>
   length (en_attrs (fst (encode_rows e rs))) \<le> length (en_attrs e) + length rs * w"
proof (induction rs arbitrary: e)
  case (Cons r rs)
  have "length (en_attrs (fst (encode_row e r))) \<le> length (en_attrs e) + w"
    using encode_runs_attrs [of r "take (encoded_len (row_cells r)) (row_cells r)" e] Cons.prems
    by (auto simp: encode_row_def Let_def split_beta min_def split: if_splits)
  then show ?case using Cons.IH [of "fst (encode_row e r)"] Cons.prems by (simp add: split_beta)
qed simp

lemma encode_screen_attrs:
  "grid_shape g \<Longrightarrow> length (en_attrs (fst (encode_all_rows e g))) \<le> length (en_attrs e) + g_rows g * g_cols g"
  using encode_rows_attrs [of "g_cols g" "active_rows g" e]
  by (simp add: encode_all_rows_def active_rows_def list_all_iff active_row_length)

lemma demo_screens:
  "grid_shape (active (term_new 4 2 3))" "g_rows (active (term_new 4 2 3)) = 2" "g_cols (active (term_new 4 2 3)) = 4"
  "grid_shape (active demo_host)" "g_rows (active demo_host) = 2" "g_cols (active demo_host) = 4"
proof -
  have "term_step (term_new 4 2 3) demo_host"
    unfolding demo_host_def by (rule write_char_step) (rule term_new_facts)
  note d = term_stepD [OF this]
  show "grid_shape (active (term_new 4 2 3))" "g_rows (active (term_new 4 2 3)) = 2"
    "g_cols (active (term_new 4 2 3)) = 4" "grid_shape (active demo_host)"
    "g_rows (active demo_host) = 2" "g_cols (active demo_host) = 4"
    using d term_new_facts term_invD(2) by (simp_all add: grid_inv_def grid_wf_def)
qed

theorem subscriber_shows_host_witness:
  "\<exists>v :: grid_view. gv_cursor v = initial_cursor \<and> gv_modes v = 7 \<and>
    list_all2 (decodes_to (gv_attrs v)) (gv_rows v) (active_rows (active demo_host))"
proof -
  let ?g = "active (term_new 4 2 3)" and ?h = "active demo_host"
  let ?k = "encode_keyframe encoder_new ?g initial_cursor 3 [] (t_blocks demo_host)"
  let ?v = "view_keyframe grid_view_new (snd ?k)"
  let ?d = "encode_delta (fst ?k) ?h initial_cursor 7 [] (t_blocks demo_host)"
  have a: "length (en_attrs (fst (encode_all_rows encoder_new ?g))) \<le> 8"
    using encode_screen_attrs [OF demo_screens(1), of encoder_new] by (simp add: demo_screens encoder_new_def)
  have k: "subscription (fst ?k) ?v ?g initial_cursor 3" by (rule subscription.attach) (use a in simp)
  have s: "length (en_seen (fst ?k)) = 2" "length (en_attrs (fst ?k)) \<le> 8"
    using a by (simp_all add: encode_keyframe_eq Let_def encode_all_rows_def active_rows_def demo_screens)
  have "length (en_attrs (fst ?d)) \<le> 65536"
    using encode_screen_attrs [OF demo_screens(4), of "fst ?k\<lparr>en_modes := 7\<rparr>"] s
    by (simp add: encode_delta_eq demo_screens Let_def)
  then have "subscription (fst ?d) (view_delta ?v (snd ?d)) ?h initial_cursor 7"
    by (intro subscription.delta [OF k]) (simp_all add: s demo_screens)
  from subscriber_shows_host [OF this] show ?thesis by blast
qed

section \<open>A switch of screens\<close>

lemma row_ops_scrollback: "gv_scrollback (fold view_op (map (\<lambda>i. OpRow (f i) (q i)) is) v) = gv_scrollback v"
  by (induction "is" arbitrary: v) simp_all

text \<open>
  C21. The encoder takes the first row's line id for how far the screen scrolled also when the two ids
  belong to different screens.  A program that leaves the alternate screen while the primary one has
  scrolled by fewer lines than the screen is high makes the delta announce a scroll, and rows of the
  alternate screen, which have no history, are filed in the client's scrollback.
\<close>

theorem leaving_alt_screen_scrolls:
  assumes "g_rows g = length (en_seen e)" "length (en_seen e) \<le> 32768" "en_seen e \<noteq> []"
    and "flag_contains (en_modes e) M_ALT_SCREEN" "\<not> flag_contains m M_ALT_SCREEN"
    and "to_i64 (row_id (active_row g 0)) = rp_line (hd (en_seen e)) + int n" "0 < n" "n < g_rows g"
  shows "gv_scrollback (view_delta v (snd (encode_delta e g c m t bs))) = gv_scrollback v @ take n (en_seen e)"
proof -
  let ?sc = "scroll_ops (en_seen e) (row_id (active_row g 0)) (length (en_seen e))"
  have ops: "fst ?sc = OpScroll 0 (to_u16 (length (en_seen e) - 1)) (to_i16 (int n)) # map OpSbPush (take n (en_seen e))"
    using assms(1,3,6-8) by (cases "en_seen e") (simp_all add: scroll_ops_def Let_def)
  have sb: "gv_scrollback (fold view_op (mode_ops e m) u) = gv_scrollback u" for u
    by (simp add: mode_ops_def Let_def)
  show ?thesis
    by (simp add: encode_delta_eq assms(1,2) Let_def view_delta_def ops view_pushes sb row_ops_def row_ops_scrollback)
qed

theorem leaving_alt_screen_scrolls_witness:
  "\<exists>p. gv_scrollback (view_delta grid_view_new
      (snd (encode_delta (encoder_new\<lparr>en_seen := [absent_row\<lparr>rp_line := 0\<rparr>, absent_row\<lparr>rp_line := 1\<rparr>], en_modes := M_ALT_SCREEN\<rparr>)
        p initial_cursor 0 [] block_index_new))) = [absent_row\<lparr>rp_line := 0\<rparr>]"
proof -
  let ?e = "encoder_new\<lparr>en_seen := [absent_row\<lparr>rp_line := 0\<rparr>, absent_row\<lparr>rp_line := 1\<rparr>], en_modes := M_ALT_SCREEN\<rparr>"
  let ?g = "(grid_new 2 2 1)\<lparr>g_storage := (storage_new 3 2), g_scrollback_len := 1\<rparr>"
  have "g_rows ?g = length (en_seen ?e)" "length (en_seen ?e) \<le> 32768" "en_seen ?e \<noteq> []"
    "flag_contains (en_modes ?e) M_ALT_SCREEN" "\<not> flag_contains (0 :: modes) M_ALT_SCREEN"
    "to_i64 (row_id (active_row ?g 0)) = rp_line (hd (en_seen ?e)) + int 1" "(0 :: nat) < 1" "1 < g_rows ?g"
    by (simp_all add: grid_new_def Let_def flag_contains_def m_defs active_row_def active_base_def st_row_def st_len_def
        storage_new_def physical_def row_new_def to_i64_def I64_MAX_def)
  from leaving_alt_screen_scrolls [OF this, of grid_view_new initial_cursor "[]" block_index_new]
  show ?thesis by (intro exI [of _ ?g]) (simp add: grid_view_new_def)
qed

section \<open>Running out of style ids\<close>

text \<open>
  C22. Style ids are 16 bits wide and the counter wraps.  Once a subscription has used 65536 styles, the
  next new one is defined under the id of the first, which is another style: rows already sent under that
  id change their look on the client, and rows sent from then on share it.
\<close>

theorem style_ids_wrap:
  assumes "attrs_ok e" "length (en_attrs e) = 65536" "attr_key_of c \<notin> fst ` set (en_attrs e)"
  shows "snd (intern_attr e c) = 0 \<and> (\<exists>k. k \<noteq> attr_key_of c \<and> (k, 0) \<in> set (en_attrs e)) \<and>
    insert_attrs (drop (length (en_pending e)) (en_pending (fst (intern_attr e c)))) m 0 = Some (def_of (attr_key_of c, 0))"
proof -
  have n: "map_of (en_attrs e) (attr_key_of c) = None" using assms(3) by (simp add: map_of_eq_None_iff)
  have "map snd (en_attrs e) ! 0 = 0" using assms(1,2) unfolding attrs_ok_def by simp
  then have "snd (en_attrs e ! 0) = 0" using assms(2) by (simp add: nth_map)
  then have "(fst (en_attrs e ! 0), 0) \<in> set (en_attrs e)"
    using nth_mem [of 0 "en_attrs e"] assms(2) by (metis prod.collapse zero_less_numeral)
  moreover from this have "fst (en_attrs e ! 0) \<noteq> attr_key_of c" using assms(3) by (metis fst_conv image_eqI)
  ultimately have "\<exists>k. k \<noteq> attr_key_of c \<and> (k, 0) \<in> set (en_attrs e)" by blast
  moreover have "en_next_attr e = 0" using assms(1,2) by (simp add: attrs_ok_def)
  ultimately show ?thesis using n by (simp add: intern_attr_def Let_def insert_attrs_def)
qed

text \<open>Every combination of flags, in the default colours.\<close>

definition every_flag :: "nat \<Rightarrow> encoder" where
  "every_flag n =
     encoder_new\<lparr>en_attrs := map (\<lambda>i. ((DefaultColor, DefaultColor, of_nat i), i)) [0..<n], en_next_attr := n mod 65536\<rparr>"

lemma every_flag_ok: "n \<le> 65536 \<Longrightarrow> attrs_ok (every_flag n)"
  by (auto simp: attrs_ok_def every_flag_def comp_def distinct_map inj_on_def word_of_nat_eq_iff take_bit_eq_mod)

theorem style_ids_wrap_witness:
  "snd (intern_attr (every_flag 65536) (default_cell\<lparr>cell_fg := Indexed 1\<rparr>)) = 0"
proof -
  have "length (en_attrs (every_flag n)) = n" for n by (simp add: every_flag_def)
  moreover have "attr_key_of (default_cell\<lparr>cell_fg := Indexed 1\<rparr>) \<notin> fst ` set (en_attrs (every_flag n))" for n
    by (auto simp: every_flag_def attr_key_of_def)
  ultimately show ?thesis using style_ids_wrap [OF every_flag_ok] by blast
qed

end
