(* ===== verification/BlockSync.thy ===== *)
theory BlockSync
  imports EncodeInv BlocksInv
begin

text \<open>
  Blocks travel as changes: what the merge of \<open>diff_blocks\<close> sends, when an eviction forces a keyframe,
  and that a client's blocks are the host's from the host's authoritative floor on.
\<close>

section \<open>Lists that ascend by id\<close>

abbreviation ascending :: "block_payload list \<Rightarrow> bool" where
  "ascending bs \<equiv> sorted_wrt (\<lambda>a b. bp_id a < bp_id b) bs"

lemma ascending_inj: "ascending bs \<Longrightarrow> a \<in> set bs \<Longrightarrow> b \<in> set bs \<Longrightarrow> bp_id a = bp_id b \<Longrightarrow> a = b"
  by (induction bs) auto

lemma ascending_eq: "ascending as \<Longrightarrow> ascending bs \<Longrightarrow> set as = set bs \<Longrightarrow> as = bs"
proof (induction as arbitrary: bs)
  case (Cons a as)
  then obtain b bs' where bs: "bs = b # bs'" by (cases bs) auto
  have "a = b" using Cons.prems unfolding bs by (metis list.set_intros(1) not_less_iff_gr_or_eq set_ConsD sorted_wrt.simps(2))
  moreover have "set as = set bs'" using Cons.prems bs \<open>a = b\<close> by auto
  ultimately show ?case using Cons bs by simp
qed simp

lemma dropWhile_ids:
  "ascending bs \<Longrightarrow> dropWhile (\<lambda>x. bp_id x < n) bs = filter (\<lambda>x. n \<le> bp_id x) bs"
proof (induction bs)
  case (Cons a bs)
  then show ?case by (auto simp: filter_id_conv intro!: filter_True [symmetric])
qed simp

lemma dropWhile_nats: "sorted_wrt (<) xs \<Longrightarrow> dropWhile (\<lambda>x. x < n) xs = filter (\<lambda>x. n \<le> (x :: nat)) xs"
proof (induction xs)
  case (Cons a xs)
  then show ?case by (auto intro!: filter_True [symmetric])
qed simp

section \<open>What is sent\<close>

text \<open>The merge of two ascending lists sends the blocks that are new or changed.\<close>

lemma changed_blocks_filter:
  "ascending old \<Longrightarrow> ascending fresh \<Longrightarrow> changed_blocks old fresh = filter (\<lambda>b. b \<notin> set old) fresh"
proof (induction fresh arbitrary: old)
  case (Cons b bs)
  let ?old = "filter (\<lambda>x. bp_id b \<le> bp_id x) old"
  have o: "ascending ?old" using Cons.prems(1) by (simp add: sorted_wrt_filter)
  have later: "bp_id b < bp_id x" if "x \<in> set bs" for x using Cons.prems(2) that by simp
  have d: "dropWhile (\<lambda>x. bp_id x < bp_id b) old = ?old" by (rule dropWhile_ids [OF Cons.prems(1)])
  have rest: "filter (\<lambda>x. x \<notin> set ?old) bs = filter (\<lambda>x. x \<notin> set old) bs"
    by (rule filter_cong) (use later in \<open>auto dest: less_imp_le\<close>)
  show ?case
  proof (cases ?old)
    case Nil
    then have "b \<notin> set old" by (auto simp: filter_empty_conv)
    then show ?thesis using Cons.IH [of "[]"] Cons.prems(2) rest Nil by (simp add: d)
  next
    case (Cons x os)
    have x: "x \<in> set old" "ascending os" "bp_id b \<le> bp_id x"
      using o Cons by (auto simp: filter_eq_Cons_iff)
    show ?thesis
    proof (cases "bp_id x = bp_id b")
      case True
      have "b \<in> set old \<longleftrightarrow> x = b" using x(1) True ascending_inj [OF Cons.prems(1)] by auto
      moreover have "filter (\<lambda>y. y \<notin> set os) bs = filter (\<lambda>y. y \<notin> set ?old) bs"
        by (rule filter_cong) (use later [of x] True Cons in auto)
      ultimately show ?thesis using Cons.IH [of os] x(2) Cons.prems(2) rest True Cons by (auto simp: d)
    next
      case False
      have "b \<notin> set ?old" using o False x(3) Cons by auto
      then have "b \<notin> set old" by auto
      then show ?thesis using Cons.IH [OF o] Cons.prems(2) rest False Cons by (simp add: d)
    qed
  qed
qed simp

text \<open>A keyframe is owed exactly when a block the client has, at or above the floor, is gone.\<close>

lemma lost_a_block_iff:
  "ascending seen \<Longrightarrow> sorted_wrt (<) fresh \<Longrightarrow>
   lost_a_block flr seen fresh \<longleftrightarrow> (\<exists>b \<in> set seen. flr \<le> bp_id b \<and> bp_id b \<notin> set fresh)"
proof (induction flr seen fresh rule: lost_a_block.induct)
  case (2 flr b bs fresh)
  let ?fresh = "filter (\<lambda>i. bp_id b \<le> i) fresh"
  have d: "dropWhile (\<lambda>i. i < bp_id b) fresh = ?fresh" by (rule dropWhile_nats [OF 2(4)])
  have o: "sorted_wrt (<) ?fresh" using 2(4) by (simp add: sorted_wrt_filter)
  have later: "bp_id b < bp_id x" if "x \<in> set bs" for x using 2(3) that by simp
  show ?case
  proof (cases "bp_id b < flr")
    case True
    then show ?thesis using 2(1) [OF True] 2(3,4) by auto
  next
    case False
    show ?thesis
    proof (cases "?fresh")
      case Nil
      then have "bp_id b \<notin> set fresh" by (auto simp: filter_empty_conv)
      then show ?thesis using False Nil by (auto simp: d)
    next
      case (Cons i rest)
      have i: "i \<in> set fresh" "bp_id b \<le> i" "sorted_wrt (<) rest" "\<forall>j \<in> set rest. i < j"
        using o Cons by (auto simp: filter_eq_Cons_iff)
      show ?thesis
      proof (cases "i = bp_id b")
        case True
        have "bp_id x \<in> set rest \<longleftrightarrow> bp_id x \<in> set fresh" if "x \<in> set bs" for x
          using later [OF that] True arg_cong [OF Cons, of set] by (auto simp: set_eq_iff dest!: spec [of _ "bp_id x"])
        then show ?thesis
          using 2(2) [OF False refl, of i rest] 2(3) i True False Cons by (auto simp: d)
      next
        case ne: False
        have "bp_id b \<notin> set ?fresh" using ne i Cons by auto
        then have "bp_id b \<notin> set fresh" by auto
        then show ?thesis using False ne Cons by (auto simp: d)
      qed
    qed
  qed
qed simp

section \<open>What becomes of it\<close>

lemma view_upsert_block_set:
  assumes "ascending bs"
  shows "ascending (view_upsert_block bs b) \<and>
    set (view_upsert_block bs b) = insert b {x \<in> set bs. bp_id x \<noteq> bp_id b}"
proof -
  have s: "sorted (map bp_id bs)" using assms by (simp add: strict_sorted_iff flip: sorted_wrt_map)
  show ?thesis
  proof (cases "binary_search_by_key bp_id (bp_id b) bs")
    case (Inr i)
    note h = binary_search_hit [OF s Inr]
    have bs: "bs = take i bs @ bs ! i # drop (Suc i) bs" using h by (simp add: id_take_nth_drop)
    have u: "bs[i := b] = take i bs @ b # drop (Suc i) bs" using h by (simp add: upd_conv_take_nth_drop)
    have d: "ascending (take i bs @ bs ! i # drop (Suc i) bs)" using assms bs by simp
    then have "ascending (take i bs @ b # drop (Suc i) bs)" using h unfolding sorted_wrt_append by auto
    moreover have "set (take i bs @ b # drop (Suc i) bs) = insert b {x \<in> set bs. bp_id x \<noteq> bp_id b}"
      using d h arg_cong [OF bs, of set] unfolding sorted_wrt_append by auto
    ultimately show ?thesis using Inr u by (simp add: view_upsert_block_def)
  next
    case (Inl i)
    note h = binary_search_miss [OF s Inl]
    have d: "ascending (take i bs @ drop i bs)" using assms by simp
    have "ascending (take i bs @ b # drop i bs)" using h d unfolding sorted_wrt_append by auto
    moreover have "set bs = set (take i bs) \<union> set (drop i bs)" by (simp flip: set_append)
    ultimately show ?thesis using Inl h by (auto simp: view_upsert_block_def)
  qed
qed

lemma view_upsert_blocks_set:
  assumes "ascending bs" "distinct (map bp_id cs)"
  shows "ascending (fold (\<lambda>b bs. view_upsert_block bs b) cs bs) \<and>
    set (fold (\<lambda>b bs. view_upsert_block bs b) cs bs) = set cs \<union> {x \<in> set bs. bp_id x \<notin> bp_id ` set cs}"
  using assms
proof (induction cs arbitrary: bs)
  case (Cons c cs)
  note u = view_upsert_block_set [OF Cons.prems(1), of c]
  show ?case using Cons.IH [of "view_upsert_block bs c"] u Cons.prems(2) by auto
qed simp

text \<open>The blocks from a floor on.\<close>

definition from_floor :: "nat \<Rightarrow> block_payload list \<Rightarrow> block_payload list" where
  "from_floor flr bs = filter (\<lambda>b. flr \<le> bp_id b) bs"

lemma view_op_blocks: "gv_blocks (view_op x v) = gv_blocks v"
  by (cases x) simp_all

lemma view_delta_blocks [simp]:
  "gv_blocks (view_delta v d) = fold (\<lambda>b bs. view_upsert_block bs b) (dl_blocks d) (gv_blocks v)"
proof -
  have "gv_blocks (fold view_op ops u) = gv_blocks u" for ops u
    by (induction ops arbitrary: u) (simp_all add: view_op_blocks)
  then show ?thesis by (simp add: view_delta_def Let_def)
qed

lemma encode_delta_blocks [simp]:
  "dl_blocks (snd (encode_delta e g c m t bs)) = changed_blocks (en_seen_blocks e) (map from_block (bi_blocks bs))"
  using encode_rows_grew [of "e\<lparr>en_modes := m\<rparr>" "active_rows g"]
  by (simp add: encode_delta_def Let_def split_beta diff_blocks_def encode_all_rows_def grew_def)

lemma set_from_floor [simp]: "b \<in> set (from_floor flr bs) \<longleftrightarrow> flr \<le> bp_id b \<and> b \<in> set bs"
  by (auto simp: from_floor_def)

lemma ascending_from_floor: "ascending bs \<Longrightarrow> ascending (from_floor flr bs)"
  by (simp add: from_floor_def sorted_wrt_filter)

text \<open>
  C20. A delta carries the blocks the merge finds new or changed, and that is enough: when the client's
  blocks were the encoder's from its floor on, and the encoder does not ask for a keyframe instead, then
  after the delta the client's blocks are the host's, in order, from the host's present floor on.  What the
  client has from before the floor is its own to keep.
\<close>

theorem delta_syncs_blocks:
  assumes "ascending (gv_blocks v)" "ascending (en_seen_blocks e)" "blocks_sorted bs"
    and "from_floor flr (gv_blocks v) = from_floor flr (en_seen_blocks e)" "flr \<le> bi_authoritative_from bs"
    and "\<not> blocks_need_keyframe e bs"
  shows "ascending (gv_blocks (view_delta v (snd (encode_delta e g c m t bs)))) \<and>
    from_floor (bi_authoritative_from bs) (gv_blocks (view_delta v (snd (encode_delta e g c m t bs)))) =
    from_floor (bi_authoritative_from bs) (map from_block (bi_blocks bs))"
proof -
  let ?fresh = "map from_block (bi_blocks bs)" and ?seen = "en_seen_blocks e" and ?v = "gv_blocks v"
  let ?f = "bi_authoritative_from bs"
  have fresh: "ascending ?fresh" using assms(3) by (simp add: blocks_sorted_def sorted_wrt_map from_block_def)
  let ?cs = "filter (\<lambda>b. b \<notin> set ?seen) ?fresh"
  let ?new = "fold (\<lambda>b bs. view_upsert_block bs b) ?cs ?v"
  have d: "distinct (map bp_id ?cs)"
    using fresh by (simp add: strict_sorted_iff distinct_map_filter flip: sorted_wrt_map)
  note new = view_upsert_blocks_set [OF assms(1) d]
  have kept: "bp_id b \<in> bp_id ` set ?fresh" if "b \<in> set ?seen" "?f \<le> bp_id b" for b
  proof -
    have "sorted_wrt (<) (map b_id (bi_blocks bs))" using assms(3) by (simp add: blocks_sorted_def sorted_wrt_map)
    from lost_a_block_iff [OF assms(2) this, of ?f] show ?thesis
      using assms(6) that by (auto simp: blocks_need_keyframe_def from_block_def image_image)
  qed
  have same: "b \<in> set ?v \<longleftrightarrow> b \<in> set ?seen" if "?f \<le> bp_id b" for b
    using arg_cong [OF assms(4), of "\<lambda>x. b \<in> set x"] that assms(5) by simp
  have "b \<in> set ?new \<longleftrightarrow> b \<in> set ?fresh" if b: "?f \<le> bp_id b" for b
  proof
    assume "b \<in> set ?new"
    then have a: "b \<in> set ?cs \<or> b \<in> set ?v \<and> bp_id b \<notin> bp_id ` set ?cs" using new by blast
    show "b \<in> set ?fresh"
    proof (cases "b \<in> set ?cs")
      case False
      then have v: "b \<in> set ?v" "bp_id b \<notin> bp_id ` set ?cs" using a by blast+
      then obtain x where x: "x \<in> set ?fresh" "bp_id b = bp_id x" using kept [OF _ b] same [OF b] by blast
      then have "x \<in> set ?seen" using v(2) by auto
      moreover have "b \<in> set ?seen" using v(1) same [OF b] by blast
      ultimately have "b = x" using ascending_inj [OF assms(2)] x(2) by blast
      then show ?thesis using x(1) by blast
    qed simp
  next
    assume a: "b \<in> set ?fresh"
    show "b \<in> set ?new"
    proof (cases "b \<in> set ?seen")
      case True
      have "bp_id b \<notin> bp_id ` set ?cs" using True ascending_inj [OF fresh a] by auto
      then show ?thesis using new True same [OF b] by simp
    qed (use a new in simp)
  qed
  then have "set (from_floor ?f ?new) = set (from_floor ?f ?fresh)"
    by (intro set_eqI) (simp only: set_from_floor cong: conj_cong)
  then have "from_floor ?f ?new = from_floor ?f ?fresh"
    by (intro ascending_eq ascending_from_floor) (use new fresh in simp_all)
  then show ?thesis using new changed_blocks_filter [OF assms(2) fresh] by simp
qed

text \<open>A block that finished, for a client that kept a block the host no longer has.\<close>

definition demo_block :: "nat \<Rightarrow> block" where
  "demo_block i =
     \<lparr>b_id = i, b_prompt_line = i, b_output_line = None, b_end_line = None, b_state = Prompt, b_command = [],
      b_cwd = [], b_started_ms = None, b_ended_ms = None, b_context = None, b_author = None\<rparr>"

theorem delta_syncs_blocks_witness:
  "from_floor 2 (gv_blocks (view_delta
      (grid_view_new\<lparr>gv_blocks := map (from_block \<circ> demo_block) [1, 2]\<rparr>)
      (snd (encode_delta (encoder_new\<lparr>en_seen_blocks := map (from_block \<circ> demo_block) [1, 2]\<rparr>)
        (grid_new 2 1 0) initial_cursor 0 []
        \<lparr>bi_blocks = [(demo_block 2)\<lparr>b_cwd := [0x2f]\<rparr>, demo_block 3], bi_next_id = 4, bi_authoritative_from = 2\<rparr>)))) =
    [from_block ((demo_block 2)\<lparr>b_cwd := [0x2f]\<rparr>), from_block (demo_block 3)]"
proof -
  let ?v = "grid_view_new\<lparr>gv_blocks := map (from_block \<circ> demo_block) [1, 2]\<rparr>"
  let ?e = "encoder_new\<lparr>en_seen_blocks := map (from_block \<circ> demo_block) [1, 2]\<rparr>"
  let ?bs = "\<lparr>bi_blocks = [(demo_block 2)\<lparr>b_cwd := [0x2f]\<rparr>, demo_block 3], bi_next_id = 4, bi_authoritative_from = 2\<rparr>"
  have "ascending (gv_blocks ?v)" "ascending (en_seen_blocks ?e)" "blocks_sorted ?bs"
    "from_floor 0 (gv_blocks ?v) = from_floor 0 (en_seen_blocks ?e)" "0 \<le> bi_authoritative_from ?bs"
    "\<not> blocks_need_keyframe ?e ?bs"
    by (simp_all add: from_block_def demo_block_def blocks_sorted_def blocks_need_keyframe_def)
  from delta_syncs_blocks [OF this, of "grid_new 2 1 0" initial_cursor 0 "[]"] show ?thesis
    by (simp add: from_floor_def from_block_def demo_block_def)
qed

end
