(* ===== verification/ReplicaSpec.thy ===== *)
theory ReplicaSpec
  imports ViewSpec GridSpec PerformInv
begin

text \<open>
  A keyframe written into a replica: what the terminal of a client holds afterwards is what the
  terminal of the host holds.
\<close>

section \<open>Rows\<close>

text \<open>
  What a replica is to hold for a row of the host: its cells up to the blanks that end it, then blanks.
\<close>

definition mirrored :: "row \<Rightarrow> cell list" where
  "mirrored h = map wire_cell (take (encoded_len (row_cells h)) (row_cells h)) @
     replicate (length (row_cells h) - encoded_len (row_cells h)) default_cell"

definition mirrors :: "row \<Rightarrow> row \<Rightarrow> bool" where
  "mirrors r h \<longleftrightarrow> map wire_cell (row_cells r) = mirrored h \<and> row_wrapped r = row_wrapped h \<and>
     row_id r = wire_line_id (to_i64 (row_id h))"

lemma wire_cell_idem [simp]: "wire_cell (wire_cell c) = wire_cell c" "wire_cell default_cell = default_cell"
  "cell_flags (wire_cell c) = cell_flags c"
  by (simp_all add: wire_cell_def default_cell_def)

lemma encoded_len_le: "encoded_len cs \<le> length cs"
  by (simp add: encoded_len_def trim_len_le)

lemma mirrored_length [simp]: "length (mirrored h) = length (row_cells h)"
  using encoded_len_le by (simp add: mirrored_def)

lemma mirrored_wire [simp]: "map wire_cell (mirrored h) = mirrored h"
  by (simp add: mirrored_def)

lemma mirrored_last:
  assumes "row_cells h \<noteq> []"
  shows "has_flag (last (mirrored h)) CF_WRAPLINE \<longleftrightarrow> row_wrapped h"
proof (cases "encoded_len (row_cells h) = length (row_cells h)")
  case True
  then show ?thesis using assms row_wrapped_last [OF assms]
    by (simp add: mirrored_def last_map has_flag_def)
next
  case False
  then have "encoded_len (row_cells h) < length (row_cells h)" using encoded_len_le [of "row_cells h"] by simp
  then have "cell_flags (row_cells h ! (length (row_cells h) - 1)) = 0"
    using trim_len_beyond [of "\<lambda>c. cell_ch c \<noteq> space \<or> cell_bg c \<noteq> DefaultColor \<or> cell_flags c \<noteq> 0"
      "row_cells h" "length (row_cells h) - 1"] by (simp add: encoded_len_def)
  then have "cell_flags (last (row_cells h)) = 0" using assms by (simp add: last_conv_nth)
  then show ?thesis using False encoded_len_le [of "row_cells h"] assms row_wrapped_last [OF assms]
    by (simp add: mirrored_def default_cell_def has_flag_def)
qed

lemma row_wrapped_wire:
  assumes "map wire_cell (row_cells r) = map wire_cell (row_cells s)"
  shows "row_wrapped r = row_wrapped s"
proof (cases "row_cells r = []")
  case True
  then show ?thesis using assms by (simp add: row_wrapped_def)
next
  case False
  then have s: "row_cells s \<noteq> []" using assms by auto
  have "wire_cell (last (row_cells r)) = wire_cell (last (row_cells s))"
    using arg_cong [OF assms, of last] False s by (simp add: last_map)
  then have "cell_flags (last (row_cells r)) = cell_flags (last (row_cells s))" using wire_cell_idem(3) by metis
  then show ?thesis using row_wrapped_last [OF False] row_wrapped_last [OF s] by (simp add: has_flag_def)
qed

lemma push_zerowidth_wire: "map wire_cell (row_cells (push_zerowidth r col m)) = map wire_cell (row_cells r)"
proof (cases "row_get r col")
  case (Some c)
  then have "(map wire_cell (row_cells r))[col := wire_cell c] = map wire_cell (row_cells r)"
    by (intro list_update_same_conv [THEN iffD2]) (auto simp: row_get_def)
  moreover have "wire_cell (c\<lparr>cell_extra := k\<rparr>) = wire_cell c" for k by (simp add: wire_cell_def)
  ultimately show ?thesis using Some
    by (auto simp: push_zerowidth_def row_set_cell_def Let_def map_update split: option.split)
qed (simp add: push_zerowidth_def)

lemma push_zerowidth_mirrors: "mirrors r h \<Longrightarrow> mirrors (push_zerowidth r col m) h"
  using row_wrapped_wire [OF push_zerowidth_wire] by (simp add: mirrors_def push_zerowidth_wire)

lemma push_marks_mirrors: "mirrors r h \<Longrightarrow> mirrors (fold (\<lambda>m r. push_zerowidth r col m) ms r) h"
  by (induction ms arbitrary: r) (simp_all add: push_zerowidth_mirrors)

lemma push_marks_length: "length (row_cells (fold (\<lambda>m r. push_zerowidth r col m) ms r)) = length (row_cells r)"
  by (induction ms arbitrary: r) simp_all

text \<open>What \<open>write_row\<close> makes of a row.\<close>

definition written :: "row \<Rightarrow> line_id \<Rightarrow> cell list \<Rightarrow> bool \<Rightarrow> row" where
  "written r i cells w =
     row_set_wrapped (r\<lparr>row_id := i, row_cells := map (\<lambda>k. case slice_get cells k of Some c \<Rightarrow> c | None \<Rightarrow> default_cell)
       [0..<length (row_cells r)]\<rparr>) w"

lemma written_length [simp]: "length (row_cells (written r i cells w)) = length (row_cells r)"
  by (simp add: written_def)

text \<open>A flag of one bit, set to what it is, is the same word.\<close>

lemma single_flag_same:
  fixes f :: "'a::len word"
  assumes "m = push_bit k 1"
  shows "flag_set f m (flag_contains f m) = f"
proof (rule bit_word_eqI)
  fix n assume "n < LENGTH('a)"
  have w: "bit m i \<longleftrightarrow> i = k \<and> k < LENGTH('a)" for i by (auto simp: assms bit_exp_iff possible_bit_word)
  have "flag_contains f m \<longleftrightarrow> (k < LENGTH('a) \<longrightarrow> bit f k)" unfolding flag_contains_bits w by auto
  then show "bit (flag_set f m (flag_contains f m)) n = bit f n"
    using \<open>n < LENGTH('a)\<close>
    by (auto simp: flag_set_def flag_remove_def bit_or_iff bit_and_iff bit_not_iff w dest: bit_imp_le_length)
qed

lemma written_mirrors:
  assumes "length (row_cells r) = length (row_cells h)" "row_cells h \<noteq> []" "row_wrapped h = w"
    "cells = map wire_cell (take (encoded_len (row_cells h)) (row_cells h))" "i = wire_line_id (to_i64 (row_id h))"
  shows "mirrors (written r i cells w) h"
proof -
  let ?m = "map (\<lambda>k. case slice_get cells k of Some c \<Rightarrow> c | None \<Rightarrow> default_cell) [0..<length (row_cells r)]"
  have m: "?m = mirrored h"
    using encoded_len_le [of "row_cells h"] assms(1)
    by (intro nth_equalityI) (auto simp: mirrored_def assms(4) nth_append slice_get_def)
  have ne: "mirrored h \<noteq> []" using assms(2) mirrored_length [of h] by (metis length_0_conv)
  let ?r = "r\<lparr>row_id := i, row_cells := mirrored h\<rparr>"
  have w: "has_flag (last (mirrored h)) CF_WRAPLINE = w" using mirrored_last [OF assms(2)] assms(3) by simp
  have "flag_set (cell_flags (last (mirrored h))) CF_WRAPLINE w = cell_flags (last (mirrored h))"
    unfolding w [symmetric] has_flag_def by (rule single_flag_same) (rule CF_WRAPLINE_def)
  then have "row_set_wrapped ?r w = ?r"
    using ne by (simp add: row_set_wrapped_def last_of_def last_conv_nth list_update_same_conv)
  then show ?thesis using w ne assms(3,5) row_wrapped_last [of ?r]
    by (simp add: mirrors_def written_def m)
qed

section \<open>Writing the rows\<close>

text \<open>A screen with no repaint of a program being tracked and no scroll region set.\<close>

definition calm :: "grid \<Rightarrow> bool" where
  "calm g \<longleftrightarrow> g_settled_pull g = 0 \<and> full_region g \<and> \<not> g_restatement_open g"

lemma calm_fields [simp]:
  "calm (bank_viewport_top g n t) = calm g" "calm (set_active_row g i r) = calm g" "calm (set_next_line_id g l) = calm g"
  "calm (set_row i g) = calm g" "calm (set_col j g) = calm g" "calm (set_viewport_restated g b) = calm g"
  "calm (clear_history g) = calm g" "calm (fst (drop_scrollback_rows g named)) = calm g"
  by (simp_all add: calm_def bank_viewport_top_def Let_def set_active_row_def set_next_line_id_def set_row_def set_col_def
      set_viewport_restated_def clear_history_def drop_scrollback_rows_def split_beta)


text \<open>A screen where row \<open>i\<close> may have changed, and now satisfies \<open>P\<close>.\<close>

definition row_put :: "grid \<Rightarrow> nat \<Rightarrow> (row \<Rightarrow> bool) \<Rightarrow> grid \<Rightarrow> bool" where
  "row_put g i P g' \<longleftrightarrow> grid_wf g' \<and> g_cols g' = g_cols g \<and> g_rows g' = g_rows g \<and> P (active_row g' i) \<and>
     (\<forall>j < g_rows g. j \<noteq> i \<longrightarrow> active_row g' j = active_row g j) \<and> calm g' = calm g"

lemma row_put_set:
  assumes "grid_wf g" "i < g_rows g" "length (row_cells r) = g_cols g" "P r"
  shows "row_put g i P (set_active_row g i r)"
  using set_active_row_wf [OF assms(1-3)] active_row_set [OF grid_wfD(1) [OF assms(1)] assms(2) _ assms(3)] assms(2,4)
  by (simp add: row_put_def frame_simps)

lemma row_put_trans: "row_put g i P h \<Longrightarrow> row_put h i Q k \<Longrightarrow> row_put g i Q k"
  by (simp add: row_put_def)

lemma write_row_put:
  assumes "grid_wf (active t)" "i < g_rows (active t)" "P (written (active_row (active t) i) l cells w)"
  shows "row_put (active t) i P (active (write_row t i l cells w))"
proof -
  have "active (write_row t i l cells w) = set_active_row (active t) i (written (active_row (active t) i) l cells w)"
    using assms(2) by (simp add: write_row_def written_def Let_def)
  then show ?thesis
    using row_put_set [of "active t" i "written (active_row (active t) i) l cells w" P] assms
      active_row_length [OF grid_wfD(1) [OF assms(1)] assms(2)] by simp
qed

lemma push_marks_put:
  assumes "grid_wf (active t)" "i < g_rows (active t)" "mirrors (active_row (active t) i) h"
  shows "row_put (active t) i (\<lambda>r. mirrors r h) (active (push_marks t i col ms))"
proof (cases "ms = []")
  case True
  then show ?thesis using assms by (simp add: push_marks_def row_put_def)
next
  case False
  let ?r = "fold (\<lambda>m r. push_zerowidth r col m) ms (active_row (active t) i)"
  have "active (push_marks t i col ms) = set_active_row (active t) i ?r"
    using False assms(2) by (simp add: push_marks_def)
  then show ?thesis
    using row_put_set [of "active t" i ?r "\<lambda>r. mirrors r h"] assms push_marks_mirrors [OF assms(3)]
      active_row_length [OF grid_wfD(1) [OF assms(1)] assms(2)] by (simp add: push_marks_length)
qed

lemma push_all_marks_put:
  assumes "grid_wf (active t)" "i < g_rows (active t)" "mirrors (active_row (active t) i) h"
  shows "row_put (active t) i (\<lambda>r. mirrors r h) (active (fold (\<lambda>(col, ms) t. push_marks t i col ms) cs t))"
  using assms
proof (induction cs arbitrary: t)
  case (Cons c cs)
  obtain col ms where c: "c = (col, ms)" by (cases c)
  have p: "row_put (active t) i (\<lambda>r. mirrors r h) (active (push_marks t i col ms))"
    by (rule push_marks_put [OF Cons.prems])
  then have "row_put (active (push_marks t i col ms)) i (\<lambda>r. mirrors r h)
      (active (fold (\<lambda>(col, ms) t. push_marks t i col ms) cs (push_marks t i col ms)))"
    by (intro Cons.IH) (use Cons.prems(2) in \<open>simp_all add: row_put_def\<close>)
  then show ?case using row_put_trans [OF p] c by simp
qed (simp add: row_put_def)

text \<open>A payload that carries a row of the host, for a client with the definitions \<open>m\<close>.\<close>

definition carries :: "(attr_id \<rightharpoonup> attr_def) \<Rightarrow> row_payload \<Rightarrow> row \<Rightarrow> bool" where
  "carries m p h \<longleftrightarrow> fill m p = (map wire_cell (take (encoded_len (row_cells h)) (row_cells h)), True) \<and>
     rp_line p = to_i64 (row_id h) \<and> rp_wrapped p = row_wrapped h"

lemma apply_row_put:
  assumes "grid_wf (active t)" "i < g_rows (active t)" "carries (ap_attrs a) p h"
    "length (row_cells h) = g_cols (active t)"
  shows "row_put (active t) i (\<lambda>r. mirrors r h) (active (fst (apply_row a i p t)))"
proof -
  let ?w = "write_row t i (wire_line_id (rp_line p)) (fst (fill (ap_attrs a) p)) (rp_wrapped p)"
  have len: "length (row_cells (active_row (active t) i)) = length (row_cells h)"
    using active_row_length [OF grid_wfD(1) [OF assms(1)] assms(2)] assms(4) by simp
  have "0 < g_cols (active t)" using grid_shapeD(2) [OF grid_wfD(1) [OF assms(1)]] .
  then have "mirrors (written (active_row (active t) i) (wire_line_id (rp_line p)) (fst (fill (ap_attrs a) p)) (rp_wrapped p)) h"
    using assms(3,4) by (intro written_mirrors len) (auto simp: carries_def)
  then have w: "row_put (active t) i (\<lambda>r. mirrors r h) (active ?w)" by (rule write_row_put [OF assms(1,2)])
  then have "row_put (active ?w) i (\<lambda>r. mirrors r h)
      (active (fold (\<lambda>(col, ms) t. push_marks t i col ms) (marks_from 0 (rp_runs p)) ?w))"
    by (intro push_all_marks_put) (use assms(2) in \<open>simp_all add: row_put_def\<close>)
  then show ?thesis using row_put_trans [OF w] by (simp add: apply_row_def split_beta)
qed

text \<open>Row by row, the rows from \<open>i\<close> on are the host's.\<close>

lemma apply_rows_mirror:
  assumes "grid_wf (active t)" "list_all2 (carries (ap_attrs a)) ps hs" "i + length hs = g_rows (active t)"
    "list_all (\<lambda>h. length (row_cells h) = g_cols (active t)) hs"
  shows "grid_wf (active (apply_rows a i ps t)) \<and> calm (active (apply_rows a i ps t)) = calm (active t) \<and>
    g_cols (active (apply_rows a i ps t)) = g_cols (active t) \<and>
    g_rows (active (apply_rows a i ps t)) = g_rows (active t) \<and>
    (\<forall>j < i. active_row (active (apply_rows a i ps t)) j = active_row (active t) j) \<and>
    (\<forall>j < length hs. mirrors (active_row (active (apply_rows a i ps t)) (i + j)) (hs ! j))"
  using assms(2,1,3,4)
proof (induction arbitrary: i t rule: list_all2_induct)
  case (Cons p ps h hs)
  let ?t = "fst (apply_row a i p t)"
  have r: "row_put (active t) i (\<lambda>r. mirrors r h) (active ?t)"
    by (rule apply_row_put) (use Cons.prems Cons.hyps(1) in simp_all)
  have ih: "grid_wf (active (apply_rows a (i + 1) ps ?t)) \<and>
    calm (active (apply_rows a (i + 1) ps ?t)) = calm (active ?t) \<and>
    g_cols (active (apply_rows a (i + 1) ps ?t)) = g_cols (active ?t) \<and>
    g_rows (active (apply_rows a (i + 1) ps ?t)) = g_rows (active ?t) \<and>
    (\<forall>j < i + 1. active_row (active (apply_rows a (i + 1) ps ?t)) j = active_row (active ?t) j) \<and>
    (\<forall>j < length hs. mirrors (active_row (active (apply_rows a (i + 1) ps ?t)) (i + 1 + j)) (hs ! j))"
    by (rule Cons.IH) (use r Cons.prems in \<open>simp_all add: row_put_def\<close>)
  have "mirrors (active_row (active (apply_rows a (i + 1) ps ?t)) (i + j)) ((h # hs) ! j)" if "j < length (h # hs)" for j
    using ih r that by (cases j) (simp_all add: row_put_def)
  then show ?case using ih r Cons.prems(2) by (simp add: row_put_def)
qed simp

section \<open>Making room\<close>

text \<open>
  A replica a keyframe can be written into: its screens are sound, its modes say which of them is shown,
  and its screens are calm: repaints and regions are the business of the owner of the program.
\<close>

definition settled :: "tm \<Rightarrow> bool" where
  "settled t \<longleftrightarrow> calm (t_grid t) \<and> (case t_alt t of None \<Rightarrow> True | Some a \<Rightarrow> calm a)"

definition replica_ok :: "tm \<Rightarrow> bool" where
  "replica_ok t \<longleftrightarrow> screens_ok t \<and> settled t \<and> (flag_contains (t_modes t) M_ALT_SCREEN \<longleftrightarrow> in_alt_screen t)"

lemma replica_active: "replica_ok t \<Longrightarrow> grid_inv (active t) \<and> calm (active t)"
  by (simp add: replica_ok_def screens_ok_def settled_def active_def split: option.splits)

lemma resize_width_open: "g_restatement_open (fst (resize_width g cols t)) = g_restatement_open g"
proof -
  have "g_restatement_open (fst (place_rows g s c out n tgt m)) = g_restatement_open g" for s c out n tgt m
    by (simp add: place_rows_def Let_def)
  then have "g_restatement_open (fst (reflow g cols t)) = g_restatement_open g"
    by (simp add: reflow_def Let_def split: prod.split)
  then show ?thesis by (simp add: resize_width_def split_beta)
qed

lemma resize_calm:
  assumes "calm g"
  shows "calm (fst (grid_resize g cols rows t))"
proof -
  have w: "g_settled_pull (fst (resize_width (begin_resize g c) c t)) = 0"
    "g_restatement_open (fst (resize_width (begin_resize g c) c t)) = g_restatement_open g" for c
    using assms by (simp_all add: resize_width_frame resize_width_open begin_resize_def calm_def)
  have f: "g_settled_pull (finish_resize (resize_height h cs rs t)) \<le> g_settled_pull h"
    "g_restatement_open (finish_resize (resize_height h cs rs t)) = g_restatement_open h"
    "full_region (finish_resize (resize_height h cs rs t))" for h cs rs
    using finish_resize_pull [of h cs rs t] by (simp_all add: finish_resize_def region_full_def)
  have "g_settled_pull h = 0 \<Longrightarrow> \<not> g_restatement_open h \<Longrightarrow> calm (finish_resize (resize_height h cs rs t))" for h cs rs
    unfolding calm_def using f [of h cs rs] by (metis le_zero_eq)
  moreover have "fst (grid_resize g cols rows t) = (if max cols 1 = g_cols g \<and> max rows 1 = g_rows g then g
      else finish_resize (resize_height (fst (resize_width (begin_resize g (max cols 1)) (max cols 1) t))
        (max cols 1) (max rows 1) t))"
    by (simp add: grid_resize_def Let_def split_beta)
  moreover have "\<not> g_restatement_open g" using assms by (simp add: calm_def)
  ultimately show ?thesis using w assms by (cases "max cols 1 = g_cols g \<and> max rows 1 = g_rows g") simp_all
qed

lemma replica_resize:
  assumes "replica_ok t"
  shows "replica_ok (remote_resize t cols rows) \<and> g_cols (active (remote_resize t cols rows)) = max cols 1 \<and>
    g_rows (active (remote_resize t cols rows)) = max rows 1"
proof -
  define u where "u = term_set_restated t True"
  have u: "screens_ok u" "settled u" "t_modes u = t_modes t" "in_alt_screen u = in_alt_screen t"
    using assms view_steps(4) [of _ True]
    by (auto simp: u_def replica_ok_def screens_ok_def settled_def term_set_restated_def in_alt_screen_def
        grid_step_def split: option.splits)
  define g where "g = fst (grid_resize (t_grid u) cols rows (t_template u))"
  have g: "grid_inv g" "calm g" "g_cols g = max cols 1" "g_rows g = max rows 1"
    using u(1,2) grid_resize_inv [of "t_grid u" cols rows "t_template u"] resize_calm [of "t_grid u"]
    by (simp_all add: g_def screens_ok_def settled_def)
  have b: "grid_inv (bank_viewport_top g k (t_template u))" "g_cols (bank_viewport_top g k (t_template u)) = max cols 1"
    "g_rows (bank_viewport_top g k (t_template u)) = max rows 1" for k
    using edit_steps(16) [OF g(1), of k "t_template u"] g(2-4) by (simp_all add: grid_step_def calm_def)
  define t' where "t' = term_resize u cols rows"
  have main: "t_grid t' = g \<or> (\<exists>k. t_grid t' = bank_viewport_top g k (t_template u))" "t_modes t' = t_modes u"
    "t_alt t' = map_option (\<lambda>a. fst (grid_resize a cols rows (t_template u))) (t_alt u)"
    by (auto simp: t'_def term_resize_def Let_def split_beta g_def touch_full_def push_event_def split: option.split)
  have grid: "grid_inv (t_grid t')" "calm (t_grid t')" "g_cols (t_grid t') = max cols 1"
    "g_rows (t_grid t') = max rows 1" using main(1) g b by auto
  show ?thesis
    using main(2,3) grid u assms grid_resize_inv resize_calm
    by (auto simp: remote_resize_def u_def [symmetric] t'_def [symmetric] replica_ok_def screens_ok_def
        settled_def in_alt_screen_def active_def split: option.splits)
qed

lemma fresh_alt_settled: "calm (fresh_alt t)"
proof -
  let ?n = "grid_new (g_cols (t_grid t)) (g_rows (t_grid t)) 0"
  have "calm ?n" by (simp add: calm_def grid_new_def Let_def region_full_def)
  moreover have "calm g \<Longrightarrow> calm (clear_all g c)" for g c
    by (simp add: calm_def clear_all_def erase_rows_def Let_def frame_simps region_full_def
        cancel_restate_debt_def end_restatement_window_def)
  ultimately show ?thesis by (simp add: fresh_alt_def)
qed

lemma sync_kitty_fields [simp]:
  "t_grid (sync_kitty_modes t) = t_grid t" "t_alt (sync_kitty_modes t) = t_alt t"
  "flag_contains (t_modes (sync_kitty_modes t)) M_ALT_SCREEN = flag_contains (t_modes t) M_ALT_SCREEN"
  by (simp_all add: sync_kitty_modes_def Let_def touch_def with_kitty_flags_alt)

lemma replica_set_alt:
  assumes "replica_ok t"
  shows "replica_ok (set_alt_screen t e) \<and> in_alt_screen (set_alt_screen t e) = e \<and>
    g_cols (active (set_alt_screen t e)) = g_cols (active t) \<and> g_rows (active (set_alt_screen t e)) = g_rows (active t)"
proof -
  have i: "grid_inv (t_grid t)" using assms by (simp add: replica_ok_def screens_ok_def)
  consider "e = in_alt_screen t" | "\<not> e" "in_alt_screen t" | "e" "\<not> in_alt_screen t" by blast
  then show ?thesis
  proof cases
    case 1
    then show ?thesis using assms by (simp add: set_alt_screen_def in_alt_screen_def)
  next
    case 2
    then have "set_alt_screen t e = touch_full (sync_kitty_modes (t\<lparr>t_alt := None, t_modes := flag_remove (t_modes t) M_ALT_SCREEN\<rparr>))"
      by (simp add: set_alt_screen_def Let_def in_alt_screen_def)
    then show ?thesis using assms 2
      by (auto simp: replica_ok_def screens_ok_def settled_def in_alt_screen_def active_def alt_flag_reads
          touch_full_def split: option.splits)
  next
    case 3
    then have "set_alt_screen t e = touch_full (sync_kitty_modes (t\<lparr>t_alt := Some (fresh_alt t), t_modes := t_modes t OR M_ALT_SCREEN\<rparr>))"
      by (simp add: set_alt_screen_def Let_def in_alt_screen_def fresh_alt_def)
    then show ?thesis using assms 3 fresh_alt_inv [OF i] fresh_alt_settled [of t]
      by (auto simp: replica_ok_def screens_ok_def settled_def in_alt_screen_def active_def alt_flag_reads
          touch_full_def split: option.splits)
  qed
qed

lemma replica_modes:
  assumes "replica_ok t"
  shows "replica_ok (remote_set_modes t m) \<and> t_modes (remote_set_modes t m) = m \<and>
    g_cols (active (remote_set_modes t m)) = g_cols (active t) \<and> g_rows (active (remote_set_modes t m)) = g_rows (active t)"
proof -
  let ?w = "flag_contains m M_ALT_SCREEN"
  define u where "u = (if ?w \<noteq> flag_contains (t_modes t) M_ALT_SCREEN then set_alt_screen t ?w else t)"
  have u: "replica_ok u" "in_alt_screen u = ?w" "g_cols (active u) = g_cols (active t)" "g_rows (active u) = g_rows (active t)"
    using assms replica_set_alt [OF assms, of ?w] by (auto simp: u_def replica_ok_def)
  have eq: "remote_set_modes t m = touch (u\<lparr>t_modes := m\<rparr>)" by (simp add: remote_set_modes_def u_def Let_def)
  show ?thesis using u unfolding eq
    by (simp add: replica_ok_def screens_ok_def settled_def in_alt_screen_def touch_def active_def cong: option.case_cong)
qed

lemma replica_clear: 
  assumes "replica_ok t"
  shows "replica_ok (remote_clear_history t) \<and> t_modes (remote_clear_history t) = t_modes t \<and>
    g_cols (active (remote_clear_history t)) = g_cols (active t) \<and> g_rows (active (remote_clear_history t)) = g_rows (active t)"
  using assms edit_steps(15) [of "t_grid t"]
  by (auto simp: remote_clear_history_def replica_ok_def screens_ok_def settled_def in_alt_screen_def touch_full_def
      active_def grid_step_def frame_simps split: option.splits)

text \<open>Filing the displaced rows, or taking the named ones back, leaves a sound screen of the same size.\<close>

lemma replica_reconcile:
  assumes "grid_inv (active t)" "calm (active t)"
  shows "grid_wf (active (reconcile_history b named t)) \<and> calm (active (reconcile_history b named t)) \<and>
    g_cols (active (reconcile_history b named t)) = g_cols (active t) \<and>
    g_rows (active (reconcile_history b named t)) = g_rows (active t) \<and>
    t_modes (reconcile_history b named t) = t_modes t"
proof -
  have m: "t_modes (on_active f u) = t_modes u" for f u by (simp add: on_active_def split: option.split)
  have w: "grid_wf (active t)" using grid_invD(1) [OF assms(1)] .
  have p: "g_settled_pull (active t) = 0" using assms(2) by (simp add: calm_def)
  have bank: "grid_wf (active (bank_displaced t n)) \<and> calm (active (bank_displaced t n)) \<and>
      g_cols (active (bank_displaced t n)) = g_cols (active t) \<and>
      g_rows (active (bank_displaced t n)) = g_rows (active t) \<and> t_modes (bank_displaced t n) = t_modes t" for n
    using edit_steps(16) [OF assms(1) p, of n "t_template t"] w assms(2) grid_invD(1)
    by (auto simp: bank_displaced_def grid_step_def m touch_full_def active_def on_active_def split: option.split)
  have drop: "grid_wf (active (drop_history t named)) \<and> calm (active (drop_history t named)) \<and>
      g_cols (active (drop_history t named)) = g_cols (active t) \<and>
      g_rows (active (drop_history t named)) = g_rows (active t) \<and> t_modes (drop_history t named) = t_modes t"
    using drop_scrollback_wf [OF assms(1), of named] assms(2)
    by (auto simp: drop_history_def Let_def split_beta frame_simps m touch_full_def active_def on_active_def split: option.splits)
  show ?thesis using w assms(2) bank drop by (simp add: reconcile_history_def Let_def split: option.split)
qed

section \<open>After the rows\<close>

definition same_rows :: "tm \<Rightarrow> tm \<Rightarrow> bool" where
  "same_rows t u \<longleftrightarrow> g_cols (active u) = g_cols (active t) \<and> g_rows (active u) = g_rows (active t) \<and>
     active_row (active u) = active_row (active t) \<and>
     (grid_wf (active t) \<longrightarrow> grid_wf (active u)) \<and> (calm (active t) \<longrightarrow> calm (active u))"

lemma same_rows_trans: "same_rows t u \<Longrightarrow> same_rows u v \<Longrightarrow> same_rows t v"
  by (simp add: same_rows_def)

lemma modes_on_active [simp]: "t_modes (on_active f t) = t_modes t"
  by (simp add: on_active_def split: option.split)

lemma modes_touch [simp]: "t_modes (touch t) = t_modes t" "t_modes (touch_full t) = t_modes t"
  by (simp_all add: touch_def touch_full_def)

lemma next_id_same [simp]:
  "grid_wf (set_next_line_id g l) = grid_wf g" "active_row (set_next_line_id g l) = active_row g"
  "g_cols (set_next_line_id g l) = g_cols g" "g_rows (set_next_line_id g l) = g_rows g"
  by (simp_all add: set_next_line_id_def set_next_id_def active_row_def st_row_def fun_eq_iff active_base_def
      physical_def st_len_def grid_wf_def grid_shape_def cursor_ok_def region_ok_def ring_ok_def st_iter_def)

lemma sync_lines_same: "same_rows t (sync_lines t l) \<and> t_modes (sync_lines t l) = t_modes t"
  by (simp add: sync_lines_def sync_next_line_id_def same_rows_def)

lemma cursor_same:
  "grid_wf g \<Longrightarrow> grid_wf (set_row (min i (g_rows g - 1)) (set_col (min j (g_cols g - 1)) g))"
  "active_row (set_row i (set_col j g)) = active_row g"
  by (auto simp: set_row_def set_col_def active_row_def active_base_def fun_eq_iff grid_wf_def grid_shape_def
      cursor_ok_def region_ok_def)

lemma apply_rows_modes: "t_modes (apply_rows a i ps t) = t_modes t"
proof (induction ps arbitrary: i t)
  case (Cons p ps)
  have "t_modes (fold (\<lambda>(col, ms) t. push_marks t i col ms) cs u) = t_modes u" for cs u
    by (induction cs arbitrary: u) (auto simp: push_marks_def)
  then have "t_modes (fst (apply_row a i p t)) = t_modes t"
    by (simp add: apply_row_def split_beta write_row_def)
  then show ?case using Cons.IH by simp
qed simp

lemma apply_cursor_same:
  "same_rows t (apply_cursor c t) \<and> t_modes (apply_cursor c t) = flag_set (t_modes t) M_SHOW_CURSOR (cu_visible c) \<and>
   cur_row (g_cursor (active (apply_cursor c t))) = min (cu_row c) (g_rows (active t) - 1) \<and>
   cur_col (g_cursor (active (apply_cursor c t))) = min (cu_col c) (g_cols (active t) - 1)"
proof -
  have "flag_contains (flag_set x M_SHOW_CURSOR b) M_ALT_SCREEN = flag_contains x M_ALT_SCREEN" for x b
    by (rule flag_contains_set_other) (simp add: m_defs)
  moreover have "active (x\<lparr>t_cursor_style := y\<rparr>) = active x" for x y
    by (simp add: active_def cong: option.case_cong)
  ultimately have "active (apply_cursor c t) = set_row (min (cu_row c) (g_rows (active t) - 1))
      (set_col (min (cu_col c) (g_cols (active t) - 1)) (active t))"
    "t_modes (apply_cursor c t) = flag_set (t_modes t) M_SHOW_CURSOR (cu_visible c)"
    by (simp_all add: apply_cursor_def Let_def remote_set_cursor_def remote_set_modes_def remote_set_cursor_style_def)
  then show ?thesis using cursor_same(1) [of "active t"] cursor_same(2)
    by (simp add: same_rows_def) (simp add: set_row_def set_col_def)
qed

lemma blocks_same:
  "same_rows t (fold (\<lambda>b t. upsert_block t (f b)) bs t) \<and> t_modes (fold (\<lambda>b t. upsert_block t (f b)) bs t) = t_modes t \<and>
   g_cursor (active (fold (\<lambda>b t. upsert_block t (f b)) bs t)) = g_cursor (active t)"
proof (induction bs arbitrary: t)
  case (Cons b bs)
  have "same_rows t (upsert_block t (f b)) \<and> t_modes (upsert_block t (f b)) = t_modes t \<and>
      g_cursor (active (upsert_block t (f b))) = g_cursor (active t)"
    by (simp add: upsert_block_def same_rows_def)
  then show ?case using Cons.IH [of "upsert_block t (f b)"] by (simp add: same_rows_def)
qed (simp add: same_rows_def)

text \<open>The steps of a keyframe after the rows are written.\<close>

definition finish_keyframe :: "keyframe \<Rightarrow> nat \<Rightarrow> tm \<Rightarrow> tm" where
  "finish_keyframe k sequence t =
     (let t = apply_cursor (kf_cursor k) (sync_lines t (max_line_of (kf_rows_data k)));
          t = fold (\<lambda>b t. upsert_block t (to_block b)) (kf_blocks k) (drop_blocks_from t (kf_blocks_from k));
          t = (if kf_title k \<noteq> [] then remote_set_title t (kf_title k) else t)
      in set_seq (touch_full t) sequence)"

lemma finish_keyframe_same:
  "same_rows t (finish_keyframe k n t) \<and>
   t_modes (finish_keyframe k n t) = flag_set (t_modes t) M_SHOW_CURSOR (cu_visible (kf_cursor k)) \<and>
   cur_row (g_cursor (active (finish_keyframe k n t))) = min (cu_row (kf_cursor k)) (g_rows (active t) - 1) \<and>
   cur_col (g_cursor (active (finish_keyframe k n t))) = min (cu_col (kf_cursor k)) (g_cols (active t) - 1)"
proof -
  define u where "u = apply_cursor (kf_cursor k) (sync_lines t (max_line_of (kf_rows_data k)))"
  have u: "same_rows t u" "t_modes u = flag_set (t_modes t) M_SHOW_CURSOR (cu_visible (kf_cursor k))"
    "cur_row (g_cursor (active u)) = min (cu_row (kf_cursor k)) (g_rows (active t) - 1)"
    "cur_col (g_cursor (active u)) = min (cu_col (kf_cursor k)) (g_cols (active t) - 1)"
    using sync_lines_same [of t "max_line_of (kf_rows_data k)"]
      apply_cursor_same [of "sync_lines t (max_line_of (kf_rows_data k))" "kf_cursor k"]
    by (auto simp: u_def same_rows_def)
  define v where "v = fold (\<lambda>b t. upsert_block t (to_block b)) (kf_blocks k) (drop_blocks_from u (kf_blocks_from k))"
  have v: "same_rows u v" "t_modes v = t_modes u" "g_cursor (active v) = g_cursor (active u)"
    using blocks_same [of "drop_blocks_from u (kf_blocks_from k)" to_block "kf_blocks k"]
    by (simp_all add: v_def drop_blocks_from_def same_rows_def)
  have a: "active (set_seq w n) = active w" "active (remote_set_title w x) = active w"
    "t_modes (set_seq w n) = t_modes w" "t_modes (remote_set_title w x) = t_modes w" for w x
    by (simp_all add: set_seq_def remote_set_title_def active_def touch_def cong: option.case_cong)
  show ?thesis using u v
    by (simp add: finish_keyframe_def Let_def u_def [symmetric] v_def [symmetric] a same_rows_def)
qed

section \<open>The keyframe\<close>

text \<open>The replica before its rows are written, for the size of the keyframe.\<close>

definition prepare :: "nat \<Rightarrow> keyframe \<Rightarrow> tm \<Rightarrow> tm" where
  "prepare clears k t =
     (let t = (if g_cols (active t) \<noteq> kf_cols k \<or> g_rows (active t) \<noteq> kf_rows k
               then remote_resize t (kf_cols k) (kf_rows k) else t);
          t = remote_set_modes t (kf_modes k);
          cleared = clears < kf_history_clears k;
          t = (if cleared then remote_clear_history t else t)
      in reconcile_history cleared (map wire_line_id (filter (\<lambda>l. 0 \<le> l) (map rp_line (kf_rows_data k)))) t)"

lemma prepare_wf:
  assumes "replica_ok t" "0 < kf_cols k" "0 < kf_rows k"
  shows "grid_wf (active (prepare n k t)) \<and> calm (active (prepare n k t)) \<and> g_cols (active (prepare n k t)) = kf_cols k \<and>
    g_rows (active (prepare n k t)) = kf_rows k \<and> t_modes (prepare n k t) = kf_modes k"
proof -
  define t1 where "t1 = (if g_cols (active t) \<noteq> kf_cols k \<or> g_rows (active t) \<noteq> kf_rows k
    then remote_resize t (kf_cols k) (kf_rows k) else t)"
  have t1: "replica_ok t1" "g_cols (active t1) = kf_cols k" "g_rows (active t1) = kf_rows k"
    using replica_resize [OF assms(1), of "kf_cols k" "kf_rows k"] assms by (auto simp: t1_def)
  define t2 where "t2 = (if n < kf_history_clears k then remote_clear_history (remote_set_modes t1 (kf_modes k))
    else remote_set_modes t1 (kf_modes k))"
  have t2: "replica_ok t2" "g_cols (active t2) = kf_cols k" "g_rows (active t2) = kf_rows k" "t_modes t2 = kf_modes k"
    using replica_modes [OF t1(1), of "kf_modes k"] replica_clear [of "remote_set_modes t1 (kf_modes k)"] t1
    by (auto simp: t2_def)
  have eq: "prepare n k t = reconcile_history (n < kf_history_clears k)
      (map wire_line_id (filter (\<lambda>l. 0 \<le> l) (map rp_line (kf_rows_data k)))) t2"
    unfolding prepare_def Let_def t2_def t1_def ..
  show ?thesis unfolding eq using replica_reconcile [of t2] replica_active [OF t2(1)] t2 by simp
qed

lemma apply_keyframe_stages:
  "snd (apply_keyframe a t k n) =
     finish_keyframe k n (apply_rows
       (if ap_history_clears a < kf_history_clears k
        then (absorb_attrs a (kf_attrs k))\<lparr>ap_history_clears := kf_history_clears k\<rparr> else absorb_attrs a (kf_attrs k))
       0 (kf_rows_data k) (prepare (ap_history_clears a) k t))"
proof -
  have "ap_history_clears (absorb_attrs a ds) = ap_history_clears a" for ds by (simp add: absorb_attrs_def)
  then show ?thesis
    unfolding apply_keyframe_def finish_keyframe_def prepare_def Let_def snd_conv by (simp only:)
qed

lemma carries_decodes:
  "decodes_to m p h \<Longrightarrow> list_all spacer_ok (row_cells h) \<Longrightarrow> length (row_cells h) \<le> U16_MAX \<Longrightarrow> carries m p h"
  by (simp add: decodes_to_def carries_def)

lemma keyframe_carries:
  assumes "attrs_ok e" "length (en_attrs (fst (encode_all_rows e g))) \<le> 65536" "grid_shape g" "g_cols g \<le> U16_MAX"
    "list_all (\<lambda>h. list_all spacer_ok (row_cells h)) (active_rows g)"
  shows "list_all2 (carries (insert_attrs (all_attrs (fst (encode_all_rows e g))) m)) (snd (encode_all_rows e g)) (active_rows g)"
proof -
  have "knows (insert_attrs (all_attrs (fst (encode_all_rows e g))) m) (fst (encode_all_rows e g))"
    by (rule all_attrs_known) (use rows_ok assms in \<open>simp add: encode_all_rows_def\<close>)
  then have "list_all2 (decodes_to (insert_attrs (all_attrs (fst (encode_all_rows e g))) m))
      (snd (encode_all_rows e g)) (active_rows g)"
    using rows_decode [OF assms(1), of "active_rows g"] assms(2) by (simp add: encode_all_rows_def)
  then show ?thesis
    by (rule list.rel_mono_strong) (use assms in \<open>auto intro!: carries_decodes simp: active_rows_def list_all_iff active_row_length\<close>)
qed

lemma keyframe_mirrors:
  assumes "replica_ok t" "attrs_ok e" "length (en_attrs (fst (encode_all_rows e g))) \<le> 65536"
    and "grid_shape g" "g_cols g \<le> U16_MAX" "g_rows g \<le> U16_MAX"
    and "list_all (\<lambda>h. list_all spacer_ok (row_cells h)) (active_rows g)"
  shows "let k = snd (encode_keyframe e g c m ttl bs); u = snd (apply_keyframe a t k n)
    in g_cols (active u) = g_cols g \<and> g_rows (active u) = g_rows g \<and>
       list_all2 mirrors (active_rows (active u)) (active_rows g) \<and>
       t_modes u = flag_set m M_SHOW_CURSOR (cu_visible c) \<and>
       cur_row (g_cursor (active u)) = min (cu_row c) (g_rows g - 1) \<and>
       cur_col (g_cursor (active u)) = min (cu_col c) (g_cols g - 1) \<and>
       grid_wf (active u) \<and> calm (active u)"
proof -
  let ?k = "snd (encode_keyframe e g c m ttl bs)"
  have k: "kf_cols ?k = g_cols g" "kf_rows ?k = g_rows g" "kf_modes ?k = m" "kf_cursor ?k = c"
    "kf_rows_data ?k = snd (encode_all_rows e g)" "kf_attrs ?k = all_attrs (fst (encode_all_rows e g))"
    using assms(5,6) by (simp_all add: encode_keyframe_eq Let_def to_u16_def)
  define b where "b = (if ap_history_clears a < kf_history_clears ?k
    then (absorb_attrs a (kf_attrs ?k))\<lparr>ap_history_clears := kf_history_clears ?k\<rparr> else absorb_attrs a (kf_attrs ?k))"
  have b: "ap_attrs b = insert_attrs (all_attrs (fst (encode_all_rows e g))) (ap_attrs a)"
    by (simp add: b_def absorb_attrs_def insert_attrs_def k)
  define p where "p = prepare (ap_history_clears a) ?k t"
  have p: "grid_wf (active p)" "g_cols (active p) = g_cols g" "g_rows (active p) = g_rows g" "t_modes p = m" "calm (active p)"
    using prepare_wf [OF assms(1), of ?k "ap_history_clears a"] grid_shapeD(2,3) [OF assms(4)]
    unfolding p_def k by simp_all
  define q where "q = apply_rows b 0 (snd (encode_all_rows e g)) p"
  have len: "length (active_rows g) = g_rows g" by (simp add: active_rows_def)
  have q: "g_cols (active q) = g_cols g" "g_rows (active q) = g_rows g" "t_modes q = m"
    "grid_wf (active q)" "calm (active q)"
    "\<forall>j < g_rows g. mirrors (active_row (active q) j) (active_rows g ! j)"
    using apply_rows_mirror [OF p(1) keyframe_carries [OF assms(2-5,7), of "ap_attrs a", folded b], of 0]
      active_row_length [OF assms(4)] apply_rows_modes
    by (simp_all add: p q_def len list_all_iff active_rows_def)
  have u: "snd (apply_keyframe a t ?k n) = finish_keyframe ?k n q"
    by (simp add: apply_keyframe_stages b_def p_def q_def k)
  show ?thesis
    using q finish_keyframe_same [of q ?k n] unfolding Let_def u k
    by (simp add: same_rows_def list_all2_conv_all_nth active_rows_def)
qed

text \<open>
  C18. A keyframe replicates the host's screen.  Whatever size and screen a client's terminal had, and
  whatever styles it knew, after applying a keyframe of the host's grid its screen has the host's size, and
  every row holds the host's cells (character, colours and flags), line id and wrap flag, blanks after the
  last cell that matters; its cursor and modes are those the keyframe named.
\<close>

theorem keyframe_replicates:
  assumes "replica_ok t" "attrs_ok e" "length (en_attrs (fst (encode_all_rows e g))) \<le> 65536"
    and "grid_shape g" "g_cols g \<le> U16_MAX" "g_rows g \<le> U16_MAX"
    and "list_all (\<lambda>h. list_all spacer_ok (row_cells h)) (active_rows g)"
  shows "let u = snd (apply_keyframe a t (snd (encode_keyframe e g c m ttl bs)) n)
    in g_cols (active u) = g_cols g \<and> g_rows (active u) = g_rows g \<and>
       list_all2 mirrors (active_rows (active u)) (active_rows g) \<and>
       t_modes u = flag_set m M_SHOW_CURSOR (cu_visible c) \<and>
       cur_row (g_cursor (active u)) = min (cu_row c) (g_rows g - 1) \<and>
       cur_col (g_cursor (active u)) = min (cu_col c) (g_cols g - 1)"
  using keyframe_mirrors [OF assms, where a = a and c = c and m = m and ttl = ttl and bs = bs and n = n] by (simp add: Let_def)

text \<open>A host with a line of text, shown to a client of another size.\<close>

definition demo_row :: row where
  "demo_row = \<lparr>row_cells = map (\<lambda>c. default_cell\<lparr>cell_ch := c\<rparr>) [0x6c, 0x73, space, space], row_extras = [], row_id = 1\<rparr>"

lemma demo_spacers: "list_all spacer_ok (row_cells demo_row)"
  by (simp add: demo_row_def spacer_ok_def has_flag_def flag_contains_def default_cell_def cf_defs)

lemma replica_ok_new: "replica_ok (term_new c r l)"
proof -
  have "term_inv (term_new c r l)" by (rule term_inv_new)
  moreover have "settled (term_new c r l)" by (simp add: settled_def calm_def term_new_def grid_new_def Let_def region_full_def)
  ultimately show ?thesis by (simp add: replica_ok_def term_inv_def state_ok_def modes_ok_def)
qed

theorem keyframe_replicates_witness:
  "\<exists>u :: tm. g_cols (active u) = 4 \<and> g_rows (active u) = 1 \<and> mirrors (active_row (active u) 0) demo_row"
proof -
  define h where "h = active (term_new 4 1 3)"
  define g where "g = set_active_row h 0 demo_row"
  have h: "grid_wf h" "g_cols h = 4" "g_rows h = 1"
    using term_invD(2) [OF term_inv_new [of 4 1 3]] by (simp_all add: h_def grid_inv_def)
      (simp_all add: term_new_def active_def grid_new_def Let_def)
  have l: "length (row_cells demo_row) = g_cols h" by (simp add: demo_row_def h)
  have s: "grid_shape g" "g_cols g = 4" "g_rows g = 1"
    using set_active_row_wf [OF h(1) _ l, of 0] by (simp_all add: g_def h frame_simps grid_wf_def)
  have r: "active_row g 0 = demo_row"
    using active_row_set [OF grid_wfD(1) [OF h(1)], of 0 0 demo_row] l by (simp add: g_def h)
  have n: "length (en_attrs (fst (encode_all_rows encoder_new g))) \<le> 65536"
    using encode_screen_attrs [OF s(1), of encoder_new] unfolding s by (simp add: encoder_new_def)
  have "list_all (\<lambda>h. list_all spacer_ok (row_cells h)) (active_rows g)"
    using demo_spacers r by (simp add: active_rows_def s)
  from keyframe_replicates [OF replica_ok_new [of 3 5 0] encoder_new_ok n s(1) _ _ this, of applier_new initial_cursor 3 "[]" block_index_new 9]
  show ?thesis using s r by (auto simp: Let_def U16_MAX_def active_rows_def)
qed

end
