(* ===== verification/FollowSpec.thy ===== *)
theory FollowSpec
  imports ReplicaSpec
begin

text \<open>
  What every decoder owes an encoder, as a contract: a keyframe makes the client show the host, and a
  delta keeps it so.  The flat view and the replica terminal both honour it, the replica as long as the
  host stays on one of its two screens.
\<close>

section \<open>Scrolling a replica\<close>

lemma scroll_up_rows:
  assumes "grid_wf g" "calm g" "0 < n" "n < g_rows g"
  shows "grid_wf (scroll_up g n t) \<and> calm (scroll_up g n t) \<and>
    (\<forall>j < g_rows g - n. active_row (scroll_up g n t) j = active_row g (j + n))"
proof -
  let ?c = "cancel_restate_debt g" and ?u = "scroll_up g n t"
  have open': "\<not> (g_restated g \<and> g_restatement_open g)" and full: "full_region g" using assms(2) by (simp_all add: calm_def)
  have w: "grid_wf ?u" using scroll_up_inv [OF assms(1)] by simp
  have c: "grid_shape ?c" "g_settled_pull ?c = 0"
    using grid_wfD(1) [OF cancel_restate_debt_wf [OF assms(1)]] by (simp_all add: frame_simps)
  have n: "min n (region_height g) = n" using full assms(4) by simp
  have e: "?u = scroll_screen_up ?c n t" using scroll_up_screen [OF assms(3) full open', of t] unfolding n .
  have f: "fresh_rows ?c n t = fresh_rows g n t" "overflow ?c n = overflow g n" "grid_lines ?c = grid_lines g"
    by (simp_all add: fresh_rows_def overflow_def frame_simps next_line_id_def cancel_restate_debt_def
        end_restatement_window_def)
  have l: "grid_lines ?u = drop (overflow g n) (grid_lines g @ fresh_rows g n t)"
    "g_scrollback_len ?u = min (g_scrollback_len g + n) (g_scrollback_limit g)"
    using scroll_screen_up_rows [OF c, of n t] unfolding e f
    by (simp_all add: frame_simps cancel_restate_debt_def end_restatement_window_def)
  note sg = grid_wfD(1) [OF assms(1)] and su = grid_wfD(1) [OF w]
  have len: "length (grid_lines g) = g_scrollback_len g + g_rows g" "g_scrollback_len g \<le> g_scrollback_limit g"
    using sg by (simp_all add: grid_shape_def del: length_st_iter)
  have "active_row ?u j = active_row g (j + n)" if j: "j < g_rows g - n" for j
  proof -
    have "overflow g n + (g_scrollback_len ?u + j) = g_scrollback_len g + n + j"
      using l(2) len(2) by (auto simp: overflow_def min_def)
    then have "grid_lines ?u ! (g_scrollback_len ?u + j) = grid_lines g ! (g_scrollback_len g + (j + n))"
      unfolding l(1) using j len(1) by (simp add: nth_append add_ac)
    then show ?thesis using active_row_eq [OF su, of j] active_row_eq [OF sg, of "j + n"] j by (simp add: frame_simps)
  qed
  moreover have "calm ?u"
    using assms(2) unfolding e calm_def
    by (simp add: frame_simps cancel_restate_debt_def end_restatement_window_def)
  ultimately show ?thesis using w by blast
qed

section \<open>The operations of a delta on a replica\<close>

lemma mode_ops_replica:
  assumes "t_modes t = en_modes e" "flag_contains m M_ALT_SCREEN = flag_contains (en_modes e) M_ALT_SCREEN"
    "m AND modes_all = m"
  shows "\<exists>u. fold (apply_op a s) (mode_ops e m) (t, out, ml) = (u, out, ml) \<and> same_rows t u \<and> t_modes u = m \<and>
    g_cursor (active u) = g_cursor (active t)"
proof (cases "m = en_modes e")
  case True
  then show ?thesis using assms by (simp add: mode_ops_def Let_def same_rows_def)
next
  case False
  have "same_rows t (touch (t\<lparr>t_modes := m\<rparr>)) \<and> t_modes (touch (t\<lparr>t_modes := m\<rparr>)) = m \<and>
      g_cursor (active (touch (t\<lparr>t_modes := m\<rparr>))) = g_cursor (active t)"
    by (simp add: same_rows_def)
  moreover have "remote_set_modes t (from_bits_truncate m) = touch (t\<lparr>t_modes := m\<rparr>)"
    using assms by (simp add: remote_set_modes_def from_bits_truncate_def Let_def)
  ultimately show ?thesis using False assms(2) by (simp add: mode_ops_def Let_def)
qed

lemma pushes_replica: "fold (apply_op a True) (map OpSbPush ps) r = r"
proof (induction ps arbitrary: r)
  case (Cons p ps)
  have "apply_op a True (OpSbPush p) r = r" by (cases r) simp
  then show ?case using Cons.IH by simp
qed simp

text \<open>The scroll: rows that survive move up with the shadow, and the rest of the shadow is absent.\<close>

lemma scroll_ops_replica:
  fixes first :: line_id
  assumes "grid_wf (active t)" "calm (active t)" "length seen = g_rows (active t)" "length seen \<le> 32768"
    "fst (scroll_ops seen first (length seen)) \<noteq> [] \<Longrightarrow> s"
  defines "sc \<equiv> scroll_ops seen first (length seen)"
  shows "\<exists>u n. fold (apply_op a s) (fst sc) (t, out, ml) = (u, out, ml) \<and>
    grid_wf (active u) \<and> calm (active u) \<and> g_cols (active u) = g_cols (active t) \<and> g_rows (active u) = g_rows (active t) \<and>
    t_modes u = t_modes t \<and> g_cursor (active u) = g_cursor (active t) \<and> n \<le> length seen \<and>
    snd sc = drop n seen @ replicate n absent_row \<and>
    (\<forall>j < length seen - n. active_row (active u) j = active_row (active t) (j + n))"
proof (cases "seen \<noteq> [] \<and> 0 < to_i64 first - rp_line (hd seen) \<and> to_i64 first - rp_line (hd seen) < int (length seen)")
  case False
  then have "sc = ([], seen)" by (cases seen) (auto simp: sc_def scroll_ops_def Let_def)
  then show ?thesis using assms(1-3) by (intro exI [of _ t] exI [of _ 0]) simp
next
  case True
  define n where "n = nat (to_i64 first - rp_line (hd seen))"
  have n: "0 < n" "n < length seen" "to_i64 first - rp_line (hd seen) = int n" using True by (auto simp: n_def)
  have i: "to_i16 (int n) = int n" "to_u16 (length seen - 1) = length seen - 1"
    using n assms(4) by (auto simp: to_i16_def to_u16_def U16_MAX_def)
  have sc: "sc = (OpScroll 0 (length seen - 1) (int n) # map OpSbPush (take n seen), drop n seen @ replicate n absent_row)"
    using True n i by (cases seen) (auto simp: sc_def scroll_ops_def Let_def vec_resize_def)
  define u where "u = remote_scroll t 0 (length seen - 1) (int n)"
  have u: "active u = scroll_up (active t) n (t_template t)" "t_modes u = t_modes t"
    using n assms(3) by (simp_all add: u_def remote_scroll_def Let_def)
  have s: "s = True" using assms(5) sc [unfolded sc_def] by simp
  have ud: "remote_scroll t 0 (g_rows (active t) - Suc 0) (int n) = u" by (simp add: u_def assms(3))
  show ?thesis unfolding s
    using scroll_up_rows [OF assms(1,2) n(1), of "t_template t"] n(2) assms(3) u
    by (intro exI [of _ u] exI [of _ n]) (simp add: sc pushes_replica ud frame_simps)
qed

lemma apply_row_fields: "t_modes (fst (apply_row a i p t)) = t_modes t"
proof -
  have "t_modes (fold (\<lambda>(col, ms) t. push_marks t i col ms) cs u) = t_modes u" for cs u
    by (induction cs arbitrary: u) (auto simp: push_marks_def)
  then show ?thesis by (simp add: apply_row_def split_beta write_row_def)
qed

lemma apply_row_cursor: "g_cursor (active (fst (apply_row a i p t))) = g_cursor (active t)"
proof -
  have "g_cursor (active (fold (\<lambda>(col, ms) t. push_marks t i col ms) cs u)) = g_cursor (active u)" for cs u
    by (induction cs arbitrary: u) (auto simp: push_marks_def frame_simps)
  then show ?thesis by (simp add: apply_row_def split_beta write_row_def frame_simps)
qed

text \<open>The rows: those sent are written, those not sent already show what they should.\<close>

lemma row_ops_replica:
  assumes "grid_wf (active t)" "length fresh = g_rows (active t)" "length fresh \<le> 65536" "length hs = length fresh"
    "\<forall>j < length fresh. carries (ap_attrs a) (fresh ! j) (hs ! j) \<and> length (row_cells (hs ! j)) = g_cols (active t)"
    "\<forall>j < length fresh. slice_get seen j = Some (fresh ! j) \<longrightarrow> mirrors (active_row (active t) j) (hs ! j)"
  shows "\<exists>u ml'. fold (apply_op a s) (row_ops seen fresh) (t, AppliedOk, ml) = (u, AppliedOk, ml') \<and>
    grid_wf (active u) \<and> calm (active u) = calm (active t) \<and> g_cols (active u) = g_cols (active t) \<and>
    g_rows (active u) = g_rows (active t) \<and> t_modes u = t_modes t \<and> g_cursor (active u) = g_cursor (active t) \<and>
    (\<forall>j < length fresh. mirrors (active_row (active u) j) (hs ! j))"
proof -
  let ?ops = "\<lambda>k. map (\<lambda>i. OpRow (to_u16 i) (fresh ! i)) (filter (\<lambda>i. slice_get seen i \<noteq> Some (fresh ! i)) [0..<k])"
  have "\<exists>u ml'. fold (apply_op a s) (?ops k) (t, AppliedOk, ml) = (u, AppliedOk, ml') \<and>
      grid_wf (active u) \<and> calm (active u) = calm (active t) \<and> g_cols (active u) = g_cols (active t) \<and>
      g_rows (active u) = g_rows (active t) \<and> t_modes u = t_modes t \<and> g_cursor (active u) = g_cursor (active t) \<and>
      (\<forall>j < k. mirrors (active_row (active u) j) (hs ! j)) \<and>
      (\<forall>j < length fresh. k \<le> j \<longrightarrow> active_row (active u) j = active_row (active t) j)" if "k \<le> length fresh" for k
    using that
  proof (induction k)
    case 0
    then show ?case using assms(1) by simp
  next
    case (Suc k)
    then obtain u ml' where u: "fold (apply_op a s) (?ops k) (t, AppliedOk, ml) = (u, AppliedOk, ml')"
      "grid_wf (active u)" "calm (active u) = calm (active t)" "g_cols (active u) = g_cols (active t)"
      "g_rows (active u) = g_rows (active t)" "t_modes u = t_modes t" "g_cursor (active u) = g_cursor (active t)"
      "\<forall>j < k. mirrors (active_row (active u) j) (hs ! j)"
      "\<forall>j < length fresh. k \<le> j \<longrightarrow> active_row (active u) j = active_row (active t) j" by auto
    have k: "k < length fresh" "to_u16 k = k" using Suc.prems assms(3) by (simp_all add: to_u16_def U16_MAX_def)
    show ?case
    proof (cases "slice_get seen k = Some (fresh ! k)")
      case True
      then have "mirrors (active_row (active u) k) (hs ! k)" using assms(6) k(1) u(9) by simp
      then have "\<forall>j < Suc k. mirrors (active_row (active u) j) (hs ! j)" using u(8) less_Suc_eq by auto
      moreover have "?ops (Suc k) = ?ops k" using True by simp
      ultimately show ?thesis using u by (intro exI [of _ u] exI [of _ ml']) simp
    next
      case False
      let ?v = "fst (apply_row a k (fresh ! k) u)"
      have p: "row_put (active u) k (\<lambda>r. mirrors r (hs ! k)) (active ?v)"
        by (rule apply_row_put) (use u assms k in simp_all)
      have known: "snd (apply_row a k (fresh ! k) u)"
        using assms(5) k(1) by (simp add: apply_row_def carries_def)
      have ops: "?ops (Suc k) = ?ops k @ [OpRow k (fresh ! k)]" using False k(2) by simp
      have "fold (apply_op a s) (?ops (Suc k)) (t, AppliedOk, ml) = (?v, AppliedOk, max ml' (rp_line (fresh ! k)))"
        unfolding ops using u(1,5) known k(1) assms(2) by (simp add: split_beta)
      moreover have "\<forall>j < Suc k. mirrors (active_row (active ?v) j) (hs ! j)"
        using p u(8,5) k(1) assms(2) by (auto simp: row_put_def less_Suc_eq)
      moreover have "\<forall>j < length fresh. Suc k \<le> j \<longrightarrow> active_row (active ?v) j = active_row (active t) j"
        using p u(9,5) assms(2) by (auto simp: row_put_def)
      ultimately show ?thesis using p u apply_row_fields apply_row_cursor
        by (intro exI [of _ ?v] exI [of _ "max ml' (rp_line (fresh ! k))"]) (simp add: row_put_def)
    qed
  qed
  from this [of "length fresh"] show ?thesis unfolding row_ops_def by blast
qed

section \<open>What a replica holds\<close>

text \<open>A payload that pictures a row for every client that knows the encoder's styles.\<close>

definition pictures :: "encoder \<Rightarrow> row_payload \<Rightarrow> row \<Rightarrow> bool" where
  "pictures e p h \<longleftrightarrow> (\<forall>m. knows m e \<longrightarrow> carries m p h)"

lemma pictures_grew: "pictures e p h \<Longrightarrow> set (en_attrs e) \<subseteq> set (en_attrs f) \<Longrightarrow> pictures f p h"
  by (auto simp: pictures_def knows_def)

text \<open>One payload cannot picture two rows of the same width that a replica could tell apart.\<close>

lemma pictures_mirrors:
  assumes "pictures e p h" "pictures e p h'" "knows m e" "length (row_cells h) = length (row_cells h')" "mirrors r h"
  shows "mirrors r h'"
proof -
  have c: "carries m p h" "carries m p h'" using assms(1-3) by (simp_all add: pictures_def)
  then have t: "map wire_cell (take (encoded_len (row_cells h)) (row_cells h)) =
      map wire_cell (take (encoded_len (row_cells h')) (row_cells h'))" by (simp add: carries_def)
  from arg_cong [OF t, of length] have "encoded_len (row_cells h) = encoded_len (row_cells h')"
    using encoded_len_le [of "row_cells h"] encoded_len_le [of "row_cells h'"] by simp
  then have "mirrored h = mirrored h'" using t assms(4) by (simp add: mirrored_def)
  then show ?thesis using assms(5) c by (simp add: mirrors_def carries_def)
qed

lemma pictures_present: "pictures e p h \<Longrightarrow> knows m e \<Longrightarrow> p \<noteq> absent_row"
  by (auto simp: pictures_def carries_def absent_row_def to_i64_def I64_MIN_def I64_MAX_def split: if_splits)

text \<open>A host screen within the bounds of the wire, its cursor and modes as the session reads them.\<close>

definition host_ok :: "grid \<Rightarrow> cursor_state \<Rightarrow> modes \<Rightarrow> bool" where
  "host_ok g c m \<longleftrightarrow> grid_shape g \<and> g_cols g \<le> U16_MAX \<and> g_rows g \<le> 32768 \<and>
     list_all (\<lambda>h. list_all spacer_ok (row_cells h)) (active_rows g) \<and>
     cu_row c < g_rows g \<and> cu_col c < g_cols g \<and> cu_visible c = flag_contains m M_SHOW_CURSOR \<and> m AND modes_all = m"

definition holds :: "encoder \<Rightarrow> grid \<Rightarrow> nat \<Rightarrow> applier \<times> tm \<Rightarrow> bool" where
  "holds e g n v \<longleftrightarrow> (case v of (a, t) \<Rightarrow>
     attrs_ok e \<and> en_pending e = [] \<and> knows (ap_attrs a) e \<and> ap_applied a = n \<and>
     host_ok g (en_cursor e) (en_modes e) \<and> list_all2 (pictures e) (en_seen e) (active_rows g) \<and>
     grid_wf (active t) \<and> calm (active t) \<and> g_cols (active t) = g_cols g \<and> g_rows (active t) = g_rows g \<and>
     list_all2 mirrors (active_rows (active t)) (active_rows g) \<and> t_modes t = en_modes e \<and>
     cur_row (g_cursor (active t)) = cu_row (en_cursor e) \<and> cur_col (g_cursor (active t)) = cu_col (en_cursor e))"

lemma rows_picture:
  assumes "attrs_ok e" "length (en_attrs (fst (encode_rows e rs))) \<le> 65536"
    "list_all (\<lambda>h. list_all spacer_ok (row_cells h) \<and> length (row_cells h) \<le> U16_MAX) rs"
  shows "list_all2 (pictures (fst (encode_rows e rs))) (snd (encode_rows e rs)) rs"
proof -
  have "carries m (snd (encode_rows e rs) ! i) (rs ! i)" if "i < length rs" "knows m (fst (encode_rows e rs))" for m i
    using rows_decode [OF assms(1,2) that(2)] assms(3) that(1)
    by (simp add: list_all2_conv_all_nth list_all_length carries_decodes)
  then show ?thesis by (simp add: list_all2_conv_all_nth pictures_def)
qed

lemma show_cursor_same: "flag_set m M_SHOW_CURSOR (flag_contains m M_SHOW_CURSOR) = m"
  by (rule single_flag_same) (rule M_SHOW_CURSOR_def)

section \<open>A keyframe makes the replica hold the host\<close>

lemma keyframe_applier:
  "ap_attrs (fst (apply_keyframe a t k n)) = insert_attrs (kf_attrs k) (ap_attrs a)"
  "ap_applied (fst (apply_keyframe a t k n)) = n"
  by (simp_all add: apply_keyframe_def Let_def absorb_attrs_def insert_attrs_def)

lemma host_rows:
  "host_ok g c m \<Longrightarrow>
   list_all (\<lambda>h. list_all spacer_ok (row_cells h) \<and> length (row_cells h) \<le> U16_MAX \<and> length (row_cells h) = g_cols g) (active_rows g)"
  by (auto simp: host_ok_def list_all_iff active_rows_def active_row_length)

lemma keyframe_holds:
  assumes "attrs_ok e" "length (en_attrs (fst (encode_all_rows e g))) \<le> 65536" "host_ok g c m" "replica_ok t"
  shows "holds (fst (encode_keyframe e g c m ttl bs)) g n (apply_keyframe a t (snd (encode_keyframe e g c m ttl bs)) n)"
proof -
  let ?k = "snd (encode_keyframe e g c m ttl bs)" and ?f = "fst (encode_all_rows e g)"
  have h: "grid_shape g" "g_cols g \<le> U16_MAX" "g_rows g \<le> U16_MAX"
    "list_all (\<lambda>h. list_all spacer_ok (row_cells h)) (active_rows g)" "cu_row c < g_rows g" "cu_col c < g_cols g"
    "cu_visible c = flag_contains m M_SHOW_CURSOR"
    using assms(3) by (simp_all add: host_ok_def U16_MAX_def)
  have ok: "attrs_ok ?f" using rows_ok assms(1,2) by (simp add: encode_all_rows_def)
  have k: "knows (insert_attrs (all_attrs ?f) (ap_attrs a)) ?f" by (rule all_attrs_known [OF ok])
  have p: "list_all2 (pictures ?f) (snd (encode_all_rows e g)) (active_rows g)"
    unfolding encode_all_rows_def
    by (rule rows_picture [OF assms(1)]) (use assms(2) host_rows [OF assms(3)] in \<open>auto simp: encode_all_rows_def list_all_iff\<close>)
  have f: "attrs_ok (?f\<lparr>en_pending := [], en_seen := x1, en_cursor := x2, en_modes := x3, en_title := x4, en_seen_blocks := x5\<rparr>) = attrs_ok ?f"
    "knows w (?f\<lparr>en_pending := [], en_seen := x1, en_cursor := x2, en_modes := x3, en_title := x4, en_seen_blocks := x5\<rparr>) = knows w ?f"
    "pictures (?f\<lparr>en_pending := [], en_seen := x1, en_cursor := x2, en_modes := x3, en_title := x4, en_seen_blocks := x5\<rparr>) = pictures ?f"
    for x1 x2 x3 x4 x5 w by (simp_all add: attrs_ok_def knows_def pictures_def fun_eq_iff)
  have en: "fst (encode_keyframe e g c m ttl bs) = ?f\<lparr>en_pending := [], en_seen := snd (encode_all_rows e g), en_cursor := c,
      en_modes := m, en_title := ttl, en_seen_blocks := map from_block (bi_blocks bs)\<rparr>"
    and at: "kf_attrs ?k = all_attrs ?f" by (simp_all add: encode_keyframe_eq Let_def)
  note u = keyframe_mirrors [OF assms(4,1,2) h(1-4), where a = a and c = c and m = m and ttl = ttl and bs = bs and n = n, unfolded Let_def]
  show ?thesis
    using u h ok k p assms(3) show_cursor_same [of m] keyframe_applier [of a t ?k n]
    unfolding en holds_def split_beta f at by simp
qed

section \<open>A delta keeps it so\<close>

lemma tail_ops_replica:
  assumes "cu_row c < g_rows (active t)" "cu_col c < g_cols (active t)" "cu_visible c = flag_contains (t_modes t) M_SHOW_CURSOR"
    "cur_row (g_cursor (active t)) = cu_row c0" "cur_col (g_cursor (active t)) = cu_col c0"
  shows "\<exists>u. fold (apply_op a s) ((if c \<noteq> c0 then [OpCursor c] else []) @ (if b then [OpTitle ttl] else [])) (t, out, ml) =
      (u, out, ml) \<and> same_rows t u \<and> t_modes u = t_modes t \<and>
    cur_row (g_cursor (active u)) = cu_row c \<and> cur_col (g_cursor (active u)) = cu_col c"
proof -
  define v where "v = (if c \<noteq> c0 then apply_cursor c t else t)"
  have v: "same_rows t v" "t_modes v = t_modes t" "cur_row (g_cursor (active v)) = cu_row c" "cur_col (g_cursor (active v)) = cu_col c"
    using apply_cursor_same [of t c] show_cursor_same [of "t_modes t"] assms by (auto simp: v_def same_rows_def)
  have a: "active (remote_set_title w x) = active w" "t_modes (remote_set_title w x) = t_modes w" for w x
    by (simp_all add: remote_set_title_def active_def touch_def cong: option.case_cong)
  have "fold (apply_op a s) ((if c \<noteq> c0 then [OpCursor c] else []) @ (if b then [OpTitle ttl] else [])) (t, out, ml) =
      (if b then remote_set_title v ttl else v, out, ml)" by (simp add: v_def)
  then show ?thesis using v by (auto simp: same_rows_def a)
qed

lemma scroll_ops_begin: "fst (scroll_ops seen first rows) \<noteq> [] \<Longrightarrow> list_ex is_scroll (fst (scroll_ops seen first rows))"
  by (auto simp: scroll_ops_def Let_def split: list.splits)

lemma carries_known: "pictures f p h \<Longrightarrow> knows m f \<Longrightarrow> carries m p h"
  by (simp add: pictures_def)

lemma scrolled_rows_replica:
  assumes old: "list_all2 mirrors (active_rows g1) hs0" "list_all2 (pictures e) seen hs0" "set (en_attrs e) \<subseteq> set (en_attrs f)" "knows m f"
    and new: "list_all2 (pictures f) fresh hs" "length hs = length hs0"
    and widths: "\<forall>h \<in> set hs0 \<union> set hs. length (row_cells h) = w"
    and moved: "\<forall>j < length seen - n. active_row g2 j = active_row g1 (j + n)" "n \<le> length seen"
  shows "\<forall>j < length fresh. slice_get (drop n seen @ replicate n absent_row) j = Some (fresh ! j) \<longrightarrow>
    mirrors (active_row g2 j) (hs ! j)"
proof (intro allI impI)
  fix j assume j: "j < length fresh" "slice_get (drop n seen @ replicate n absent_row) j = Some (fresh ! j)"
  have l: "length seen = length hs0" "length fresh = length hs0" "g_rows g1 = length hs0"
    using list_all2_lengthD [OF old(1)] list_all2_lengthD [OF old(2)] list_all2_lengthD [OF new(1)] new(2)
    by (simp_all add: active_rows_def)
  have fj: "pictures f (fresh ! j) (hs ! j)" using new(1) j(1) by (rule list_all2_nthD)
  have "j < length seen - n"
  proof (rule ccontr)
    assume "\<not> j < length seen - n"
    then have "fresh ! j = absent_row" using j moved(2) by (auto simp: nth_append)
    then show False using pictures_present [OF fj assms(4)] by simp
  qed
  then have k: "j + n < length hs0" "seen ! (j + n) = fresh ! j" "active_row g2 j = active_row g1 (j + n)"
    using j moved l by (auto simp: nth_append add.commute)
  have "pictures f (fresh ! j) (hs0 ! (j + n))"
    using list_all2_nthD [OF old(2), of "j + n"] k l pictures_grew [OF _ assms(3)] by simp
  moreover have "mirrors (active_row g1 (j + n)) (hs0 ! (j + n))"
    using list_all2_nthD [OF old(1), of "j + n"] k l by (simp add: active_rows_def)
  moreover have "length (row_cells (hs0 ! (j + n))) = length (row_cells (hs ! j))"
    using widths k(1) j(1) l new(2) by simp
  ultimately show "mirrors (active_row g2 j) (hs ! j)" using pictures_mirrors [OF _ fj assms(4)] k(3) by simp
qed

lemma delta_ops_replica:
  assumes v: "holds e g0 n (a, t)" and h: "host_ok g c m" "g_rows g = g_rows g0" "g_cols g = g_cols g0"
    and same: "flag_contains m M_ALT_SCREEN = flag_contains (en_modes e) M_ALT_SCREEN"
    and f: "set (en_attrs e) \<subseteq> set (en_attrs f)" "knows (ap_attrs a1) f" "list_all2 (pictures f) fresh (active_rows g)"
    and s: "fst (scroll_ops (en_seen e) first (length (en_seen e))) \<noteq> [] \<Longrightarrow> s"
  shows "\<exists>u ml. fold (apply_op a1 s) (mode_ops e m @ fst (scroll_ops (en_seen e) first (length (en_seen e))) @
        row_ops (snd (scroll_ops (en_seen e) first (length (en_seen e)))) fresh @
        (if c \<noteq> en_cursor e then [OpCursor c] else []) @ (if b then [OpTitle ttl] else [])) (t, AppliedOk, I64_MIN) = (u, AppliedOk, ml) \<and>
    grid_wf (active u) \<and> calm (active u) \<and> g_cols (active u) = g_cols g \<and> g_rows (active u) = g_rows g \<and>
    list_all2 mirrors (active_rows (active u)) (active_rows g) \<and> t_modes u = m \<and>
    cur_row (g_cursor (active u)) = cu_row c \<and> cur_col (g_cursor (active u)) = cu_col c"
proof -
  note v = v [unfolded holds_def, simplified]
  let ?sc = "scroll_ops (en_seen e) first (length (en_seen e))"
  have len: "length (en_seen e) = g_rows g0" "length fresh = g_rows g" "g_rows g \<le> 32768"
    using list_all2_lengthD [OF f(3)] v h(1) by (auto simp: active_rows_def host_ok_def dest: list_all2_lengthD)
  have hm: "m AND modes_all = m" "cu_row c < g_rows g" "cu_col c < g_cols g" "cu_visible c = flag_contains m M_SHOW_CURSOR"
    using h(1) by (simp_all add: host_ok_def)
  obtain t1 where t1: "fold (apply_op a1 s) (mode_ops e m) (t, AppliedOk, I64_MIN) = (t1, AppliedOk, I64_MIN)"
    "same_rows t t1" "t_modes t1 = m" "g_cursor (active t1) = g_cursor (active t)"
    using mode_ops_replica [OF _ same hm(1)] v by metis
  have s1: "grid_wf (active t1)" "calm (active t1)" "g_cols (active t1) = g_cols g0" "g_rows (active t1) = g_rows g0"
    "active_rows (active t1) = active_rows (active t)"
    using t1(2) v by (simp_all add: same_rows_def active_rows_def)
  obtain t2 k where t2: "fold (apply_op a1 s) (fst ?sc) (t1, AppliedOk, I64_MIN) = (t2, AppliedOk, I64_MIN)"
    "grid_wf (active t2)" "calm (active t2)" "g_cols (active t2) = g_cols g0" "g_rows (active t2) = g_rows g0"
    "t_modes t2 = m" "g_cursor (active t2) = g_cursor (active t)" "k \<le> length (en_seen e)"
    "snd ?sc = drop k (en_seen e) @ replicate k absent_row"
    "\<forall>j < length (en_seen e) - k. active_row (active t2) j = active_row (active t1) (j + k)"
    using scroll_ops_replica [OF s1(1,2), of "en_seen e" first s a1 AppliedOk I64_MIN] s len s1(3,4) t1(3,4) h(2) by auto
  have w: "\<forall>x \<in> set (active_rows g0) \<union> set (active_rows g). length (row_cells x) = g_cols g"
    using host_rows [OF h(1)] host_rows [of g0 "en_cursor e" "en_modes e"] v h(3) by (auto simp: list_all_iff)
  have keep: "\<forall>j < length fresh. slice_get (snd ?sc) j = Some (fresh ! j) \<longrightarrow> mirrors (active_row (active t2) j) (active_rows g ! j)"
    unfolding t2(9)
  proof (rule scrolled_rows_replica)
    show "list_all2 mirrors (active_rows (active t1)) (active_rows g0)" using v s1(5) by simp
    show "list_all2 (pictures e) (en_seen e) (active_rows g0)" using v by simp
    show "set (en_attrs e) \<subseteq> set (en_attrs f)" "knows (ap_attrs a1) f" "list_all2 (pictures f) fresh (active_rows g)" by (rule f)+
    show "length (active_rows g) = length (active_rows g0)" using h(2) by (simp add: active_rows_def)
  qed (rule w t2(8,10))+
  have car: "\<forall>j < length fresh. carries (ap_attrs a1) (fresh ! j) (active_rows g ! j) \<and>
      length (row_cells (active_rows g ! j)) = g_cols (active t2)"
    using f(2,3) w t2(4) h(3) len(2) by (auto simp: list_all2_conv_all_nth pictures_def)
  obtain t3 ml where t3: "fold (apply_op a1 s) (row_ops (snd ?sc) fresh) (t2, AppliedOk, I64_MIN) = (t3, AppliedOk, ml)"
    "grid_wf (active t3)" "calm (active t3)" "g_cols (active t3) = g_cols g" "g_rows (active t3) = g_rows g" "t_modes t3 = m"
    "g_cursor (active t3) = g_cursor (active t)" "\<forall>j < length fresh. mirrors (active_row (active t3) j) (active_rows g ! j)"
    using row_ops_replica [OF t2(2), of fresh "active_rows g" a1 "snd ?sc" s I64_MIN] car keep t2(3-7) len h(2,3)
    by (auto simp: active_rows_def)
  obtain u where u: "fold (apply_op a1 s) ((if c \<noteq> en_cursor e then [OpCursor c] else []) @ (if b then [OpTitle ttl] else []))
      (t3, AppliedOk, ml) = (u, AppliedOk, ml)"
    "same_rows t3 u" "t_modes u = m" "cur_row (g_cursor (active u)) = cu_row c" "cur_col (g_cursor (active u)) = cu_col c"
    using tail_ops_replica [of c t3 "en_cursor e" a1 s b ttl AppliedOk ml] hm t3(4-7) v by auto
  have "list_all2 mirrors (active_rows (active u)) (active_rows g)"
    using t3(5,8) u(2) len(2) by (simp add: same_rows_def list_all2_conv_all_nth active_rows_def)
  then show ?thesis using t1(1) t2(1) t3(1-5) u by (intro exI [of _ u] exI [of _ ml]) (simp add: same_rows_def)
qed

text \<open>After the operations: line ids, blocks and the sequence number.\<close>

lemma delta_finish_same:
  "same_rows t (set_seq (fold (\<lambda>b t. upsert_block t (to_block b)) bs (sync_lines t l)) k) \<and>
   t_modes (set_seq (fold (\<lambda>b t. upsert_block t (to_block b)) bs (sync_lines t l)) k) = t_modes t \<and>
   g_cursor (active (set_seq (fold (\<lambda>b t. upsert_block t (to_block b)) bs (sync_lines t l)) k)) = g_cursor (active t)"
proof -
  have a: "active (set_seq w i) = active w" "t_modes (set_seq w i) = t_modes w" for w i
    by (simp_all add: set_seq_def active_def cong: option.case_cong)
  have c: "g_cursor (active (sync_lines t l)) = g_cursor (active t)"
    by (simp add: sync_lines_def sync_next_line_id_def set_next_line_id_def)
  show ?thesis using blocks_same [of "sync_lines t l" to_block bs] sync_lines_same [of t l] c
    by (simp add: same_rows_def a)
qed

lemma apply_delta_eq:
  assumes "fold (apply_op (absorb_attrs a (dl_attrs d)) (list_ex is_scroll (dl_ops d))) (dl_ops d) (t, AppliedOk, I64_MIN) =
    (u, AppliedOk, ml)"
  shows "apply_delta a t d (ap_applied a) n =
    ((absorb_attrs a (dl_attrs d))\<lparr>ap_applied := n\<rparr>,
     set_seq (fold (\<lambda>b t. upsert_block t (to_block b)) (dl_blocks d) (sync_lines u ml)) n, AppliedOk)"
  by (simp add: apply_delta_def Let_def assms)

lemma delta_holds:
  assumes v: "holds e g0 n (a, t)" and h: "host_ok g c m" "g_rows g = g_rows g0" "g_cols g = g_cols g0"
    and same: "flag_contains m M_ALT_SCREEN = flag_contains (en_modes e) M_ALT_SCREEN"
    and att: "length (en_attrs (fst (encode_delta e g c m ttl bs))) \<le> 65536"
  shows "\<exists>b u. apply_delta a t (snd (encode_delta e g c m ttl bs)) n k = (b, u, AppliedOk) \<and>
    holds (fst (encode_delta e g c m ttl bs)) g k (b, u)"
proof -
  let ?e = "e\<lparr>en_modes := m\<rparr>" and ?d = "snd (encode_delta e g c m ttl bs)"
  define f where "f = fst (encode_all_rows ?e g)"
  define fresh where "fresh = snd (encode_all_rows ?e g)"
  let ?sc = "scroll_ops (en_seen e) (row_id (active_row g 0)) (length (en_seen e))"
  note hv = v [unfolded holds_def, simplified]
  have "length (en_seen e) = g_rows g0" using hv by (auto simp: active_rows_def dest: list_all2_lengthD)
  then have len: "g_rows g = length (en_seen e)" "length (en_seen e) \<le> 32768" using h by (simp_all add: host_ok_def)
  have en: "fst (encode_delta e g c m ttl bs) = f\<lparr>en_seen := fresh, en_cursor := c, en_title := ttl, en_pending := [],
      en_seen_blocks := map from_block (bi_blocks bs)\<rparr>"
    and da: "dl_attrs ?d = en_pending f"
    and ops: "dl_ops ?d = mode_ops e m @ fst ?sc @ row_ops (snd ?sc) fresh @
      (if c \<noteq> en_cursor e then [OpCursor c] else []) @ (if ttl \<noteq> en_title e then [OpTitle ttl] else [])"
    by (simp_all add: encode_delta_eq [OF len] Let_def f_def fresh_def len(1))
  have g: "grew ?e f" unfolding f_def encode_all_rows_def by (rule encode_rows_grew)
  have l: "length (en_attrs f) \<le> 65536" using att by (simp add: en)
  have e: "attrs_ok ?e" using hv by (simp add: attrs_ok_def)
  have ok: "attrs_ok f" unfolding f_def encode_all_rows_def
    by (rule rows_ok [OF e]) (use l in \<open>simp add: f_def encode_all_rows_def\<close>)
  have p: "list_all2 (pictures f) fresh (active_rows g)" unfolding f_def fresh_def encode_all_rows_def
    by (rule rows_picture [OF e]) (use l host_rows [OF h(1)] in \<open>auto simp: f_def encode_all_rows_def list_all_iff\<close>)
  have kn: "knows (ap_attrs (absorb_attrs a (en_pending f))) f"
    using pending_known [OF ok g] hv by (simp add: absorb_attrs_def knows_def flip: insert_attrs_def)
  have ge: "set (en_attrs e) \<subseteq> set (en_attrs f)" using grew_set [OF g] by simp
  obtain u ml where u: "fold (apply_op (absorb_attrs a (en_pending f)) (list_ex is_scroll (dl_ops ?d))) (dl_ops ?d)
      (t, AppliedOk, I64_MIN) = (u, AppliedOk, ml)"
    "grid_wf (active u)" "calm (active u)" "g_cols (active u) = g_cols g" "g_rows (active u) = g_rows g"
    "list_all2 mirrors (active_rows (active u)) (active_rows g)" "t_modes u = m"
    "cur_row (g_cursor (active u)) = cu_row c" "cur_col (g_cursor (active u)) = cu_col c"
    using delta_ops_replica [OF v h same ge kn p, where s = "list_ex is_scroll (dl_ops ?d)" and first = "row_id (active_row g 0)"
        and b = "ttl \<noteq> en_title e" and ttl = ttl] scroll_ops_begin [of "en_seen e" "row_id (active_row g 0)" "length (en_seen e)"]
    unfolding ops by auto
  let ?u = "set_seq (fold (\<lambda>b t. upsert_block t (to_block b)) (dl_blocks ?d) (sync_lines u ml)) k"
  let ?b = "(absorb_attrs a (en_pending f))\<lparr>ap_applied := k\<rparr>"
  have app: "apply_delta a t ?d n k = (?b, ?u, AppliedOk)" using apply_delta_eq [of a ?d t u ml k] u(1) hv by (simp add: da)
  have s: "same_rows u ?u" "t_modes ?u = m" "g_cursor (active ?u) = g_cursor (active u)"
    using delta_finish_same [of u "dl_blocks ?d" ml k] u(7) by simp_all
  have fm: "en_modes f = m" using g by (simp add: grew_def)
  have same_f: "attrs_ok (f\<lparr>en_seen := x1, en_cursor := x2, en_title := x3, en_pending := [], en_seen_blocks := x4\<rparr>) = attrs_ok f"
    "knows w (f\<lparr>en_seen := x1, en_cursor := x2, en_title := x3, en_pending := [], en_seen_blocks := x4\<rparr>) = knows w f"
    "pictures (f\<lparr>en_seen := x1, en_cursor := x2, en_title := x3, en_pending := [], en_seen_blocks := x4\<rparr>) = pictures f"
    for x1 x2 x3 x4 w by (simp_all add: attrs_ok_def knows_def pictures_def fun_eq_iff)
  have "holds (fst (encode_delta e g c m ttl bs)) g k (?b, ?u)"
    unfolding en holds_def split_conv same_f
    using ok kn p h(1) u(2-9) s fm by (simp add: same_rows_def active_rows_def)
  then show ?thesis using app by blast
qed

section \<open>The contract\<close>

text \<open>
  A client that is sent a keyframe of a host and then one delta after another, each against the state the
  one before it left, while the host keeps its size and its screen.  \<open>onk\<close> and \<open>ond\<close> are the
  client's two handlers.
\<close>

inductive served :: "('v \<Rightarrow> keyframe \<Rightarrow> nat \<Rightarrow> 'v) \<Rightarrow> ('v \<Rightarrow> delta \<Rightarrow> nat \<Rightarrow> nat \<Rightarrow> 'v) \<Rightarrow> 'v \<Rightarrow>
    encoder \<Rightarrow> grid \<Rightarrow> cursor_state \<Rightarrow> modes \<Rightarrow> nat \<Rightarrow> 'v \<Rightarrow> bool" for onk ond v0 where
  attach: "attrs_ok e \<Longrightarrow> length (en_attrs (fst (encode_all_rows e g))) \<le> 65536 \<Longrightarrow> host_ok g c m \<Longrightarrow>
    served onk ond v0 (fst (encode_keyframe e g c m ttl bs)) g c m n (onk v0 (snd (encode_keyframe e g c m ttl bs)) n)"
| update: "served onk ond v0 e g0 c0 m0 n v \<Longrightarrow> host_ok g c m \<Longrightarrow> g_rows g = g_rows g0 \<Longrightarrow> g_cols g = g_cols g0 \<Longrightarrow>
    flag_contains m M_ALT_SCREEN = flag_contains m0 M_ALT_SCREEN \<Longrightarrow>
    length (en_attrs (fst (encode_delta e g c m ttl bs))) \<le> 65536 \<Longrightarrow>
    served onk ond v0 (fst (encode_delta e g c m ttl bs)) g c m k (ond v (snd (encode_delta e g c m ttl bs)) n k)"

lemma served_state:
  "served onk ond v0 e g c m n v \<Longrightarrow>
   en_cursor e = c \<and> en_modes e = m \<and> length (en_seen e) = g_rows g \<and> g_rows g \<le> 32768"
proof (induction rule: served.induct)
  case (update e g0 c0 m0 n v g c m ttl bs k)
  then have "g_rows g = length (en_seen e)" "length (en_seen e) \<le> 32768" by simp_all
  then show ?case by (simp add: delta_encoder) (simp add: encode_delta_eq Let_def encode_all_rows_def active_rows_def)
qed (auto simp: encode_keyframe_eq Let_def encode_all_rows_def active_rows_def host_ok_def)

text \<open>What a decoder owes: a keyframe brings it in step, a delta against the step it is at keeps it in step.\<close>

locale decoder =
  fixes onk :: "'v \<Rightarrow> keyframe \<Rightarrow> nat \<Rightarrow> 'v" and ond :: "'v \<Rightarrow> delta \<Rightarrow> nat \<Rightarrow> nat \<Rightarrow> 'v"
    and ready :: "'v \<Rightarrow> bool" and in_step :: "encoder \<Rightarrow> grid \<Rightarrow> nat \<Rightarrow> 'v \<Rightarrow> bool"
  assumes keyframe_law: "attrs_ok e \<Longrightarrow> length (en_attrs (fst (encode_all_rows e g))) \<le> 65536 \<Longrightarrow> host_ok g c m \<Longrightarrow>
      ready v \<Longrightarrow> in_step (fst (encode_keyframe e g c m ttl bs)) g n (onk v (snd (encode_keyframe e g c m ttl bs)) n)"
    and delta_law: "in_step e g0 n v \<Longrightarrow> host_ok g c m \<Longrightarrow> g_rows g = g_rows g0 \<Longrightarrow> g_cols g = g_cols g0 \<Longrightarrow>
      flag_contains m M_ALT_SCREEN = flag_contains (en_modes e) M_ALT_SCREEN \<Longrightarrow>
      length (en_attrs (fst (encode_delta e g c m ttl bs))) \<le> 65536 \<Longrightarrow>
      in_step (fst (encode_delta e g c m ttl bs)) g k (ond v (snd (encode_delta e g c m ttl bs)) n k)"
begin

lemma served_in_step: "served onk ond v0 e g c m n v \<Longrightarrow> ready v0 \<Longrightarrow> in_step e g n v"
proof (induction rule: served.induct)
  case (attach e g c m ttl bs n)
  then show ?case by (intro keyframe_law)
next
  case (update e g0 c0 m0 n v g c m ttl bs k)
  note st = served_state [OF update(1)]
  show ?case by (rule delta_law) (use update st in simp_all)
qed

end

text \<open>The flat view needs nothing to start with; the replica a settled terminal.\<close>

definition view_in_step :: "encoder \<Rightarrow> grid \<Rightarrow> nat \<Rightarrow> grid_view \<Rightarrow> bool" where
  "view_in_step e g n v \<longleftrightarrow> view_agrees e v \<and> length (en_seen e) = g_rows g \<and> g_rows g \<le> 32768 \<and>
     list_all2 (decodes_to (gv_attrs v)) (gv_rows v) (active_rows g)"

definition replica_keyframe :: "applier \<times> tm \<Rightarrow> keyframe \<Rightarrow> nat \<Rightarrow> applier \<times> tm" where
  "replica_keyframe v k n = apply_keyframe (fst v) (snd v) k n"

definition replica_delta :: "applier \<times> tm \<Rightarrow> delta \<Rightarrow> nat \<Rightarrow> nat \<Rightarrow> applier \<times> tm" where
  "replica_delta v d n k = (let (b, u, _) = apply_delta (fst v) (snd v) d n k in (b, u))"

interpretation flat: decoder "\<lambda>v k n. view_keyframe v k" "\<lambda>v d n k. view_delta v d" "\<lambda>_. True" view_in_step
proof
  fix e g c m v ttl bs n
  assume a: "attrs_ok e" "length (en_attrs (fst (encode_all_rows e g))) \<le> 65536" "host_ok g c m"
  show "view_in_step (fst (encode_keyframe e g c m ttl bs)) g n (view_keyframe v (snd (encode_keyframe e g c m ttl bs)))"
    using keyframe_agrees [OF a(1,2)] keyframe_decodes [OF a(1,2)] a(3)
    by (simp add: view_in_step_def host_ok_def encode_keyframe_eq Let_def encode_all_rows_def active_rows_def)
next
  fix e g0 n v g c m ttl bs k
  assume a: "view_in_step e g0 n v" "host_ok g c m" "g_rows g = g_rows g0" "length (en_attrs (fst (encode_delta e g c m ttl bs))) \<le> 65536"
  have s: "view_agrees e v" "g_rows g = length (en_seen e)" "length (en_seen e) \<le> 32768" using a by (simp_all add: view_in_step_def)
  show "view_in_step (fst (encode_delta e g c m ttl bs)) g k (view_delta v (snd (encode_delta e g c m ttl bs)))"
    using delta_agrees [OF s a(4)] delta_decodes [OF s a(4)] s
    by (simp add: view_in_step_def encode_delta_eq Let_def encode_all_rows_def active_rows_def)
qed

interpretation replica: decoder replica_keyframe replica_delta "\<lambda>v. replica_ok (snd v)" holds
proof
  fix e g c m ttl bs n and v :: "applier \<times> tm"
  assume a: "attrs_ok e" "length (en_attrs (fst (encode_all_rows e g))) \<le> 65536" "host_ok g c m" "replica_ok (snd v)"
  show "holds (fst (encode_keyframe e g c m ttl bs)) g n (replica_keyframe v (snd (encode_keyframe e g c m ttl bs)) n)"
    unfolding replica_keyframe_def by (rule keyframe_holds [OF a])
next
  fix e g0 n g c m ttl bs k and v :: "applier \<times> tm"
  assume a: "holds e g0 n v" "host_ok g c m" "g_rows g = g_rows g0" "g_cols g = g_cols g0"
    "flag_contains m M_ALT_SCREEN = flag_contains (en_modes e) M_ALT_SCREEN"
    "length (en_attrs (fst (encode_delta e g c m ttl bs))) \<le> 65536"
  show "holds (fst (encode_delta e g c m ttl bs)) g k (replica_delta v (snd (encode_delta e g c m ttl bs)) n k)"
    using delta_holds [OF _ a(2-6), of n "fst v" "snd v" k] a(1) by (auto simp: replica_delta_def)
qed

text \<open>A delta for a replica in step is never refused.\<close>

lemma replica_accepts:
  assumes "served replica_keyframe replica_delta v0 e g0 c0 m0 n (a, t)" "replica_ok (snd v0)"
    and "host_ok g c m" "g_rows g = g_rows g0" "g_cols g = g_cols g0" "flag_contains m M_ALT_SCREEN = flag_contains m0 M_ALT_SCREEN"
    and "length (en_attrs (fst (encode_delta e g c m ttl bs))) \<le> 65536"
  shows "snd (snd (apply_delta a t (snd (encode_delta e g c m ttl bs)) n k)) = AppliedOk"
  using delta_holds [OF replica.served_in_step [OF assms(1,2)] assms(3-5) _ assms(7), of k] assms(6) served_state [OF assms(1)]
  by auto

text \<open>
  C19. A terminal that follows a host over the wire shows the host.  It is sent a keyframe of the host's
  screen and then deltas, each against the state the previous one left; while the host keeps its size and
  its screen, after every one of them the client's terminal has the host's rows (cells, colours, line ids,
  wrap flags), its cursor and its modes, and counts itself at the sequence number it was sent.
\<close>

theorem replica_follows_host:
  assumes "served replica_keyframe replica_delta (a0, t0) e g c m n (a, t)" "replica_ok t0"
  shows "g_cols (active t) = g_cols g \<and> g_rows (active t) = g_rows g \<and>
    list_all2 mirrors (active_rows (active t)) (active_rows g) \<and> t_modes t = m \<and>
    cur_row (g_cursor (active t)) = cu_row c \<and> cur_col (g_cursor (active t)) = cu_col c \<and> ap_applied a = n"
  using replica.served_in_step [OF assms(1)] served_state [OF assms(1)] assms(2) by (simp add: holds_def)

definition demo_screen :: "row \<Rightarrow> grid" where
  "demo_screen r = set_active_row (active (term_new 4 1 3)) 0 r"

lemma demo_screen_ok:
  assumes "length (row_cells r) = 4"
  shows "grid_shape (demo_screen r)" "g_cols (demo_screen r) = 4" "g_rows (demo_screen r) = 1" "active_row (demo_screen r) 0 = r"
proof -
  define h where "h = active (term_new 4 1 3)"
  have h: "grid_wf h" "g_cols h = 4" "g_rows h = 1"
    using term_invD(2) [OF term_inv_new [of 4 1 3]] by (simp_all add: h_def grid_inv_def)
      (simp_all add: term_new_def active_def grid_new_def Let_def)
  have l: "length (row_cells r) = g_cols h" by (simp add: assms h)
  have d: "demo_screen r = set_active_row h 0 r" by (simp add: demo_screen_def h_def)
  show "grid_shape (demo_screen r)" "g_cols (demo_screen r) = 4" "g_rows (demo_screen r) = 1"
    using set_active_row_wf [OF h(1) _ l, of 0] by (simp_all add: d h frame_simps grid_wf_def)
  show "active_row (demo_screen r) 0 = r"
    using active_row_set [OF grid_wfD(1) [OF h(1)], of 0 0 r] l by (simp add: d h)
qed

lemma demo_host_ok:
  assumes "length (row_cells r) = 4" "list_all spacer_ok (row_cells r)"
  shows "host_ok (demo_screen r) initial_cursor M_SHOW_CURSOR"
proof -
  have "flag_contains M_SHOW_CURSOR M_SHOW_CURSOR" "M_SHOW_CURSOR AND modes_all = M_SHOW_CURSOR" by code_simp+
  then show ?thesis
    using demo_screen_ok [OF assms(1)] assms(2) by (simp add: host_ok_def active_rows_def U16_MAX_def initial_cursor_def)
qed

definition demo_blank :: row where
  "demo_blank = \<lparr>row_cells = replicate 4 default_cell, row_extras = [], row_id = 1\<rparr>"

lemma demo_rows:
  "length (row_cells demo_row) = 4" "length (row_cells demo_blank) = 4" "list_all spacer_ok (row_cells demo_blank)"
  by (simp_all add: demo_row_def demo_blank_def list_all_iff spacer_ok_def has_flag_def flag_contains_def default_cell_def cf_defs)

theorem replica_follows_host_witness:
  "\<exists>(a :: applier) t. ap_applied a = 2 \<and> mirrors (active_row (active t) 0) demo_row \<and> t_modes t = M_SHOW_CURSOR"
proof -
  define g h where "g = demo_screen demo_blank" and "h = demo_screen demo_row"
  note g = demo_screen_ok [OF demo_rows(2), folded g_def] demo_host_ok [OF demo_rows(2,3), folded g_def]
  note h = demo_screen_ok [OF demo_rows(1), folded h_def] demo_host_ok [OF demo_rows(1) demo_spacers, folded h_def]
  let ?v = "(applier_new, term_new 3 5 0)" and ?c = initial_cursor and ?m = M_SHOW_CURSOR
  let ?k = "encode_keyframe encoder_new g ?c ?m [] block_index_new"
  let ?d = "encode_delta (fst ?k) h ?c ?m [] block_index_new"
  have a: "length (en_attrs (fst (encode_all_rows encoder_new g))) \<le> 4"
    using encode_screen_attrs [OF g(1), of encoder_new] unfolding g by (simp add: encoder_new_def)
  have k: "served replica_keyframe replica_delta ?v (fst ?k) g ?c ?m 1 (replica_keyframe ?v (snd ?k) 1)"
    by (rule served.attach) (use a encoder_new_ok g(5) in simp_all)
  have s: "length (en_seen (fst ?k)) = 1" "length (en_attrs (fst ?k)) \<le> 4"
    using served_state [OF k] a by (simp_all add: g(3) encode_keyframe_eq Let_def)
  have l: "length (en_attrs (fst ?d)) \<le> 65536"
    using encode_screen_attrs [OF h(1), of "fst ?k\<lparr>en_modes := ?m\<rparr>"] s
    by (simp add: encode_delta_eq h Let_def)
  obtain b t where bt: "replica_delta (replica_keyframe ?v (snd ?k) 1) (snd ?d) 1 2 = (b, t)"
    by (cases "replica_delta (replica_keyframe ?v (snd ?k) 1) (snd ?d) 1 2")
  have "served replica_keyframe replica_delta ?v (fst ?d) h ?c ?m 2 (replica_delta (replica_keyframe ?v (snd ?k) 1) (snd ?d) 1 2)"
    by (rule served.update [OF k]) (use l h g in simp_all)
  then have "served replica_keyframe replica_delta ?v (fst ?d) h ?c ?m 2 (b, t)" by (simp only: bt)
  from replica_follows_host [OF this replica_ok_new] show ?thesis
    using h(3,4) by (auto simp: active_rows_def intro!: exI [of _ b] exI [of _ t])
qed

end
