(* ===== verification/Utf8.thy ===== *)
theory Utf8
  imports Text
begin

text \<open>
  UTF-8 is canonical: a byte string that decodes is the encoding of what it decodes to, so a signature over
  the bytes of a string is a signature over the string.
\<close>

lemma digits_64: "b < 64 \<Longrightarrow> (a * 64 + b) div 64 = a" "b < 64 \<Longrightarrow> (a * 64 + b) mod 64 = (b :: nat)"
  by simp_all

lemma decode_char_canonical:
  assumes "decode_char ns = Some (c, r)"
  shows "is_scalar c \<and> ns = map unat (encode_char c) @ r"
proof (cases ns)
  case (Cons a ns')
  show ?thesis
  proof (cases "a < 0x80")
    case True
    then show ?thesis using assms Cons by (auto simp: decode_char_def is_scalar_def encode_char_bytes)
  next
    case False
    show ?thesis
    proof (cases "a < 0xE0")
      case True
      then obtain b where b: "ns' = b # r" "is_cont b" "c = (a - 0xC0) * 64 + (b - 0x80)" "0xC2 \<le> a"
        using assms Cons False by (auto simp: decode_char_def split: list.splits if_splits)
      have k: "b - 0x80 < 64" "(a - 0xC0) < 32" "2 \<le> a - 0xC0" using b True by (auto simp: is_cont_def)
      have c: "c div 64 = a - 0xC0" "c mod 64 = b - 0x80" unfolding b(3) using k(1) by simp_all
      have l: "0x80 \<le> c" "c < 0x800" using k b(3) by auto
      then have "is_scalar c" by (simp add: is_scalar_def)
      then show ?thesis using Cons b(1,2,4) c l True by (auto simp: encode_char_bytes is_cont_def)
    next
      case F2: False
      show ?thesis
      proof (cases "a < 0xF0")
        case True
        then obtain b d where b: "ns' = b # d # r" "is_cont b" "is_cont d"
            "c = (a - 0xE0) * 4096 + (b - 0x80) * 64 + (d - 0x80)" "0x800 \<le> c" "is_scalar c"
          using assms Cons False F2 by (auto simp: decode_char_def Let_def split: list.splits if_splits)
        have k: "b - 0x80 < 64" "d - 0x80 < 64" "a - 0xE0 < 16" using b True F2 by (auto simp: is_cont_def)
        have e: "c = ((a - 0xE0) * 64 + (b - 0x80)) * 64 + (d - 0x80)" unfolding b(4) by (simp add: algebra_simps)
        have c: "c mod 64 = d - 0x80" "c div 64 = (a - 0xE0) * 64 + (b - 0x80)"
          unfolding e by (rule digits_64 [OF k(2)])+
        have "c div 4096 = c div 64 div 64" by (simp add: div_mult2_eq [symmetric])
        note t = this
        have c2: "c div 64 mod 64 = b - 0x80" "c div 4096 = a - 0xE0" unfolding t c by (rule digits_64 [OF k(1)])+
        have "c < 0x10000" using c2(2) k(3) div_less_iff_less_mult [of 4096 c 16] by simp
        then show ?thesis using Cons b(1-3,5,6) c(1) c2 F2 by (auto simp: encode_char_bytes is_cont_def)
      next
        case F3: False
        then obtain b d f where b: "ns' = b # d # f # r" "is_cont b" "is_cont d" "is_cont f"
            "c = (a - 0xF0) * 262144 + (b - 0x80) * 4096 + (d - 0x80) * 64 + (f - 0x80)" "0x10000 \<le> c" "is_scalar c" "a < 0xF5"
          using assms Cons False F2 by (auto simp: decode_char_def Let_def split: list.splits if_splits)
        have k: "b - 0x80 < 64" "d - 0x80 < 64" "f - 0x80 < 64" using b by (auto simp: is_cont_def)
        have e: "c = (((a - 0xF0) * 64 + (b - 0x80)) * 64 + (d - 0x80)) * 64 + (f - 0x80)"
          unfolding b(5) by (simp add: algebra_simps)
        have c: "c mod 64 = f - 0x80" "c div 64 = ((a - 0xF0) * 64 + (b - 0x80)) * 64 + (d - 0x80)"
          unfolding e by (rule digits_64 [OF k(3)])+
        have t: "c div 4096 = c div 64 div 64" "c div 262144 = c div 4096 div 64" by (simp_all add: div_mult2_eq [symmetric])
        have c2: "c div 64 mod 64 = d - 0x80" "c div 4096 = (a - 0xF0) * 64 + (b - 0x80)"
          unfolding t(1) c by (rule digits_64 [OF k(2)])+
        have c3: "c div 4096 mod 64 = b - 0x80" "c div 262144 = a - 0xF0" unfolding t(2) c2 by (rule digits_64 [OF k(1)])+
        show ?thesis using Cons b(1-4,6-8) c(1) c2(1) c3 F3 by (auto simp: encode_char_bytes is_cont_def)
      qed
    qed
  qed
qed (use assms in \<open>simp add: decode_char_def\<close>)

text \<open>UTF-8 has one spelling: what decodes is exactly the encoding of what it decodes to.\<close>

lemma decode_all_canonical: "decode_all ns = Some s \<Longrightarrow> list_all is_scalar s \<and> ns = map unat (utf8_encode s)"
proof (induction ns arbitrary: s rule: decode_all.induct)
  case (1 ns)
  show ?case
  proof (cases "ns = []")
    case False
    then obtain c r s' where d: "decode_char ns = Some (c, r)" "decode_all r = Some s'" "s = c # s'"
      using 1(2) by (subst (asm) decode_all.simps) (auto split: option.splits)
    then show ?thesis using 1(1) [OF False d(1) refl d(2)] decode_char_canonical [OF d(1)] by (simp add: utf8_encode_def)
  qed (use 1(2) in \<open>simp add: decode_all.simps utf8_encode_def\<close>)
qed

lemma from_utf8_canonical:
  assumes "from_utf8 bs = Some s"
  shows "list_all is_scalar s" "utf8_encode s = bs"
proof -
  have d: "list_all is_scalar s" "map unat bs = map unat (utf8_encode s)"
    using decode_all_canonical assms by (simp_all add: from_utf8_def)
  then show "list_all is_scalar s" by simp
  have "inj (unat :: byte \<Rightarrow> nat)" by (rule injI) (simp add: word_unat_eq_iff)
  then show "utf8_encode s = bs" using d(2) by (simp add: inj_map_eq_map)
qed

lemma utf8_inj: "list_all is_scalar s \<Longrightarrow> list_all is_scalar t \<Longrightarrow> utf8_encode s = utf8_encode t \<Longrightarrow> s = t"
  by (metis from_utf8_encode option.inject)

end
