(* ===== verification/Identity.thy ===== *)
theory Identity
  imports Wire OscSpec Utf8
begin

text \<open>
  Who a machine is and how it proves it (\<open>crates/zest-mesh/src/identity.rs\<close>, the memory store of
  \<open>keystore.rs\<close>).  The cryptographic libraries are a record of functions, the parameter \<open>C\<close> of every
  definition that signs, verifies, agrees or seals; what the theorems need of them is in \<open>crypto_ok\<close>.
\<close>

section \<open>The libraries\<close>

record crypto =
  ed_point :: "byte list \<Rightarrow> bool"
  ed_weak :: "byte list \<Rightarrow> bool"
  ed_verify :: "byte list \<Rightarrow> byte list \<Rightarrow> byte list \<Rightarrow> bool"
  ed_public :: "byte list \<Rightarrow> byte list"
  ed_sign :: "byte list \<Rightarrow> byte list \<Rightarrow> byte list"
  sha256 :: "byte list \<Rightarrow> byte list"
  x_public :: "byte list \<Rightarrow> byte list"
  x_agree :: "byte list \<Rightarrow> byte list \<Rightarrow> byte list"
  x_contributory :: "byte list \<Rightarrow> bool"
  hk_extract :: "byte list \<Rightarrow> byte list \<Rightarrow> byte list"
  hk_expand :: "byte list \<Rightarrow> byte list \<Rightarrow> byte list option"
  aead_seal :: "byte list \<Rightarrow> byte list \<Rightarrow> byte list \<Rightarrow> byte list option"
  aead_open :: "byte list \<Rightarrow> byte list \<Rightarrow> byte list \<Rightarrow> byte list option"

text \<open>
  Documented behaviour: a signature made with a key verifies under its public key, which is a point of 32
  bytes; the two halves of a key agreement meet; a hash has 32 bytes; expansion of 32 bytes succeeds; a
  sealed record opens under the same key and nonce, and is 16 bytes longer.
\<close>

definition crypto_ok :: "crypto \<Rightarrow> bool" where
  "crypto_ok C \<longleftrightarrow>
     (\<forall>s m. ed_verify C (ed_public C s) m (ed_sign C s m)) \<and>
     (\<forall>s. ed_point C (ed_public C s) \<and> \<not> ed_weak C (ed_public C s) \<and> length (ed_public C s) = 32) \<and>
     (\<forall>s m. length (ed_sign C s m) = 64) \<and>
     (\<forall>a b. x_agree C a (x_public C b) = x_agree C b (x_public C a)) \<and>
     (\<forall>s. length (x_public C s) = 32) \<and>
     (\<forall>m. length (sha256 C m) = 32) \<and>
     (\<forall>k i. \<exists>x. hk_expand C k i = Some x) \<and>
     (\<forall>k n p. \<exists>c. aead_seal C k n p = Some c \<and> aead_open C k n c = Some p \<and> length c = length p + 16)"

datatype mesh_error =
    Unreachable ustring
  | Discovery ustring
  | NotEnrolled ustring
  | IdentityError ustring
  | BadSignature ustring
  | StoreError ustring

section \<open>Integers as bytes\<close>

text \<open>\<open>to_be_bytes\<close> and \<open>from_be_bytes\<close>, for any width.\<close>

fun be_bytes :: "nat \<Rightarrow> nat \<Rightarrow> byte list" where
  "be_bytes 0 n = []"
| "be_bytes (Suc k) n = be_bytes k (n div 256) @ [of_nat (n mod 256)]"

definition of_be :: "byte list \<Rightarrow> nat" where
  "of_be bs = foldl (\<lambda>a b. a * 256 + unat b) 0 bs"

lemma be_bytes_length [simp]: "length (be_bytes k n) = k"
  by (induction k n rule: be_bytes.induct) simp_all

lemma of_be_snoc [simp]: "of_be (bs @ [b]) = of_be bs * 256 + unat b"
  by (simp add: of_be_def)

lemma of_be_be_bytes: "n < 256 ^ k \<Longrightarrow> of_be (be_bytes k n) = n"
proof (induction k n rule: be_bytes.induct)
  case (2 k n)
  have "n div 256 < 256 ^ k" using 2(2) by (simp add: less_mult_imp_div_less mult.commute)
  then show ?case using 2(1) unat_byte [of "n mod 256"] by simp
qed (simp add: of_be_def)

lemma be_bytes_of_be: "be_bytes (length bs) (of_be bs) = bs"
proof (induction bs rule: rev_induct)
  case (snoc b bs)
  have b: "unat b < 256" using unsigned_less [of b] by simp
  have "(of_be bs * 256 + unat b) div 256 = of_be bs" "(of_be bs * 256 + unat b) mod 256 = unat b" using b by simp_all
  then show ?case using snoc by simp
qed simp

lemma of_be_less: "of_be bs < 256 ^ length bs"
proof (induction bs rule: rev_induct)
  case (snoc b bs)
  have "unat b < 256" using unsigned_less [of b] by simp
  then show ?case using snoc by simp
qed (simp add: of_be_def)

lemma be_bytes_inj: "be_bytes k m = be_bytes k n \<Longrightarrow> m < 256 ^ k \<Longrightarrow> n < 256 ^ k \<Longrightarrow> m = n"
  using of_be_be_bytes by metis

section \<open>What is signed\<close>

datatype role = HostRole | ClientRole

datatype purpose = Auth | Enrollment | AttachTicket | DeviceAttestation

fun role_domain :: "role \<Rightarrow> byte list" where
  "role_domain HostRole = bytes (lit ''host'')"
| "role_domain ClientRole = bytes (lit ''client'')"

fun purpose_domain :: "purpose \<Rightarrow> byte list" where
  "purpose_domain Auth = bytes (lit ''auth'')"
| "purpose_domain Enrollment = bytes (lit ''enrollment'')"
| "purpose_domain AttachTicket = bytes (lit ''attach-ticket'')"
| "purpose_domain DeviceAttestation = bytes (lit ''device-attestation'')"

definition SIGNING_DOMAIN :: "byte list" where
  "SIGNING_DOMAIN = bytes (lit ''zesterm-sig-v1'')"

definition preimage :: "role \<Rightarrow> purpose \<Rightarrow> byte list \<Rightarrow> byte list" where
  "preimage r p m = SIGNING_DOMAIN @ [0] @ role_domain r @ [0] @ purpose_domain p @ [0] @ m"

lemma split_at_nul: "0 \<notin> set a \<Longrightarrow> 0 \<notin> set b \<Longrightarrow> a @ 0 # x = b @ 0 # y \<Longrightarrow> a = b \<and> x = y" for a :: "byte list"
proof (induction a arbitrary: b)
  case Nil
  then show ?case by (cases b) auto
next
  case (Cons c a)
  then show ?case by (cases b) auto
qed

lemma domains_nul_free: "0 \<notin> set (role_domain r)" "0 \<notin> set (purpose_domain p)"
  by (cases r; simp add: bytes_def lit_def) (cases p; simp add: bytes_def lit_def)

lemma domains_inj: "role_domain r = role_domain r' \<Longrightarrow> r = r'" "purpose_domain p = purpose_domain p' \<Longrightarrow> p = p'"
  by (cases r; cases r'; simp add: bytes_def lit_def) (cases p; cases p'; simp add: bytes_def lit_def)

text \<open>No signature minted in one context is over the bytes of another.\<close>

lemma preimage_inj: "preimage r p m = preimage r' p' m' \<Longrightarrow> r = r' \<and> p = p' \<and> m = m'"
proof -
  assume "preimage r p m = preimage r' p' m'"
  then have "role_domain r @ 0 # purpose_domain p @ 0 # m = role_domain r' @ 0 # purpose_domain p' @ 0 # m'"
    by (simp add: preimage_def)
  from split_at_nul [OF domains_nul_free(1,1) this] have "role_domain r = role_domain r'"
    "purpose_domain p @ 0 # m = purpose_domain p' @ 0 # m'" by simp_all
  then show ?thesis using split_at_nul [OF domains_nul_free(2,2)] domains_inj by metis
qed

section \<open>Identities\<close>

record identity =
  id_key :: "byte list"
  id_id :: "byte list"

definition from_secret_bytes :: "crypto \<Rightarrow> byte list \<Rightarrow> identity" where
  "from_secret_bytes C s = \<lparr>id_key = s, id_id = ed_public C s\<rparr>"

definition sign_as :: "crypto \<Rightarrow> role \<Rightarrow> identity \<Rightarrow> purpose \<Rightarrow> byte list \<Rightarrow> byte list" where
  "sign_as C r i p m = ed_sign C (id_key i) (preimage r p m)"

definition signature_from_slice :: "byte list \<Rightarrow> mesh_error + byte list" where
  "signature_from_slice bs =
     (if length bs = 64 then Inr bs
      else Inl (BadSignature (lit ''a signature is 64 bytes, this one is '' @ dec_digits (length bs))))"

definition verifying_key :: "crypto \<Rightarrow> byte list \<Rightarrow> ustring \<Rightarrow> mesh_error + byte list" where
  "verifying_key C k who =
     (if \<not> ed_point C k then Inl (IdentityError (who @ lit '' is not a valid ed25519 public key''))
      else if ed_weak C k
      then Inl (IdentityError (who @ lit '' is a small-order ed25519 key and cannot identify a machine''))
      else Inr k)"

definition verify_with :: "crypto \<Rightarrow> byte list \<Rightarrow> role \<Rightarrow> purpose \<Rightarrow> byte list \<Rightarrow> byte list \<Rightarrow> ustring \<Rightarrow> mesh_error + unit" where
  "verify_with C k r p m sig who = (if ed_verify C k (preimage r p m) sig then Inr () else Inl (BadSignature who))"

definition verify_host :: "crypto \<Rightarrow> byte list \<Rightarrow> purpose \<Rightarrow> byte list \<Rightarrow> byte list \<Rightarrow> mesh_error + unit" where
  "verify_host C h p m sig =
     (case verifying_key C h (short_id h) of Inl e \<Rightarrow> Inl e | Inr k \<Rightarrow> verify_with C k HostRole p m sig (short_id h))"

definition verify_client :: "crypto \<Rightarrow> byte list \<Rightarrow> purpose \<Rightarrow> byte list \<Rightarrow> byte list \<Rightarrow> mesh_error + unit" where
  "verify_client C c p m sig =
     (case verifying_key C c (short_id c) of Inl e \<Rightarrow> Inl e | Inr k \<Rightarrow> verify_with C k ClientRole p m sig (short_id c))"

lemma verify_client_ok:
  "verify_client C c p m sig = Inr () \<longleftrightarrow> ed_point C c \<and> \<not> ed_weak C c \<and> ed_verify C c (preimage ClientRole p m) sig"
  by (simp add: verify_client_def verifying_key_def verify_with_def)

lemma verify_host_ok:
  "verify_host C h p m sig = Inr () \<longleftrightarrow> ed_point C h \<and> \<not> ed_weak C h \<and> ed_verify C h (preimage HostRole p m) sig"
  by (simp add: verify_host_def verifying_key_def verify_with_def)

lemma own_signature:
  assumes "crypto_ok C"
  shows "verify_client C (id_id (from_secret_bytes C s)) p m (sign_as C ClientRole (from_secret_bytes C s) p m) = Inr ()"
    and "verify_host C (id_id (from_secret_bytes C s)) p m (sign_as C HostRole (from_secret_bytes C s) p m) = Inr ()"
  using assms by (simp_all add: verify_client_ok verify_host_ok crypto_ok_def from_secret_bytes_def sign_as_def)

section \<open>Where the key sleeps\<close>

text \<open>\<open>MemoryKeyStore\<close>: one namespace for keys and other secrets; a key of another length is refused.\<close>

type_synonym key_store = "ustring \<rightharpoonup> byte list"

definition SECRET_LEN :: nat where "SECRET_LEN = 32"

definition wrong_key_length :: "ustring \<Rightarrow> ustring \<Rightarrow> nat \<Rightarrow> mesh_error" where
  "wrong_key_length name st n =
     IdentityError (name @ lit '' in '' @ st @ lit '' is '' @ dec_digits n @ lit '' bytes, not 32 '' @ [0x2014] @
       lit '' refusing to pad or truncate it into a different identity'')"

definition memory_describe :: ustring where
  "memory_describe = lit ''an in-memory store that forgets on exit''"

definition memory_load :: "key_store \<Rightarrow> ustring \<Rightarrow> mesh_error + byte list option" where
  "memory_load st name =
     (case st name of
        None \<Rightarrow> Inr None
      | Some s \<Rightarrow> if length s = SECRET_LEN then Inr (Some s)
                  else Inl (wrong_key_length name memory_describe (length s)))"

definition memory_store :: "key_store \<Rightarrow> ustring \<Rightarrow> byte list \<Rightarrow> mesh_error + key_store" where
  "memory_store st name s = Inr (st(name \<mapsto> s))"

definition memory_delete :: "key_store \<Rightarrow> ustring \<Rightarrow> mesh_error + key_store" where
  "memory_delete st name = Inr (st(name := None))"

definition memory_load_secret :: "key_store \<Rightarrow> ustring \<Rightarrow> mesh_error + byte list option" where
  "memory_load_secret st name = Inr (st name)"

definition memory_store_secret :: "key_store \<Rightarrow> ustring \<Rightarrow> byte list \<Rightarrow> mesh_error + key_store" where
  "memory_store_secret st name s = Inr (st(name \<mapsto> s))"

definition memory_delete_secret :: "key_store \<Rightarrow> ustring \<Rightarrow> mesh_error + key_store" where
  "memory_delete_secret st name = memory_delete st name"

text \<open>
  \<open>load_or_create_secret\<close>, for any store; \<open>rnd\<close> is what the system's random source would answer.  A store
  that cannot be read is not a store without a key.
\<close>

definition load_or_create :: "('s \<Rightarrow> ustring \<Rightarrow> mesh_error + byte list option) \<Rightarrow>
    ('s \<Rightarrow> ustring \<Rightarrow> byte list \<Rightarrow> mesh_error + 's) \<Rightarrow> mesh_error + byte list \<Rightarrow> 's \<Rightarrow> ustring \<Rightarrow> mesh_error + byte list \<times> 's" where
  "load_or_create load put rnd st name =
     (case load st name of
        Inl e \<Rightarrow> Inl e
      | Inr (Some s) \<Rightarrow> Inr (s, st)
      | Inr None \<Rightarrow>
          (case rnd of
             Inl e \<Rightarrow> Inl e
           | Inr fresh \<Rightarrow> (case put st name fresh of Inl e \<Rightarrow> Inl e | Inr st' \<Rightarrow> Inr (fresh, st'))))"

text \<open>What a key store owes: what was stored is loaded, and no other entry changes.\<close>

locale secret_store =
  fixes load :: "'s \<Rightarrow> ustring \<Rightarrow> mesh_error + byte list option"
    and put :: "'s \<Rightarrow> ustring \<Rightarrow> byte list \<Rightarrow> mesh_error + 's"
  assumes load_put: "put st name s = Inr st' \<Longrightarrow> length s = SECRET_LEN \<Longrightarrow> load st' name = Inr (Some s)"
    and load_other: "put st name s = Inr st' \<Longrightarrow> name' \<noteq> name \<Longrightarrow> load st' name' = load st name'"
begin

text \<open>An identity, once made, is the one every later start finds, whatever the random source says then.\<close>

lemma create_once:
  assumes "load_or_create load put rnd st name = Inr (s, st')" "\<And>r. rnd = Inr r \<Longrightarrow> length r = SECRET_LEN"
  shows "load_or_create load put rnd' st' name = Inr (s, st')"
  using assms by (auto simp: load_or_create_def load_put split: sum.splits option.splits)

lemma create_keeps_others:
  assumes "load_or_create load put rnd st name = Inr (s, st')" "name' \<noteq> name"
  shows "load st' name' = load st name'"
  using assms by (auto simp: load_or_create_def load_other split: sum.splits option.splits)

end

interpretation memory: secret_store memory_load memory_store
  by unfold_locales (auto simp: memory_load_def memory_store_def)

end
