(* ===== verification/Secure.thy ===== *)
theory Secure
  imports Identity Frame
begin

text \<open>
  The sealed channel (\<open>crates/zest-mesh/src/secure.rs\<close>): two directions, each a key with a counter that
  every record advances and a ratchet that turns when the counter is full.  The code's cipher object is
  the key it was made from.
\<close>

section \<open>One direction\<close>

definition TAG_LEN :: nat where "TAG_LEN = 16"

definition REKEY_AFTER :: nat where "REKEY_AFTER = 2 ^ 24"

definition MAX_PLAINTEXT :: nat where "MAX_PLAINTEXT = MAX_FRAME - TAG_LEN"

record direction =
  dr_key :: "byte list"
  dr_epoch :: nat
  dr_counter :: nat

definition direction_new :: "byte list \<Rightarrow> direction" where
  "direction_new k = \<lparr>dr_key = k, dr_epoch = 0, dr_counter = 0\<rparr>"

text \<open>Epoch in four bytes, counter in eight.\<close>

definition dr_nonce :: "direction \<Rightarrow> byte list" where
  "dr_nonce d = be_bytes 4 (dr_epoch d) @ be_bytes 8 (dr_counter d)"

definition hkdf_expand :: "crypto \<Rightarrow> byte list \<Rightarrow> string \<Rightarrow> mesh_error + byte list" where
  "hkdf_expand C prk info =
     (case hk_expand C prk (bytes (lit info)) of
        None \<Rightarrow> Inl (IdentityError (lit ''key schedule failed''))
      | Some k \<Rightarrow> Inr k)"

text \<open>\<open>Direction::advance\<close>; the epoch is 32 bits and is not allowed to wrap.\<close>

definition advance :: "crypto \<Rightarrow> direction \<Rightarrow> (mesh_error + unit) \<times> direction" where
  "advance C d =
     (let d = d\<lparr>dr_counter := dr_counter d + 1\<rparr>
      in if dr_counter d < REKEY_AFTER then (Inr (), d)
         else case hkdf_expand C (dr_key d) ''zesterm-rekey-v1'' of
                Inl e \<Rightarrow> (Inl e, d)
              | Inr next \<Rightarrow>
                  let d = d\<lparr>dr_key := next, dr_counter := 0\<rparr>
                  in if dr_epoch d + 1 < 2 ^ 32 then (Inr (), d\<lparr>dr_epoch := dr_epoch d + 1\<rparr>)
                     else (Inl (IdentityError (lit ''this channel has run out of epochs; redial'')), d))"

definition seal_with :: "crypto \<Rightarrow> direction \<Rightarrow> byte list \<Rightarrow> (mesh_error + byte list) \<times> direction" where
  "seal_with C d plaintext =
     (if MAX_PLAINTEXT < length plaintext
      then (Inl (IdentityError (dec_digits (length plaintext) @ lit '' bytes is more than a frame can carry once sealed'')), d)
      else case aead_seal C (dr_key d) (dr_nonce d) plaintext of
             None \<Rightarrow> (Inl (IdentityError (lit ''sealing failed'')), d)
           | Some out \<Rightarrow> (case advance C d of (Inl e, d) \<Rightarrow> (Inl e, d) | (Inr _, d) \<Rightarrow> (Inr out, d)))"

definition open_with :: "crypto \<Rightarrow> direction \<Rightarrow> byte list \<Rightarrow> (mesh_error + byte list) \<times> direction" where
  "open_with C d ciphertext =
     (case aead_open C (dr_key d) (dr_nonce d) ciphertext of
        None \<Rightarrow> (Inl (BadSignature (lit ''a sealed frame did not open'')), d)
      | Some out \<Rightarrow> (case advance C d of (Inl e, d) \<Rightarrow> (Inl e, d) | (Inr _, d) \<Rightarrow> (Inr out, d)))"

section \<open>The channel\<close>

record channel =
  ch_send :: direction
  ch_recv :: direction

definition chan_seal :: "crypto \<Rightarrow> channel \<Rightarrow> byte list \<Rightarrow> (mesh_error + byte list) \<times> channel" where
  "chan_seal C x p = (case seal_with C (ch_send x) p of (r, d) \<Rightarrow> (r, x\<lparr>ch_send := d\<rparr>))"

definition chan_open :: "crypto \<Rightarrow> channel \<Rightarrow> byte list \<Rightarrow> (mesh_error + byte list) \<times> channel" where
  "chan_open C x c = (case open_with C (ch_recv x) c of (r, d) \<Rightarrow> (r, x\<lparr>ch_recv := d\<rparr>))"

definition chan_split :: "channel \<Rightarrow> direction \<times> direction" where
  "chan_split x = (ch_send x, ch_recv x)"

text \<open>\<open>EphemeralDh::agree\<close>: the keys come from the shared secret and the hash of what both sides signed.\<close>

definition agree :: "crypto \<Rightarrow> byte list \<Rightarrow> byte list \<Rightarrow> byte list \<Rightarrow> role \<Rightarrow> mesh_error + channel" where
  "agree C secret theirs th role =
     (if is_absent theirs
      then Inl (BadSignature (lit ''peer sent no ephemeral key; refusing to derive a channel''))
      else
        let shared = x_agree C secret theirs
        in if \<not> x_contributory C shared
           then Inl (BadSignature (lit ''peer's ephemeral key is non-contributory''))
           else
             let prk = hk_extract C th shared
             in case hkdf_expand C prk ''zesterm-e2e-v1 host->client'' of
                  Inl e \<Rightarrow> Inl e
                | Inr h2c \<Rightarrow> (case hkdf_expand C prk ''zesterm-e2e-v1 client->host'' of
                    Inl e \<Rightarrow> Inl e
                  | Inr c2h \<Rightarrow>
                      Inr (case role of
                             HostRole \<Rightarrow> \<lparr>ch_send = direction_new h2c, ch_recv = direction_new c2h\<rparr>
                           | ClientRole \<Rightarrow> \<lparr>ch_send = direction_new c2h, ch_recv = direction_new h2c\<rparr>)))"

text \<open>A run of one direction: records sealed, or opened, one after the other, up to the first that fails.\<close>

fun seal_all :: "crypto \<Rightarrow> direction \<Rightarrow> byte list list \<Rightarrow> (mesh_error + byte list list) \<times> direction" where
  "seal_all C d [] = (Inr [], d)"
| "seal_all C d (m # ms) =
     (case seal_with C d m of
        (Inl e, d) \<Rightarrow> (Inl e, d)
      | (Inr c, d) \<Rightarrow> (case seal_all C d ms of (Inl e, d) \<Rightarrow> (Inl e, d) | (Inr cs, d) \<Rightarrow> (Inr (c # cs), d)))"

fun open_all :: "crypto \<Rightarrow> direction \<Rightarrow> byte list list \<Rightarrow> (mesh_error + byte list list) \<times> direction" where
  "open_all C d [] = (Inr [], d)"
| "open_all C d (c # cs) =
     (case open_with C d c of
        (Inl e, d) \<Rightarrow> (Inl e, d)
      | (Inr m, d) \<Rightarrow> (case open_all C d cs of (Inl e, d) \<Rightarrow> (Inl e, d) | (Inr ms, d) \<Rightarrow> (Inr (m # ms), d)))"

section \<open>The libraries, once\<close>

text \<open>A stand-in for the libraries that satisfies their laws: one key, one secret, no secrecy.\<close>

definition toy_crypto :: crypto where
  "toy_crypto =
     \<lparr>ed_point = (\<lambda>k. length k = 32), ed_weak = (\<lambda>_. False), ed_verify = (\<lambda>_ _ s. s = replicate 64 0),
      ed_public = (\<lambda>_. replicate 32 1), ed_sign = (\<lambda>_ _. replicate 64 0), sha256 = (\<lambda>_. replicate 32 0),
      x_public = (\<lambda>_. replicate 32 1), x_agree = (\<lambda>_ _. [1]), x_contributory = (\<lambda>_. True),
      hk_extract = (\<lambda>salt _. salt), hk_expand = (\<lambda>k i. Some (k @ i)),
      aead_seal = (\<lambda>_ _ p. Some (p @ replicate 16 0)), aead_open = (\<lambda>_ _ c. Some (take (length c - 16) c))\<rparr>"

lemma toy_crypto_ok: "crypto_ok toy_crypto"
  by (simp add: crypto_ok_def toy_crypto_def)

lemma toy_present: "\<not> is_absent (replicate 32 1)" "\<not> is_absent (x_public toy_crypto s)"
  by (simp_all add: is_absent_def toy_crypto_def)

section \<open>What is sealed opens\<close>

lemma open_sealed:
  assumes "crypto_ok C" "seal_with C d m = (Inr c, d')"
  shows "open_with C d c = (Inr m, d') \<and> length c = length m + TAG_LEN"
proof -
  obtain c0 where c0: "aead_seal C (dr_key d) (dr_nonce d) m = Some c0" "aead_open C (dr_key d) (dr_nonce d) c0 = Some m"
    "length c0 = length m + 16" using assms(1) unfolding crypto_ok_def by blast
  then show ?thesis using assms(2) by (auto simp: seal_with_def open_with_def TAG_LEN_def split: if_splits prod.splits sum.splits)
qed

lemma open_sealed_all:
  assumes "crypto_ok C"
  shows "seal_all C d ms = (Inr cs, d') \<Longrightarrow> open_all C d cs = (Inr ms, d')"
proof (induction ms arbitrary: d cs)
  case (Cons m ms)
  then obtain c d1 cs1 where s: "seal_with C d m = (Inr c, d1)" "seal_all C d1 ms = (Inr cs1, d')" "cs = c # cs1"
    by (auto split: prod.splits sum.splits)
  then show ?case using open_sealed [OF assms s(1)] Cons.IH [OF s(2)] by simp
qed simp

text \<open>The place in the schedule, which every record moves on by one.\<close>

definition position :: "direction \<Rightarrow> nat" where
  "position d = dr_epoch d * REKEY_AFTER + dr_counter d"

definition in_range :: "direction \<Rightarrow> bool" where
  "in_range d \<longleftrightarrow> dr_counter d < REKEY_AFTER \<and> dr_epoch d < 2 ^ 32"

lemma advance_moves:
  assumes "in_range d" "advance C d = (Inr (), d')"
  shows "in_range d' \<and> position d' = position d + 1"
  using assms by (auto simp: advance_def in_range_def position_def Let_def REKEY_AFTER_def split: if_splits sum.splits)

lemma advance_total:
  assumes "crypto_ok C" "in_range d" "position d + 1 < 2 ^ 32 * REKEY_AFTER"
  shows "\<exists>d'. advance C d = (Inr (), d')"
proof (cases "dr_counter d + 1 < REKEY_AFTER")
  case True
  then show ?thesis by (simp add: advance_def)
next
  case False
  then have c: "dr_counter d + 1 = REKEY_AFTER" using assms(2) by (simp add: in_range_def)
  then have "position d + 1 = (dr_epoch d + 1) * REKEY_AFTER" by (simp add: position_def)
  then have "(dr_epoch d + 1) * REKEY_AFTER < 2 ^ 32 * REKEY_AFTER" using assms(3) by (simp only:)
  then have e: "dr_epoch d + 1 < 2 ^ 32" by (simp only: mult_less_cancel2)
  obtain k where "hk_expand C (dr_key d) (bytes (lit ''zesterm-rekey-v1'')) = Some k" using assms(1) unfolding crypto_ok_def by blast
  then have "hkdf_expand C (dr_key d) ''zesterm-rekey-v1'' = Inr k" by (simp add: hkdf_expand_def)
  then show ?thesis using c e by (simp add: advance_def Let_def)
qed

lemma nonce_inj:
  assumes "in_range d" "in_range d'" "dr_nonce d = dr_nonce d'"
  shows "position d = position d'"
proof -
  have "be_bytes 4 (dr_epoch d) = be_bytes 4 (dr_epoch d')" "be_bytes 8 (dr_counter d) = be_bytes 8 (dr_counter d')"
    using assms(3) by (simp_all add: dr_nonce_def)
  moreover have "dr_counter x < 256 ^ 8" "dr_epoch x < 256 ^ 4" if "in_range x" for x
    using that by (simp_all add: in_range_def REKEY_AFTER_def)
  ultimately have "dr_epoch d = dr_epoch d'" "dr_counter d = dr_counter d'" using be_bytes_inj assms(1,2) by metis+
  then show ?thesis by (simp add: position_def)
qed

lemma seal_moves:
  assumes "in_range d" "seal_with C d m = (Inr c, d')"
  shows "in_range d' \<and> position d' = position d + 1"
  using assms advance_moves [OF assms(1)] by (auto simp: seal_with_def split: if_splits option.splits prod.splits sum.splits)

lemma seal_total:
  assumes "crypto_ok C" "in_range d" "length m \<le> MAX_PLAINTEXT" "position d + 1 < 2 ^ 32 * REKEY_AFTER"
  shows "\<exists>c d'. seal_with C d m = (Inr c, d')"
proof -
  obtain c where "aead_seal C (dr_key d) (dr_nonce d) m = Some c" using assms(1) unfolding crypto_ok_def by blast
  then show ?thesis using advance_total [OF assms(1,2,4)] assms(3) by (auto simp: seal_with_def)
qed

lemma seal_all_total:
  assumes "crypto_ok C"
  shows "in_range d \<Longrightarrow> \<forall>m \<in> set ms. length m \<le> MAX_PLAINTEXT \<Longrightarrow> position d + length ms < 2 ^ 32 * REKEY_AFTER \<Longrightarrow>
    \<exists>cs d'. seal_all C d ms = (Inr cs, d')"
proof (induction ms arbitrary: d)
  case (Cons m ms)
  obtain c d1 where s: "seal_with C d m = (Inr c, d1)" using seal_total [OF assms, of d m] Cons.prems by auto
  obtain cs d2 where "seal_all C d1 ms = (Inr cs, d2)"
    using Cons.IH [of d1] seal_moves [OF Cons.prems(1) s] Cons.prems(2,3) by auto
  then show ?case using s by simp
qed simp

text \<open>The nonces a run of records is sealed under.\<close>

fun nonces :: "crypto \<Rightarrow> direction \<Rightarrow> byte list list \<Rightarrow> byte list list" where
  "nonces C d [] = []"
| "nonces C d (m # ms) = dr_nonce d # nonces C (snd (seal_with C d m)) ms"

lemma nonces_later:
  "in_range d \<Longrightarrow> seal_all C d ms = (Inr cs, d') \<Longrightarrow> n \<in> set (nonces C d ms) \<Longrightarrow>
    \<exists>x. in_range x \<and> n = dr_nonce x \<and> position d \<le> position x"
proof (induction ms arbitrary: d cs)
  case (Cons m ms)
  then obtain c d1 cs1 where s: "seal_with C d m = (Inr c, d1)" "seal_all C d1 ms = (Inr cs1, d')"
    by (auto split: prod.splits sum.splits)
  have "in_range d1" "position d1 = position d + 1" using seal_moves [OF Cons.prems(1) s(1)] by simp_all
  then show ?case using Cons.IH [OF _ s(2)] Cons.prems(1,3) s(1) by (cases "n = dr_nonce d") force+
qed simp

lemma nonces_distinct: "in_range d \<Longrightarrow> seal_all C d ms = (Inr cs, d') \<Longrightarrow> distinct (nonces C d ms)"
proof (induction ms arbitrary: d cs)
  case (Cons m ms)
  then obtain c d1 cs1 where s: "seal_with C d m = (Inr c, d1)" "seal_all C d1 ms = (Inr cs1, d')"
    by (auto split: prod.splits sum.splits)
  have d1: "in_range d1" "position d1 = position d + 1" using seal_moves [OF Cons.prems(1) s(1)] by simp_all
  have "dr_nonce d \<notin> set (nonces C d1 ms)"
    using nonces_later [OF d1(1) s(2)] nonce_inj [OF Cons.prems(1)] d1(2) by fastforce
  then show ?case using Cons.IH [OF d1(1) s(2)] s(1) by simp
qed simp

text \<open>Two ends that agreed: what one sends with is what the other receives with.\<close>

lemma agree_matches:
  assumes "crypto_ok C" "agree C a (x_public C b) th HostRole = Inr h" "agree C b (x_public C a) th ClientRole = Inr c"
  shows "ch_send h = ch_recv c \<and> ch_recv h = ch_send c \<and> in_range (ch_send h) \<and> in_range (ch_recv h) \<and>
    position (ch_send h) = 0 \<and> position (ch_recv h) = 0"
proof -
  have "x_agree C a (x_public C b) = x_agree C b (x_public C a)" using assms(1) by (simp add: crypto_ok_def)
  then show ?thesis using assms(2,3)
    by (auto simp: agree_def Let_def direction_new_def in_range_def position_def REKEY_AFTER_def split: if_splits sum.splits)
qed

text \<open>
  C26. A channel carries what is sent, and no nonce is used twice.  When two ends agreed over the same
  transcript, any sequence of records that fit a frame, short of the whole schedule, seals in one
  direction, the other end opens every one of them in order, ratchet turns included, and both are then at
  the same place; a record that does not open leaves the receiver where it was.
\<close>

theorem channel_carries:
  assumes "crypto_ok C" "agree C a (x_public C b) th HostRole = Inr h" "agree C b (x_public C a) th ClientRole = Inr c"
    and "\<forall>m \<in> set ms. length m \<le> MAX_PLAINTEXT" "length ms < 2 ^ 32 * REKEY_AFTER"
  shows "(\<exists>cs d. seal_all C (ch_send h) ms = (Inr cs, d) \<and> open_all C (ch_recv c) cs = (Inr ms, d)) \<and>
    (\<exists>cs d. seal_all C (ch_send c) ms = (Inr cs, d) \<and> open_all C (ch_recv h) cs = (Inr ms, d)) \<and>
    distinct (nonces C (ch_send h) ms) \<and> distinct (nonces C (ch_send c) ms) \<and>
    (aead_open C (dr_key d0) (dr_nonce d0) junk = None \<longrightarrow> snd (open_with C d0 junk) = d0)"
proof -
  note m = agree_matches [OF assms(1-3)]
  obtain cs d where 1: "seal_all C (ch_send h) ms = (Inr cs, d)" using seal_all_total [OF assms(1), of "ch_send h" ms] m assms(4,5) by auto
  obtain cs' d' where 2: "seal_all C (ch_send c) ms = (Inr cs', d')" using seal_all_total [OF assms(1), of "ch_send c" ms] m assms(4,5) by auto
  have "open_all C (ch_recv c) cs = (Inr ms, d)" "open_all C (ch_recv h) cs' = (Inr ms, d')"
    using open_sealed_all [OF assms(1) 1] open_sealed_all [OF assms(1) 2] m by simp_all
  moreover have "distinct (nonces C (ch_send h) ms)" "distinct (nonces C (ch_send c) ms)"
    using nonces_distinct [OF _ 1] nonces_distinct [OF _ 2] m by metis+
  ultimately show ?thesis using 1 2 by (auto simp: open_with_def)
qed

theorem channel_carries_witness:
  "\<exists>h cs d. agree toy_crypto [] (replicate 32 1) [] HostRole = Inr h \<and>
     seal_all toy_crypto (ch_send h) [[1, 2], []] = (Inr cs, d) \<and> distinct (nonces toy_crypto (ch_send h) [[1, 2], []])"
proof -
  have p: "x_public toy_crypto [] = replicate 32 1" by (simp add: toy_crypto_def)
  obtain h c where "agree toy_crypto [] (x_public toy_crypto []) [] HostRole = Inr h"
    "agree toy_crypto [] (x_public toy_crypto []) [] ClientRole = Inr c"
    using toy_present(1) unfolding p by (simp add: agree_def Let_def toy_crypto_def hkdf_expand_def)
  then show ?thesis
    using channel_carries [OF toy_crypto_ok, of "[]" "[]" "[]" h c "[[1, 2], []]" undefined undefined]
    by (auto simp: p MAX_PLAINTEXT_def MAX_FRAME_def TAG_LEN_def REKEY_AFTER_def)
qed

end
