(* ===== verification/Base64.thy ===== *)
theory Base64
  imports Identity
begin

text \<open>
  Unpadded base64url (\<open>base64url_encode\<close> and \<open>base64url_decode\<close> of \<open>crates/zest-mesh/src/attest.rs\<close>): every
  byte string has one spelling, and the decoder takes no other.
\<close>

section \<open>The codec\<close>

definition B64_ALPHABET :: "byte list" where
  "B64_ALPHABET = bytes (lit ''ABCDEFGHIJKLMNOPQRSTUVWXYZabcdefghijklmnopqrstuvwxyz0123456789-_'')"

text \<open>One chunk of up to three bytes.\<close>

definition base64_chunk :: "byte list \<Rightarrow> byte list" where
  "base64_chunk chunk =
     (let b = (\<lambda>i. case slice_get chunk i of Some x \<Rightarrow> (ucast x :: 32 word) | None \<Rightarrow> 0);
          n = push_bit 16 (b 0) OR push_bit 8 (b 1) OR b 2;
          chars = [drop_bit 18 n AND 63, drop_bit 12 n AND 63, drop_bit 6 n AND 63, n AND 63]
      in map (\<lambda>ch. B64_ALPHABET ! unat ch) (take (length chunk + 1) chars))"

fun base64url_encode :: "byte list \<Rightarrow> byte list" where
  "base64url_encode (a # b # c # r) = base64_chunk [a, b, c] @ base64url_encode r"
| "base64url_encode [] = []"
| "base64url_encode [a] = base64_chunk [a]"
| "base64url_encode [a, b] = base64_chunk [a, b]"

definition base64_value :: "byte \<Rightarrow> byte option" where
  "base64_value b =
     (if 65 \<le> b \<and> b \<le> 90 then Some (b - 65)
      else if 97 \<le> b \<and> b \<le> 122 then Some (b - 97 + 26)
      else if 48 \<le> b \<and> b \<le> 57 then Some (b - 48 + 52)
      else if b = 45 then Some 62
      else if b = 95 then Some 63
      else None)"

text \<open>The loop over the bytes of the text: the accumulator, the number of bits it holds, the bytes so far.\<close>

fun base64_loop :: "32 word \<Rightarrow> nat \<Rightarrow> byte list \<Rightarrow> byte list \<Rightarrow> (32 word \<times> nat \<times> byte list) option" where
  "base64_loop acc bits out [] = Some (acc, bits, out)"
| "base64_loop acc bits out (b # bs) =
     (case base64_value b of
        None \<Rightarrow> None
      | Some v \<Rightarrow>
          let acc = push_bit 6 acc OR ucast v
          in if 8 \<le> bits + 6
             then base64_loop acc (bits + 6 - 8) (out @ [ucast (drop_bit (bits + 6 - 8) acc)]) bs
             else base64_loop acc (bits + 6) out bs)"

definition base64url_decode :: "byte list \<Rightarrow> byte list option" where
  "base64url_decode text =
     (if length text mod 4 = 1 then None
      else case base64_loop 0 0 [] text of
             None \<Rightarrow> None
           | Some (acc, bits, out) \<Rightarrow>
               if 0 < bits \<and> acc AND (push_bit bits 1 - 1) \<noteq> 0 then None else Some out)"

section \<open>Letters and values\<close>

lemma alphabet_ranges: "B64_ALPHABET = map of_nat ([65..<91] @ [97..<123] @ [48..<58] @ [45, 95])"
  by (simp add: B64_ALPHABET_def bytes_def lit_def upt_rec)

lemma alphabet_nth:
  "k < 26 \<Longrightarrow> B64_ALPHABET ! k = of_nat (65 + k)"
  "k < 26 \<Longrightarrow> B64_ALPHABET ! (26 + k) = of_nat (97 + k)"
  "k < 10 \<Longrightarrow> B64_ALPHABET ! (52 + k) = of_nat (48 + k)"
  "B64_ALPHABET ! 62 = 45" "B64_ALPHABET ! 63 = 95"
  unfolding alphabet_ranges by (simp_all add: nth_append del: upt_rec_numeral)

text \<open>The value of a byte, in natural numbers.\<close>

lemma base64_value_nat:
  assumes "n < 256"
  shows "base64_value (of_nat n) =
    (if 65 \<le> n \<and> n \<le> 90 then Some (of_nat (n - 65))
     else if 97 \<le> n \<and> n \<le> 122 then Some (of_nat (n - 71))
     else if 48 \<le> n \<and> n \<le> 57 then Some (of_nat (n + 4))
     else if n = 45 then Some 62 else if n = 95 then Some 63 else None)"
proof -
  have u: "unat (of_nat n :: byte) = n" using assms by (rule unat_byte)
  have l: "numeral a \<le> (of_nat n :: byte) \<longleftrightarrow> numeral a \<le> n" if "numeral a < (256 :: nat)" for a
    using u that by (simp add: word_le_nat_alt unat_byte [of "numeral a", simplified])
  have g: "(of_nat n :: byte) \<le> numeral a \<longleftrightarrow> n \<le> numeral a" if "numeral a < (256 :: nat)" for a
    using u that by (simp add: word_le_nat_alt unat_byte [of "numeral a", simplified])
  have e: "(of_nat n :: byte) = numeral a \<longleftrightarrow> n = numeral a" if "numeral a < (256 :: nat)" for a
    using u that unat_byte [of "numeral a"] by (auto simp: word_unat_eq_iff)
  show ?thesis unfolding base64_value_def by (simp add: l g e of_nat_diff)
qed

lemma sextet_cases:
  assumes "v < (64 :: nat)"
  obtains "v < 26" | k where "k < 26" "v = 26 + k" | k where "k < 10" "v = 52 + k" | "v = 62" | "v = 63"
proof (cases "v < 26")
  case False
  then have "v - 26 < 26 \<and> v = 26 + (v - 26) \<or> v - 52 < 10 \<and> v = 52 + (v - 52) \<or> v = 62 \<or> v = 63"
    using assms by linarith
  then show ?thesis using that by blast
qed (rule that)

lemma base64_value_alphabet: "v < 64 \<Longrightarrow> base64_value (B64_ALPHABET ! v) = Some (of_nat v)"
proof -
  assume "v < 64"
  then show ?thesis
    by (cases v rule: sextet_cases) (simp_all add: alphabet_nth base64_value_nat base64_value_nat [of 45, simplified]
      base64_value_nat [of 95, simplified] del: of_nat_add)
qed

lemma base64_value_Some:
  assumes "base64_value b = Some v"
  shows "unat v < 64 \<and> B64_ALPHABET ! unat v = b"
proof -
  define n where "n = unat b"
  have n: "b = of_nat n" "n < 256" using unsigned_less [of b] by (simp_all add: n_def)
  consider k where "k < 26" "n = 65 + k" "v = of_nat k" | k where "k < 26" "n = 97 + k" "v = of_nat (26 + k)"
    | k where "k < 10" "n = 48 + k" "v = of_nat (52 + k)" | "n = 45" "v = 62" | "n = 95" "v = 63"
  proof -
    assume r: "\<And>k. k < 26 \<Longrightarrow> n = 65 + k \<Longrightarrow> v = of_nat k \<Longrightarrow> thesis" "\<And>k. k < 26 \<Longrightarrow> n = 97 + k \<Longrightarrow> v = of_nat (26 + k) \<Longrightarrow> thesis"
      "\<And>k. k < 10 \<Longrightarrow> n = 48 + k \<Longrightarrow> v = of_nat (52 + k) \<Longrightarrow> thesis" "n = 45 \<Longrightarrow> v = 62 \<Longrightarrow> thesis" "n = 95 \<Longrightarrow> v = 63 \<Longrightarrow> thesis"
    have "n - 71 = 26 + (n - 97)" if "97 \<le> n" using that by simp
    moreover have "n + 4 = 52 + (n - 48)" if "48 \<le> n" using that by simp
    ultimately show thesis
      using assms r(1) [of "n - 65"] r(2) [of "n - 97"] r(3) [of "n - 48"] r(4,5)
      unfolding n(1) base64_value_nat [OF n(2)] by (auto simp: add.commute split: if_splits simp del: of_nat_add)
  qed
  then show ?thesis unfolding n(1) by cases (simp_all add: alphabet_nth unat_byte del: of_nat_add)
qed

lemma six_bits: "unat (v :: byte) < 64 \<Longrightarrow> 6 \<le> n \<Longrightarrow> \<not> bit v n"
proof
  assume "unat v < 64" "6 \<le> n" "bit v n"
  then have "take_bit 6 v = v" by (simp add: take_bit_eq_mod word_arith_nat_defs unat_arith_simps)
  then show False using \<open>bit v n\<close> \<open>6 \<le> n\<close> by (metis bit_take_bit_iff not_less)
qed

lemma eight_bits: "8 \<le> n \<Longrightarrow> \<not> bit (v :: byte) n"
  using bit_imp_le_length [of v n] by auto

lemma less_8_cases: "n < (8 :: nat) \<Longrightarrow> n = 0 \<or> n = 1 \<or> n = 2 \<or> n = 3 \<or> n = 4 \<or> n = 5 \<or> n = 6 \<or> n = 7"
  by linarith

lemma byte_eqI:
  fixes a b :: byte
  assumes "bit a 0 = bit b 0" "bit a 1 = bit b 1" "bit a 2 = bit b 2" "bit a 3 = bit b 3"
    "bit a 4 = bit b 4" "bit a 5 = bit b 5" "bit a 6 = bit b 6" "bit a 7 = bit b 7"
  shows "a = b"
proof (rule bit_word_eqI)
  fix n assume "n < LENGTH(8)"
  then have "n < 8" by simp
  from less_8_cases [OF this] show "bit a n = bit b n" using assms by (elim disjE) simp_all
qed

lemma sextet_eqI:
  fixes x :: "32 word" and v :: byte
  assumes "unat v < 64" "bit x 0 = bit v 0" "bit x 1 = bit v 1" "bit x 2 = bit v 2" "bit x 3 = bit v 3"
    "bit x 4 = bit v 4" "bit x 5 = bit v 5"
  shows "x AND 63 = ucast v"
proof (rule bit_word_eqI)
  fix n assume "n < LENGTH(32)"
  have m: "(63 :: 32 word) = mask 6" by (simp add: mask_eq_exp_minus_1)
  show "bit (x AND 63) n = bit (ucast v :: 32 word) n"
  proof (cases "n < 6")
    case True
    then have "n = 0 \<or> n = 1 \<or> n = 2 \<or> n = 3 \<or> n = 4 \<or> n = 5" by linarith
    then show ?thesis unfolding m using assms by (auto simp: bit_simps)
  next
    case False
    then show ?thesis unfolding m using six_bits [OF assms(1), of n] by (simp add: bit_simps)
  qed
qed

text \<open>Four characters are three bytes: the bytes the loop emits, and the characters those bytes print as.\<close>

definition sextets :: "32 word \<Rightarrow> byte list \<Rightarrow> 32 word" where
  "sextets acc vs = foldl (\<lambda>acc v. push_bit 6 acc OR ucast v) acc vs"

lemma chunk_sextets:
  fixes v1 v2 v3 v4 :: byte and acc :: "32 word"
  assumes v: "unat v1 < 64" "unat v2 < 64" "unat v3 < 64" "unat v4 < 64"
  defines "b0 \<equiv> ucast (drop_bit 4 (sextets acc [v1, v2])) :: byte"
    and "b1 \<equiv> ucast (drop_bit 2 (sextets acc [v1, v2, v3])) :: byte"
    and "b2 \<equiv> ucast (sextets acc [v1, v2, v3, v4]) :: byte"
  defines "n \<equiv> push_bit 16 (ucast b0) OR push_bit 8 (ucast b1) OR (ucast b2 :: 32 word)"
  shows "drop_bit 18 n AND 63 = ucast v1" "drop_bit 12 n AND 63 = ucast v2"
    "drop_bit 6 n AND 63 = ucast v3" "n AND 63 = ucast v4"
proof -
  note f = six_bits [OF v(2)] six_bits [OF v(3)] six_bits [OF v(4)] eight_bits
  note d = n_def b0_def b1_def b2_def sextets_def
  show "drop_bit 18 n AND 63 = ucast v1" by (rule sextet_eqI [OF v(1)]) (simp_all add: d bit_simps f)
  show "drop_bit 12 n AND 63 = ucast v2" by (rule sextet_eqI [OF v(2)]) (simp_all add: d bit_simps f)
  show "drop_bit 6 n AND 63 = ucast v3" by (rule sextet_eqI [OF v(3)]) (simp_all add: d bit_simps f)
  show "n AND 63 = ucast v4" by (rule sextet_eqI [OF v(4)]) (simp_all add: d bit_simps f)
qed

text \<open>And back: the sextets of three bytes put together again.\<close>

lemma sextets_chunk:
  fixes b0 b1 b2 :: byte and acc :: "32 word"
  defines "n \<equiv> push_bit 16 (ucast b0) OR push_bit 8 (ucast b1) OR (ucast b2 :: 32 word)"
  defines "v1 \<equiv> ucast (drop_bit 18 n AND 63) :: byte" and "v2 \<equiv> ucast (drop_bit 12 n AND 63) :: byte"
    and "v3 \<equiv> ucast (drop_bit 6 n AND 63) :: byte" and "v4 \<equiv> ucast (n AND 63) :: byte"
  shows "ucast (drop_bit 4 (sextets acc [v1, v2])) = b0" "ucast (drop_bit 2 (sextets acc [v1, v2, v3])) = b1"
    "ucast (sextets acc [v1, v2, v3, v4]) = b2"
    "b1 = 0 \<Longrightarrow> sextets acc [v1, v2] AND 15 = 0" "b2 = 0 \<Longrightarrow> sextets acc [v1, v2, v3] AND 3 = 0"
proof -
  have m: "(63 :: 32 word) = mask 6" "(15 :: 32 word) = mask 4" "(3 :: 32 word) = mask 2" by (simp_all add: mask_eq_exp_minus_1)
  note d = n_def v1_def v2_def v3_def v4_def sextets_def m(1)
  show "ucast (drop_bit 4 (sextets acc [v1, v2])) = b0" by (rule byte_eqI) (simp_all add: d bit_simps eight_bits)
  show "ucast (drop_bit 2 (sextets acc [v1, v2, v3])) = b1" by (rule byte_eqI) (simp_all add: d bit_simps eight_bits)
  show "ucast (sextets acc [v1, v2, v3, v4]) = b2" by (rule byte_eqI) (simp_all add: d bit_simps eight_bits)
  show "sextets acc [v1, v2] AND 15 = 0" if "b1 = 0"
  proof (rule bit_word_eqI)
    fix k assume "k < LENGTH(32)"
    have "k < 4 \<Longrightarrow> k = 0 \<or> k = 1 \<or> k = 2 \<or> k = 3" by linarith
    then show "bit (sextets acc [v1, v2] AND 15) k = bit 0 k" using that unfolding m(2) by (auto simp: d bit_simps eight_bits)
  qed
  show "sextets acc [v1, v2, v3] AND 3 = 0" if "b2 = 0"
  proof (rule bit_word_eqI)
    fix k assume "k < LENGTH(32)"
    have "k < 2 \<Longrightarrow> k = 0 \<or> k = 1" by linarith
    then show "bit (sextets acc [v1, v2, v3] AND 3) k = bit 0 k" using that unfolding m(3) by (auto simp: d bit_simps eight_bits)
  qed
qed

text \<open>The loop, four characters at a time.\<close>

lemma base64_loop_4:
  assumes "map base64_value [c1, c2, c3, c4] = map Some [v1, v2, v3, v4]"
  shows "base64_loop acc 0 out (c1 # c2 # c3 # c4 # r) =
    base64_loop (sextets acc [v1, v2, v3, v4]) 0
      (out @ [ucast (drop_bit 4 (sextets acc [v1, v2])), ucast (drop_bit 2 (sextets acc [v1, v2, v3])),
        ucast (sextets acc [v1, v2, v3, v4])]) r"
  using assms by (simp add: sextets_def Let_def)

lemma base64_loop_3:
  assumes "map base64_value [c1, c2, c3] = map Some [v1, v2, v3]"
  shows "base64_loop acc 0 out [c1, c2, c3] =
    Some (sextets acc [v1, v2, v3], 2,
      out @ [ucast (drop_bit 4 (sextets acc [v1, v2])), ucast (drop_bit 2 (sextets acc [v1, v2, v3]))])"
  using assms by (simp add: sextets_def Let_def)

lemma base64_loop_2:
  assumes "map base64_value [c1, c2] = map Some [v1, v2]"
  shows "base64_loop acc 0 out [c1, c2] =
    Some (sextets acc [v1, v2], 4, out @ [ucast (drop_bit 4 (sextets acc [v1, v2]))])"
  using assms by (simp add: sextets_def Let_def)

lemma base64_loop_valid: "base64_loop acc bits out cs = Some x \<Longrightarrow> c \<in> set cs \<Longrightarrow> \<exists>v. base64_value c = Some v"
proof (induction cs arbitrary: acc bits out)
  case (Cons a cs)
  then show ?case by (cases "base64_value a") (auto simp: Let_def split: if_splits)
qed simp

text \<open>Alphabet characters of a 24-bit group.\<close>

abbreviation letter :: "32 word \<Rightarrow> byte" where
  "letter w \<equiv> B64_ALPHABET ! unat (w AND 63)"

lemma and_63_less: "unat ((w :: 32 word) AND 63) < 64"
proof -
  have m: "(63 :: 32 word) = mask 6" by (simp add: mask_eq_exp_minus_1)
  have "w AND 63 = take_bit 6 w" unfolding m by (simp only: take_bit_eq_mask)
  then show ?thesis by (simp add: unsigned_take_bit_eq take_bit_nat_less_exp [of 6, simplified])
qed

lemma letter_value: "base64_value (letter w) = Some (ucast (w AND 63))"
proof -
  have "of_nat (unat (w AND 63)) = (ucast (w AND 63) :: byte)" by (simp add: unsigned_ucast_eq)
  then show ?thesis using base64_value_alphabet [OF and_63_less] by simp
qed

lemma chunk_letters:
  "base64_chunk [a, b, c] =
     (let n = push_bit 16 (ucast a) OR push_bit 8 (ucast b) OR ucast c
      in [letter (drop_bit 18 n), letter (drop_bit 12 n), letter (drop_bit 6 n), letter n])"
  "base64_chunk [a, b] =
     (let n = push_bit 16 (ucast a) OR push_bit 8 (ucast b) OR ucast (0 :: byte)
      in [letter (drop_bit 18 n), letter (drop_bit 12 n), letter (drop_bit 6 n)])"
  "base64_chunk [a] =
     (let n = push_bit 16 (ucast a) OR push_bit 8 (ucast (0 :: byte)) OR ucast (0 :: byte)
      in [letter (drop_bit 18 n), letter (drop_bit 12 n)])"
  by (simp_all add: base64_chunk_def slice_get_def Let_def)

lemma base64_loop_encode:
  "\<exists>acc' bits. base64_loop acc 0 out (base64url_encode bs) = Some (acc', bits, out @ bs) \<and>
     (bits = 0 \<or> acc' AND (push_bit bits 1 - 1) = 0)"
proof (induction bs arbitrary: acc out rule: base64url_encode.induct)
  case (1 a b c r)
  let ?n = "push_bit 16 (ucast a) OR push_bit 8 (ucast b) OR ucast c :: 32 word"
  have v: "map base64_value [letter (drop_bit 18 ?n), letter (drop_bit 12 ?n), letter (drop_bit 6 ?n), letter ?n] =
      map Some [ucast (drop_bit 18 ?n AND 63), ucast (drop_bit 12 ?n AND 63), ucast (drop_bit 6 ?n AND 63), ucast (?n AND 63)]"
    by (simp only: list.map letter_value)
  have "base64_loop acc 0 out (base64url_encode (a # b # c # r)) =
      base64_loop (sextets acc [ucast (drop_bit 18 ?n AND 63), ucast (drop_bit 12 ?n AND 63), ucast (drop_bit 6 ?n AND 63),
        ucast (?n AND 63)]) 0 (out @ [a, b, c]) (base64url_encode r)"
    by (simp only: base64url_encode.simps chunk_letters Let_def append_Cons append_Nil base64_loop_4 [OF v] sextets_chunk(1-3))
  then show ?case using 1 [of _ "out @ [a, b, c]"] by (simp only: append_assoc append_Cons append_Nil)
next
  case (3 a)
  let ?n = "push_bit 16 (ucast a) OR push_bit 8 (ucast (0 :: byte)) OR ucast (0 :: byte) :: 32 word"
  have v: "map base64_value [letter (drop_bit 18 ?n), letter (drop_bit 12 ?n)] =
      map Some [ucast (drop_bit 18 ?n AND 63), ucast (drop_bit 12 ?n AND 63)]"
    by (simp only: list.map letter_value)
  have "base64_loop acc 0 out (base64url_encode [a]) =
      Some (sextets acc [ucast (drop_bit 18 ?n AND 63), ucast (drop_bit 12 ?n AND 63)], 4, out @ [a])"
    by (simp only: base64url_encode.simps chunk_letters Let_def base64_loop_2 [OF v] sextets_chunk(1))
  moreover have "push_bit 4 1 - 1 = (15 :: 32 word)" by simp
  ultimately show ?case using sextets_chunk(4) [of 0 acc a 0] by (metis push_bit_of_0)
next
  case (4 a b)
  let ?n = "push_bit 16 (ucast a) OR push_bit 8 (ucast b) OR ucast (0 :: byte) :: 32 word"
  have v: "map base64_value [letter (drop_bit 18 ?n), letter (drop_bit 12 ?n), letter (drop_bit 6 ?n)] =
      map Some [ucast (drop_bit 18 ?n AND 63), ucast (drop_bit 12 ?n AND 63), ucast (drop_bit 6 ?n AND 63)]"
    by (simp only: list.map letter_value)
  have "base64_loop acc 0 out (base64url_encode [a, b]) =
      Some (sextets acc [ucast (drop_bit 18 ?n AND 63), ucast (drop_bit 12 ?n AND 63), ucast (drop_bit 6 ?n AND 63)], 2, out @ [a, b])"
    by (simp only: base64url_encode.simps chunk_letters Let_def base64_loop_3 [OF v] sextets_chunk(1,2))
  moreover have "push_bit 2 1 - 1 = (3 :: 32 word)" by simp
  ultimately show ?case using sextets_chunk(5) [of 0 acc a b] by metis
qed simp

lemma base64_encode_length: "length (base64url_encode bs) mod 4 \<noteq> 1"
  by (induction bs rule: base64url_encode.induct) (simp_all add: chunk_letters Let_def)

lemma base64_roundtrip: "base64url_decode (base64url_encode bs) = Some bs"
  using base64_loop_encode [of 0 "[]" bs] base64_encode_length [of bs] by (auto simp: base64url_decode_def)

text \<open>The other way: a text the decoder takes is the one its bytes print as.\<close>

lemma letter_of_value:
  assumes "base64_value c = Some v" "w AND 63 = ucast v"
  shows "letter w = c"
proof -
  have "unat (ucast v :: 32 word) = unat v" by (simp add: unsigned_ucast_eq take_bit_nat_eq_self unsigned_less [THEN less_le_trans])
  then show ?thesis using base64_value_Some [OF assms(1)] assms(2) by simp
qed

lemma low_bits_clear:
  fixes S :: "32 word"
  shows "S AND 15 = 0 \<Longrightarrow> ucast (drop_bit 2 (push_bit 6 S OR ucast (0 :: byte))) = (0 :: byte)"
    "S AND 15 = 0 \<Longrightarrow> ucast (push_bit 6 (push_bit 6 S OR ucast (0 :: byte)) OR ucast (0 :: byte)) = (0 :: byte)"
    "S AND 3 = 0 \<Longrightarrow> ucast (push_bit 6 S OR ucast (0 :: byte)) = (0 :: byte)"
proof -
  have m: "(15 :: 32 word) = mask 4" "(3 :: 32 word) = mask 2" by (simp_all add: mask_eq_exp_minus_1)
  have z: "\<not> bit S k" if "S AND mask j = 0" "k < j" "j < 32" for k j
  proof -
    have "\<not> bit (S AND mask j) k" unfolding that(1) by simp
    then show ?thesis using that(2,3) by (simp add: bit_and_iff bit_mask_iff possible_bit_word)
  qed
  show "ucast (drop_bit 2 (push_bit 6 S OR ucast (0 :: byte))) = (0 :: byte)" if "S AND 15 = 0"
    by (rule byte_eqI) (use z [OF that [unfolded m]] in \<open>simp_all add: bit_simps\<close>)
  show "ucast (push_bit 6 (push_bit 6 S OR ucast (0 :: byte)) OR ucast (0 :: byte)) = (0 :: byte)" if "S AND 15 = 0"
    by (rule byte_eqI) (use z [OF that [unfolded m]] in \<open>simp_all add: bit_simps\<close>)
  show "ucast (push_bit 6 S OR ucast (0 :: byte)) = (0 :: byte)" if "S AND 3 = 0"
    by (rule byte_eqI) (use z [OF that [unfolded m]] in \<open>simp_all add: bit_simps\<close>)
qed

lemma base64_loop_canonical:
  assumes "base64_loop acc 0 out t = Some (acc', bits, out')" "length t mod 4 \<noteq> 1"
    "bits = 0 \<or> acc' AND (push_bit bits 1 - 1) = 0"
  shows "\<exists>bs. out' = out @ bs \<and> base64url_encode bs = t"
  using assms
proof (induction "length t" arbitrary: acc out t rule: less_induct)
  case less
  have v: "\<exists>v. base64_value c = Some v" if "c \<in> set t" for c using base64_loop_valid less.prems(1) that by blast
  have "t = [] \<or> (\<exists>a. t = [a]) \<or> (\<exists>a b. t = [a, b]) \<or> (\<exists>a b c. t = [a, b, c]) \<or> (\<exists>a b c d r. t = a # b # c # d # r)"
    by (metis list.exhaust)
  then consider "t = []" | c1 c2 where "t = [c1, c2]" | c1 c2 c3 where "t = [c1, c2, c3]"
    | c1 c2 c3 c4 r where "t = c1 # c2 # c3 # c4 # r" using less.prems(2) by fastforce
  then show ?case
  proof cases
    case 1
    then show ?thesis using less.prems(1) by (intro exI [of _ "[]"]) simp
  next
    case (2 c1 c2)
    then obtain v1 v2 where v: "base64_value c1 = Some v1" "base64_value c2 = Some v2" using v by fastforce
    let ?S = "sextets acc [v1, v2]" and ?b = "ucast (drop_bit 4 (sextets acc [v1, v2])) :: byte"
    have "base64_loop acc 0 out [c1, c2] = Some (?S, 4, out @ [?b])" by (rule base64_loop_2) (simp add: v)
    then have e: "acc' = ?S" "bits = 4" "out' = out @ [?b]" using less.prems(1) [unfolded 2] by (metis option.inject prod.inject)+
    then have "?S AND 15 = 0" using less.prems(3) by simp
    from low_bits_clear(1,2) [OF this] have z: "ucast (drop_bit 2 (sextets acc [v1, v2, 0])) = (0 :: byte)"
      "ucast (sextets acc [v1, v2, 0, 0]) = (0 :: byte)" by (simp_all add: sextets_def)
    have w: "unat v1 < 64" "unat v2 < 64" "unat (0 :: byte) < 64" using base64_value_Some v by simp_all
    note q = chunk_sextets(1,2) [OF w(1,2,3,3), of acc, unfolded z]
    have "base64_chunk [?b] = [c1, c2]"
      by (simp only: chunk_letters Let_def letter_of_value [OF v(1) q(1)] letter_of_value [OF v(2) q(2)])
    then show ?thesis using e 2 by (intro exI [of _ "[?b]"]) simp
  next
    case (3 c1 c2 c3)
    then obtain v1 v2 v3 where v: "base64_value c1 = Some v1" "base64_value c2 = Some v2" "base64_value c3 = Some v3"
      using v by fastforce
    let ?S = "sextets acc [v1, v2, v3]" and ?a = "ucast (drop_bit 4 (sextets acc [v1, v2])) :: byte"
    let ?b = "ucast (drop_bit 2 (sextets acc [v1, v2, v3])) :: byte"
    have "base64_loop acc 0 out [c1, c2, c3] = Some (?S, 2, out @ [?a, ?b])" by (rule base64_loop_3) (simp add: v)
    then have e: "acc' = ?S" "bits = 2" "out' = out @ [?a, ?b]" using less.prems(1) [unfolded 3] by (metis option.inject prod.inject)+
    then have "?S AND 3 = 0" using less.prems(3) by simp
    from low_bits_clear(3) [OF this] have z: "ucast (sextets acc [v1, v2, v3, 0]) = (0 :: byte)" by (simp add: sextets_def)
    have w: "unat v1 < 64" "unat v2 < 64" "unat v3 < 64" "unat (0 :: byte) < 64" using base64_value_Some v by simp_all
    note q = chunk_sextets(1,2,3) [OF w, of acc, unfolded z]
    have "base64_chunk [?a, ?b] = [c1, c2, c3]"
      by (simp only: chunk_letters Let_def letter_of_value [OF v(1) q(1)] letter_of_value [OF v(2) q(2)] letter_of_value [OF v(3) q(3)])
    then show ?thesis using e 3 by (intro exI [of _ "[?a, ?b]"]) simp
  next
    case (4 c1 c2 c3 c4 r)
    then obtain v1 v2 v3 v4 where v: "base64_value c1 = Some v1" "base64_value c2 = Some v2" "base64_value c3 = Some v3"
      "base64_value c4 = Some v4" using v by fastforce
    let ?S = "sextets acc [v1, v2, v3, v4]" and ?a = "ucast (drop_bit 4 (sextets acc [v1, v2])) :: byte"
    let ?b = "ucast (drop_bit 2 (sextets acc [v1, v2, v3])) :: byte" and ?c = "ucast (sextets acc [v1, v2, v3, v4]) :: byte"
    have "base64_loop acc 0 out (c1 # c2 # c3 # c4 # r) = base64_loop ?S 0 (out @ [?a, ?b, ?c]) r"
      by (rule base64_loop_4) (simp add: v)
    then have "base64_loop ?S 0 (out @ [?a, ?b, ?c]) r = Some (acc', bits, out')" using less.prems(1) by (simp only: 4)
    from less.hyps [OF _ this _ less.prems(3)] less.prems(2) obtain bs where bs: "out' = (out @ [?a, ?b, ?c]) @ bs" "base64url_encode bs = r"
      by (auto simp: 4)
    have w: "unat v1 < 64" "unat v2 < 64" "unat v3 < 64" "unat v4 < 64" using base64_value_Some v by simp_all
    note q = chunk_sextets [OF w, of acc]
    have "base64_chunk [?a, ?b, ?c] = [c1, c2, c3, c4]"
      by (simp only: chunk_letters Let_def letter_of_value [OF v(1) q(1)] letter_of_value [OF v(2) q(2)] letter_of_value [OF v(3) q(3)]
        letter_of_value [OF v(4) q(4)])
    then have "base64url_encode ([?a, ?b, ?c] @ bs) = t" by (simp only: append_Cons append_Nil base64url_encode.simps bs(2) 4)
    then show ?thesis using bs(1) by (metis append_assoc)
  qed
qed

lemma base64_canonical: "base64url_decode t = Some bs \<Longrightarrow> base64url_encode bs = t"
  using base64_loop_canonical [of 0 "[]" t] by (auto simp: base64url_decode_def split: if_splits option.splits)

end
