(* ===== verification/Statements.thy ===== *)
theory Statements
  imports Base64 "HOL-Library.Monad_Syntax"
begin

text \<open>
  The statements a key signs (\<open>crates/zest-mesh/src/enroll.rs\<close>, \<open>link.rs\<close>, \<open>attest.rs\<close>): enrolling a
  machine, linking a device through a browser, one device vouching for another; the text form in which
  a voucher travels; and the places that sign, in \<open>zest-daemon\<close> and \<open>zest-app\<close> too.
\<close>

section \<open>Enrolling and linking\<close>

text \<open>A string behind its length in two bytes; \<open>u16::try_from\<close> fails beyond them.\<close>

definition prefixed :: "'e \<Rightarrow> ustring \<Rightarrow> 'e + byte list" where
  "prefixed e s =
     (let b = utf8_encode s in if length b < 65536 then Inr (be_bytes 2 (length b) @ b) else Inl e)"

datatype enroll_error = EnCodeTooLong | EnLabelTooLong

definition ENROLL_DOMAIN :: "byte list" where "ENROLL_DOMAIN = bytes (lit ''zesterm-enroll-v1'')"

definition enrollment_request_for :: "ustring \<Rightarrow> byte list \<Rightarrow> ustring \<Rightarrow> enroll_error + byte list" where
  "enrollment_request_for code key label =
     (case prefixed EnCodeTooLong code of
        Inl e \<Rightarrow> Inl e
      | Inr c \<Rightarrow> (case prefixed EnLabelTooLong label of
          Inl e \<Rightarrow> Inl e
        | Inr l \<Rightarrow> Inr (ENROLL_DOMAIN @ c @ key @ l)))"

definition verify_enrollment :: "crypto \<Rightarrow> ustring \<Rightarrow> byte list \<Rightarrow> ustring \<Rightarrow> byte list \<Rightarrow> bool" where
  "verify_enrollment C code host label sig =
     (case enrollment_request_for code host label of
        Inl _ \<Rightarrow> False
      | Inr m \<Rightarrow> verify_host C host Enrollment m sig = Inr ())"

datatype link_error = LkLabelTooLong | LkGrantTooLong

definition LINK_DOMAIN :: "byte list" where "LINK_DOMAIN = bytes (lit ''zesterm-link-v1'')"

definition link_request :: "byte list \<Rightarrow> ustring \<Rightarrow> link_error + byte list" where
  "link_request key label =
     (case prefixed LkLabelTooLong label of Inl e \<Rightarrow> Inl e | Inr l \<Rightarrow> Inr (LINK_DOMAIN @ [1] @ key @ l))"

definition link_claim :: "ustring \<Rightarrow> byte list \<Rightarrow> link_error + byte list" where
  "link_claim grant key =
     (case prefixed LkGrantTooLong grant of Inl e \<Rightarrow> Inl e | Inr g \<Rightarrow> Inr (LINK_DOMAIN @ [2] @ g @ key))"

definition verify_link_request :: "crypto \<Rightarrow> byte list \<Rightarrow> ustring \<Rightarrow> byte list \<Rightarrow> bool" where
  "verify_link_request C client label sig =
     (case link_request client label of
        Inl _ \<Rightarrow> False
      | Inr m \<Rightarrow> verify_client C client Enrollment m sig = Inr ())"

definition verify_link_claim :: "crypto \<Rightarrow> ustring \<Rightarrow> byte list \<Rightarrow> byte list \<Rightarrow> bool" where
  "verify_link_claim C grant client sig =
     (case link_claim grant client of
        Inl _ \<Rightarrow> False
      | Inr m \<Rightarrow> verify_client C client Enrollment m sig = Inr ())"

section \<open>Vouching\<close>

datatype attest_error = AtAccountTooLong | AtLabelTooLong | AtSignerIsNotApprover

record attestation =
  at_v :: "16 word"
  at_account :: ustring
  at_device :: "byte list"
  at_label :: ustring
  at_by :: "byte list"
  at_iat :: "64 word"
  at_exp :: "64 word"

definition ATTEST_DOMAIN :: "byte list" where "ATTEST_DOMAIN = bytes (lit ''zesterm-attest-v1'')"

definition ATTESTATION_VERSION :: "16 word" where "ATTESTATION_VERSION = 1"

definition MAX_ATTESTATION_CHARS :: nat where "MAX_ATTESTATION_CHARS = 2048"

definition attestation_message :: "attestation \<Rightarrow> attest_error + byte list" where
  "attestation_message a =
     (case prefixed AtAccountTooLong (at_account a) of
        Inl e \<Rightarrow> Inl e
      | Inr acc \<Rightarrow> (case prefixed AtLabelTooLong (at_label a) of
          Inl e \<Rightarrow> Inl e
        | Inr l \<Rightarrow> Inr (ATTEST_DOMAIN @ be_bytes 2 (unat (at_v a)) @ acc @ at_device a @ l @ at_by a @
            be_bytes 8 (unat (at_iat a)) @ be_bytes 8 (unat (at_exp a)))))"

definition sign_attestation :: "crypto \<Rightarrow> identity \<Rightarrow> attestation \<Rightarrow> attest_error + byte list" where
  "sign_attestation C i a =
     (if id_id i \<noteq> at_by a then Inl AtSignerIsNotApprover
      else case attestation_message a of Inl e \<Rightarrow> Inl e | Inr m \<Rightarrow> Inr (sign_as C ClientRole i DeviceAttestation m))"

definition verify_attestation :: "crypto \<Rightarrow> attestation \<Rightarrow> byte list \<Rightarrow> 64 word \<Rightarrow> bool" where
  "verify_attestation C a sig now =
     (if now < at_iat a \<or> at_exp a \<le> now then False
      else case attestation_message a of
             Inl _ \<Rightarrow> False
           | Inr m \<Rightarrow> verify_client C (at_by a) DeviceAttestation m sig = Inr ())"

subsection \<open>The text form\<close>

text \<open>The parts are ASCII, so the text is its bytes.\<close>

definition encode_attestation :: "attestation \<Rightarrow> byte list \<Rightarrow> attest_error + ustring" where
  "encode_attestation a sig =
     (case attestation_message a of
        Inl e \<Rightarrow> Inl e
      | Inr m \<Rightarrow> Inr (map unat (base64url_encode m) @ lit ''.'' @ map unat (base64url_encode sig)))"

text \<open>\<open>Cursor\<close>: the message and how far it has been read.\<close>

record cursor =
  cr_data :: "byte list"
  cr_at :: nat

definition cr_take :: "nat \<Rightarrow> cursor \<Rightarrow> (byte list \<times> cursor) option" where
  "cr_take n c =
     (let e = cr_at c + n
      in if e \<le> length (cr_data c) then Some (take n (drop (cr_at c) (cr_data c)), c\<lparr>cr_at := e\<rparr>) else None)"

definition cr_u16 :: "cursor \<Rightarrow> (16 word \<times> cursor) option" where
  "cr_u16 c = do { (b, c) \<leftarrow> cr_take 2 c; Some (of_nat (of_be b), c) }"

definition cr_u64 :: "cursor \<Rightarrow> (64 word \<times> cursor) option" where
  "cr_u64 c = do { (b, c) \<leftarrow> cr_take 8 c; Some (of_nat (of_be b), c) }"

definition cr_key :: "cursor \<Rightarrow> (byte list \<times> cursor) option" where
  "cr_key c = cr_take 32 c"

definition cr_string :: "cursor \<Rightarrow> (ustring \<times> cursor) option" where
  "cr_string c = do {
     (len, c) \<leftarrow> cr_u16 c;
     (b, c) \<leftarrow> cr_take (unat len) c;
     s \<leftarrow> from_utf8 b;
     Some (s, c) }"

definition parse_message :: "byte list \<Rightarrow> attestation option" where
  "parse_message message = do {
     (d, c) \<leftarrow> cr_take (length ATTEST_DOMAIN) \<lparr>cr_data = message, cr_at = 0\<rparr>;
     if d \<noteq> ATTEST_DOMAIN then None else do {
     (v, c) \<leftarrow> cr_u16 c;
     if v \<noteq> ATTESTATION_VERSION then None else do {
     (account, c) \<leftarrow> cr_string c;
     (device, c) \<leftarrow> cr_key c;
     (label, c) \<leftarrow> cr_string c;
     (by', c) \<leftarrow> cr_key c;
     (iat, c) \<leftarrow> cr_u64 c;
     (exp', c) \<leftarrow> cr_u64 c;
     if cr_at c \<noteq> length message then None
     else Some \<lparr>at_v = v, at_account = account, at_device = device, at_label = label, at_by = by', at_iat = iat, at_exp = exp'\<rparr> } } }"

record decoded_attestation =
  da_fields :: attestation
  da_message :: "byte list"
  da_signature :: "byte list"

text \<open>\<open>str::split\<close> on one character: always at least one part.\<close>

fun split_on :: "uchar \<Rightarrow> ustring \<Rightarrow> ustring list" where
  "split_on d [] = [[]]"
| "split_on d (c # s) =
     (if c = d then [] # split_on d s
      else case split_on d s of p # ps \<Rightarrow> (c # p) # ps | [] \<Rightarrow> [[c]])"

definition decode_attestation :: "ustring \<Rightarrow> decoded_attestation option" where
  "decode_attestation text =
     (if text = [] \<or> MAX_ATTESTATION_CHARS < length (utf8_encode text) then None
      else case split_on (of_char CHR ''.'') text of
             [m, s] \<Rightarrow> do {
               message \<leftarrow> base64url_decode (utf8_encode m);
               sig \<leftarrow> base64url_decode (utf8_encode s);
               signature \<leftarrow> (case signature_from_slice sig of Inl _ \<Rightarrow> None | Inr x \<Rightarrow> Some x);
               fields \<leftarrow> parse_message message;
               Some \<lparr>da_fields = fields, da_message = message, da_signature = signature\<rparr> }
           | _ \<Rightarrow> None)"

definition decoded_verify :: "crypto \<Rightarrow> decoded_attestation \<Rightarrow> 64 word \<Rightarrow> bool" where
  "decoded_verify C d now =
     (if now < at_iat (da_fields d) \<or> at_exp (da_fields d) \<le> now then False
      else verify_client C (at_by (da_fields d)) DeviceAttestation (da_message d) (da_signature d) = Inr ())"

section \<open>Where statements are signed\<close>

text \<open>
  The signature in a machine's request to enrol (\<open>signed_body\<close> of \<open>zest-daemon/src/enroll.rs\<close>), in a
  device's (\<open>signed_client_body\<close> of \<open>zest-app/src/cloud.rs\<close>), and in the two requests of a link through a
  browser (\<open>start_link\<close>, \<open>claim_link\<close>); the requests themselves are JSON.
\<close>

definition host_enrollment_sig :: "crypto \<Rightarrow> identity \<Rightarrow> ustring \<Rightarrow> ustring \<Rightarrow> enroll_error + byte list" where
  "host_enrollment_sig C i code label =
     (case enrollment_request_for code (id_id i) label of
        Inl e \<Rightarrow> Inl e
      | Inr m \<Rightarrow> Inr (sign_as C HostRole i Enrollment m))"

definition client_enrollment_sig :: "crypto \<Rightarrow> identity \<Rightarrow> ustring \<Rightarrow> ustring \<Rightarrow> enroll_error + byte list" where
  "client_enrollment_sig C i code label =
     (case enrollment_request_for code (id_id i) label of
        Inl e \<Rightarrow> Inl e
      | Inr m \<Rightarrow> Inr (sign_as C ClientRole i Enrollment m))"

definition start_link_sig :: "crypto \<Rightarrow> identity \<Rightarrow> ustring \<Rightarrow> link_error + byte list" where
  "start_link_sig C i label =
     (case link_request (id_id i) label of
        Inl e \<Rightarrow> Inl e
      | Inr m \<Rightarrow> Inr (sign_as C ClientRole i Enrollment m))"

definition claim_link_sig :: "crypto \<Rightarrow> identity \<Rightarrow> ustring \<Rightarrow> link_error + byte list" where
  "claim_link_sig C i grant =
     (case link_claim grant (id_id i) of
        Inl e \<Rightarrow> Inl e
      | Inr m \<Rightarrow> Inr (sign_as C ClientRole i Enrollment m))"

text \<open>
  The challenge of a relay (\<open>zest-daemon/src/relay.rs\<close>): its nonce in lower-case hex, signed bare. The
  relay's own \<open>unhex\<close> takes bytes two by two, so what \<open>from_str_radix\<close> accepts for a pair it accepts.
\<close>

definition NONCE_LEN :: nat where "NONCE_LEN = 32"

datatype relay_error = NonceNotHex | NonceLength nat

fun relay_unhex_pairs :: "byte list \<Rightarrow> byte list option" where
  "relay_unhex_pairs (a # b # r) =
     (case from_utf8 [a, b] of
        None \<Rightarrow> None
      | Some s \<Rightarrow>
          if 65 \<le> a \<and> a \<le> 90 \<or> 65 \<le> b \<and> b \<le> 90 then None
          else (case parse_uint 16 255 s of
                  None \<Rightarrow> None
                | Some v \<Rightarrow> map_option ((#) (of_nat v)) (relay_unhex_pairs r)))"
| "relay_unhex_pairs _ = Some []"

definition relay_unhex :: "ustring \<Rightarrow> byte list option" where
  "relay_unhex text =
     (if odd (length (utf8_encode text)) then None else relay_unhex_pairs (utf8_encode text))"

definition relay_parse_nonce :: "ustring \<Rightarrow> relay_error + byte list" where
  "relay_parse_nonce text =
     (case relay_unhex text of
        None \<Rightarrow> Inl NonceNotHex
      | Some bs \<Rightarrow> if length bs = NONCE_LEN then Inr bs else Inl (NonceLength (length bs)))"

definition sign_challenge :: "crypto \<Rightarrow> identity \<Rightarrow> byte list \<Rightarrow> ustring" where
  "sign_challenge C i nonce = hex_encode (sign_as C HostRole i Auth nonce)"

text \<open>A label cut to a number of UTF-16 units, on a character boundary.\<close>

fun truncate_chars :: "nat \<Rightarrow> ustring \<Rightarrow> ustring" where
  "truncate_chars limit [] = []"
| "truncate_chars limit (c # s) =
     (let units = (if c < 0x10000 then 1 else 2)
      in if limit < units then [] else c # truncate_chars (limit - units) s)"

definition MAX_LABEL_CHARS :: nat where "MAX_LABEL_CHARS = 128"

record hello =
  he_v :: nat
  he_host :: ustring
  he_label :: ustring
  he_sig :: ustring

definition hello_for :: "crypto \<Rightarrow> identity \<Rightarrow> ustring \<Rightarrow> ustring \<Rightarrow> relay_error + hello" where
  "hello_for C i label nonce_hex =
     (case relay_parse_nonce nonce_hex of
        Inl e \<Rightarrow> Inl e
      | Inr nonce \<Rightarrow> Inr \<lparr>he_v = 1, he_host = hex_encode (id_id i),
          he_label = truncate_chars MAX_LABEL_CHARS label, he_sig = sign_challenge C i nonce\<rparr>)"

lemma relay_parse_nonce_length: "relay_parse_nonce text = Inr n \<Longrightarrow> length n = 32"
  by (auto simp: relay_parse_nonce_def NONCE_LEN_def split: option.splits if_splits)

end
