(* ===== verification/Pairing.thy ===== *)
theory Pairing
  imports Secure Statements
begin

text \<open>
  The handshake of a connection and the queue of devices waiting for a person
  (\<open>crates/zest-mesh/src/pairing.rs\<close>), and the store of trusted clients (\<open>trust.rs\<close>).  What the code draws at
  random, reads from a clock or gets from the trust store is an argument.
\<close>

section \<open>The transcript\<close>

record transcript =
  tr_version :: "16 word"
  tr_host :: "byte list"
  tr_client :: "byte list"
  tr_host_nonce :: "byte list"
  tr_client_nonce :: "byte list"
  tr_host_label :: ustring
  tr_client_label :: ustring
  tr_host_dh :: "byte list"
  tr_client_dh :: "byte list"

definition AUTH_DOMAIN :: "byte list" where "AUTH_DOMAIN = bytes (lit ''zesterm-auth-v2'')"

definition too_long :: "string \<Rightarrow> mesh_error" where
  "too_long what = BadSignature (lit what @ lit '' is too long to sign unambiguously'')"

definition auth_transcript :: "transcript \<Rightarrow> mesh_error + byte list" where
  "auth_transcript t =
     (case prefixed (too_long ''host label'') (tr_host_label t) of
        Inl e \<Rightarrow> Inl e
      | Inr h \<Rightarrow> (case prefixed (too_long ''client label'') (tr_client_label t) of
          Inl e \<Rightarrow> Inl e
        | Inr c \<Rightarrow>
            Inr (AUTH_DOMAIN @ be_bytes 2 (unat (tr_version t)) @ tr_host t @ tr_client t @ tr_host_nonce t @
              tr_client_nonce t @ tr_host_dh t @ tr_client_dh t @ h @ c)))"

definition CODE_DOMAIN :: "byte list" where "CODE_DOMAIN = bytes (lit ''zesterm-pairing-code-v1'') @ [0]"

text \<open>\<open>{:06}\<close>: at least six digits, padded with zeroes.\<close>

definition six_digits :: "nat \<Rightarrow> ustring" where
  "six_digits n = (let d = dec_digits n in replicate (6 - length d) (of_char CHR ''0'') @ d)"

definition pairing_code :: "crypto \<Rightarrow> transcript \<Rightarrow> mesh_error + ustring" where
  "pairing_code C t =
     (case auth_transcript t of
        Inl e \<Rightarrow> Inl e
      | Inr m \<Rightarrow> Inr (six_digits (of_be (take 4 (sha256 C (CODE_DOMAIN @ m))) mod 10 ^ 6)))"

section \<open>Trusted clients\<close>

record trust_record =
  tc_client :: "byte list"
  tc_label :: ustring
  tc_paired_at :: nat
  tc_last_seen :: "nat option"

text \<open>\<open>MemoryTrustStore\<close>, and the index of a \<open>FileTrustStore\<close>: a map by client.  Times in nanoseconds.\<close>

type_synonym trust_store = "byte list \<rightharpoonup> trust_record"

definition trust_get :: "trust_store \<Rightarrow> byte list \<Rightarrow> mesh_error + trust_record option" where
  "trust_get st c = Inr (st c)"

definition trust_insert :: "trust_record \<Rightarrow> trust_store \<Rightarrow> (mesh_error + unit) \<times> trust_store" where
  "trust_insert r st = (Inr (), st(tc_client r \<mapsto> r))"

definition trust_touch :: "trust_store \<Rightarrow> byte list \<Rightarrow> nat \<Rightarrow> trust_store" where
  "trust_touch st c at =
     (case st c of None \<Rightarrow> st | Some r \<Rightarrow> st(c \<mapsto> r\<lparr>tc_last_seen := Some at\<rparr>))"

definition trust_remove :: "trust_store \<Rightarrow> byte list \<Rightarrow> bool \<times> trust_store" where
  "trust_remove st c = (st c \<noteq> None, st(c := None))"

text \<open>The file keeps whole seconds.\<close>

definition to_unix :: "nat \<Rightarrow> nat" where "to_unix t = t div 10 ^ 9"

definition from_unix :: "nat \<Rightarrow> nat" where "from_unix s = s * 10 ^ 9"

definition client_entry :: "trust_record \<Rightarrow> trust_record" where
  "client_entry r = r\<lparr>tc_paired_at := to_unix (tc_paired_at r), tc_last_seen := map_option to_unix (tc_last_seen r)\<rparr>"

definition entry_record :: "trust_record \<Rightarrow> trust_record" where
  "entry_record e = e\<lparr>tc_paired_at := from_unix (tc_paired_at e), tc_last_seen := map_option from_unix (tc_last_seen e)\<rparr>"

text \<open>
  \<open>FileTrustStore\<close>: the index, when \<open>last_seen\<close> was last written, and what the file holds.  \<open>io\<close> is how
  the write went; the file is replaced whole or not at all.
\<close>

record file_store =
  fs_index :: trust_store
  fs_dirty :: "nat option"
  fs_disk :: trust_store

definition FORMAT_VERSION :: nat where "FORMAT_VERSION = 1"

definition LAST_SEEN_DEBOUNCE :: nat where "LAST_SEEN_DEBOUNCE = 60 * 10 ^ 9"

definition file_parse :: "nat \<Rightarrow> trust_store \<Rightarrow> mesh_error \<Rightarrow> mesh_error + trust_store" where
  "file_parse version clients newer =
     (if FORMAT_VERSION < version then Inl newer else Inr (\<lambda>c. map_option entry_record (clients c)))"

datatype read_result = Missing | Unreadable mesh_error | FileText nat trust_store

definition file_open :: "read_result \<Rightarrow> mesh_error \<Rightarrow> mesh_error + file_store" where
  "file_open r newer =
     (case r of
        Missing \<Rightarrow> Inr \<lparr>fs_index = Map.empty, fs_dirty = None, fs_disk = Map.empty\<rparr>
      | Unreadable e \<Rightarrow> Inl e
      | FileText v cs \<Rightarrow>
          (case file_parse v cs newer of
             Inl e \<Rightarrow> Inl e
           | Inr idx \<Rightarrow> Inr \<lparr>fs_index = idx, fs_dirty = None, fs_disk = cs\<rparr>))"

definition file_flush :: "file_store \<Rightarrow> mesh_error option \<Rightarrow> (mesh_error + unit) \<times> file_store" where
  "file_flush s io =
     (case io of
        Some e \<Rightarrow> (Inl e, s)
      | None \<Rightarrow> (Inr (), s\<lparr>fs_disk := (\<lambda>c. map_option client_entry (fs_index s c))\<rparr>))"

definition file_get :: "file_store \<Rightarrow> byte list \<Rightarrow> mesh_error + trust_record option" where
  "file_get s c = Inr (fs_index s c)"

definition file_insert :: "mesh_error option \<Rightarrow> trust_record \<Rightarrow> file_store \<Rightarrow> (mesh_error + unit) \<times> file_store" where
  "file_insert io r s = file_flush (s\<lparr>fs_index := (fs_index s)(tc_client r \<mapsto> r)\<rparr>) io"

definition file_touch :: "file_store \<Rightarrow> byte list \<Rightarrow> nat \<Rightarrow> mesh_error option \<Rightarrow> (mesh_error + unit) \<times> file_store" where
  "file_touch s c at io =
     (case fs_index s c of
        None \<Rightarrow> (Inr (), s)
      | Some r \<Rightarrow>
          let s = s\<lparr>fs_index := (fs_index s)(c \<mapsto> r\<lparr>tc_last_seen := Some at\<rparr>)\<rparr>;
              due = (case fs_dirty s of None \<Rightarrow> True | Some since \<Rightarrow> LAST_SEEN_DEBOUNCE \<le> at - since)
          in if \<not> due then (Inr (), s) else file_flush (s\<lparr>fs_dirty := Some at\<rparr>) io)"

definition file_remove :: "file_store \<Rightarrow> byte list \<Rightarrow> mesh_error option \<Rightarrow> (mesh_error + bool) \<times> file_store" where
  "file_remove s c io =
     (let existed = fs_index s c \<noteq> None; s = s\<lparr>fs_index := (fs_index s)(c := None)\<rparr>
      in if existed
         then (case file_flush s io of (Inl e, s) \<Rightarrow> (Inl e, s) | (Inr _, s) \<Rightarrow> (Inr True, s))
         else (Inr False, s))"

section \<open>The host\<close>

datatype hs_state = Greeting | Challenged transcript | PendingApproval transcript | ReadyFor transcript | RefusedState

datatype refusal = RefVersion | RefSignature | RefUnknownClient | RefDenied | RefTimedOut

datatype host_step =
    StepChallenge "byte list" "byte list" "byte list"
  | StepWelcome
  | StepNeedsApproval ustring
  | StepRefused refusal

record host_handshake =
  hh_identity :: identity
  hh_label :: ustring
  hh_version :: "16 word"
  hh_state :: hs_state
  hh_dh :: "byte list option"

definition host_new :: "identity \<Rightarrow> ustring \<Rightarrow> 16 word \<Rightarrow> host_handshake" where
  "host_new i label v = \<lparr>hh_identity = i, hh_label = label, hh_version = v, hh_state = Greeting, hh_dh = None\<rparr>"

definition hh_is_ready :: "host_handshake \<Rightarrow> bool" where
  "hh_is_ready h \<longleftrightarrow> (case hh_state h of ReadyFor _ \<Rightarrow> True | _ \<Rightarrow> False)"

definition hh_transcript :: "host_handshake \<Rightarrow> transcript option" where
  "hh_transcript h =
     (case hh_state h of Challenged t \<Rightarrow> Some t | PendingApproval t \<Rightarrow> Some t | ReadyFor t \<Rightarrow> Some t
      | Greeting \<Rightarrow> None | RefusedState \<Rightarrow> None)"

definition refuse :: "host_handshake \<Rightarrow> refusal \<Rightarrow> host_step \<times> host_handshake" where
  "refuse h r = (StepRefused r, h\<lparr>hh_state := RefusedState\<rparr>)"

text \<open>\<open>channel\<close>: the secret is taken, whatever comes of it.\<close>

definition hh_channel :: "crypto \<Rightarrow> host_handshake \<Rightarrow> (mesh_error + channel) option \<times> host_handshake" where
  "hh_channel C h =
     (case hh_dh h of
        None \<Rightarrow> (None, h)
      | Some dh \<Rightarrow>
          let h = h\<lparr>hh_dh := None\<rparr>
          in case hh_transcript h of
               None \<Rightarrow> (None, h)
             | Some t \<Rightarrow>
                 (Some (case auth_transcript t of
                    Inl e \<Rightarrow> Inl e
                  | Inr m \<Rightarrow> agree C dh (tr_client_dh t) (sha256 C m) HostRole), h))"

text \<open>\<open>on_hello\<close>; \<open>rn\<close> and \<open>rd\<close> are the nonce and the ephemeral secret drawn, or why there is none.\<close>

definition on_hello :: "crypto \<Rightarrow> host_handshake \<Rightarrow> 16 word \<Rightarrow> byte list \<Rightarrow> ustring \<Rightarrow> byte list \<Rightarrow> byte list \<Rightarrow>
    mesh_error + byte list \<Rightarrow> mesh_error + byte list \<Rightarrow> host_step \<times> host_handshake" where
  "on_hello C h version client client_label client_nonce client_dh rn rd =
     (if hh_state h \<noteq> Greeting then refuse h RefSignature
      else if version \<noteq> hh_version h then refuse h RefVersion
      else if is_absent client_nonce then refuse h RefSignature
      else case rn of
             Inl _ \<Rightarrow> refuse h RefSignature
           | Inr host_nonce \<Rightarrow>
               (case rd of
                  Inl _ \<Rightarrow> refuse h RefSignature
                | Inr host_dh \<Rightarrow>
                    let t = \<lparr>tr_version = hh_version h, tr_host = id_id (hh_identity h), tr_client = client,
                             tr_host_nonce = host_nonce, tr_client_nonce = client_nonce, tr_host_label = hh_label h,
                             tr_client_label = client_label, tr_host_dh = x_public C host_dh, tr_client_dh = client_dh\<rparr>
                    in case auth_transcript t of
                         Inl _ \<Rightarrow> refuse h RefSignature
                       | Inr m \<Rightarrow>
                           (StepChallenge host_nonce (x_public C host_dh) (sign_as C HostRole (hh_identity h) Auth m),
                            h\<lparr>hh_dh := Some host_dh, hh_state := Challenged t\<rparr>)))"

text \<open>\<open>on_auth\<close>: first the proof, only then the trust store, whose answer is asked for by \<open>get\<close>.\<close>

definition on_auth :: "crypto \<Rightarrow> host_handshake \<Rightarrow> byte list \<Rightarrow> (byte list \<Rightarrow> mesh_error + trust_record option) \<Rightarrow>
    host_step \<times> host_handshake" where
  "on_auth C h sig get =
     (case hh_state h of
        Challenged t \<Rightarrow>
          (case auth_transcript t of
             Inl _ \<Rightarrow> refuse h RefSignature
           | Inr m \<Rightarrow>
               if verify_client C (tr_client t) Auth m sig \<noteq> Inr () then refuse h RefSignature
               else case get (tr_client t) of
                      Inr (Some _) \<Rightarrow> (StepWelcome, h\<lparr>hh_state := ReadyFor t\<rparr>)
                    | Inr None \<Rightarrow>
                        (case pairing_code C t of
                           Inl _ \<Rightarrow> refuse h RefSignature
                         | Inr code \<Rightarrow> (StepNeedsApproval code, h\<lparr>hh_state := PendingApproval t\<rparr>))
                    | Inl _ \<Rightarrow> refuse h RefUnknownClient)
      | _ \<Rightarrow> refuse h RefSignature)"

text \<open>
  \<open>approved\<close>: the record is written before the answer.  \<open>put\<close> is the store's \<open>insert\<close>, which may change the
  store and still fail.
\<close>

definition approved :: "host_handshake \<Rightarrow> nat \<Rightarrow> (trust_record \<Rightarrow> 's \<Rightarrow> (mesh_error + unit) \<times> 's) \<Rightarrow> 's \<Rightarrow>
    host_step \<times> host_handshake \<times> 's" where
  "approved h now put st =
     (case hh_state h of
        PendingApproval t \<Rightarrow>
          (case put \<lparr>tc_client = tr_client t, tc_label = tr_client_label t, tc_paired_at = now, tc_last_seen = None\<rparr> st of
             (Inl _, st) \<Rightarrow> (StepRefused RefUnknownClient, h\<lparr>hh_state := RefusedState\<rparr>, st)
           | (Inr _, st) \<Rightarrow> (StepWelcome, h\<lparr>hh_state := ReadyFor t\<rparr>, st))
      | _ \<Rightarrow> (StepRefused RefDenied, h, st))"

definition denied :: "host_handshake \<Rightarrow> refusal \<Rightarrow> host_step \<times> host_handshake" where
  "denied h r = refuse h r"

section \<open>The client\<close>

record challenge =
  cl_version :: "16 word"
  cl_host :: "byte list"
  cl_label :: ustring
  cl_nonce :: "byte list"
  cl_dh :: "byte list"
  cl_signature :: "byte list"

definition verify_challenge :: "crypto \<Rightarrow> byte list option \<Rightarrow> transcript \<Rightarrow> byte list \<Rightarrow> mesh_error + unit" where
  "verify_challenge C expected t sig =
     (if (case expected of Some e \<Rightarrow> e \<noteq> tr_host t | None \<Rightarrow> False)
      then Inl (BadSignature (lit ''dialled '' @ short_id (the expected) @ lit '' and reached '' @ short_id (tr_host t)))
      else case auth_transcript t of Inl e \<Rightarrow> Inl e | Inr m \<Rightarrow> verify_host C (tr_host t) Auth m sig)"

record client_handshake =
  ch_identity :: identity
  ch_label :: ustring
  ch_nonce :: "byte list"
  ch_dh :: "byte list option"

definition client_new :: "identity \<Rightarrow> ustring \<Rightarrow> mesh_error + byte list \<Rightarrow> mesh_error + byte list \<Rightarrow> mesh_error + client_handshake" where
  "client_new i label rn rd =
     (case rn of Inl e \<Rightarrow> Inl e | Inr n \<Rightarrow> (case rd of Inl e \<Rightarrow> Inl e
      | Inr d \<Rightarrow> Inr \<lparr>ch_identity = i, ch_label = label, ch_nonce = n, ch_dh = Some d\<rparr>))"

definition client_dh :: "crypto \<Rightarrow> client_handshake \<Rightarrow> byte list" where
  "client_dh C c = (case ch_dh c of None \<Rightarrow> replicate 32 0 | Some d \<Rightarrow> x_public C d)"

definition on_challenge :: "crypto \<Rightarrow> client_handshake \<Rightarrow> byte list option \<Rightarrow> challenge \<Rightarrow>
    (mesh_error + byte list \<times> transcript \<times> channel) \<times> client_handshake" where
  "on_challenge C hs expect_host c =
     (case ch_dh hs of
        None \<Rightarrow> (Inl (BadSignature (lit ''a second challenge on one connection'')), hs)
      | Some dh \<Rightarrow>
          let t = \<lparr>tr_version = cl_version c, tr_host = cl_host c, tr_client = id_id (ch_identity hs),
                   tr_host_nonce = cl_nonce c, tr_client_nonce = ch_nonce hs, tr_host_label = cl_label c,
                   tr_client_label = ch_label hs, tr_host_dh = cl_dh c, tr_client_dh = x_public C dh\<rparr>
          in (case verify_challenge C expect_host t (cl_signature c) of
                Inl e \<Rightarrow> Inl e
              | Inr _ \<Rightarrow> (case auth_transcript t of
                  Inl e \<Rightarrow> Inl e
                | Inr m \<Rightarrow> (case agree C dh (cl_dh c) (sha256 C m) ClientRole of
                    Inl e \<Rightarrow> Inl e
                  | Inr chan \<Rightarrow> Inr (sign_as C ClientRole (ch_identity hs) Auth m, t, chan))),
              hs\<lparr>ch_dh := None\<rparr>))"

section \<open>The queue\<close>

record pairing_request =
  pq_client :: "byte list"
  pq_label :: ustring
  pq_code :: ustring
  pq_remote :: ustring
  pq_requested_at :: nat

datatype decision = Approve | Deny

definition APPROVAL_TIMEOUT :: nat where "APPROVAL_TIMEOUT = 120 * 10 ^ 9"

text \<open>
  What waits, the next ticket, the generation that watchers compare, and every answer given, oldest first:
  the calls of the \<open>notify\<close> closures.
\<close>

record pairing_queue =
  pn_pending :: "(nat \<times> pairing_request) list"
  pn_next :: nat
  pn_generation :: nat
  pn_answers :: "(nat \<times> decision) list"

definition queue_new :: pairing_queue where
  "queue_new = \<lparr>pn_pending = [], pn_next = 0, pn_generation = 0, pn_answers = []\<rparr>"

definition queue_touch :: "pairing_queue \<Rightarrow> pairing_queue" where
  "queue_touch q = q\<lparr>pn_generation := pn_generation q + 1\<rparr>"

definition submit :: "pairing_queue \<Rightarrow> pairing_request \<Rightarrow> nat \<times> pairing_queue" where
  "submit q r =
     (pn_next q, queue_touch (q\<lparr>pn_pending := pn_pending q @ [(pn_next q, r)], pn_next := pn_next q + 1\<rparr>))"

definition pending_requests :: "pairing_queue \<Rightarrow> pairing_request list" where
  "pending_requests q = map snd (pn_pending q)"

text \<open>The loop of \<open>resolve\<close> and \<open>expire\<close>: an index that stands still when it removes.\<close>

function take_out :: "('a \<Rightarrow> bool) \<Rightarrow> 'a list \<Rightarrow> nat \<Rightarrow> 'a list \<Rightarrow> 'a list \<times> 'a list" where
  "take_out p pending i out =
     (if i < length pending then
        if p (pending ! i) then take_out p (take i pending @ drop (Suc i) pending) i (out @ [pending ! i])
        else take_out p pending (i + 1) out
      else (out, pending))"
  by pat_completeness auto
termination by (relation "measure (\<lambda>(p, pending, i, out). length pending - i)") auto

declare take_out.simps [simp del]

definition answer :: "decision \<Rightarrow> pairing_queue \<Rightarrow> (nat \<times> pairing_request) list \<Rightarrow> pairing_queue" where
  "answer d q taken =
     (let q = (if 0 < length taken then queue_touch q else q)
      in q\<lparr>pn_answers := pn_answers q @ map (\<lambda>(i, _). (i, d)) taken\<rparr>)"

definition resolve :: "pairing_queue \<Rightarrow> byte list \<Rightarrow> decision \<Rightarrow> nat \<times> pairing_queue" where
  "resolve q client d =
     (let (taken, rest) = take_out (\<lambda>(_, r). pq_client r = client) (pn_pending q) 0 []
      in (length taken, answer d (q\<lparr>pn_pending := rest\<rparr>) taken))"

definition queue_expire :: "pairing_queue \<Rightarrow> nat \<Rightarrow> nat \<times> pairing_queue" where
  "queue_expire q now =
     (let (taken, rest) = take_out (\<lambda>(_, r). APPROVAL_TIMEOUT \<le> now - pq_requested_at r) (pn_pending q) 0 []
      in (length taken, answer Deny (q\<lparr>pn_pending := rest\<rparr>) taken))"

text \<open>\<open>cancel\<close>, when the handle is dropped.\<close>

definition cancel :: "pairing_queue \<Rightarrow> nat \<Rightarrow> pairing_queue" where
  "cancel q i =
     (case find_first (\<lambda>k. fst (pn_pending q ! k) = i) [0..<length (pn_pending q)] of
        None \<Rightarrow> q
      | Some k \<Rightarrow>
          answer Deny (q\<lparr>pn_pending := take k (pn_pending q) @ drop (Suc k) (pn_pending q)\<rparr>) [pn_pending q ! k])"

end
