(* ===== verification/StatSpec.thy ===== *)
theory StatSpec
  imports Statements
begin

text \<open>
  A voucher has one spelling: the parser takes exactly the messages the printer writes, and the decoder
  exactly the texts.
\<close>

section \<open>The cursor\<close>

definition at_rest :: "cursor \<Rightarrow> byte list \<Rightarrow> bool" where
  "at_rest c r \<longleftrightarrow> cr_at c + length r = length (cr_data c) \<and> drop (cr_at c) (cr_data c) = r"

lemma cr_take_iff:
  assumes "at_rest c R"
  shows "cr_take n c = Some (b, c') \<longleftrightarrow> (\<exists>r. R = b @ r \<and> length b = n \<and> at_rest c' r \<and> cr_data c' = cr_data c)"
proof
  assume "cr_take n c = Some (b, c')"
  then have n: "cr_at c + n \<le> length (cr_data c)" "b = take n (drop (cr_at c) (cr_data c))" "c' = c\<lparr>cr_at := cr_at c + n\<rparr>"
    by (auto simp: cr_take_def Let_def split: if_splits)
  show "\<exists>r. R = b @ r \<and> length b = n \<and> at_rest c' r \<and> cr_data c' = cr_data c"
    using n assms by (intro exI [of _ "drop n R"]) (auto simp: at_rest_def add.commute)
next
  assume "\<exists>r. R = b @ r \<and> length b = n \<and> at_rest c' r \<and> cr_data c' = cr_data c"
  then obtain r where r: "R = b @ r" "length b = n" "at_rest c' r" "cr_data c' = cr_data c" by blast
  then have "c' = c\<lparr>cr_at := cr_at c + n\<rparr>" "cr_at c + n \<le> length (cr_data c)"
    using assms by (auto simp: at_rest_def intro: cursor.equality)
  then show "cr_take n c = Some (b, c')" using assms r by (simp add: cr_take_def Let_def at_rest_def)
qed

lemma be_bytes_word:
  fixes w :: "'a::len word"
  assumes "length b = k" "LENGTH('a) = 8 * k"
  shows "of_nat (of_be b) = w \<longleftrightarrow> b = be_bytes k (unat w)"
proof -
  have p: "256 ^ k = (2 :: nat) ^ LENGTH('a)" unfolding assms(2) power_mult by simp
  have "of_be b < 2 ^ LENGTH('a)" using of_be_less [of b] assms(1) p by simp
  then have u: "unat (of_nat (of_be b) :: 'a word) = of_be b" by (simp add: unat_of_nat take_bit_nat_eq_self)
  show ?thesis
  proof
    assume "of_nat (of_be b) = w"
    then show "b = be_bytes k (unat w)" using u be_bytes_of_be [of b] assms(1) by auto
  next
    assume "b = be_bytes k (unat w)"
    then have "of_be b = unat w" using of_be_be_bytes [of "unat w" k] p unsigned_less [of w] by simp
    then show "of_nat (of_be b) = w" by simp
  qed
qed

lemma cr_u16_iff:
  assumes "at_rest c R"
  shows "cr_u16 c = Some (w, c') \<longleftrightarrow> (\<exists>r. R = be_bytes 2 (unat w) @ r \<and> at_rest c' r \<and> cr_data c' = cr_data c)"
  using be_bytes_word [of _ 2 w]
  by (auto simp: cr_u16_def bind_eq_Some_conv cr_take_iff [OF assms] intro: exI [of _ "be_bytes 2 (unat w)"])

lemma cr_u64_iff:
  assumes "at_rest c R"
  shows "cr_u64 c = Some (w, c') \<longleftrightarrow> (\<exists>r. R = be_bytes 8 (unat w) @ r \<and> at_rest c' r \<and> cr_data c' = cr_data c)"
  using be_bytes_word [of _ 8 w]
  by (auto simp: cr_u64_def bind_eq_Some_conv cr_take_iff [OF assms] intro: exI [of _ "be_bytes 8 (unat w)"])

lemma cr_key_iff:
  "at_rest c R \<Longrightarrow> cr_key c = Some (k, c') \<longleftrightarrow> (\<exists>r. R = k @ r \<and> length k = 32 \<and> at_rest c' r \<and> cr_data c' = cr_data c)"
  unfolding cr_key_def by (rule cr_take_iff)

lemma prefixed_Inr: "prefixed e s = Inr b \<longleftrightarrow> length (utf8_encode s) < 65536 \<and> b = be_bytes 2 (length (utf8_encode s)) @ utf8_encode s"
  by (auto simp: prefixed_def Let_def)

lemma cr_string_iff:
  assumes "at_rest c R"
  shows "cr_string c = Some (s, c') \<longleftrightarrow>
    list_all is_scalar s \<and> (\<exists>b r. prefixed () s = Inr b \<and> R = b @ r \<and> at_rest c' r \<and> cr_data c' = cr_data c)"
proof
  assume "cr_string c = Some (s, c')"
  then obtain len c1 b where p: "cr_u16 c = Some (len, c1)" "cr_take (unat len) c1 = Some (b, c')" "from_utf8 b = Some s"
    by (auto simp: cr_string_def bind_eq_Some_conv)
  from p(1) obtain r1 where r1: "R = be_bytes 2 (unat len) @ r1" "at_rest c1 r1" "cr_data c1 = cr_data c" using cr_u16_iff [OF assms] by blast
  from p(2) obtain r where r: "r1 = b @ r" "length b = unat len" "at_rest c' r" "cr_data c' = cr_data c1" using cr_take_iff [OF r1(2)] by blast
  have "unat len < 65536" using unsigned_less [of len] by simp
  then show "list_all is_scalar s \<and> (\<exists>b r. prefixed () s = Inr b \<and> R = b @ r \<and> at_rest c' r \<and> cr_data c' = cr_data c)"
    using from_utf8_canonical [OF p(3)] r1 r by (auto simp: prefixed_Inr)
next
  assume a: "list_all is_scalar s \<and> (\<exists>b r. prefixed () s = Inr b \<and> R = b @ r \<and> at_rest c' r \<and> cr_data c' = cr_data c)"
  let ?u = "utf8_encode s"
  obtain r where r: "length ?u < 65536" "R = be_bytes 2 (length ?u) @ ?u @ r" "at_rest c' r" "cr_data c' = cr_data c"
    using a by (auto simp: prefixed_Inr)
  let ?w = "of_nat (length ?u) :: 16 word"
  have w: "unat ?w = length ?u" using r(1) by (simp add: unat_of_nat take_bit_nat_eq_self)
  let ?c1 = "c\<lparr>cr_at := cr_at c + 2\<rparr>"
  have d: "drop (cr_at c + 2) (cr_data c) = drop 2 (drop (cr_at c) (cr_data c))" by (simp add: add.commute)
  have c1: "at_rest ?c1 (?u @ r)" using assms r(2) d by (simp add: at_rest_def)
  have "cr_u16 c = Some (?w, ?c1)" using cr_u16_iff [OF assms] c1 r(2) w by auto
  moreover have "cr_take (unat ?w) ?c1 = Some (?u, c')" using cr_take_iff [OF c1] r w by auto
  ultimately show "cr_string c = Some (s, c')" using a from_utf8_encode by (simp add: cr_string_def)
qed

section \<open>Messages\<close>

definition attestation_ok :: "attestation \<Rightarrow> bool" where
  "attestation_ok a \<longleftrightarrow> at_v a = ATTESTATION_VERSION \<and> length (at_device a) = 32 \<and> length (at_by a) = 32 \<and>
     list_all is_scalar (at_account a) \<and> list_all is_scalar (at_label a)"

lemma attestation_message_Inr:
  "attestation_message a = Inr m \<longleftrightarrow>
     (\<exists>acc l. prefixed () (at_account a) = Inr acc \<and> prefixed () (at_label a) = Inr l \<and>
        m = ATTEST_DOMAIN @ be_bytes 2 (unat (at_v a)) @ acc @ at_device a @ l @ at_by a @
          be_bytes 8 (unat (at_iat a)) @ be_bytes 8 (unat (at_exp a)))"
  by (auto simp: attestation_message_def prefixed_def Let_def)

text \<open>The parser takes exactly the messages of well-formed statements, and reads off that statement.\<close>

lemma parse_message_iff: "parse_message m = Some a \<longleftrightarrow> attestation_ok a \<and> attestation_message a = Inr m"
proof -
  have start: "at_rest \<lparr>cr_data = m, cr_at = 0\<rparr> m" by (simp add: at_rest_def)
  show ?thesis
  proof
    assume "parse_message m = Some a"
    then obtain c0 c1 c2 c3 c4 c5 c6 c7 where
      t: "cr_take (length ATTEST_DOMAIN) \<lparr>cr_data = m, cr_at = 0\<rparr> = Some (ATTEST_DOMAIN, c0)"
      "cr_u16 c0 = Some (ATTESTATION_VERSION, c1)" "cr_string c1 = Some (at_account a, c2)" "cr_key c2 = Some (at_device a, c3)"
      "cr_string c3 = Some (at_label a, c4)" "cr_key c4 = Some (at_by a, c5)" "cr_u64 c5 = Some (at_iat a, c6)"
      "cr_u64 c6 = Some (at_exp a, c7)" "cr_at c7 = length m" "at_v a = ATTESTATION_VERSION"
      by (auto simp: parse_message_def bind_eq_Some_conv split: if_splits)
    obtain r0 where 0: "m = ATTEST_DOMAIN @ r0" "at_rest c0 r0" "cr_data c0 = m" using t(1) cr_take_iff [OF start] by auto
    obtain r1 where 1: "r0 = be_bytes 2 (unat (at_v a)) @ r1" "at_rest c1 r1" "cr_data c1 = m" using t(2,10) cr_u16_iff [OF 0(2)] 0(3) by auto
    obtain acc r2 where 2: "list_all is_scalar (at_account a)" "prefixed () (at_account a) = Inr acc" "r1 = acc @ r2" "at_rest c2 r2" "cr_data c2 = m"
      using t(3) cr_string_iff [OF 1(2)] 1(3) by auto
    obtain r3 where 3: "r2 = at_device a @ r3" "length (at_device a) = 32" "at_rest c3 r3" "cr_data c3 = m" using t(4) cr_key_iff [OF 2(4)] 2(5) by auto
    obtain l r4 where 4: "list_all is_scalar (at_label a)" "prefixed () (at_label a) = Inr l" "r3 = l @ r4" "at_rest c4 r4" "cr_data c4 = m"
      using t(5) cr_string_iff [OF 3(3)] 3(4) by auto
    obtain r5 where 5: "r4 = at_by a @ r5" "length (at_by a) = 32" "at_rest c5 r5" "cr_data c5 = m" using t(6) cr_key_iff [OF 4(4)] 4(5) by auto
    obtain r6 where 6: "r5 = be_bytes 8 (unat (at_iat a)) @ r6" "at_rest c6 r6" "cr_data c6 = m" using t(7) cr_u64_iff [OF 5(3)] 5(4) by auto
    obtain r7 where 7: "r6 = be_bytes 8 (unat (at_exp a)) @ r7" "at_rest c7 r7" "cr_data c7 = m" using t(8) cr_u64_iff [OF 6(2)] 6(3) by auto
    have "r7 = []" using 7(2,3) t(9) by (simp add: at_rest_def)
    then show "attestation_ok a \<and> attestation_message a = Inr m"
      using t(10) 0(1) 1(1) 2(1-3) 3(1,2) 4(1-3) 5(1,2) 6(1) 7(1) by (simp add: attestation_ok_def attestation_message_Inr)
  next
    assume a: "attestation_ok a \<and> attestation_message a = Inr m"
    then obtain acc l where m: "prefixed () (at_account a) = Inr acc" "prefixed () (at_label a) = Inr l"
      "m = ATTEST_DOMAIN @ be_bytes 2 (unat (at_v a)) @ acc @ at_device a @ l @ at_by a @
        be_bytes 8 (unat (at_iat a)) @ be_bytes 8 (unat (at_exp a))"
      by (auto simp: attestation_message_Inr)
    note ok = a [THEN conjunct1, unfolded attestation_ok_def]
    define cur where "cur = (\<lambda>r :: byte list. \<lparr>cr_data = m, cr_at = length m - length r\<rparr> :: cursor)"
    have rest: "at_rest (cur r) r" if "\<exists>p. m = p @ r" for r using that by (auto simp: at_rest_def cur_def)
    have data: "cr_data (cur r) = m" for r by (simp add: cur_def)
    have c0: "\<lparr>cr_data = m, cr_at = 0\<rparr> = cur m" by (simp add: cur_def)
    let ?e = "be_bytes 8 (unat (at_exp a))" and ?i = "be_bytes 8 (unat (at_iat a))"
    let ?r6 = "?i @ ?e"
    let ?r5 = "at_by a @ ?r6"
    let ?r4 = "l @ ?r5"
    let ?r3 = "at_device a @ ?r4"
    let ?r2 = "acc @ ?r3"
    let ?r1 = "be_bytes 2 (unat (at_v a)) @ ?r2"
    have r: "at_rest (cur m) m" "at_rest (cur ?r1) ?r1"
      "at_rest (cur ?r2) ?r2"
      "at_rest (cur ?r3) ?r3"
      "at_rest (cur ?r4) ?r4"
      "at_rest (cur ?r5) ?r5" "at_rest (cur ?r6) ?r6" "at_rest (cur ?e) ?e" "at_rest (cur []) []"
      by (rule rest; simp add: m(3))+
    have s: "cr_take (length ATTEST_DOMAIN) (cur m) = Some (ATTEST_DOMAIN, cur ?r1)"
      "cr_u16 (cur ?r1) = Some (at_v a, cur ?r2)"
      "cr_string (cur ?r2) = Some (at_account a, cur ?r3)"
      "cr_key (cur ?r3) = Some (at_device a, cur ?r4)"
      "cr_string (cur ?r4) = Some (at_label a, cur ?r5)"
      "cr_key (cur ?r5) = Some (at_by a, cur ?r6)"
      "cr_u64 (cur ?r6) = Some (at_iat a, cur ?e)" "cr_u64 (cur ?e) = Some (at_exp a, cur [])"
      using ok m(1,2) r data cr_take_iff [OF r(1)] cr_u16_iff [OF r(2)] cr_string_iff [OF r(3)] cr_key_iff [OF r(4)]
        cr_string_iff [OF r(5)] cr_key_iff [OF r(6)] cr_u64_iff [OF r(7)] cr_u64_iff [OF r(8)]
      by (simp_all add: m(3))
    have e: "cr_at (cur []) = length m" by (simp add: cur_def)
    show "parse_message m = Some a" unfolding parse_message_def c0 using s e ok by simp
  qed
qed

section \<open>The text form\<close>

lemma split_on_nonempty: "split_on d s \<noteq> []"
  by (induction s) (auto split: list.splits)

lemma split_on_one: "split_on d s = [p] \<longleftrightarrow> d \<notin> set s \<and> s = p"
proof (induction s arbitrary: p)
  case (Cons c s)
  then show ?case using split_on_nonempty [of d s] by (cases "split_on d s") auto
qed auto

lemma split_on_two: "split_on d s = [p, q] \<longleftrightarrow> d \<notin> set p \<and> d \<notin> set q \<and> s = p @ d # q"
proof (induction s arbitrary: p)
  case (Cons c s)
  show ?case
  proof (cases "c = d")
    case True
    then show ?thesis using split_on_one [of d s q] by (cases p) auto
  next
    case False
    then show ?thesis using split_on_nonempty [of d s] Cons by (cases "split_on d s"; cases p) auto
  qed
qed simp

lemma base64_letters: "b \<in> set (base64url_encode bs) \<Longrightarrow> unat b < 128 \<and> unat b \<noteq> 46"
proof -
  assume "b \<in> set (base64url_encode bs)"
  then obtain v where v: "base64_value b = Some v" using base64_loop_encode [of 0 "[]" bs] base64_loop_valid by blast
  define n where "n = unat b"
  have n: "b = of_nat n" "n < 256" using unsigned_less [of b] by (simp_all add: n_def)
  have "n < 128 \<and> n \<noteq> 46"
    using v unfolding n(1) base64_value_nat [OF n(2)] by (auto split: if_splits)
  then show ?thesis by (auto simp: n_def)
qed

text \<open>The text of a byte string: its letters as characters.\<close>

definition base64_text :: "byte list \<Rightarrow> ustring" where
  "base64_text bs = map unat (base64url_encode bs)"

lemma utf8_ascii: "list_all (\<lambda>b. unat b < 128) bs \<Longrightarrow> utf8_encode (map unat bs) = bs"
  by (induction bs) (simp_all add: utf8_encode_def encode_char_def)

lemma base64_text_facts: "utf8_encode (base64_text bs) = base64url_encode bs" "46 \<notin> set (base64_text bs)"
  "list_all is_scalar (base64_text bs)"
proof -
  show "utf8_encode (base64_text bs) = base64url_encode bs"
    unfolding base64_text_def by (rule utf8_ascii) (auto simp: list_all_iff base64_letters)
  show "46 \<notin> set (base64_text bs)" by (auto simp: base64_text_def dest: base64_letters)
  show "list_all is_scalar (base64_text bs)" by (auto simp: base64_text_def list_all_iff is_scalar_def dest!: base64_letters)
qed

lemma base64_text_iff:
  assumes "list_all is_scalar t"
  shows "base64url_decode (utf8_encode t) = Some bs \<longleftrightarrow> t = base64_text bs"
proof
  assume "base64url_decode (utf8_encode t) = Some bs"
  from base64_canonical [OF this] show "t = base64_text bs" using utf8_inj [OF assms] base64_text_facts by metis
qed (simp add: base64_text_facts base64_roundtrip)

lemma encode_attestation_Inr:
  "encode_attestation a sig = Inr t \<longleftrightarrow> (\<exists>m. attestation_message a = Inr m \<and> t = base64_text m @ 46 # base64_text sig)"
  by (auto simp: encode_attestation_def base64_text_def lit_def split: sum.splits)

lemma signature_from_slice_Inr: "signature_from_slice bs = Inr x \<longleftrightarrow> length bs = 64 \<and> x = bs"
  by (auto simp: signature_from_slice_def)

text \<open>
  C28. A voucher has one spelling.  The decoder accepts a text exactly when it is what the encoder prints
  for the statement and signature the decoder reads off it, so two different texts are never one
  statement, and checking the bytes that arrived is checking the statement they spell.
\<close>

theorem attestation_canonical:
  assumes "list_all is_scalar t"
  shows "(decode_attestation t = Some d \<longleftrightarrow>
      length t \<le> MAX_ATTESTATION_CHARS \<and> attestation_ok (da_fields d) \<and> length (da_signature d) = 64 \<and>
      attestation_message (da_fields d) = Inr (da_message d) \<and>
      encode_attestation (da_fields d) (da_signature d) = Inr t) \<and>
    (decode_attestation t = Some d \<longrightarrow>
      decoded_verify C d now = verify_attestation C (da_fields d) (da_signature d) now)"
proof -
  have iff: "decode_attestation t = Some d \<longleftrightarrow>
      length t \<le> MAX_ATTESTATION_CHARS \<and> attestation_ok (da_fields d) \<and> length (da_signature d) = 64 \<and>
      attestation_message (da_fields d) = Inr (da_message d) \<and>
      encode_attestation (da_fields d) (da_signature d) = Inr t" (is "?l = ?r")
  proof
    assume ?l
    then obtain m s where sp: "split_on 46 t = [m, s]" "length (utf8_encode t) \<le> MAX_ATTESTATION_CHARS"
      and d: "base64url_decode (utf8_encode m) = Some (da_message d)"
        "base64url_decode (utf8_encode s) = Some (da_signature d)" "length (da_signature d) = 64"
        "parse_message (da_message d) = Some (da_fields d)"
      by (auto simp: decode_attestation_def bind_eq_Some_conv signature_from_slice_def split: list.splits if_splits sum.splits)
    have t: "t = m @ 46 # s" using sp(1) split_on_two by metis
    then have ms: "m = base64_text (da_message d)" "s = base64_text (da_signature d)"
      using assms d base64_text_iff by simp_all
    have "utf8_encode t = base64url_encode (da_message d) @ 46 # base64url_encode (da_signature d)"
      using base64_text_facts(1) unfolding t ms by (simp add: utf8_encode_def encode_char_def)
    then have "length t \<le> MAX_ATTESTATION_CHARS" using sp(2) unfolding t ms by (simp add: base64_text_def)
    then show ?r using d parse_message_iff t ms by (auto simp: encode_attestation_Inr)
  next
    assume r: ?r
    then have t: "t = base64_text (da_message d) @ 46 # base64_text (da_signature d)" by (auto simp: encode_attestation_Inr)
    have "split_on 46 t = [base64_text (da_message d), base64_text (da_signature d)]"
      unfolding t using split_on_two base64_text_facts(2) by blast
    moreover have "length (utf8_encode t) = length t" "t \<noteq> []"
      using base64_text_facts(1) unfolding t by (simp_all add: utf8_encode_def encode_char_def base64_text_def)
    moreover have "parse_message (da_message d) = Some (da_fields d)" using r parse_message_iff by blast
    ultimately show ?l using r base64_text_facts(1) base64_roundtrip
      by (simp add: decode_attestation_def signature_from_slice_def)
  qed
  then show ?thesis by (auto simp: decoded_verify_def verify_attestation_def)
qed

text \<open>A concrete voucher: the bound on its length, which the encoding stretches by less than two.\<close>

lemma base64url_length: "length (base64url_encode bs) \<le> 2 * length bs"
  by (induction bs rule: base64url_encode.induct) (simp_all add: base64_chunk_def Let_def)

definition demo_voucher :: attestation where
  "demo_voucher = \<lparr>at_v = 1, at_account = [97], at_device = replicate 32 1, at_label = [98], at_by = replicate 32 2,
     at_iat = 5, at_exp = 9\<rparr>"

theorem attestation_canonical_witness:
  "\<exists>t d. decode_attestation t = Some d \<and> da_fields d = demo_voucher \<and> encode_attestation demo_voucher (replicate 64 7) = Inr t"
proof -
  obtain m where m: "attestation_message demo_voucher = Inr m" "length m < 200"
    by (simp add: attestation_message_def prefixed_def utf8_encode_def encode_char_def demo_voucher_def ATTEST_DOMAIN_def bytes_def lit_def)
  have ok: "attestation_ok demo_voucher"
    by (simp add: attestation_ok_def demo_voucher_def is_scalar_def ATTESTATION_VERSION_def)
  define t where "t = base64_text m @ 46 # base64_text (replicate 64 7)"
  define d where "d = \<lparr>da_fields = demo_voucher, da_message = m, da_signature = replicate 64 7\<rparr>"
  have e: "encode_attestation demo_voucher (replicate 64 7) = Inr t" using m(1) by (simp add: encode_attestation_Inr t_def)
  have "length t \<le> MAX_ATTESTATION_CHARS"
    using m(2) base64url_length [of m] base64url_length [of "replicate 64 7"]
    by (simp add: t_def base64_text_def MAX_ATTESTATION_CHARS_def)
  moreover have "list_all is_scalar t" using base64_text_facts(3) by (simp add: t_def is_scalar_def)
  ultimately have "decode_attestation t = Some d"
    using attestation_canonical [of t d] ok m(1) e by (simp add: d_def)
  then show ?thesis using e by (auto simp: d_def)
qed

end
