(* ===== verification/PairingSpec.thy ===== *)
theory PairingSpec
  imports Pairing StatSpec
begin

text \<open>
  What the handshake is worth: a connection is served only after a proof, an honest pair ends up on one
  channel, the statements of the mesh are never confused, and every device in the queue gets one answer.
\<close>

section \<open>Nobody is served without a proof\<close>

text \<open>What can happen to a connection; the answers of the trust store and the random source come with the event.\<close>

datatype hs_event =
    EvHello "16 word" "byte list" ustring "byte list" "byte list" "mesh_error + byte list" "mesh_error + byte list"
  | EvAuth "byte list" "byte list \<Rightarrow> mesh_error + trust_record option"
  | EvApproved nat "trust_record \<Rightarrow> mesh_error + unit"
  | EvDenied refusal
  | EvChannel

fun hs_step :: "crypto \<Rightarrow> hs_event \<Rightarrow> host_handshake \<Rightarrow> host_handshake" where
  "hs_step C (EvHello v c l n d rn rd) h = snd (on_hello C h v c l n d rn rd)"
| "hs_step C (EvAuth sig get) h = snd (on_auth C h sig get)"
| "hs_step C (EvApproved now put) h = fst (snd (approved h now (\<lambda>r _. (put r, ())) ()))"
| "hs_step C (EvDenied r) h = snd (denied h r)"
| "hs_step C EvChannel h = snd (hh_channel C h)"

definition greeted :: "crypto \<Rightarrow> identity \<Rightarrow> ustring \<Rightarrow> 16 word \<Rightarrow> hs_event list \<Rightarrow> transcript \<Rightarrow> bool" where
  "greeted C i l v evs t \<longleftrightarrow>
     tr_host t = id_id i \<and> tr_host_label t = l \<and> tr_version t = v \<and> \<not> is_absent (tr_client_nonce t) \<and>
     (\<exists>dh. tr_host_dh t = x_public C dh \<and>
        EvHello v (tr_client t) (tr_client_label t) (tr_client_nonce t) (tr_client_dh t) (Inr (tr_host_nonce t)) (Inr dh) \<in> set evs)"

definition proved :: "crypto \<Rightarrow> hs_event list \<Rightarrow> transcript \<Rightarrow> bool \<Rightarrow> bool" where
  "proved C evs t known \<longleftrightarrow>
     (\<exists>sig get m r. EvAuth sig get \<in> set evs \<and> auth_transcript t = Inr m \<and>
        verify_client C (tr_client t) Auth m sig = Inr () \<and> get (tr_client t) = Inr r \<and> (r \<noteq> None \<longleftrightarrow> known))"

lemma greeted_more: "greeted C i l v evs t \<Longrightarrow> greeted C i l v (evs @ [e]) t"
  by (auto simp: greeted_def)

lemma proved_more: "proved C evs t k \<Longrightarrow> proved C (evs @ [e]) t k"
  by (auto simp: proved_def)

definition person_agreed :: "hs_event list \<Rightarrow> transcript \<Rightarrow> bool" where
  "person_agreed evs t \<longleftrightarrow>
     (\<exists>now put. EvApproved now put \<in> set evs \<and>
        put \<lparr>tc_client = tr_client t, tc_label = tr_client_label t, tc_paired_at = now, tc_last_seen = None\<rparr> = Inr ())"

lemma refuse_state [simp]: "snd (refuse h r) = h\<lparr>hh_state := RefusedState\<rparr>"
  by (simp add: refuse_def)

lemma hh_channel_state: "hh_state (snd (hh_channel C h)) = hh_state h"
  by (simp add: hh_channel_def Let_def split: option.split)

lemma on_hello_state:
  "hh_state (snd (on_hello C h v c cl n d rn rd)) = RefusedState \<or>
   (\<exists>t. hh_state (snd (on_hello C h v c cl n d rn rd)) = Challenged t \<and>
      greeted C (hh_identity h) (hh_label h) (hh_version h) [EvHello v c cl n d rn rd] t)"
  by (auto simp: on_hello_def Let_def greeted_def split: sum.split)

lemma hs_step_fields:
  "hh_identity (hs_step C e h) = hh_identity h \<and> hh_label (hs_step C e h) = hh_label h \<and> hh_version (hs_step C e h) = hh_version h"
  by (cases e) (simp_all add: on_hello_def on_auth_def approved_def denied_def hh_channel_def Let_def
      split: sum.split option.split hs_state.split)

lemma greeted_last: "greeted C i l v [e] t \<Longrightarrow> greeted C i l v (evs @ [e]) t"
  by (auto simp: greeted_def)

definition hs_ok :: "crypto \<Rightarrow> identity \<Rightarrow> ustring \<Rightarrow> 16 word \<Rightarrow> hs_event list \<Rightarrow> hs_state \<Rightarrow> bool" where
  "hs_ok C i l v evs s \<longleftrightarrow>
    (case s of
       Challenged t \<Rightarrow> greeted C i l v evs t
     | PendingApproval t \<Rightarrow> greeted C i l v evs t \<and> proved C evs t False
     | ReadyFor t \<Rightarrow> greeted C i l v evs t \<and> (proved C evs t True \<or> proved C evs t False \<and> person_agreed evs t)
     | _ \<Rightarrow> True)"

lemma hs_ok_more: "hs_ok C i l v evs s \<Longrightarrow> hs_ok C i l v (evs @ [e]) s"
proof -
  have "person_agreed evs t \<Longrightarrow> person_agreed (evs @ [e]) t" for t by (auto simp: person_agreed_def)
  then show "hs_ok C i l v evs s \<Longrightarrow> ?thesis" using greeted_more [of C i l v evs _ e] proved_more [of C evs _ _ e]
    by (cases s) (auto simp: hs_ok_def)
qed

lemma hs_invariant:
  fixes C i l v
  defines "run \<equiv> \<lambda>evs. fold (hs_step C) evs (host_new i l v)"
  shows "hh_identity (run evs) = i \<and> hh_label (run evs) = l \<and> hh_version (run evs) = v \<and> hs_ok C i l v evs (hh_state (run evs))"
proof (induction evs rule: rev_induct)
  case Nil
  then show ?case by (simp add: run_def host_new_def hs_ok_def)
next
  case (snoc e evs)
  let ?h = "run evs"
  have step: "run (evs @ [e]) = hs_step C e ?h" by (simp add: run_def)
  have old: "hs_ok C i l v (evs @ [e]) (hh_state ?h)" by (rule hs_ok_more) (use snoc in simp)
  have "hs_ok C i l v (evs @ [e]) (hh_state (hs_step C e ?h))"
  proof (cases e)
    case (EvHello v' c cl n d rn rd)
    then show ?thesis using snoc on_hello_state [of C ?h v' c cl n d rn rd] greeted_last by (auto simp: hs_ok_def)
  next
    case (EvAuth sig get)
    show ?thesis
    proof (cases "hh_state ?h")
      case (Challenged t)
      show ?thesis
      proof (cases "\<exists>m. auth_transcript t = Inr m \<and> verify_client C (tr_client t) Auth m sig = Inr () \<and> (\<exists>r. get (tr_client t) = Inr r)")
        case True
        then obtain m r where m: "auth_transcript t = Inr m" "verify_client C (tr_client t) Auth m sig = Inr ()" "get (tr_client t) = Inr r"
          by blast
        have p: "proved C (evs @ [e]) t (r \<noteq> None)" using m EvAuth by (auto simp: proved_def)
        obtain code where "pairing_code C t = Inr code" using m(1) by (simp add: pairing_code_def)
        then show ?thesis using old Challenged EvAuth m p by (cases r) (simp_all add: on_auth_def hs_ok_def)
      next
        case False
        then show ?thesis using Challenged EvAuth by (auto simp: on_auth_def hs_ok_def split: sum.split)
      qed
    qed (use EvAuth in \<open>simp_all add: on_auth_def hs_ok_def\<close>)
  next
    case (EvApproved now put)
    show ?thesis
    proof (cases "hh_state ?h")
      case (PendingApproval t)
      let ?r = "\<lparr>tc_client = tr_client t, tc_label = tr_client_label t, tc_paired_at = now, tc_last_seen = None\<rparr>"
      show ?thesis
      proof (cases "put ?r")
        case (Inr u)
        then have "person_agreed (evs @ [e]) t" using EvApproved by (auto simp: person_agreed_def)
        then show ?thesis using old PendingApproval EvApproved Inr by (simp add: approved_def hs_ok_def)
      qed (use PendingApproval EvApproved in \<open>simp add: approved_def hs_ok_def\<close>)
    qed (use old EvApproved in \<open>simp_all add: approved_def\<close>)
  next
    case (EvDenied r)
    then show ?thesis by (simp add: denied_def hs_ok_def)
  next
    case EvChannel
    then show ?thesis using old by (simp add: hh_channel_state)
  qed
  then show ?case using snoc hs_step_fields [of C e ?h] by (simp add: step)
qed

text \<open>
  C24. No connection is served without a proof.  Whatever a peer sends and in whatever order, once the host
  is ready to serve, the transcript it is ready for carries the host's own id, label and version and the
  nonce it drew when it was greeted, a signature over exactly that transcript verified under the client's
  key, and either the trust store knew that key at that moment or a person approved it and the approval
  was written down first.
\<close>

theorem served_only_proved:
  assumes "hh_state (fold (hs_step C) evs (host_new i l v)) = ReadyFor t"
  shows "greeted C i l v evs t \<and> (proved C evs t True \<or> proved C evs t False \<and> person_agreed evs t)"
  using hs_invariant [where C = C and evs = evs and i = i and l = l and v = v] assms by (simp add: hs_ok_def)

definition demo_hello :: hs_event where
  "demo_hello = EvHello 3 (replicate 32 1) (lit ''phone'') (replicate 32 1) (replicate 32 1) (Inr (replicate 32 7)) (Inr (replicate 32 8))"

theorem served_only_proved_witness:
  "\<exists>t. proved toy_crypto [demo_hello, EvAuth (replicate 64 0) (\<lambda>_. Inr None), EvApproved 5 (\<lambda>_. Inr ())] t False"
proof -
  let ?h = "host_new (from_secret_bytes toy_crypto []) [] 3" and ?m = "replicate 32 (1 :: byte)"
  have "\<exists>t. hh_state (snd (on_hello toy_crypto ?h 3 ?m (lit ''phone'') ?m ?m (Inr (replicate 32 7)) (Inr (replicate 32 8)))) = Challenged t \<and>
      tr_client t = ?m \<and> (\<exists>m. auth_transcript t = Inr m)"
    by (simp add: on_hello_def host_new_def Let_def auth_transcript_def prefixed_def utf8_encode_def lit_def encode_char_def toy_present)
  then obtain t m where t: "hh_state (hs_step toy_crypto demo_hello ?h) = Challenged t" "tr_client t = ?m" "auth_transcript t = Inr m"
    by (auto simp: demo_hello_def)
  have v: "verify_client toy_crypto ?m Auth m (replicate 64 0) = Inr ()"
    by (simp add: verify_client_ok toy_crypto_def)
  have "hh_state (fold (hs_step toy_crypto) [demo_hello, EvAuth (replicate 64 0) (\<lambda>_. Inr None), EvApproved 5 (\<lambda>_. Inr ())] ?h) = ReadyFor t"
    using t v by (simp add: on_auth_def approved_def pairing_code_def)
  from served_only_proved [OF this] have p: "proved toy_crypto [demo_hello, EvAuth (replicate 64 0) (\<lambda>_. Inr None), EvApproved 5 (\<lambda>_. Inr ())] t True \<or>
      proved toy_crypto [demo_hello, EvAuth (replicate 64 0) (\<lambda>_. Inr None), EvApproved 5 (\<lambda>_. Inr ())] t False" by blast
  have "\<not> proved toy_crypto [demo_hello, EvAuth (replicate 64 0) (\<lambda>_. Inr None), EvApproved 5 (\<lambda>_. Inr ())] t True"
    by (auto simp: proved_def demo_hello_def)
  then show ?thesis using p by blast
qed

section \<open>An honest pair ends up on one channel\<close>

text \<open>
  C25. Two honest ends agree.  A client that dials a host and a host that knows its key go through the
  handshake to a welcome; both hold the same transcript, whatever either sends on its end of the channel
  is what the other receives with, and had the host not known the key, the code it would show is the one
  the client derives.
\<close>

theorem handshake_agrees:
  assumes "crypto_ok C" "length (utf8_encode hl) < 65536" "length (utf8_encode cl) < 65536" "\<not> is_absent nc"
    and "\<not> is_absent (x_public C dc)" "\<not> is_absent (x_public C dh)" "x_contributory C (x_agree C dc (x_public C dh))"
    and "hi = from_secret_bytes C hsecret" "ci = from_secret_bytes C csecret" "expect = None \<or> expect = Some (id_id hi)"
  shows "\<exists>c h1 n d s sig t chan c1 hchan h2 code.
    client_new ci cl (Inr nc) (Inr dc) = Inr c \<and>
    on_hello C (host_new hi hl v) v (id_id ci) cl (ch_nonce c) (client_dh C c) (Inr nh) (Inr dh) = (StepChallenge n d s, h1) \<and>
    hh_channel C h1 = (Some (Inr hchan), h2) \<and>
    on_challenge C c expect \<lparr>cl_version = v, cl_host = id_id hi, cl_label = hl, cl_nonce = n, cl_dh = d, cl_signature = s\<rparr> =
      (Inr (sig, t, chan), c1) \<and>
    on_auth C h2 sig (\<lambda>_. Inr (Some r)) = (StepWelcome, h2\<lparr>hh_state := ReadyFor t\<rparr>) \<and>
    on_auth C h2 sig (\<lambda>_. Inr None) = (StepNeedsApproval code, h2\<lparr>hh_state := PendingApproval t\<rparr>) \<and>
    pairing_code C t = Inr code \<and>
    ch_send hchan = ch_recv chan \<and> ch_recv hchan = ch_send chan \<and> fst (hh_channel C h2) = None"
proof -
  define t where "t = \<lparr>tr_version = v, tr_host = id_id hi, tr_client = id_id ci, tr_host_nonce = nh, tr_client_nonce = nc,
    tr_host_label = hl, tr_client_label = cl, tr_host_dh = x_public C dh, tr_client_dh = x_public C dc\<rparr>"
  obtain m where m: "auth_transcript t = Inr m" using assms(2,3) by (simp add: auth_transcript_def prefixed_def t_def Let_def)
  have x: "x_agree C dc (x_public C dh) = x_agree C dh (x_public C dc)" using assms(1) by (simp add: crypto_ok_def)
  define prk where "prk = hk_extract C (sha256 C m) (x_agree C dh (x_public C dc))"
  obtain k1 where k1: "hk_expand C prk (bytes (lit ''zesterm-e2e-v1 host->client'')) = Some k1"
    using assms(1) unfolding crypto_ok_def by blast
  obtain k2 where k2: "hk_expand C prk (bytes (lit ''zesterm-e2e-v1 client->host'')) = Some k2"
    using assms(1) unfolding crypto_ok_def by blast
  note k = k1 [unfolded prk_def] k2 [unfolded prk_def]
  have a: "agree C dh (x_public C dc) (sha256 C m) HostRole = Inr \<lparr>ch_send = direction_new k1, ch_recv = direction_new k2\<rparr>"
    "agree C dc (x_public C dh) (sha256 C m) ClientRole = Inr \<lparr>ch_send = direction_new k2, ch_recv = direction_new k1\<rparr>"
    using assms(5-7) k x by (simp_all add: agree_def Let_def hkdf_expand_def)
  let ?c = "\<lparr>ch_identity = ci, ch_label = cl, ch_nonce = nc, ch_dh = Some dc\<rparr>"
  let ?s = "sign_as C HostRole hi Auth m" and ?sig = "sign_as C ClientRole ci Auth m"
  let ?h1 = "(host_new hi hl v)\<lparr>hh_dh := Some dh, hh_state := Challenged t\<rparr>"
  have c: "client_new ci cl (Inr nc) (Inr dc) = Inr ?c" by (simp add: client_new_def)
  have h: "on_hello C (host_new hi hl v) v (id_id ci) cl nc (x_public C dc) (Inr nh) (Inr dh) = (StepChallenge nh (x_public C dh) ?s, ?h1)"
    using m assms(4) by (simp add: on_hello_def host_new_def Let_def t_def [symmetric])
  have ch: "hh_channel C ?h1 = (Some (Inr \<lparr>ch_send = direction_new k1, ch_recv = direction_new k2\<rparr>), ?h1\<lparr>hh_dh := None\<rparr>)"
    using m a(1) by (simp add: hh_channel_def hh_transcript_def t_def)
  have vh: "verify_host C (id_id hi) Auth m ?s = Inr ()" and vc: "verify_client C (id_id ci) Auth m ?sig = Inr ()"
    using own_signature [OF assms(1)] by (simp_all add: assms(8,9))
  have "verify_challenge C expect t ?s = Inr ()" using m vh assms(10) by (auto simp: verify_challenge_def t_def)
  then have cc: "on_challenge C ?c expect \<lparr>cl_version = v, cl_host = id_id hi, cl_label = hl, cl_nonce = nh, cl_dh = x_public C dh, cl_signature = ?s\<rparr> =
      (Inr (?sig, t, \<lparr>ch_send = direction_new k2, ch_recv = direction_new k1\<rparr>), ?c\<lparr>ch_dh := None\<rparr>)"
    using m a(2) by (simp add: on_challenge_def Let_def t_def [symmetric])
  obtain code where code: "pairing_code C t = Inr code" using m by (simp add: pairing_code_def)
  have au: "on_auth C (?h1\<lparr>hh_dh := None\<rparr>) ?sig (\<lambda>_. Inr (Some r)) = (StepWelcome, ?h1\<lparr>hh_dh := None\<rparr>\<lparr>hh_state := ReadyFor t\<rparr>)"
    "on_auth C (?h1\<lparr>hh_dh := None\<rparr>) ?sig (\<lambda>_. Inr None) = (StepNeedsApproval code, ?h1\<lparr>hh_dh := None\<rparr>\<lparr>hh_state := PendingApproval t\<rparr>)"
    using m vc code by (simp_all add: on_auth_def t_def)
  have "fst (hh_channel C (?h1\<lparr>hh_dh := None\<rparr>)) = None" by (simp add: hh_channel_def)
  note facts = c h ch cc au code this
  let ?chan = "\<lparr>ch_send = direction_new k2, ch_recv = direction_new k1\<rparr>"
    and ?hchan = "\<lparr>ch_send = direction_new k1, ch_recv = direction_new k2\<rparr>"
  show ?thesis
  proof (rule exI [of _ ?c], rule exI [of _ ?h1], rule exI [of _ nh], rule exI [of _ "x_public C dh"], rule exI [of _ ?s],
      rule exI [of _ ?sig], rule exI [of _ t], rule exI [of _ ?chan], rule exI [of _ "?c\<lparr>ch_dh := None\<rparr>"],
      rule exI [of _ ?hchan], rule exI [of _ "?h1\<lparr>hh_dh := None\<rparr>"], rule exI [of _ code], intro conjI)
    show "on_hello C (host_new hi hl v) v (id_id ci) cl (ch_nonce ?c) (client_dh C ?c) (Inr nh) (Inr dh) =
        (StepChallenge nh (x_public C dh) ?s, ?h1)"
      using h by (simp add: client_dh_def)
  qed (simp_all only: facts channel.simps)
qed

theorem handshake_agrees_witness:
  "\<exists>c :: client_handshake. client_new (from_secret_bytes toy_crypto []) [] (Inr (replicate 32 1)) (Inr []) = Inr c"
proof -
  have "x_contributory toy_crypto (x_agree toy_crypto [] (x_public toy_crypto []))" by (simp add: toy_crypto_def)
  moreover have "length (utf8_encode []) < 65536" by (simp add: utf8_encode_def)
  ultimately show ?thesis
    using handshake_agrees [OF toy_crypto_ok _ _ toy_present(1) toy_present(2) toy_present(2) _ refl refl,
        where hl = "[]" and cl = "[]" and dc = "[]" and dh = "[]" and expect = None and hsecret = "[]" and csecret = "[]"
          and v = 3 and nh = "[]" and r = undefined]
    by blast
qed

end
