(* ===== verification/MeshSpec.thy ===== *)
theory MeshSpec
  imports PairingSpec "HOL-Library.Multiset"
begin

text \<open>
  Across the mesh: no signature of one kind of statement is a signature of another, every device in the
  pairing queue is answered once, and what the file of trusted clients keeps.
\<close>

section \<open>Statements are never confused\<close>

text \<open>
  What the code signs: a machine or a device enrols, a device asks for a link and claims it, a device
  vouches for another, either end of a connection signs its transcript, and a machine signs the nonce of
  a relay.
\<close>

datatype statement =
    StEnroll role ustring "byte list" ustring
  | StLinkRequest "byte list" ustring
  | StLinkClaim ustring "byte list"
  | StVoucher attestation
  | StAuth role transcript
  | StRelayNonce "byte list"

fun signed_bytes :: "statement \<Rightarrow> byte list option" where
  "signed_bytes (StEnroll r code k l) =
     (case enrollment_request_for code k l of Inl _ \<Rightarrow> None | Inr m \<Rightarrow> Some (preimage r Enrollment m))"
| "signed_bytes (StLinkRequest k l) =
     (case link_request k l of Inl _ \<Rightarrow> None | Inr m \<Rightarrow> Some (preimage ClientRole Enrollment m))"
| "signed_bytes (StLinkClaim g k) =
     (case link_claim g k of Inl _ \<Rightarrow> None | Inr m \<Rightarrow> Some (preimage ClientRole Enrollment m))"
| "signed_bytes (StVoucher a) =
     (case attestation_message a of Inl _ \<Rightarrow> None | Inr m \<Rightarrow> Some (preimage ClientRole DeviceAttestation m))"
| "signed_bytes (StAuth r t) =
     (case auth_transcript t of Inl _ \<Rightarrow> None | Inr m \<Rightarrow> Some (preimage r Auth m))"
| "signed_bytes (StRelayNonce n) = Some (preimage HostRole Auth n)"

text \<open>The types of the code: keys and nonces of 32 bytes, strings of characters.\<close>

fun statement_ok :: "statement \<Rightarrow> bool" where
  "statement_ok (StEnroll r code k l) \<longleftrightarrow> length k = 32 \<and> list_all is_scalar code \<and> list_all is_scalar l"
| "statement_ok (StLinkRequest k l) \<longleftrightarrow> length k = 32 \<and> list_all is_scalar l"
| "statement_ok (StLinkClaim g k) \<longleftrightarrow> length k = 32 \<and> list_all is_scalar g"
| "statement_ok (StVoucher a) \<longleftrightarrow> length (at_device a) = 32 \<and> length (at_by a) = 32 \<and>
     list_all is_scalar (at_account a) \<and> list_all is_scalar (at_label a)"
| "statement_ok (StAuth r t) \<longleftrightarrow> length (tr_host t) = 32 \<and> length (tr_client t) = 32 \<and> length (tr_host_nonce t) = 32 \<and>
     length (tr_client_nonce t) = 32 \<and> length (tr_host_dh t) = 32 \<and> length (tr_client_dh t) = 32 \<and>
     list_all is_scalar (tr_host_label t) \<and> list_all is_scalar (tr_client_label t)"
| "statement_ok (StRelayNonce n) \<longleftrightarrow> length n = 32"

lemma prefixed_inj:
  assumes "prefixed e s = Inr a" "prefixed e' s' = Inr a'" "a @ x = a' @ y" "list_all is_scalar s" "list_all is_scalar s'"
  shows "s = s' \<and> x = y"
proof -
  have l: "length (utf8_encode s) < 65536" "length (utf8_encode s') < 65536"
    and e: "be_bytes 2 (length (utf8_encode s)) @ utf8_encode s @ x = be_bytes 2 (length (utf8_encode s')) @ utf8_encode s' @ y"
    using assms(1-3) by (auto simp: prefixed_Inr)
  have "be_bytes 2 (length (utf8_encode s)) = be_bytes 2 (length (utf8_encode s'))" "utf8_encode s @ x = utf8_encode s' @ y"
    using e by (simp_all add: append_eq_append_conv)
  moreover from this l have "length (utf8_encode s) = length (utf8_encode s')" using be_bytes_inj [of 2] by simp
  ultimately show ?thesis using utf8_inj [OF assms(4,5)] by simp
qed

lemmas prefixed_end = prefixed_inj [where x = "[]" and y = "[]", unfolded append_Nil2]

lemma be_bytes_word_inj: "be_bytes 2 (unat v) = be_bytes 2 (unat v') \<Longrightarrow> v = v'" for v v' :: "16 word"
  using be_bytes_inj [of 2 "unat v" "unat v'"] unsigned_less [of v, where 'a = nat] unsigned_less [of v', where 'a = nat]
  by (simp add: word_unat_eq_iff)

lemma be_bytes_word_inj8: "be_bytes 8 (unat v) = be_bytes 8 (unat v') \<Longrightarrow> v = v'" for v v' :: "64 word"
  using be_bytes_inj [of 8 "unat v" "unat v'"] unsigned_less [of v, where 'a = nat] unsigned_less [of v', where 'a = nat]
  by (simp add: word_unat_eq_iff)

lemma be_append: "be_bytes k a @ x = be_bytes k b @ y \<longleftrightarrow> be_bytes k a = be_bytes k b \<and> x = y"
  by simp

lemma enroll_inj:
  assumes "enrollment_request_for c k l = Inr m" "enrollment_request_for c' k' l' = Inr m"
    "statement_ok (StEnroll r c k l)" "statement_ok (StEnroll r c' k' l')"
  shows "c = c' \<and> k = k' \<and> l = l'"
proof -
  obtain a b where a: "prefixed EnCodeTooLong c = Inr a" "prefixed EnLabelTooLong l = Inr b" "m = ENROLL_DOMAIN @ a @ k @ b"
    using assms(1) by (auto simp: enrollment_request_for_def split: sum.splits)
  obtain a' b' where a': "prefixed EnCodeTooLong c' = Inr a'" "prefixed EnLabelTooLong l' = Inr b'" "m = ENROLL_DOMAIN @ a' @ k' @ b'"
    using assms(2) by (auto simp: enrollment_request_for_def split: sum.splits)
  have "a @ k @ b = a' @ k' @ b'" using trans [OF a(3) [symmetric] a'(3)] by simp
  then have "c = c' \<and> k @ b = k' @ b'" using prefixed_inj [OF a(1) a'(1)] assms(3,4) by simp
  then show ?thesis using prefixed_end [OF a(2) a'(2)] assms(3,4) by simp
qed

lemma link_request_Inr: "link_request k l = Inr m \<longleftrightarrow> (\<exists>b. prefixed () l = Inr b \<and> m = LINK_DOMAIN @ [1] @ k @ b)"
  by (auto simp: link_request_def prefixed_def Let_def)

lemma link_claim_Inr: "link_claim g k = Inr m \<longleftrightarrow> (\<exists>b. prefixed () g = Inr b \<and> m = LINK_DOMAIN @ [2] @ b @ k)"
  by (auto simp: link_claim_def prefixed_def Let_def)

lemma link_request_inj:
  assumes "link_request k l = Inr m" "link_request k' l' = Inr m" "statement_ok (StLinkRequest k l)" "statement_ok (StLinkRequest k' l')"
  shows "k = k' \<and> l = l'"
proof -
  obtain a where a: "prefixed () l = Inr a" "m = LINK_DOMAIN @ [1] @ k @ a" using assms(1) unfolding link_request_Inr by blast
  obtain a' where a': "prefixed () l' = Inr a'" "m = LINK_DOMAIN @ [1] @ k' @ a'" using assms(2) unfolding link_request_Inr by blast
  have "k @ a = k' @ a'" using trans [OF a(2) [symmetric] a'(2)] by (simp only: same_append_eq)
  then have "k = k'" "a = a'" using assms(3,4) by simp_all
  then show ?thesis using prefixed_end [OF a(1) a'(1)] assms(3,4) by simp
qed

lemma link_claim_inj:
  assumes "link_claim g k = Inr m" "link_claim g' k' = Inr m" "statement_ok (StLinkClaim g k)" "statement_ok (StLinkClaim g' k')"
  shows "g = g' \<and> k = k'"
proof -
  obtain a where a: "prefixed () g = Inr a" "m = LINK_DOMAIN @ [2] @ a @ k" using assms(1) unfolding link_claim_Inr by blast
  obtain a' where a': "prefixed () g' = Inr a'" "m = LINK_DOMAIN @ [2] @ a' @ k'" using assms(2) unfolding link_claim_Inr by blast
  have "a @ k = a' @ k'" using trans [OF a(2) [symmetric] a'(2)] by (simp only: same_append_eq)
  from prefixed_inj [OF a(1) a'(1) this] assms(3,4) show ?thesis by simp
qed

lemma link_kinds: "link_request k l = Inr m \<Longrightarrow> link_claim g k' \<noteq> Inr m"
  by (auto simp: link_request_Inr link_claim_Inr)

lemma voucher_inj:
  assumes "attestation_message a = Inr m" "attestation_message a' = Inr m" "statement_ok (StVoucher a)" "statement_ok (StVoucher a')"
  shows "a = a'"
proof -
  obtain x l where a: "prefixed () (at_account a) = Inr x" "prefixed () (at_label a) = Inr l"
    "m = ATTEST_DOMAIN @ be_bytes 2 (unat (at_v a)) @ x @ at_device a @ l @ at_by a @ be_bytes 8 (unat (at_iat a)) @ be_bytes 8 (unat (at_exp a))"
    using assms(1) by (auto simp: attestation_message_Inr)
  obtain x' l' where a': "prefixed () (at_account a') = Inr x'" "prefixed () (at_label a') = Inr l'"
    "m = ATTEST_DOMAIN @ be_bytes 2 (unat (at_v a')) @ x' @ at_device a' @ l' @ at_by a' @ be_bytes 8 (unat (at_iat a')) @ be_bytes 8 (unat (at_exp a'))"
    using assms(2) by (auto simp: attestation_message_Inr)
  let ?t = "\<lambda>a. at_by a @ be_bytes 8 (unat (at_iat a)) @ be_bytes 8 (unat (at_exp a))"
  have v: "be_bytes 2 (unat (at_v a)) = be_bytes 2 (unat (at_v a'))" "x @ at_device a @ l @ ?t a = x' @ at_device a' @ l' @ ?t a'"
    using trans [OF a(3) [symmetric] a'(3)] unfolding same_append_eq be_append by blast+
  have ok: "length (at_device a) = length (at_device a')" "length (at_by a) = length (at_by a')"
    "list_all is_scalar (at_account a)" "list_all is_scalar (at_account a')" "list_all is_scalar (at_label a)" "list_all is_scalar (at_label a')"
    using assms(3,4) by simp_all
  have 1: "at_account a = at_account a'" "at_device a @ l @ ?t a = at_device a' @ l' @ ?t a'"
    using prefixed_inj [OF a(1) a'(1) v(2) ok(3,4)] by blast+
  have 2: "at_device a = at_device a'" "l @ ?t a = l' @ ?t a'" using 1(2) ok(1) append_eq_append_conv by blast+
  have 3: "at_label a = at_label a'" "?t a = ?t a'" using prefixed_inj [OF a(2) a'(2) 2(2) ok(5,6)] by blast+
  have 4: "at_by a = at_by a'" "be_bytes 8 (unat (at_iat a)) = be_bytes 8 (unat (at_iat a'))"
    "be_bytes 8 (unat (at_exp a)) = be_bytes 8 (unat (at_exp a'))"
    using 3(2) ok(2) by simp_all
  show ?thesis
    by (rule attestation.equality) (simp_all add: 1(1) 2(1) 3(1) 4(1) be_bytes_word_inj [OF v(1)] be_bytes_word_inj8 [OF 4(2)] be_bytes_word_inj8 [OF 4(3)])
qed

lemma auth_inj:
  assumes "auth_transcript t = Inr m" "auth_transcript t' = Inr m" "statement_ok (StAuth r t)" "statement_ok (StAuth r t')"
  shows "t = t'"
proof -
  obtain h c where a: "prefixed (too_long ''host label'') (tr_host_label t) = Inr h" "prefixed (too_long ''client label'') (tr_client_label t) = Inr c"
    "m = AUTH_DOMAIN @ be_bytes 2 (unat (tr_version t)) @ tr_host t @ tr_client t @ tr_host_nonce t @
              tr_client_nonce t @ tr_host_dh t @ tr_client_dh t @ h @ c"
    using assms(1) by (auto simp: auth_transcript_def split: sum.splits)
  obtain h' c' where a': "prefixed (too_long ''host label'') (tr_host_label t') = Inr h'" "prefixed (too_long ''client label'') (tr_client_label t') = Inr c'"
    "m = AUTH_DOMAIN @ be_bytes 2 (unat (tr_version t')) @ tr_host t' @ tr_client t' @ tr_host_nonce t' @
              tr_client_nonce t' @ tr_host_dh t' @ tr_client_dh t' @ h' @ c'"
    using assms(2) by (auto simp: auth_transcript_def split: sum.splits)
  have e: "be_bytes 2 (unat (tr_version t)) = be_bytes 2 (unat (tr_version t'))" "tr_host t = tr_host t'" "tr_client t = tr_client t'"
    "tr_host_nonce t = tr_host_nonce t'" "tr_client_nonce t = tr_client_nonce t'" "tr_host_dh t = tr_host_dh t'"
    "tr_client_dh t = tr_client_dh t'" "h @ c = h' @ c'"
    using trans [OF a(3) [symmetric] a'(3)] assms(3,4) by simp_all
  have "tr_host_label t = tr_host_label t' \<and> c = c'" using prefixed_inj [OF a(1) a'(1) e(8)] assms(3,4) by simp
  moreover from this have "tr_client_label t = tr_client_label t'" using prefixed_end [OF a(2) a'(2)] assms(3,4) by simp
  ultimately show ?thesis using e be_bytes_word_inj by (intro transcript.equality) simp_all
qed

lemma signed_iff:
  "signed_bytes (StEnroll r c k l) = Some b \<longleftrightarrow> (\<exists>m. enrollment_request_for c k l = Inr m \<and> b = preimage r Enrollment m)"
  "signed_bytes (StLinkRequest k l) = Some b \<longleftrightarrow> (\<exists>m. link_request k l = Inr m \<and> b = preimage ClientRole Enrollment m)"
  "signed_bytes (StLinkClaim g k) = Some b \<longleftrightarrow> (\<exists>m. link_claim g k = Inr m \<and> b = preimage ClientRole Enrollment m)"
  "signed_bytes (StVoucher a) = Some b \<longleftrightarrow> (\<exists>m. attestation_message a = Inr m \<and> b = preimage ClientRole DeviceAttestation m)"
  "signed_bytes (StAuth r t) = Some b \<longleftrightarrow> (\<exists>m. auth_transcript t = Inr m \<and> b = preimage r Auth m)"
  "signed_bytes (StRelayNonce n) = Some b \<longleftrightarrow> b = preimage HostRole Auth n"
  by (auto split: sum.splits)

lemma preimage_eq: "preimage r p m = preimage r' p' m' \<longleftrightarrow> r = r' \<and> p = p' \<and> m = m'"
  using preimage_inj by blast

text \<open>An enrolment and a link are told apart by their first bytes, a transcript and a nonce by their length.\<close>

lemma enroll_not_link:
  assumes "enrollment_request_for c k l = Inr m"
  shows "link_request k' l' \<noteq> Inr m" "link_claim g k' \<noteq> Inr m"
proof -
  have "m ! 8 = 101" "8 < length m"
    using assms by (auto simp: enrollment_request_for_def ENROLL_DOMAIN_def bytes_def lit_def nth_append split: sum.splits)
  moreover have "m ! 8 = 108" if "m = LINK_DOMAIN @ x" for x
    unfolding that by (simp add: LINK_DOMAIN_def bytes_def lit_def nth_append)
  ultimately show "link_request k' l' \<noteq> Inr m" "link_claim g k' \<noteq> Inr m"
    by (fastforce simp: link_request_Inr link_claim_Inr)+
qed

lemma auth_longer: "auth_transcript t = Inr m \<Longrightarrow> statement_ok (StAuth r t) \<Longrightarrow> length m \<noteq> 32"
  by (auto simp: auth_transcript_def split: sum.splits)

text \<open>Every place that signs signs a statement: the ones of this crate and of its callers.\<close>

lemma signing_places:
  "host_enrollment_sig C i code l = Inr s \<Longrightarrow>
     \<exists>b. signed_bytes (StEnroll HostRole code (id_id i) l) = Some b \<and> s = ed_sign C (id_key i) b"
  "client_enrollment_sig C i code l = Inr s \<Longrightarrow>
     \<exists>b. signed_bytes (StEnroll ClientRole code (id_id i) l) = Some b \<and> s = ed_sign C (id_key i) b"
  "start_link_sig C i l = Inr s \<Longrightarrow>
     \<exists>b. signed_bytes (StLinkRequest (id_id i) l) = Some b \<and> s = ed_sign C (id_key i) b"
  "claim_link_sig C i g = Inr s \<Longrightarrow>
     \<exists>b. signed_bytes (StLinkClaim g (id_id i)) = Some b \<and> s = ed_sign C (id_key i) b"
  "sign_attestation C i a = Inr s \<Longrightarrow>
     \<exists>b. signed_bytes (StVoucher a) = Some b \<and> s = ed_sign C (id_key i) b"
  "hello_for C i l text = Inr h \<Longrightarrow>
     \<exists>n b. statement_ok (StRelayNonce n) \<and> signed_bytes (StRelayNonce n) = Some b \<and>
       he_sig h = hex_encode (ed_sign C (id_key i) b)"
  by (auto simp: host_enrollment_sig_def client_enrollment_sig_def start_link_sig_def claim_link_sig_def
      sign_attestation_def hello_for_def sign_challenge_def sign_as_def dest: relay_parse_nonce_length
      split: sum.splits if_splits)

text \<open>
  C27. Statements are never confused.  Any two statements the code signs -- the enrolment of a machine or
  of a device, the request for a link and its claim, a voucher, the transcript of a connection signed by
  either end, the nonce of a relay -- that have the same bytes are the same statement, signed in the same
  role: a signature over one of them proves that one and nothing else.
\<close>

theorem signed_statements_distinct:
  assumes "statement_ok s" "statement_ok s'" "signed_bytes s = Some b" "signed_bytes s' = Some b"
  shows "s = s'"
  using assms
  by (cases s; cases s')
    (auto simp: signed_iff preimage_eq link_kinds enroll_not_link simp del: signed_bytes.simps
      statement_ok.simps(1-5) dest: enroll_inj link_request_inj link_claim_inj voucher_inj auth_inj auth_longer)

theorem signed_statements_distinct_witness:
  "\<exists>b. signed_bytes (StRelayNonce (replicate 32 1)) = Some b \<and>
     signed_bytes (StEnroll HostRole [97] (replicate 32 1) [97]) \<noteq> Some b"
  using signed_statements_distinct [of "StRelayNonce (replicate 32 1)" "StEnroll HostRole [97] (replicate 32 1) [97]"]
  by (auto simp: is_scalar_def)

section \<open>The queue\<close>

lemma take_out_partition:
  "take_out p pending i out = (out @ filter p (drop i pending), take i pending @ filter (\<lambda>x. \<not> p x) (drop i pending))"
proof (induction p pending i out rule: take_out.induct)
  case (1 p pending i out)
  show ?case
  proof (cases "i < length pending")
    case True
    have d: "drop i pending = pending ! i # drop (Suc i) pending" "take (Suc i) pending = take i pending @ [pending ! i]"
      using True by (simp_all add: Cons_nth_drop_Suc take_Suc_conv_app_nth)
    show ?thesis using 1 True d by (subst take_out.simps) simp
  qed (simp add: take_out.simps)
qed

definition client_is :: "byte list \<Rightarrow> nat \<times> pairing_request \<Rightarrow> bool" where
  "client_is c x \<longleftrightarrow> pq_client (snd x) = c"

definition timed_out :: "nat \<Rightarrow> nat \<times> pairing_request \<Rightarrow> bool" where
  "timed_out now x \<longleftrightarrow> APPROVAL_TIMEOUT \<le> now - pq_requested_at (snd x)"

lemma selections:
  "(\<lambda>(_, r). pq_client r = c) = client_is c" "(\<lambda>(_, r). APPROVAL_TIMEOUT \<le> now - pq_requested_at r) = timed_out now"
  by (auto simp: fun_eq_iff client_is_def timed_out_def)

lemma resolve_eq:
  "resolve q c d = (length (filter (client_is c) (pn_pending q)),
     answer d (q\<lparr>pn_pending := filter (\<lambda>x. \<not> client_is c x) (pn_pending q)\<rparr>) (filter (client_is c) (pn_pending q)))"
  unfolding resolve_def selections take_out_partition by simp

lemma queue_expire_eq:
  "queue_expire q now = (length (filter (timed_out now) (pn_pending q)),
     answer Deny (q\<lparr>pn_pending := filter (\<lambda>x. \<not> timed_out now x) (pn_pending q)\<rparr>) (filter (timed_out now) (pn_pending q)))"
  unfolding queue_expire_def selections take_out_partition by simp

lemma answer_fields [simp]:
  "pn_pending (answer d q xs) = pn_pending q" "pn_next (answer d q xs) = pn_next q"
  "pn_answers (answer d q xs) = pn_answers q @ map (\<lambda>x. (fst x, d)) xs"
  by (simp_all add: answer_def queue_touch_def Let_def split_beta)

datatype queue_event =
    QSubmit pairing_request
  | QResolve "byte list" decision
  | QExpire nat
  | QCancel nat

fun queue_step :: "queue_event \<Rightarrow> pairing_queue \<Rightarrow> pairing_queue" where
  "queue_step (QSubmit r) q = snd (submit q r)"
| "queue_step (QResolve c d) q = snd (resolve q c d)"
| "queue_step (QExpire now) q = snd (queue_expire q now)"
| "queue_step (QCancel i) q = cancel q i"

text \<open>Every ticket handed out, once: it waits, or it has been answered.\<close>

definition tickets :: "pairing_queue \<Rightarrow> nat multiset" where
  "tickets q = mset (map fst (pn_pending q)) + mset (map fst (pn_answers q))"

lemma filter_split: "mset (map fst (filter (\<lambda>x. \<not> p x) xs)) + mset (map fst (filter p xs)) = mset (map fst xs)"
  by (induction xs) auto

lemma remove_nth: "k < length xs \<Longrightarrow> mset (map fst (take k xs @ drop (Suc k) xs)) + mset (map fst [xs ! k]) = mset (map fst xs)"
proof -
  assume "k < length xs"
  then have "xs = take k xs @ xs ! k # drop (Suc k) xs" by (simp add: id_take_nth_drop)
  then have "mset (map fst xs) = mset (map fst (take k xs @ xs ! k # drop (Suc k) xs))" by simp
  then show ?thesis by simp
qed

lemma answered_tickets:
  assumes "mset (map fst rest) + mset (map fst taken) = mset (map fst (pn_pending q))"
  shows "tickets (answer d (q\<lparr>pn_pending := rest\<rparr>) taken) = tickets q"
  using assms [symmetric] by (simp add: tickets_def comp_def)

lemma cancel_tickets: "tickets (cancel q i) = tickets q \<and> pn_next (cancel q i) = pn_next q"
proof (cases "find_first (\<lambda>k. fst (pn_pending q ! k) = i) [0..<length (pn_pending q)]")
  case (Some k)
  then have "k < length (pn_pending q)" using find_first_Some by fastforce
  from answered_tickets [OF remove_nth [OF this]] show ?thesis using Some by (simp add: cancel_def)
qed (simp add: cancel_def)

lemma queue_tickets: "tickets (fold queue_step evs queue_new) = mset_set {..<pn_next (fold queue_step evs queue_new)}"
proof (induction evs rule: rev_induct)
  case (snoc e evs)
  let ?q = "fold queue_step evs queue_new"
  show ?case
  proof (cases e)
    case (QSubmit r)
    then show ?thesis using snoc by (simp add: submit_def queue_touch_def tickets_def lessThan_Suc)
  next
    case (QResolve c d)
    then show ?thesis using snoc answered_tickets [OF filter_split] by (simp add: resolve_eq)
  next
    case (QExpire now)
    then show ?thesis using snoc answered_tickets [OF filter_split] by (simp add: queue_expire_eq)
  next
    case (QCancel i)
    then show ?thesis using snoc cancel_tickets by simp
  qed
qed (simp add: queue_new_def tickets_def)

text \<open>
  C29. Every device that asks is answered once.  Whatever devices arrive, give up, are decided on or time
  out, each ticket handed out either still waits or has been answered, never both and never twice; a
  decision answers every waiting entry of that client and leaves the others in their order; after an
  expiry nobody is left who has waited for the timeout, and everybody who has is told no.
\<close>

theorem queue_answers_once:
  "let q = fold queue_step evs queue_new; r = resolve q c d; x = queue_expire q now in
   distinct (map fst (pn_pending q) @ map fst (pn_answers q)) \<and>
   set (map fst (pn_pending q) @ map fst (pn_answers q)) = {..<pn_next q} \<and>
   pn_pending (snd r) = filter (\<lambda>y. pq_client (snd y) \<noteq> c) (pn_pending q) \<and>
   pn_answers (snd r) = pn_answers q @ [(i, d). (i, p) \<leftarrow> pn_pending q, pq_client p = c] \<and>
   fst r = length (filter (\<lambda>y. pq_client (snd y) = c) (pn_pending q)) \<and>
   pn_pending (snd x) = filter (\<lambda>y. now - pq_requested_at (snd y) < APPROVAL_TIMEOUT) (pn_pending q) \<and>
   pn_answers (snd x) = pn_answers q @ [(i, Deny). (i, p) \<leftarrow> pn_pending q, APPROVAL_TIMEOUT \<le> now - pq_requested_at p]"
proof -
  define q where "q = fold queue_step evs queue_new"
  have m: "mset (map fst (pn_pending q) @ map fst (pn_answers q)) = mset_set {..<pn_next q}"
    using queue_tickets [of evs] by (simp add: q_def tickets_def)
  have "distinct (map fst (pn_pending q) @ map fst (pn_answers q))"
    using mset_eq_imp_distinct_iff [OF trans [OF m, of "mset [0..<pn_next q]"]] by (simp only: mset_upt atLeast0LessThan distinct_upt)
  moreover have "set (map fst (pn_pending q) @ map fst (pn_answers q)) = {..<pn_next q}"
    using arg_cong [OF m, of set_mset] by simp
  moreover have "map (\<lambda>x. (fst x, a)) (filter (client_is c) xs) = [(i, a). (i, r) \<leftarrow> xs, pq_client r = c]" for a :: decision and xs
    by (induction xs) (auto simp: client_is_def)
  moreover have "map (\<lambda>x. (fst x, a)) (filter (timed_out now) xs) = [(i, a). (i, r) \<leftarrow> xs, APPROVAL_TIMEOUT \<le> now - pq_requested_at r]" for a :: decision and xs
    by (induction xs) (auto simp: timed_out_def)
  moreover have "filter (client_is c) xs = filter (\<lambda>y. pq_client (snd y) = c) xs" for xs
    by (rule filter_cong) (simp_all add: client_is_def)
  ultimately show ?thesis unfolding q_def [symmetric]
    by (simp add: resolve_eq queue_expire_eq client_is_def timed_out_def not_le Let_def)
qed

section \<open>The file of trusted clients\<close>

definition whole_seconds :: "trust_record \<Rightarrow> trust_record" where
  "whole_seconds r = r\<lparr>tc_paired_at := tc_paired_at r div 10 ^ 9 * 10 ^ 9,
     tc_last_seen := map_option (\<lambda>t. t div 10 ^ 9 * 10 ^ 9) (tc_last_seen r)\<rparr>"

lemma entry_roundtrip: "entry_record (client_entry r) = whole_seconds r"
  by (simp add: entry_record_def client_entry_def whole_seconds_def to_unix_def from_unix_def option.map_comp comp_def)

text \<open>A start after a successful write finds the index as it was, times in whole seconds.\<close>

lemma flush_reopens:
  "file_flush s None = (Inr (), s') \<Longrightarrow>
     \<exists>s2. file_open (FileText FORMAT_VERSION (fs_disk s')) e = Inr s2 \<and> fs_index s2 = (\<lambda>c. map_option whole_seconds (fs_index s c))"
  by (auto simp: file_flush_def file_open_def file_parse_def option.map_comp comp_def entry_roundtrip)

text \<open>
  C30. An approval and the file it is written to.  Saved, the answer is a welcome and every later start
  knows the client.  When the file cannot be written the answer is a refusal and the file is as it was, but
  the running host keeps the client: the next connection that proves the same key is welcomed without a
  person being asked again.
\<close>

theorem approval_on_file:
  assumes "hh_state h = PendingApproval t" "hh_state h2 = Challenged t2" "tr_client t2 = tr_client t"
    and "auth_transcript t2 = Inr m" "verify_client C (tr_client t) Auth m sig = Inr ()"
  shows "(\<exists>s1 s2 r. approved h now (file_insert None) s = (StepWelcome, h\<lparr>hh_state := ReadyFor t\<rparr>, s1) \<and>
      file_open (FileText FORMAT_VERSION (fs_disk s1)) newer = Inr s2 \<and> file_get s2 (tr_client t) = Inr (Some r) \<and>
      tc_label r = tr_client_label t \<and> tc_paired_at r = now div 10 ^ 9 * 10 ^ 9) \<and>
    (\<exists>s1. approved h now (file_insert (Some e)) s = (StepRefused RefUnknownClient, h\<lparr>hh_state := RefusedState\<rparr>, s1) \<and>
      fs_disk s1 = fs_disk s \<and> fst (on_auth C h2 sig (file_get s1)) = StepWelcome)"
  using assms
  by (auto simp: approved_def file_insert_def file_flush_def file_open_def file_parse_def file_get_def option.map_comp
      comp_def entry_roundtrip whole_seconds_def on_auth_def)

theorem approval_on_file_witness:
  "\<exists>h2 s1. fs_disk s1 = Map.empty \<and> fst (on_auth toy_crypto h2 (replicate 64 0) (file_get s1)) = StepWelcome"
proof -
  let ?k = "replicate 32 (1 :: byte)"
  define t where "t = \<lparr>tr_version = 3, tr_host = ?k, tr_client = ?k, tr_host_nonce = ?k, tr_client_nonce = ?k,
    tr_host_label = [], tr_client_label = [], tr_host_dh = ?k, tr_client_dh = ?k\<rparr>"
  define h where "h = (\<lambda>st. (host_new (from_secret_bytes toy_crypto []) [] 3)\<lparr>hh_state := st\<rparr>)"
  obtain m where m: "auth_transcript t = Inr m"
    by (simp add: auth_transcript_def prefixed_def utf8_encode_def t_def)
  have "verify_client toy_crypto (tr_client t) Auth m (replicate 64 0) = Inr ()"
    by (simp add: verify_client_ok toy_crypto_def t_def)
  from approval_on_file [OF _ _ refl m this, of "h (PendingApproval t)" "h (Challenged t)" 5
      "\<lparr>fs_index = Map.empty, fs_dirty = None, fs_disk = Map.empty\<rparr>" "StoreError []" "StoreError []"]
  show ?thesis by (auto simp: h_def)
qed

end
