(* ===== verification/Predict.thy ===== *)
theory Predict
  imports Wire Complex_Main "HOL-Library.Log_Nat"
begin

text \<open>
  Predicted echo (\<open>crates/zest-proto/src/predict.rs\<close>): the cells a client draws before the host has answered
  a keystroke, and the rules for confirming them and taking them back.  Columns are \<open>u16\<close> in the code: no
  addition on a predicted column can leave the type, the one over the runs of a delivered row can, and is a
  panic (\<open>None\<close>).  Clock readings are milliseconds.
\<close>

section \<open>Single precision\<close>

text \<open>
  The latency estimate is an \<open>f32\<close>.  A finite one is a rational number; every operation rounds its exact
  result to 24 significant bits, ties to even, and no finer than \<open>2 ^ -149\<close>.  The values here stay far below
  the largest finite one.
\<close>

definition round_even :: "rat \<Rightarrow> int" where
  "round_even x =
     (let f = \<lfloor>x\<rfloor>; d = x - of_int f
      in if d < 1 / 2 then f else if 1 / 2 < d then f + 1 else if even f then f else f + 1)"

text \<open>The exponent of the binade of a positive number.\<close>

definition bit_size :: "int \<Rightarrow> int" where
  "bit_size n = int (floorlog 2 (nat n))"

definition binade :: "rat \<Rightarrow> int" where
  "binade x =
     (case quotient_of x of (n, d) \<Rightarrow>
        let e = bit_size n - bit_size d in if (2 :: rat) powi e \<le> x then e else e - 1)"

definition f32_round :: "rat \<Rightarrow> rat" where
  "f32_round x =
     (if x = 0 then 0
      else let u = max (binade \<bar>x\<bar> - 23) (- 149) in of_int (round_even (x / 2 powi u)) * 2 powi u)"

definition f32_add :: "rat \<Rightarrow> rat \<Rightarrow> rat" where "f32_add a b = f32_round (a + b)"

definition f32_sub :: "rat \<Rightarrow> rat \<Rightarrow> rat" where "f32_sub a b = f32_round (a - b)"

definition f32_mul :: "rat \<Rightarrow> rat \<Rightarrow> rat" where "f32_mul a b = f32_round (a * b)"

definition f32_of_nat :: "nat \<Rightarrow> rat" where "f32_of_nat n = f32_round (of_nat n)"

section \<open>The predictor\<close>

datatype pkey = KPrintable uchar | KBackspace | KOther

datatype policy = PolAuto | PolAlways | PolOff

record prediction =
  pd_row :: nat
  pd_col :: nat
  pd_ch :: uchar
  pd_made_at :: nat

definition SHOW_ABOVE_MS :: rat where "SHOW_ABOVE_MS = 40"
definition HIDE_BELOW_MS :: rat where "HIDE_BELOW_MS = 20"
definition EXPIRE_AFTER_RTTS :: rat where "EXPIRE_AFTER_RTTS = 3"
definition EXPIRE_FLOOR_MS :: rat where "EXPIRE_FLOOR_MS = 100"
definition EXPIRE_UNMEASURED_MS :: nat where "EXPIRE_UNMEASURED_MS = 1000"
definition EWMA :: rat where "EWMA = f32_round (3 / 10)"

record predictor =
  pp_policy :: policy
  pp_pending :: "prediction list"
  pp_cursor :: cursor_state
  pp_cols :: nat
  pp_alt_screen :: bool
  pp_quiet :: bool
  pp_latency :: "rat option"
  pp_remote_hint :: bool
  pp_showing :: bool

definition predictor_new :: "policy \<Rightarrow> predictor" where
  "predictor_new pol =
     \<lparr>pp_policy = pol, pp_pending = [], pp_cursor = \<lparr>cu_row = 0, cu_col = 0, cu_visible = False, cu_shape = 0\<rparr>,
      pp_cols = 0, pp_alt_screen = False, pp_quiet = False, pp_latency = None, pp_remote_hint = False, pp_showing = False\<rparr>"

definition set_policy :: "predictor \<Rightarrow> policy \<Rightarrow> predictor" where
  "set_policy p pol = (let p = p\<lparr>pp_policy := pol\<rparr> in if pol = PolOff then p\<lparr>pp_pending := []\<rparr> else p)"

definition set_remote_hint :: "predictor \<Rightarrow> bool \<Rightarrow> predictor" where
  "set_remote_hint p remote = p\<lparr>pp_remote_hint := remote\<rparr>"

definition on_keyframe :: "predictor \<Rightarrow> cursor_state \<Rightarrow> nat \<Rightarrow> bool \<Rightarrow> predictor" where
  "on_keyframe p cursor cols alt =
     p\<lparr>pp_pending := [], pp_cursor := cursor, pp_cols := cols, pp_alt_screen := alt\<rparr>"

text \<open>A character that takes one cell whatever table of widths the host has.\<close>

definition narrow :: "uchar \<Rightarrow> bool" where
  "narrow c \<longleftrightarrow> (0x20 \<le> c \<and> c < 0x1100) \<and> \<not> (0x300 \<le> c \<and> c \<le> 0x36F) \<and> c \<noteq> 0x7F"

definition on_input :: "predictor \<Rightarrow> pkey \<Rightarrow> nat \<Rightarrow> predictor" where
  "on_input p key now =
     (if pp_policy p = PolOff then p
      else case key of
        KPrintable c \<Rightarrow>
          if \<not> narrow c then p\<lparr>pp_pending := []\<rparr>
          else if pp_alt_screen p then p
          else
            let (row, col) = (case last_of (pp_pending p) of
                  Some x \<Rightarrow> (pd_row x, pd_col x + 1)
                | None \<Rightarrow> (cu_row (pp_cursor p), cu_col (pp_cursor p)))
            in if pp_cols p \<le> col then p
               else p\<lparr>pp_pending := pp_pending p @ [\<lparr>pd_row = row, pd_col = col, pd_ch = c, pd_made_at = now\<rparr>]\<rparr>
      | KBackspace \<Rightarrow> p\<lparr>pp_pending := butlast (pp_pending p)\<rparr>
      | KOther \<Rightarrow> p\<lparr>pp_pending := []\<rparr>)"

text \<open>The character a row puts at a column; the running column is \<open>u16\<close>.\<close>

fun char_in_runs :: "run list \<Rightarrow> nat \<Rightarrow> nat \<Rightarrow> uchar option" where
  "char_in_runs [] pos col = Some space"
| "char_in_runs (r # rs) pos col =
     (let e = pos + rn_cells r
      in if U16_MAX < e then None
         else if col < e then
           Some (if col - pos < length (rn_text r) then rn_text r ! (col - pos) else space)
         else char_in_runs rs e col)"

definition row_char_at :: "row_payload \<Rightarrow> nat \<Rightarrow> uchar option" where
  "row_char_at row col = char_in_runs (rp_runs row) 0 col"

definition predict_refute :: "predictor \<Rightarrow> predictor" where
  "predict_refute p = p\<lparr>pp_pending := [], pp_quiet := True\<rparr>"

definition predict_confirm :: "predictor \<Rightarrow> nat \<Rightarrow> predictor" where
  "predict_confirm p sample =
     (let s = f32_of_nat sample;
          rtt = (case pp_latency p of
                   Some prev \<Rightarrow> f32_add prev (f32_mul (f32_sub s prev) EWMA)
                 | None \<Rightarrow> s);
          p = p\<lparr>pp_latency := Some rtt, pp_quiet := False\<rparr>
      in if SHOW_ABOVE_MS < rtt then p\<lparr>pp_showing := True\<rparr>
         else if rtt < HIDE_BELOW_MS then p\<lparr>pp_showing := False\<rparr>
         else p)"

definition predict_expire :: "predictor \<Rightarrow> nat \<Rightarrow> predictor" where
  "predict_expire p now =
     (case pp_pending p of
        [] \<Rightarrow> p
      | oldest # _ \<Rightarrow>
          let age = now - pd_made_at oldest
          in case pp_latency p of
               Some rtt \<Rightarrow>
                 if max (f32_mul rtt EXPIRE_AFTER_RTTS) EXPIRE_FLOOR_MS < f32_of_nat age then predict_refute p else p
             | None \<Rightarrow> if EXPIRE_UNMEASURED_MS < age then p\<lparr>pp_pending := []\<rparr> else p)"

definition predict_tick :: "predictor \<Rightarrow> nat \<Rightarrow> predictor" where
  "predict_tick p now = predict_expire p now"

text \<open>The first loop of \<open>reconcile\<close>: what the delta says about cursor, screen and rows.\<close>

definition note_op :: "delta_op \<Rightarrow> predictor \<times> bool \<times> (nat \<times> row_payload) list \<Rightarrow> predictor \<times> bool \<times> (nat \<times> row_payload) list" where
  "note_op d x =
     (case x of (p, moved, rows) \<Rightarrow>
        (case d of
           OpCursor c \<Rightarrow> (p\<lparr>pp_cursor := c\<rparr>, True, rows)
         | OpRow r payload \<Rightarrow> (p, moved, rows @ [(r, payload)])
         | OpAltScreen a \<Rightarrow> (p\<lparr>pp_alt_screen := a, pp_pending := []\<rparr>, moved, rows)
         | OpScroll _ _ _ \<Rightarrow> (p\<lparr>pp_pending := []\<rparr>, moved, rows)
         | OpErase _ _ _ _ _ \<Rightarrow> (p\<lparr>pp_pending := []\<rparr>, moved, rows)
         | _ \<Rightarrow> x))"

text \<open>One prediction: confirmed, refuted, or nothing said; \<open>None\<close> outside is the panic of \<open>row_char_at\<close>.\<close>

definition verdict :: "predictor \<Rightarrow> bool \<Rightarrow> (nat \<times> row_payload) list \<Rightarrow> prediction \<Rightarrow> bool option option" where
  "verdict p moved rows x =
     (let delivered = map_option snd (find_first (\<lambda>(r, _). r = pd_row x) rows);
          passed = (cu_row (pp_cursor p) \<noteq> pd_row x \<or> pd_col x < cu_col (pp_cursor p))
      in case (delivered, passed) of
           (Some payload, True) \<Rightarrow> map_option (\<lambda>c. Some (c = pd_ch x)) (row_char_at payload (pd_col x))
         | (Some _, False) \<Rightarrow> Some None
         | (None, True) \<Rightarrow> Some (if moved then Some True else None)
         | (None, False) \<Rightarrow> Some None)"

lemma confirm_pending [simp]: "pp_pending (predict_confirm p s) = pp_pending p"
  by (simp add: predict_confirm_def Let_def)

function judge :: "bool \<Rightarrow> (nat \<times> row_payload) list \<Rightarrow> nat \<Rightarrow> predictor \<Rightarrow> nat \<Rightarrow> predictor option" where
  "judge moved rows now p i =
     (if i < length (pp_pending p) then
        case verdict p moved rows (pp_pending p ! i) of
          None \<Rightarrow> None
        | Some (Some True) \<Rightarrow>
            let q = predict_confirm p (now - pd_made_at (pp_pending p ! i))
            in judge moved rows now (q\<lparr>pp_pending := take i (pp_pending q) @ drop (Suc i) (pp_pending q)\<rparr>) i
        | Some (Some False) \<Rightarrow> Some (predict_refute p)
        | Some None \<Rightarrow> judge moved rows now p (i + 1)
      else Some (predict_expire p now))"
  by pat_completeness auto
termination by (relation "measure (\<lambda>(moved, rows, now, p, i). length (pp_pending p) - i)") (auto simp: Let_def)

declare judge.simps [simp del]

definition reconcile :: "predictor \<Rightarrow> delta \<Rightarrow> nat \<Rightarrow> predictor option" where
  "reconcile p d now =
     (case fold note_op (dl_ops d) (p, False, []) of (p, moved, rows) \<Rightarrow> judge moved rows now p 0)"

definition predict_showing :: "predictor \<Rightarrow> bool" where
  "predict_showing p \<longleftrightarrow>
     (case pp_policy p of
        PolOff \<Rightarrow> False
      | pol \<Rightarrow> if pp_quiet p then False
               else if pol = PolAlways then True
               else case pp_latency p of Some _ \<Rightarrow> pp_showing p | None \<Rightarrow> pp_remote_hint p)"

definition overlay :: "predictor \<Rightarrow> prediction list" where
  "overlay p = (if predict_showing p then pp_pending p else [])"

definition caret :: "predictor \<Rightarrow> (nat \<times> nat) option" where
  "caret p =
     (if \<not> predict_showing p then None
      else map_option (\<lambda>x. (pd_row x, pd_col x + 1)) (last_of (pp_pending p)))"

end
