(* ===== verification/PredictSpec.thy ===== *)
theory PredictSpec
  imports Predict EncodeInv
begin

text \<open>
  What the guesses are worth: pending predictions stand side by side on one row of the screen, a delta
  confirms or refutes exactly the ones the host's cursor has passed, and against the deltas of the encoder
  a prediction is judged by the character the host's screen holds.
\<close>

section \<open>The shape of what is pending\<close>

fun guesses_at :: "nat \<Rightarrow> nat \<Rightarrow> nat \<Rightarrow> prediction list \<Rightarrow> bool" where
  "guesses_at r c cols [] \<longleftrightarrow> True"
| "guesses_at r c cols (x # xs) \<longleftrightarrow>
     pd_row x = r \<and> pd_col x = c \<and> c < cols \<and> narrow (pd_ch x) \<and> guesses_at r (c + 1) cols xs"

definition predictor_ok :: "predictor \<Rightarrow> bool" where
  "predictor_ok p \<longleftrightarrow> (\<exists>r c. guesses_at r c (pp_cols p) (pp_pending p)) \<and>
     (pp_policy p = PolOff \<or> pp_alt_screen p \<longrightarrow> pp_pending p = [])"

lemma guesses_append: "guesses_at r c cols (xs @ ys) \<longleftrightarrow> guesses_at r c cols xs \<and> guesses_at r (c + length xs) cols ys"
  by (induction xs arbitrary: c) auto

lemma guesses_last: "guesses_at r c cols xs \<Longrightarrow> last_of xs = Some x \<Longrightarrow> pd_row x = r \<and> pd_col x + 1 = c + length xs"
  by (induction xs arbitrary: c rule: rev_induct) (auto simp: guesses_append last_of_def)

lemma guesses_nth: "guesses_at r c cols xs \<Longrightarrow> i < length xs \<Longrightarrow> pd_row (xs ! i) = r \<and> pd_col (xs ! i) = c + i \<and> c + i < cols"
proof (induction xs arbitrary: c i)
  case (Cons x xs)
  then show ?case using Cons.IH [of "c + 1" "i - 1"] by (cases i) auto
qed simp

lemma guesses_drop: "guesses_at r c cols xs \<Longrightarrow> \<exists>c'. guesses_at r c' cols (drop k xs)"
  using guesses_append [of r c cols "take k xs" "drop k xs"] by auto

lemma guesses_butlast: "guesses_at r c cols xs \<Longrightarrow> guesses_at r c cols (butlast xs)"
  using guesses_append [of r c cols "butlast xs" "[last xs]"] by (cases "xs = []") auto

section \<open>What a delta decides\<close>

definition passed :: "predictor \<Rightarrow> prediction \<Rightarrow> bool" where
  "passed p x \<longleftrightarrow> cu_row (pp_cursor p) \<noteq> pd_row x \<or> pd_col x < cu_col (pp_cursor p)"

definition delivered :: "(nat \<times> row_payload) list \<Rightarrow> nat \<Rightarrow> row_payload option" where
  "delivered rows r = map_option snd (find_first (\<lambda>(i, _). i = r) rows)"

lemma verdict_eq:
  "verdict p moved rows x =
     (if passed p x
      then (case delivered rows (pd_row x) of
              Some payload \<Rightarrow> map_option (\<lambda>c. Some (c = pd_ch x)) (row_char_at payload (pd_col x))
            | None \<Rightarrow> Some (if moved then Some True else None))
      else Some None)"
  by (auto simp: verdict_def passed_def delivered_def Let_def split: option.splits bool.splits)

lemma confirm_fields [simp]:
  "pp_policy (predict_confirm p s) = pp_policy p" "pp_cursor (predict_confirm p s) = pp_cursor p"
  "pp_cols (predict_confirm p s) = pp_cols p" "pp_alt_screen (predict_confirm p s) = pp_alt_screen p"
  "pp_remote_hint (predict_confirm p s) = pp_remote_hint p"
  by (simp_all add: predict_confirm_def Let_def)

text \<open>Confirming a run of predictions, oldest first.\<close>

fun confirm_all :: "nat \<Rightarrow> prediction list \<Rightarrow> predictor \<Rightarrow> predictor" where
  "confirm_all now [] p = p"
| "confirm_all now (x # xs) p = confirm_all now xs ((predict_confirm p (now - pd_made_at x))\<lparr>pp_pending := tl (pp_pending p)\<rparr>)"

lemma confirm_all_fields [simp]:
  "pp_policy (confirm_all now xs p) = pp_policy p" "pp_cursor (confirm_all now xs p) = pp_cursor p"
  "pp_cols (confirm_all now xs p) = pp_cols p" "pp_alt_screen (confirm_all now xs p) = pp_alt_screen p"
  "pp_remote_hint (confirm_all now xs p) = pp_remote_hint p"
  "pp_pending (confirm_all now xs p) = drop (length xs) (pp_pending p)"
  by (induction xs arbitrary: p) (simp_all add: drop_Suc)

lemma confirm_all_quiet: "pp_quiet (confirm_all now xs p) \<longleftrightarrow> xs = [] \<and> pp_quiet p"
  by (induction xs arbitrary: p) (simp_all add: predict_confirm_def Let_def)

lemma passed_cong: "pp_cursor p = pp_cursor q \<Longrightarrow> passed p = passed q"
  by (auto simp: passed_def fun_eq_iff)

lemma takeWhile_short: "length (takeWhile P xs) < length xs \<longleftrightarrow> \<not> (\<forall>x \<in> set xs. P x)"
  by (induction xs) auto

text \<open>A prefix on which nothing was said is skipped.\<close>

lemma judge_skip:
  assumes "\<And>x. x \<in> set (drop i (pp_pending p)) \<Longrightarrow> verdict p moved rows x = Some None"
  shows "judge moved rows now p i = Some (predict_expire p now)"
  using assms
proof (induction "length (pp_pending p) - i" arbitrary: i)
  case 0
  then show ?case by (simp add: judge.simps)
next
  case (Suc n)
  then have i: "i < length (pp_pending p)" by simp
  then have "drop i (pp_pending p) = pp_pending p ! i # drop (Suc i) (pp_pending p)" by (simp add: Cons_nth_drop_Suc)
  then have "verdict p moved rows (pp_pending p ! i) = Some None"
    "\<And>x. x \<in> set (drop (Suc i) (pp_pending p)) \<Longrightarrow> verdict p moved rows x = Some None"
    using Suc.prems by simp_all
  then show ?case using Suc.hyps(1) [of "Suc i"] Suc.hyps(2) i by (subst judge.simps) simp
qed

lemma guesses_passed:
  assumes "guesses_at r c cols xs" "\<not> passed p (hd xs)" "x \<in> set xs"
  shows "\<not> passed p x"
proof -
  obtain i where i: "i < length xs" "x = xs ! i" using assms(3) by (metis in_set_conv_nth)
  then have "xs \<noteq> []" by auto
  then show ?thesis using assms(2) guesses_nth [OF assms(1), of 0] guesses_nth [OF assms(1) i(1)] i
    by (auto simp: passed_def hd_conv_nth)
qed

text \<open>What the loop comes to: the predictions the cursor has passed are the first ones.\<close>

definition holds :: "(nat \<times> row_payload) list \<Rightarrow> prediction \<Rightarrow> bool" where
  "holds rows x \<longleftrightarrow>
     (case delivered rows (pd_row x) of None \<Rightarrow> True | Some payload \<Rightarrow> row_char_at payload (pd_col x) = Some (pd_ch x))"

lemma judge_result:
  assumes "guesses_at r c cols (pp_pending p)" "moved \<or> delivered rows r \<noteq> None"
    "\<And>pl k. delivered rows r = Some pl \<Longrightarrow> row_char_at pl k \<noteq> None"
  shows "judge moved rows now p 0 =
    (let reached = takeWhile (passed p) (pp_pending p); good = takeWhile (holds rows) reached
     in Some (if length good < length reached then predict_refute (confirm_all now good p)
              else predict_expire (confirm_all now reached p) now))"
  using assms
proof (induction "pp_pending p" arbitrary: p c)
  case Nil
  then show ?case by (simp add: judge.simps)
next
  case (Cons x xs)
  have r: "pd_row x = r" "guesses_at r (c + 1) cols xs" using Cons.prems(1) Cons.hyps(2) [symmetric] by simp_all
  let ?q = "(predict_confirm p (now - pd_made_at x))\<lparr>pp_pending := xs\<rparr>"
  have pq: "passed ?q = passed p" by (rule passed_cong) simp
  show ?case
  proof (cases "passed p x")
    case False
    have "judge moved rows now p 0 = Some (predict_expire p now)"
    proof (rule judge_skip)
      fix y assume "y \<in> set (drop 0 (pp_pending p))"
      then have "\<not> passed p y" using guesses_passed [OF Cons.prems(1), of p y] False Cons.hyps(2) [symmetric] by simp
      then show "verdict p moved rows y = Some None" by (simp add: verdict_eq)
    qed
    then show ?thesis using False Cons.hyps(2) [symmetric] by simp
  next
    case True
    have v: "verdict p moved rows x = Some (Some (holds rows x))"
      using True r(1) Cons.prems(2,3) by (auto simp: verdict_eq holds_def split: option.splits)
    have j: "judge moved rows now p 0 = (if holds rows x then judge moved rows now ?q 0 else Some (predict_refute p))"
      using v Cons.hyps(2) [symmetric] by (subst judge.simps) (simp add: Let_def)
    show ?thesis
    proof (cases "holds rows x")
      case h: True
      have "judge moved rows now ?q 0 = (let reached = takeWhile (passed p) xs; good = takeWhile (holds rows) reached
         in Some (if length good < length reached then predict_refute (confirm_all now good ?q)
                  else predict_expire (confirm_all now reached ?q) now))"
        using Cons.hyps(1) [of ?q "c + 1"] r(2) Cons.prems(2,3) pq by simp
      then show ?thesis using j h True Cons.hyps(2) [symmetric] by (simp add: Let_def)
    next
      case h: False
      then show ?thesis using j True Cons.hyps(2) [symmetric] by simp
    qed
  qed
qed

text \<open>What the operations of a delta say, and that they keep the shape of what is pending.\<close>

definition row_fits :: "row_payload \<Rightarrow> bool" where
  "row_fits pl \<longleftrightarrow> sum_list (map rn_cells (rp_runs pl)) \<le> U16_MAX"

definition op_fits :: "delta_op \<Rightarrow> bool" where
  "op_fits d \<longleftrightarrow> (case d of OpRow _ pl \<Rightarrow> row_fits pl | _ \<Rightarrow> True)"

lemma char_in_runs_Some: "pos + sum_list (map rn_cells rs) \<le> U16_MAX \<Longrightarrow> char_in_runs rs pos col \<noteq> None"
  by (induction rs arbitrary: pos) (auto simp: Let_def)

lemma row_char_at_Some: "row_fits pl \<Longrightarrow> row_char_at pl col \<noteq> None"
  using char_in_runs_Some [of 0 "rp_runs pl" col] by (simp add: row_char_at_def row_fits_def)

lemma note_op_ok:
  "predictor_ok p \<Longrightarrow> predictor_ok (fst (note_op d (p, m, rs))) \<and> pp_cols (fst (note_op d (p, m, rs))) = pp_cols p"
  by (auto simp: note_op_def predictor_ok_def split: delta_op.split)

lemma note_ops_ok: "predictor_ok (fst x) \<Longrightarrow> predictor_ok (fst (fold note_op ops x))"
proof (induction ops arbitrary: x)
  case (Cons d ops)
  then show ?case using note_op_ok [of "fst x" d "fst (snd x)" "snd (snd x)"] by simp
qed simp

lemma note_ops_fit:
  "list_all op_fits ops \<Longrightarrow> \<forall>y \<in> set (snd (snd x)). row_fits (snd y) \<Longrightarrow> \<forall>y \<in> set (snd (snd (fold note_op ops x))). row_fits (snd y)"
proof (induction ops arbitrary: x)
  case (Cons d ops)
  have "\<forall>y \<in> set (snd (snd (note_op d x))). row_fits (snd y)"
    using Cons.prems by (cases x; cases d) (auto simp: note_op_def op_fits_def)
  then show ?case using Cons by simp
qed simp

lemma delivered_fits: "\<forall>y \<in> set rows. row_fits (snd y) \<Longrightarrow> delivered rows r = Some pl \<Longrightarrow> row_fits pl"
  by (fastforce simp: delivered_def dest: find_first_Some)

lemma reconcile_result:
  assumes "predictor_ok p" "list_all op_fits (dl_ops d)"
  shows "case fold note_op (dl_ops d) (p, False, []) of (q, moved, rows) \<Rightarrow>
    (let reached = takeWhile (passed q) (pp_pending q); good = takeWhile (holds rows) reached
     in reconcile p d now = Some
       (if length good < length reached then predict_refute (confirm_all now good q)
        else if moved \<or> (\<exists>x \<in> set (pp_pending q). delivered rows (pd_row x) \<noteq> None)
        then predict_expire (confirm_all now reached q) now
        else predict_expire q now))"
proof -
  obtain q moved rows where f: "fold note_op (dl_ops d) (p, False, []) = (q, moved, rows)" by (metis prod_cases3)
  have rec: "reconcile p d now = judge moved rows now q 0" by (simp add: reconcile_def f)
  have "predictor_ok q" using note_ops_ok [of "(p, False, [])" "dl_ops d"] assms(1) by (simp add: f)
  then obtain r c where g: "guesses_at r c (pp_cols q) (pp_pending q)" by (auto simp: predictor_ok_def)
  then have r: "pd_row x = r" if "x \<in> set (pp_pending q)" for x using guesses_nth that by (metis in_set_conv_nth)
  have fits: "\<forall>y \<in> set rows. row_fits (snd y)" using note_ops_fit [OF assms(2), of "(p, False, [])"] by (simp add: f)
  show ?thesis
  proof (cases "moved \<or> delivered rows r \<noteq> None")
    case True
    have "judge moved rows now q 0 = (let reached = takeWhile (passed q) (pp_pending q); good = takeWhile (holds rows) reached
     in Some (if length good < length reached then predict_refute (confirm_all now good q)
              else predict_expire (confirm_all now reached q) now))"
      by (rule judge_result [OF g True]) (use delivered_fits [OF fits] row_char_at_Some in blast)
    moreover have "takeWhile (passed q) (pp_pending q) = []" if "pp_pending q = []" using that by simp
    moreover have "moved \<or> (\<exists>x \<in> set (pp_pending q). delivered rows (pd_row x) \<noteq> None)" if "pp_pending q \<noteq> []"
      using that True r [of "hd (pp_pending q)"] by (metis list.set_sel(1))
    ultimately show ?thesis using f rec by (cases "pp_pending q = []") (simp_all add: Let_def)
  next
    case False
    then have v: "verdict q moved rows x = Some None" "holds rows x" if "x \<in> set (pp_pending q)" for x
      using r [OF that] by (simp_all add: verdict_eq holds_def)
    then have "judge moved rows now q 0 = Some (predict_expire q now)" by (intro judge_skip) simp
    moreover have "length (takeWhile (holds rows) (takeWhile (passed q) (pp_pending q))) = length (takeWhile (passed q) (pp_pending q))"
      using v(2) set_takeWhileD takeWhile_eq_all_conv by metis
    moreover have "\<not> (\<exists>x \<in> set (pp_pending q). delivered rows (pd_row x) \<noteq> None)" using False r by auto
    ultimately show ?thesis using f rec False by (simp add: Let_def)
  qed
qed

text \<open>
  A delta judges exactly the predictions the host's cursor has passed, oldest first: if a row it
  delivers holds another character than a prediction, that one and everything after it is dropped and
  drawing stops; otherwise all that were passed are confirmed, when the row or the cursor came with the
  delta, and the rest keep waiting.  It never panics on rows whose runs fit the type of a column.
\<close>

theorem reconcile_judges:
  assumes "predictor_ok p" "list_all op_fits (dl_ops d)"
  shows "case fold note_op (dl_ops d) (p, False, []) of (q, moved, rows) \<Rightarrow>
    (let reached = takeWhile (passed q) (pp_pending q); good = takeWhile (holds rows) reached
     in reconcile p d now = Some
       (if length good < length reached then predict_refute (confirm_all now good q)
        else if moved \<or> (\<exists>x \<in> set (pp_pending q). delivered rows (pd_row x) \<noteq> None)
        then predict_expire (confirm_all now reached q) now
        else predict_expire q now))"
  using reconcile_result [OF assms] .

text \<open>One key typed at the start of an empty line, and the row in which the host echoes it.\<close>

definition demo_predictor :: predictor where
  "demo_predictor =
     on_input (on_keyframe (predictor_new PolAlways) \<lparr>cu_row = 2, cu_col = 0, cu_visible = True, cu_shape = 0\<rparr> 3 False) (KPrintable 97) 5"

definition demo_echo :: row where
  "demo_echo = (row_new 3 0)\<lparr>row_cells := [default_cell\<lparr>cell_ch := 97\<rparr>, default_cell, default_cell]\<rparr>"

definition demo_echo_delta :: delta where
  "demo_echo_delta = \<lparr>dl_attrs = [], dl_ops = [OpRow 2 (snd (encode_row encoder_new demo_echo)),
     OpCursor \<lparr>cu_row = 2, cu_col = 1, cu_visible = True, cu_shape = 0\<rparr>], dl_blocks = []\<rparr>"

lemma demo_predictor_eq:
  "pp_pending demo_predictor = [\<lparr>pd_row = 2, pd_col = 0, pd_ch = 97, pd_made_at = 5\<rparr>]" "pp_cols demo_predictor = 3"
  "pp_policy demo_predictor = PolAlways" "pp_alt_screen demo_predictor = False"
  by (simp_all add: demo_predictor_def on_input_def on_keyframe_def predictor_new_def narrow_def)

lemma demo_predictor_ok: "predictor_ok demo_predictor"
  by (auto simp: predictor_ok_def demo_predictor_eq narrow_def)

theorem reconcile_judges_witness:
  "\<exists>q. reconcile demo_predictor \<lparr>dl_attrs = [], dl_ops = [OpCursor \<lparr>cu_row = 2, cu_col = 1, cu_visible = True, cu_shape = 0\<rparr>], dl_blocks = []\<rparr> 65 = Some q"
  using reconcile_judges [OF demo_predictor_ok, of "\<lparr>dl_attrs = [], dl_ops = [OpCursor \<lparr>cu_row = 2, cu_col = 1, cu_visible = True, cu_shape = 0\<rparr>], dl_blocks = []\<rparr>" 65]
  by (simp add: op_fits_def note_op_def Let_def)

section \<open>Every state of the predictor\<close>

datatype predict_event =
    PdKeyframe cursor_state nat bool
  | PdInput pkey nat
  | PdDelta delta nat
  | PdTick nat
  | PdPolicy policy
  | PdHint bool

fun predict_step :: "predict_event \<Rightarrow> predictor \<Rightarrow> predictor option" where
  "predict_step (PdKeyframe c cols a) p = Some (on_keyframe p c cols a)"
| "predict_step (PdInput k now) p = Some (on_input p k now)"
| "predict_step (PdDelta d now) p = reconcile p d now"
| "predict_step (PdTick now) p = Some (predict_tick p now)"
| "predict_step (PdPolicy pol) p = Some (set_policy p pol)"
| "predict_step (PdHint h) p = Some (set_remote_hint p h)"

fun predict_run :: "predict_event list \<Rightarrow> predictor \<Rightarrow> predictor option" where
  "predict_run [] p = Some p"
| "predict_run (e # es) p = (case predict_step e p of None \<Rightarrow> None | Some q \<Rightarrow> predict_run es q)"

fun event_fits :: "predict_event \<Rightarrow> bool" where
  "event_fits (PdDelta d now) \<longleftrightarrow> list_all op_fits (dl_ops d)"
| "event_fits _ \<longleftrightarrow> True"

lemma predictor_ok_part:
  assumes "predictor_ok p" "pp_cols q = pp_cols p" "pp_policy q = pp_policy p" "pp_alt_screen q = pp_alt_screen p"
    "\<exists>k. pp_pending q = drop k (pp_pending p)"
  shows "predictor_ok q"
  using assms guesses_drop by (fastforce simp: predictor_ok_def)

lemma expire_fields:
  "pp_cols (predict_expire p now) = pp_cols p \<and> pp_policy (predict_expire p now) = pp_policy p \<and>
   pp_alt_screen (predict_expire p now) = pp_alt_screen p \<and>
   (pp_pending (predict_expire p now) = pp_pending p \<or> pp_pending (predict_expire p now) = [])"
  by (simp add: predict_expire_def predict_refute_def Let_def split: list.split option.split)

lemma expire_ok: "predictor_ok p \<Longrightarrow> predictor_ok (predict_expire p now)"
proof (rule predictor_ok_part)
  show "\<exists>k. pp_pending (predict_expire p now) = drop k (pp_pending p)"
    using expire_fields [of p now] by (metis drop_0 drop_all order_refl)
qed (simp_all add: expire_fields)

lemma confirm_all_ok: "predictor_ok p \<Longrightarrow> predictor_ok (confirm_all now xs p)"
  by (rule predictor_ok_part) auto

lemma refute_ok: "predictor_ok p \<Longrightarrow> predictor_ok (predict_refute p)"
  by (auto simp: predictor_ok_def predict_refute_def)

lemma on_input_ok: "predictor_ok p \<Longrightarrow> predictor_ok (on_input p k now)"
proof -
  assume ok: "predictor_ok p"
  then obtain r c where g: "guesses_at r c (pp_cols p) (pp_pending p)" by (auto simp: predictor_ok_def)
  show ?thesis
  proof (cases k)
    case (KPrintable x)
    show ?thesis
    proof (cases "last_of (pp_pending p)")
      case None
      then have "pp_pending p = []" by (simp add: last_of_def split: if_splits)
      then show ?thesis using ok KPrintable by (auto simp: on_input_def predictor_ok_def)
    next
      case (Some y)
      then show ?thesis using ok g KPrintable guesses_last [OF g Some]
        by (auto simp: on_input_def predictor_ok_def guesses_append intro!: exI [of _ r] exI [of _ c])
    qed
  next
    case KBackspace
    then show ?thesis using ok guesses_butlast [OF g] by (auto simp: on_input_def predictor_ok_def)
  next
    case KOther
    then show ?thesis using ok by (auto simp: on_input_def predictor_ok_def)
  qed
qed

lemma reconcile_ok: "predictor_ok p \<Longrightarrow> list_all op_fits (dl_ops d) \<Longrightarrow> \<exists>q. reconcile p d now = Some q \<and> predictor_ok q"
proof -
  assume a: "predictor_ok p" "list_all op_fits (dl_ops d)"
  obtain q moved rows where f: "fold note_op (dl_ops d) (p, False, []) = (q, moved, rows)" by (metis prod_cases3)
  have "predictor_ok q" using note_ops_ok [of "(p, False, [])" "dl_ops d"] a(1) by (simp add: f)
  moreover obtain xs where "reconcile p d now \<in> {Some (predict_refute (confirm_all now xs q)), Some (predict_expire (confirm_all now xs q) now), Some (predict_expire q now)}"
    using reconcile_result [OF a, of now] by (auto simp: f Let_def split: if_splits)
  ultimately show ?thesis using refute_ok expire_ok confirm_all_ok by (metis empty_iff insert_iff)
qed

lemma step_ok: "predictor_ok p \<Longrightarrow> event_fits e \<Longrightarrow> \<exists>q. predict_step e p = Some q \<and> predictor_ok q"
proof (cases e)
  case (PdKeyframe c cols a)
  then show ?thesis by (auto simp: on_keyframe_def predictor_ok_def)
next
  case (PdPolicy pol)
  then show "predictor_ok p \<Longrightarrow> event_fits e \<Longrightarrow> ?thesis" by (auto simp: set_policy_def predictor_ok_def Let_def)
next
  case (PdHint h)
  then show "predictor_ok p \<Longrightarrow> event_fits e \<Longrightarrow> ?thesis" by (auto simp: set_remote_hint_def predictor_ok_def)
qed (use on_input_ok reconcile_ok expire_ok in \<open>auto simp: predict_tick_def\<close>)

lemma run_ok: "predictor_ok p \<Longrightarrow> list_all event_fits es \<Longrightarrow> \<exists>q. predict_run es p = Some q \<and> predictor_ok q"
proof (induction es arbitrary: p)
  case (Cons e es)
  then show ?case using step_ok [of p e] by fastforce
qed simp

text \<open>Whatever the rows are, what the loop leaves pending is a rest of what was pending.\<close>

lemma judge_rest:
  assumes "guesses_at r c cols (pp_pending p)" "judge moved rows now p 0 = Some q"
  shows "pp_cols q = pp_cols p \<and> pp_policy q = pp_policy p \<and> pp_alt_screen q = pp_alt_screen p \<and>
    (\<exists>k. pp_pending q = drop k (pp_pending p))"
  using assms
proof (induction "pp_pending p" arbitrary: p c)
  case Nil
  then have "q = predict_expire p now" by (simp add: judge.simps)
  then show ?case using expire_fields [of p now] Nil.hyps by simp
next
  case (Cons x xs)
  have r: "pd_row x = r" "guesses_at r (c + 1) cols xs" using Cons.prems(1) Cons.hyps(2) [symmetric] by simp_all
  have rows: "pd_row y = r" if "y \<in> set (pp_pending p)" for y
    using guesses_nth [OF Cons.prems(1)] that by (metis in_set_conv_nth)
  let ?q = "(predict_confirm p (now - pd_made_at x))\<lparr>pp_pending := xs\<rparr>"
  have expired: ?case if "q = predict_expire p now"
    using expire_fields [of p now] that by (metis drop_0 drop_all order_refl)
  show ?case
  proof (cases "verdict p moved rows x")
    case None
    then show ?thesis using Cons.prems(2) Cons.hyps(2) [symmetric] by (simp add: judge.simps [of _ _ _ p])
  next
    case (Some said)
    consider "said = Some True" | "said = Some False" | "said = None" by fastforce
    then show ?thesis
    proof cases
      case 1
      then have "judge moved rows now ?q 0 = Some q"
        using Some Cons.prems(2) Cons.hyps(2) [symmetric] by (simp add: judge.simps [of _ _ _ p] Let_def)
      then have "pp_cols q = pp_cols p \<and> pp_policy q = pp_policy p \<and> pp_alt_screen q = pp_alt_screen p \<and>
          (\<exists>k. pp_pending q = drop k xs)"
        using Cons.hyps(1) [of ?q "c + 1"] r(2) by simp
      then show ?thesis using Cons.hyps(2) [symmetric] by (metis drop_Suc_Cons)
    next
      case 2
      then have "q = predict_refute p"
        using Some Cons.prems(2) Cons.hyps(2) [symmetric] by (simp add: judge.simps [of _ _ _ p])
      then show ?thesis by (auto simp: predict_refute_def intro: exI [of _ "length (pp_pending p)"])
    next
      case 3
      have "verdict p moved rows y = Some None" if "y \<in> set (pp_pending p)" for y
        using Some 3 rows [OF that] r(1) guesses_passed [OF Cons.prems(1) _ that] Cons.hyps(2) [symmetric]
        by (auto simp: verdict_eq split: if_splits option.splits)
      then have "judge moved rows now p 0 = Some (predict_expire p now)" by (intro judge_skip) simp
      then show ?thesis using Cons.prems(2) expired by simp
    qed
  qed
qed

lemma reconcile_kept: "predictor_ok p \<Longrightarrow> reconcile p d now = Some q \<Longrightarrow> predictor_ok q"
proof -
  assume a: "predictor_ok p" "reconcile p d now = Some q"
  obtain q' moved rows where f: "fold note_op (dl_ops d) (p, False, []) = (q', moved, rows)" by (metis prod_cases3)
  have ok: "predictor_ok q'" using note_ops_ok [of "(p, False, [])" "dl_ops d"] a(1) by (simp add: f)
  then obtain r c where "guesses_at r c (pp_cols q') (pp_pending q')" by (auto simp: predictor_ok_def)
  from judge_rest [OF this, of moved rows now q] show ?thesis
    using predictor_ok_part [OF ok, of q] a(2) by (simp add: reconcile_def f)
qed

lemma step_kept: "predictor_ok p \<Longrightarrow> predict_step e p = Some q \<Longrightarrow> predictor_ok q"
  using step_ok [of p e] reconcile_kept [of p] by (cases e) auto

lemma run_kept: "predictor_ok p \<Longrightarrow> predict_run es p = Some q \<Longrightarrow> predictor_ok q"
proof (induction es arbitrary: p)
  case (Cons e es)
  then show ?case using step_kept [of p e] by (auto split: option.splits)
qed simp

text \<open>
  C35. What the engine draws is a line a shell could be echoing.  Whatever was typed and delivered, in
  every state it gets to the drawn predictions are consecutive cells of one row inside the screen, each
  with a character one cell wide, and there are none on the alternate screen, with prediction off, or
  after a refutation that nothing confirmed since; the caret stands right after the last of them.  It
  does get to a state unless some delta delivers a row whose runs have more than 65535 cells together:
  on such a row adding up the cells may overflow and panic.
\<close>

theorem predictions_stay_on_line:
  "(list_all event_fits es \<longrightarrow> predict_run es (predictor_new pol) \<noteq> None) \<and>
   (\<forall>p. predict_run es (predictor_new pol) = Some p \<longrightarrow>
    (\<exists>r c. \<forall>i < length (overlay p). pd_row (overlay p ! i) = r \<and> pd_col (overlay p ! i) = c + i \<and>
        c + i < pp_cols p \<and> narrow (pd_ch (overlay p ! i))) \<and>
    (overlay p \<noteq> [] \<longrightarrow> pp_policy p \<noteq> PolOff \<and> \<not> pp_alt_screen p \<and> \<not> pp_quiet p \<and>
        caret p = Some (pd_row (last (overlay p)), pd_col (last (overlay p)) + 1) \<and> pd_col (last (overlay p)) + 1 \<le> pp_cols p))"
proof (intro conjI allI impI)
  have ok: "predictor_ok (predictor_new pol)" by (auto simp: predictor_ok_def predictor_new_def)
  show "predict_run es (predictor_new pol) \<noteq> None" if "list_all event_fits es" using run_ok [OF ok that] by auto
  fix p assume "predict_run es (predictor_new pol) = Some p"
  then have p: "predictor_ok p" by (rule run_kept [OF ok])
  then obtain r c where "guesses_at r c (pp_cols p) (pp_pending p)" by (auto simp: predictor_ok_def)
  then have g: "guesses_at r c (pp_cols p) (overlay p)" by (simp add: overlay_def)
  have n: "narrow (pd_ch x)" if "guesses_at r c k xs" "x \<in> set xs" for r c k x xs
    using that by (induction xs arbitrary: c) auto
  show "\<exists>r c. \<forall>i < length (overlay p). pd_row (overlay p ! i) = r \<and> pd_col (overlay p ! i) = c + i \<and>
      c + i < pp_cols p \<and> narrow (pd_ch (overlay p ! i))"
    using guesses_nth [OF g] n [OF g] by (intro exI [of _ r] exI [of _ c]) simp
  assume ne: "overlay p \<noteq> []"
  have s: "predict_showing p" "pp_pending p \<noteq> []" "overlay p = pp_pending p" using ne by (auto simp: overlay_def split: if_splits)
  have "pd_col (last (overlay p)) < pp_cols p"
    using guesses_nth [OF g, of "length (overlay p) - 1"] ne by (simp add: last_conv_nth)
  then show "pp_policy p \<noteq> PolOff" "\<not> pp_alt_screen p" "\<not> pp_quiet p"
    "caret p = Some (pd_row (last (overlay p)), pd_col (last (overlay p)) + 1)" "pd_col (last (overlay p)) + 1 \<le> pp_cols p"
    using s p by (auto simp: predictor_ok_def predict_showing_def caret_def last_of_def split: policy.splits if_splits)
qed

theorem predictions_stay_on_line_witness:
  "\<exists>p. predict_run [PdKeyframe \<lparr>cu_row = 2, cu_col = 0, cu_visible = True, cu_shape = 0\<rparr> 3 False, PdInput (KPrintable 97) 5,
      PdDelta \<lparr>dl_attrs = [], dl_ops = [OpAltScreen True], dl_blocks = []\<rparr> 9] (predictor_new PolAlways) = Some p"
  using conjunct1 [OF predictions_stay_on_line [of "[PdKeyframe \<lparr>cu_row = 2, cu_col = 0, cu_visible = True, cu_shape = 0\<rparr> 3 False,
      PdInput (KPrintable 97) 5, PdDelta \<lparr>dl_attrs = [], dl_ops = [OpAltScreen True], dl_blocks = []\<rparr> 9]" PolAlways]]
  by (auto simp: op_fits_def)

section \<open>Against the host's screen\<close>

lemma char_in_runs_encoded:
  assumes "list_all spacer_ok cs" "pos + length cs \<le> U16_MAX" "pos \<le> col"
  shows "char_in_runs (snd (encode_runs r cs e)) pos col =
    Some (if col - pos < length cs then cell_ch (cs ! (col - pos)) else space)"
  using assms
proof (induction r cs e arbitrary: pos rule: encode_runs.induct)
  case (2 r c cs e)
  define same where "same = (\<lambda>d. attr_key_of d = attr_key_of c)"
  define hs where "hs = c # takeWhile same cs"
  define ts where "ts = dropWhile same cs"
  obtain e' a where ia: "intern_attr e c = (e', a)" by fastforce
  have cs: "c # cs = hs @ ts" by (simp add: hs_def ts_def)
  have sp: "list_all spacer_ok hs" "list_all spacer_ok ts" and len: "pos + length hs + length ts \<le> U16_MAX"
    using 2(2,3) unfolding cs by simp_all
  have key: "list_all (\<lambda>d. attr_key_of d = attr_key_of c) hs" by (auto simp: hs_def list_all_iff same_def dest: set_takeWhileD)
  have run: "snd (encode_runs r (c # cs) e) = make_run r a hs # snd (encode_runs r ts e')"
    by (simp add: ia Let_def split_beta same_def hs_def ts_def)
  have n: "rn_cells (make_run r a hs) = length hs" "rn_text (make_run r a hs) = run_text hs" using len by (simp_all add: make_run_def)
  have ih: "char_in_runs (snd (encode_runs r ts e')) (pos + length hs) col =
      Some (if col - (pos + length hs) < length ts then cell_ch (ts ! (col - (pos + length hs))) else space)"
    if "pos + length hs \<le> col"
    using 2(1) [OF refl ia [symmetric] refl, of "pos + length hs"] sp(2) len that by (simp add: same_def ts_def)
  have u: "\<not> U16_MAX < pos + length hs" using len by simp
  show ?case
  proof (cases "col < pos + length hs")
    case True
    then have "(if col - pos < length (run_text hs) then run_text hs ! (col - pos) else space) = cell_ch (hs ! (col - pos))"
      using 2(4) by (intro run_text_char [OF key sp(1)]) simp
    moreover have "col - pos < length hs" using True 2(4) by simp
    ultimately show ?thesis using True unfolding run unfolding cs char_in_runs.simps Let_def n if_not_P [OF u]
      by (simp add: nth_append)
  next
    case False
    then show ?thesis using ih unfolding run unfolding cs char_in_runs.simps Let_def n if_not_P [OF u]
      by (auto simp: nth_append)
  qed
qed simp

text \<open>A row of the encoder says at every column what the host's screen shows there.\<close>

lemma encoded_row_char:
  assumes "list_all spacer_ok (row_cells r)" "length (row_cells r) \<le> U16_MAX" "col < length (row_cells r)"
  shows "row_char_at (snd (encode_row e r)) col = Some (cell_ch (row_cells r ! col))"
proof -
  let ?n = "encoded_len (row_cells r)" and ?cs = "take (encoded_len (row_cells r)) (row_cells r)"
  have n: "?n \<le> length (row_cells r)" by (simp add: encoded_len_def trim_len_le)
  have "list_all spacer_ok ?cs" using assms(1) by (auto simp: list_all_iff dest: in_set_takeD)
  then have "row_char_at (snd (encode_row e r)) col = Some (if col < ?n then cell_ch (row_cells r ! col) else space)"
    using char_in_runs_encoded [of ?cs 0 col r e] n assms(2) by (simp add: row_char_at_def encode_row_def Let_def split_beta)
  moreover have "cell_ch (row_cells r ! col) = space" if "\<not> col < ?n"
    using trim_len_beyond [OF _ assms(3)] that unfolding encoded_len_def not_less by blast
  ultimately show ?thesis by simp
qed

text \<open>
  C36. An honest echo is never refuted.  When the encoder sends the row the predictions stand on and where
  the host's cursor is, the predictions it has passed are confirmed if the host's screen holds their
  characters, and otherwise all are dropped and nothing is drawn.  The host's row has blank spacers, is at
  least as wide as the engine believes and fits the 16 bits of a column.
\<close>

theorem predictions_judged_by_screen:
  assumes "predictor_ok p" "pp_pending p \<noteq> []" "pd_row (hd (pp_pending p)) = r"
    and "list_all spacer_ok (row_cells h)" "length (row_cells h) \<le> U16_MAX" "pp_cols p \<le> length (row_cells h)"
    and "dl_ops d = [OpRow r (snd (encode_row e h)), OpCursor c]"
  shows "let q = p\<lparr>pp_cursor := c\<rparr>; reached = takeWhile (passed q) (pp_pending p) in
    if \<forall>x \<in> set reached. cell_ch (row_cells h ! pd_col x) = pd_ch x
    then reconcile p d now = Some (predict_expire (confirm_all now reached q) now)
    else \<exists>q'. reconcile p d now = Some q' \<and> overlay q' = [] \<and> pp_pending q' = [] \<and> pp_quiet q'"
proof -
  let ?q = "p\<lparr>pp_cursor := c\<rparr>" and ?rows = "[(r, snd (encode_row e h))]"
  let ?reached = "takeWhile (passed ?q) (pp_pending p)"
  obtain c0 where g: "guesses_at r c0 (pp_cols p) (pp_pending p)"
    using assms(1-3) by (cases "pp_pending p") (auto simp: predictor_ok_def)
  have f: "fold note_op (dl_ops d) (p, False, []) = (?q, True, ?rows)" by (simp add: assms(7) note_op_def)
  have ch: "row_char_at (snd (encode_row e h)) k = Some (cell_ch (row_cells h ! k))" if "k < pp_cols p" for k
    using encoded_row_char [OF assms(4,5)] that assms(6) by simp
  have fits: "row_char_at (snd (encode_row e h)) k \<noteq> None" for k
  proof -
    have "list_all spacer_ok (take (encoded_len (row_cells h)) (row_cells h))" using assms(4) by (auto simp: list_all_iff dest: in_set_takeD)
    then show ?thesis using char_in_runs_encoded [of "take (encoded_len (row_cells h)) (row_cells h)" 0 k h e] assms(5)
      by (simp add: row_char_at_def encode_row_def Let_def split_beta)
  qed
  have j: "reconcile p d now = (let good = takeWhile (holds ?rows) ?reached
     in Some (if length good < length ?reached then predict_refute (confirm_all now good ?q)
              else predict_expire (confirm_all now ?reached ?q) now))"
  proof -
    have "judge True ?rows now ?q 0 = (let reached = takeWhile (passed ?q) (pp_pending ?q); good = takeWhile (holds ?rows) reached
       in Some (if length good < length reached then predict_refute (confirm_all now good ?q)
                else predict_expire (confirm_all now reached ?q) now))"
    proof (rule judge_result)
      show "guesses_at r c0 (pp_cols ?q) (pp_pending ?q)" using g by simp
      show "row_char_at pl k \<noteq> None" if "delivered ?rows r = Some pl" for pl k
        using that fits [of k] unfolding delivered_def by simp
    qed simp
    then show ?thesis unfolding reconcile_def f prod.case Let_def by simp
  qed
  have holds: "holds ?rows x \<longleftrightarrow> cell_ch (row_cells h ! pd_col x) = pd_ch x" if "x \<in> set ?reached" for x
  proof -
    have "x \<in> set (pp_pending p)" by (rule set_takeWhileD [OF that, THEN conjunct1])
    then obtain i where "i < length (pp_pending p)" "x = pp_pending p ! i" unfolding in_set_conv_nth by blast
    then have "pd_row x = r" "pd_col x < pp_cols p" using guesses_nth [OF g] by simp_all
    then show ?thesis using ch by (auto simp: holds_def delivered_def)
  qed
  have good: "length (takeWhile (holds ?rows) ?reached) < length ?reached \<longleftrightarrow>
      \<not> (\<forall>x \<in> set ?reached. cell_ch (row_cells h ! pd_col x) = pd_ch x)"
    unfolding takeWhile_short using holds by blast
  show ?thesis
  proof (cases "\<forall>x \<in> set ?reached. cell_ch (row_cells h ! pd_col x) = pd_ch x")
    case True
    then have "\<not> length (takeWhile (holds ?rows) ?reached) < length ?reached" using good by blast
    then have "reconcile p d now = Some (predict_expire (confirm_all now ?reached ?q) now)"
      using j unfolding Let_def by (simp only: if_False)
    then show ?thesis unfolding Let_def if_P [OF True] .
  next
    case False
    then have "length (takeWhile (holds ?rows) ?reached) < length ?reached" using good by blast
    then have "reconcile p d now = Some (predict_refute (confirm_all now (takeWhile (holds ?rows) ?reached) ?q))"
      using j unfolding Let_def by (simp only: if_True)
    moreover have "overlay (predict_refute x) = [] \<and> pp_pending (predict_refute x) = [] \<and> pp_quiet (predict_refute x)" for x
      by (simp add: overlay_def predict_refute_def)
    ultimately show ?thesis unfolding Let_def if_not_P [OF False] by blast
  qed
qed

theorem predictions_judged_by_screen_witness:
  "\<exists>q. reconcile demo_predictor demo_echo_delta 65 = Some (predict_expire q 65) \<and> pp_pending q = []"
proof -
  let ?c = "\<lparr>cu_row = 2, cu_col = 1, cu_visible = True, cu_shape = 0\<rparr>"
  have "list_all spacer_ok (row_cells demo_echo)" "length (row_cells demo_echo) = 3"
    by (simp_all add: demo_echo_def spacer_ok_def has_flag_def flag_contains_def default_cell_def cf_defs)
  then show ?thesis
    using predictions_judged_by_screen [OF demo_predictor_ok, of 2 demo_echo demo_echo_delta encoder_new ?c 65]
    by (auto simp: demo_predictor_eq demo_echo_delta_def U16_MAX_def passed_def demo_echo_def Let_def)
qed

end
