(* ===== verification/Input.thy ===== *)
theory Input
  imports Perform Selection
begin

text \<open>
  What the keyboard and the mouse send to a program (\<open>crates/zest-input/src/key.rs\<close>, \<open>mouse.rs\<close>), click
  counting (\<open>select.rs\<close>) and composition (\<open>ime.rs\<close>).  The keys are those of the windowing library the
  code names, and one for all others; the case table is the parameter \<open>lower\<close>.
\<close>

section \<open>Keys and modifiers\<close>

record modifiers =
  md_shift :: bool
  md_alt :: bool
  md_control :: bool
  md_super :: bool

datatype named_key =
    NkEnter | NkTab | NkBackspace | NkSpace | NkEscape
  | NkArrowUp | NkArrowDown | NkArrowRight | NkArrowLeft | NkHome | NkEnd
  | NkPageUp | NkPageDown | NkInsert | NkDelete
  | NkF1 | NkF2 | NkF3 | NkF4 | NkF5 | NkF6 | NkF7 | NkF8 | NkF9 | NkF10 | NkF11 | NkF12
  | NkShift | NkControl | NkAlt | NkCapsLock | NkNumLock
  | NkOther

datatype key = KeyNamed named_key | KeyCharacter ustring | KeyOther

datatype key_location = LocStandard | LocLeft | LocRight | LocNumpad

datatype event_type = EvPress | EvRepeat | EvRelease

definition belongs_to_desktop :: "modifiers \<Rightarrow> bool" where
  "belongs_to_desktop m = md_super m"

definition is_clipboard_chord :: "modifiers \<Rightarrow> bool" where
  "is_clipboard_chord m \<longleftrightarrow> md_super m \<or> (md_control m \<and> md_shift m)"

text \<open>\<open>EventType::of\<close>, from whether the key is down and whether the system repeats it.\<close>

definition event_of :: "bool \<Rightarrow> bool \<Rightarrow> event_type" where
  "event_of pressed again = (if \<not> pressed then EvRelease else if again then EvRepeat else EvPress)"

fun event_param :: "event_type \<Rightarrow> nat" where
  "event_param EvPress = 1"
| "event_param EvRepeat = 2"
| "event_param EvRelease = 3"

definition modifier_param :: "modifiers \<Rightarrow> nat" where
  "modifier_param m =
     (if md_shift m then 1 else 0) + (if md_alt m then 2 else 0) + (if md_control m then 4 else 0) + 1"

section \<open>The pieces of a sequence\<close>

definition ESC :: ustring where "ESC = [0x1b]"

definition CSI :: ustring where "CSI = ESC @ lit ''[''"

text \<open>Formatted text is ASCII: its bytes are its characters.\<close>

definition kitty_params :: "modifiers \<Rightarrow> event_type \<Rightarrow> bool \<Rightarrow> ustring option" where
  "kitty_params m ev event_types =
     (let p = modifier_param m; e = event_param ev
      in if event_types \<and> e \<noteq> 1 then Some (dec_digits p @ lit '':'' @ dec_digits e)
         else if p \<noteq> 1 then Some (dec_digits p)
         else None)"

definition kitty_u :: "nat \<Rightarrow> modifiers \<Rightarrow> event_type \<Rightarrow> bool \<Rightarrow> byte list" where
  "kitty_u number m ev event_types =
     (case kitty_params m ev event_types of
        Some p \<Rightarrow> bytes (CSI @ dec_digits number @ lit '';'' @ p @ lit ''u'')
      | None \<Rightarrow> bytes (CSI @ dec_digits number @ lit ''u''))"

definition kitty_letter :: "uchar \<Rightarrow> modifiers \<Rightarrow> event_type \<Rightarrow> bool \<Rightarrow> byte list" where
  "kitty_letter f m ev event_types =
     (case kitty_params m ev event_types of
        Some p \<Rightarrow> bytes (CSI @ lit ''1;'' @ p @ [f])
      | None \<Rightarrow> bytes (CSI @ [f]))"

definition kitty_tilde :: "nat \<Rightarrow> modifiers \<Rightarrow> event_type \<Rightarrow> bool \<Rightarrow> byte list" where
  "kitty_tilde n m ev event_types =
     (case kitty_params m ev event_types of
        Some p \<Rightarrow> bytes (CSI @ dec_digits n @ lit '';'' @ p @ lit ''~'')
      | None \<Rightarrow> bytes (CSI @ dec_digits n @ lit ''~''))"

fun legacy_byte :: "named_key \<Rightarrow> (nat \<times> byte list) option" where
  "legacy_byte NkEnter = Some (13, [13])"
| "legacy_byte NkTab = Some (9, [9])"
| "legacy_byte NkBackspace = Some (127, [127])"
| "legacy_byte NkSpace = Some (32, [32])"
| "legacy_byte _ = None"

fun csi_letter :: "named_key \<Rightarrow> uchar option" where
  "csi_letter NkArrowUp = Some (of_char CHR ''A'')"
| "csi_letter NkArrowDown = Some (of_char CHR ''B'')"
| "csi_letter NkArrowRight = Some (of_char CHR ''C'')"
| "csi_letter NkArrowLeft = Some (of_char CHR ''D'')"
| "csi_letter NkHome = Some (of_char CHR ''H'')"
| "csi_letter NkEnd = Some (of_char CHR ''F'')"
| "csi_letter _ = None"

fun tilde_number :: "named_key \<Rightarrow> nat option" where
  "tilde_number NkInsert = Some 2"
| "tilde_number NkDelete = Some 3"
| "tilde_number NkPageUp = Some 5"
| "tilde_number NkPageDown = Some 6"
| "tilde_number NkF1 = Some 11"
| "tilde_number NkF2 = Some 12"
| "tilde_number NkF3 = Some 13"
| "tilde_number NkF4 = Some 14"
| "tilde_number NkF5 = Some 15"
| "tilde_number NkF6 = Some 17"
| "tilde_number NkF7 = Some 18"
| "tilde_number NkF8 = Some 19"
| "tilde_number NkF9 = Some 20"
| "tilde_number NkF10 = Some 21"
| "tilde_number NkF11 = Some 23"
| "tilde_number NkF12 = Some 24"
| "tilde_number _ = None"

definition modifier_key_number :: "named_key \<Rightarrow> key_location \<Rightarrow> nat option" where
  "modifier_key_number k loc =
     (let right = (loc = LocRight)
      in case k of
           NkShift \<Rightarrow> Some (if right then 57447 else 57441)
         | NkControl \<Rightarrow> Some (if right then 57448 else 57442)
         | NkAlt \<Rightarrow> Some (if right then 57449 else 57443)
         | NkCapsLock \<Rightarrow> Some 57358
         | NkNumLock \<Rightarrow> Some 57360
         | _ \<Rightarrow> None)"

section \<open>Text\<close>

definition to_ascii_lowercase :: "uchar \<Rightarrow> uchar" where
  "to_ascii_lowercase c = (if 65 \<le> c \<and> c \<le> 90 then c + 32 else c)"

text \<open>\<open>finish\<close>: Alt is a leading escape.\<close>

definition key_finish :: "byte list \<Rightarrow> bool \<Rightarrow> byte list option" where
  "key_finish bs alt = (if bs = [] then None else if alt then Some (0x1b # bs) else Some bs)"

definition control_code :: "uchar \<Rightarrow> byte option" where
  "control_code c0 =
     (let c = to_ascii_lowercase c0
      in if 97 \<le> c \<and> c \<le> 122 then Some (of_nat (c - 97 + 1))
         else if c = of_char CHR ''@'' \<or> c = space then Some 0
         else if c = of_char CHR ''['' then Some 0x1b
         else if c = 92 then Some 0x1c
         else if c = of_char CHR '']'' then Some 0x1d
         else if c = of_char CHR ''^'' then Some 0x1e
         else if c = of_char CHR ''_'' \<or> c = of_char CHR ''?'' then Some 0x1f
         else None)"

definition encode_text :: "ustring \<Rightarrow> bool \<Rightarrow> bool \<Rightarrow> byte list option" where
  "encode_text t ctrl alt =
     (if ctrl
      then (case t of
              [] \<Rightarrow> None
            | c0 # _ \<Rightarrow>
                (case control_code c0 of
                   None \<Rightarrow> key_finish (utf8_encode t) alt
                 | Some code \<Rightarrow> key_finish [code] alt))
      else key_finish (utf8_encode t) alt)"

section \<open>Before CSI u\<close>

definition with_mods :: "ustring \<Rightarrow> uchar \<Rightarrow> modifiers \<Rightarrow> byte list" where
  "with_mods prefix f m =
     (let p = modifier_param m
      in if p = 1 then bytes (prefix @ [f]) else bytes (CSI @ lit ''1;'' @ dec_digits p @ [f]))"

definition key_tilde :: "nat \<Rightarrow> modifiers \<Rightarrow> byte list" where
  "key_tilde n m =
     (let p = modifier_param m
      in if p = 1 then bytes (CSI @ dec_digits n @ lit ''~'')
         else bytes (CSI @ dec_digits n @ lit '';'' @ dec_digits p @ lit ''~''))"

definition ss3_or_tilde :: "uchar \<Rightarrow> nat \<Rightarrow> modifiers \<Rightarrow> byte list" where
  "ss3_or_tilde ss3 n m = (if modifier_param m = 1 then bytes (ESC @ lit ''O'' @ [ss3]) else key_tilde n m)"

definition encode_legacy_named :: "named_key \<Rightarrow> modifiers \<Rightarrow> modes \<Rightarrow> byte list option" where
  "encode_legacy_named k m modes =
     (let ctrl = md_control m; alt = md_alt m; shift = md_shift m;
          cursor = (if flag_contains modes M_APP_CURSOR then ESC @ lit ''O'' else CSI)
      in case k of
           NkEnter \<Rightarrow> key_finish [13] alt
         | NkTab \<Rightarrow>
             if ctrl then Some (bytes (CSI @ lit ''9;'' @ dec_digits (modifier_param m) @ lit ''u''))
             else key_finish (if shift then bytes (CSI @ lit ''Z'') else [9]) alt
         | NkBackspace \<Rightarrow> key_finish [if ctrl then 0x08 else 0x7f] alt
         | NkEscape \<Rightarrow> key_finish [0x1b] alt
         | NkArrowUp \<Rightarrow> Some (with_mods cursor (of_char CHR ''A'') m)
         | NkArrowDown \<Rightarrow> Some (with_mods cursor (of_char CHR ''B'') m)
         | NkArrowRight \<Rightarrow> Some (with_mods cursor (of_char CHR ''C'') m)
         | NkArrowLeft \<Rightarrow> Some (with_mods cursor (of_char CHR ''D'') m)
         | NkHome \<Rightarrow> Some (with_mods cursor (of_char CHR ''H'') m)
         | NkEnd \<Rightarrow> Some (with_mods cursor (of_char CHR ''F'') m)
         | NkPageUp \<Rightarrow> Some (key_tilde 5 m)
         | NkPageDown \<Rightarrow> Some (key_tilde 6 m)
         | NkInsert \<Rightarrow> Some (key_tilde 2 m)
         | NkDelete \<Rightarrow> Some (key_tilde 3 m)
         | NkF1 \<Rightarrow> Some (ss3_or_tilde (of_char CHR ''P'') 11 m)
         | NkF2 \<Rightarrow> Some (ss3_or_tilde (of_char CHR ''Q'') 12 m)
         | NkF3 \<Rightarrow> Some (ss3_or_tilde (of_char CHR ''R'') 13 m)
         | NkF4 \<Rightarrow> Some (ss3_or_tilde (of_char CHR ''S'') 14 m)
         | NkF5 \<Rightarrow> Some (key_tilde 15 m)
         | NkF6 \<Rightarrow> Some (key_tilde 17 m)
         | NkF7 \<Rightarrow> Some (key_tilde 18 m)
         | NkF8 \<Rightarrow> Some (key_tilde 19 m)
         | NkF9 \<Rightarrow> Some (key_tilde 20 m)
         | NkF10 \<Rightarrow> Some (key_tilde 21 m)
         | NkF11 \<Rightarrow> Some (key_tilde 23 m)
         | NkF12 \<Rightarrow> Some (key_tilde 24 m)
         | NkSpace \<Rightarrow> encode_text [space] ctrl alt
         | _ \<Rightarrow> None)"

definition encode_legacy :: "key \<Rightarrow> modifiers \<Rightarrow> modes \<Rightarrow> byte list option" where
  "encode_legacy k m modes =
     (case k of
        KeyNamed n \<Rightarrow> encode_legacy_named n m modes
      | KeyCharacter t \<Rightarrow> encode_text t (md_control m) (md_alt m)
      | KeyOther \<Rightarrow> None)"

section \<open>The Kitty protocol\<close>

definition encode_kitty_named :: "named_key \<Rightarrow> key_location \<Rightarrow> modifiers \<Rightarrow> event_type \<Rightarrow> bool \<Rightarrow> bool \<Rightarrow> byte list option" where
  "encode_kitty_named k loc m ev report_all event_types =
     (if k = NkEscape then Some (kitty_u 27 m ev event_types)
      else case legacy_byte k of
        Some (number, legacy) \<Rightarrow>
          let plain = (modifier_param m = 1 \<and> \<not> (event_types \<and> event_param ev \<noteq> 1))
          in Some (if report_all \<or> \<not> plain then kitty_u number m ev event_types else legacy)
      | None \<Rightarrow>
          (case csi_letter k of
             Some l \<Rightarrow> Some (kitty_letter l m ev event_types)
           | None \<Rightarrow>
               (case tilde_number k of
                  Some n \<Rightarrow> Some (kitty_tilde n m ev event_types)
                | None \<Rightarrow>
                    if report_all
                    then map_option (\<lambda>n. kitty_u n m ev event_types) (modifier_key_number k loc)
                    else None)))"

definition encode_kitty_text :: "(uchar \<Rightarrow> uchar list) \<Rightarrow> ustring \<Rightarrow> modifiers \<Rightarrow> event_type \<Rightarrow> bool \<Rightarrow> bool \<Rightarrow> byte list option" where
  "encode_kitty_text lower t m ev report_all event_types =
     (case t of
        [] \<Rightarrow> None
      | c0 # _ \<Rightarrow>
          let number = (case lower c0 of [] \<Rightarrow> c0 | c # _ \<Rightarrow> c);
              ambiguous = md_control m \<or> md_alt m
          in if report_all \<or> ambiguous then Some (kitty_u number m ev event_types)
             else if ev = EvRelease then None
             else encode_text t False False)"

definition encode_kitty :: "(uchar \<Rightarrow> uchar list) \<Rightarrow> key \<Rightarrow> key_location \<Rightarrow> modifiers \<Rightarrow> event_type \<Rightarrow> byte \<Rightarrow> byte list option" where
  "encode_kitty lower k loc m ev flags =
     (let event_types = (flags AND 2 \<noteq> 0); report_all = (flags AND 8 \<noteq> 0)
      in if \<not> event_types \<and> ev = EvRelease then None
         else case k of
                KeyNamed n \<Rightarrow> encode_kitty_named n loc m ev report_all event_types
              | KeyCharacter t \<Rightarrow> encode_kitty_text lower t m ev report_all event_types
              | KeyOther \<Rightarrow> None)"

definition encode_key :: "(uchar \<Rightarrow> uchar list) \<Rightarrow> key \<Rightarrow> key_location \<Rightarrow> modifiers \<Rightarrow> event_type \<Rightarrow> modes \<Rightarrow> byte list option" where
  "encode_key lower k loc m ev modes =
     (if belongs_to_desktop m then None
      else let flags = kitty_flags_of modes
           in if flags \<noteq> 0 then encode_kitty lower k loc m ev flags
              else if ev = EvRelease then None
              else encode_legacy k m modes)"

definition encode_press :: "(uchar \<Rightarrow> uchar list) \<Rightarrow> key \<Rightarrow> key_location \<Rightarrow> modifiers \<Rightarrow> modes \<Rightarrow> byte list option" where
  "encode_press lower k loc m modes = encode_key lower k loc m EvPress modes"

section \<open>The mouse\<close>

datatype mouse_button = MbLeft | MbMiddle | MbRight | MbWheelUp | MbWheelDown

fun button_number :: "mouse_button \<Rightarrow> 32 word" where
  "button_number MbLeft = 0"
| "button_number MbMiddle = 1"
| "button_number MbRight = 2"
| "button_number MbWheelUp = 64"
| "button_number MbWheelDown = 65"

datatype mouse_action = MaPress | MaRelease | MaDrag | MaMotion

definition mouse_code :: "mouse_button \<Rightarrow> mouse_action \<Rightarrow> modifiers \<Rightarrow> 32 word" where
  "mouse_code b a m =
     (let code = button_number b;
          code = (if md_shift m then code OR 4 else code);
          code = (if md_alt m then code OR 8 else code);
          code = (if md_control m then code OR 16 else code)
      in if a = MaDrag \<or> a = MaMotion then code OR 32 else code)"

definition encode_mouse :: "mouse_button \<Rightarrow> mouse_action \<Rightarrow> nat \<Rightarrow> nat \<Rightarrow> modifiers \<Rightarrow> modes \<Rightarrow> byte list option" where
  "encode_mouse b a row col m modes =
     (if \<not> mouse_enabled modes then None
      else if a = MaDrag \<and> \<not> flag_intersects modes (M_MOUSE_DRAG OR M_MOUSE_MOTION) then None
      else if a = MaMotion \<and> \<not> flag_contains modes M_MOUSE_MOTION then None
      else if \<not> flag_contains modes M_MOUSE_SGR then None
      else Some (bytes (CSI @ lit ''<'' @ dec_digits (unat (mouse_code b a m)) @ lit '';'' @ dec_digits (col + 1) @ lit '';'' @
             dec_digits (row + 1) @ (if a = MaRelease then lit ''m'' else lit ''M''))))"

section \<open>Clicks\<close>

definition MULTI_CLICK_INTERVAL :: nat where "MULTI_CLICK_INTERVAL = 500 * 10 ^ 6"

definition MULTI_CLICK_DISTANCE :: nat where "MULTI_CLICK_DISTANCE = 1"

record mouse_state =
  ms_last_click :: "(nat \<times> nat \<times> nat) option"
  ms_click_count :: nat
  ms_dragging :: bool

definition mouse_state_new :: mouse_state where
  "mouse_state_new = \<lparr>ms_last_click = None, ms_click_count = 0, ms_dragging = False\<rparr>"

definition abs_diff :: "nat \<Rightarrow> nat \<Rightarrow> nat" where
  "abs_diff a b = (if a < b then b - a else a - b)"

text \<open>\<open>now\<close> is the monotonic clock, in nanoseconds.\<close>

definition mouse_press :: "mouse_state \<Rightarrow> nat \<Rightarrow> nat \<Rightarrow> nat \<Rightarrow> selection_mode \<times> mouse_state" where
  "mouse_press s row col now =
     (let consecutive = (case ms_last_click s of
            None \<Rightarrow> False
          | Some (t, r, c) \<Rightarrow> now - t < MULTI_CLICK_INTERVAL \<and> abs_diff r row \<le> MULTI_CLICK_DISTANCE \<and>
              abs_diff c col \<le> MULTI_CLICK_DISTANCE);
          n = (if consecutive then ms_click_count s mod 3 + 1 else 1)
      in (if n = 2 then Word else if n = 3 then Line else Simple,
          \<lparr>ms_last_click = Some (now, row, col), ms_click_count = n, ms_dragging = True\<rparr>))"

definition mouse_release :: "mouse_state \<Rightarrow> mouse_state" where
  "mouse_release s = s\<lparr>ms_dragging := False\<rparr>"

text \<open>\<open>begin\<close>: the selection a press starts.\<close>

definition select_begin :: "grid \<Rightarrow> abs_pos \<Rightarrow> selection_mode \<Rightarrow> bool \<Rightarrow> selection" where
  "select_begin g pos mode block =
     (let mode = (if block then Block else mode)
      in case mode of
           Word \<Rightarrow> (case word_at g pos of (start, end') \<Rightarrow> \<lparr>sel_anchor = start, sel_head = end', sel_mode = Word\<rparr>)
         | Line \<Rightarrow> \<lparr>sel_anchor = pos, sel_head = pos, sel_mode = Line\<rparr>
         | m \<Rightarrow> selection_new pos m)"

section \<open>Composition\<close>

record preedit =
  pe_text :: ustring
  pe_cursor :: "(nat \<times> nat) option"

record ime =
  im_enabled :: bool
  im_preedit :: "preedit option"

definition ime_new :: ime where "ime_new = \<lparr>im_enabled = False, im_preedit = None\<rparr>"

definition ime_enable :: "ime \<Rightarrow> ime" where "ime_enable i = i\<lparr>im_enabled := True\<rparr>"

definition ime_disable :: "ime \<Rightarrow> ime" where "ime_disable i = i\<lparr>im_enabled := False, im_preedit := None\<rparr>"

definition set_preedit :: "ime \<Rightarrow> ustring \<Rightarrow> (nat \<times> nat) option \<Rightarrow> ime" where
  "set_preedit i t c = i\<lparr>im_preedit := (if t = [] then None else Some \<lparr>pe_text = t, pe_cursor = c\<rparr>)\<rparr>"

definition ime_commit :: "ime \<Rightarrow> ime" where "ime_commit i = i\<lparr>im_preedit := None\<rparr>"

definition composing :: "ime \<Rightarrow> bool" where "composing i \<longleftrightarrow> im_preedit i \<noteq> None"

text \<open>\<open>width\<close> is the table of character widths, \<open>None\<close> for a control character.\<close>

definition preedit_width :: "(uchar \<Rightarrow> nat option) \<Rightarrow> ustring \<Rightarrow> nat" where
  "preedit_width width t = sum_list (map (\<lambda>c. case width c of None \<Rightarrow> 0 | Some w \<Rightarrow> w) t)"

definition width_cells :: "(uchar \<Rightarrow> nat option) \<Rightarrow> ime \<Rightarrow> nat" where
  "width_cells width i = (case im_preedit i of None \<Rightarrow> 0 | Some p \<Rightarrow> preedit_width width (pe_text p))"

end
