(* ===== verification/InputSpec.thy ===== *)
theory InputSpec
  imports Input OscSpec Utf8
begin

text \<open>
  What a program can tell: under the Kitty protocol different keys and modifiers send different bytes, and
  so do different mouse events in the SGR form.
\<close>

section \<open>Sequences of digits\<close>

lemma digits_split:
  assumes "list_all is_ascii_digit a" "list_all is_ascii_digit b" "a @ x = b @ y"
    and "x = [] \<or> \<not> is_ascii_digit (hd x)" "y = [] \<or> \<not> is_ascii_digit (hd y)"
  shows "a = b \<and> x = y"
proof -
  have t: "takeWhile is_ascii_digit (u @ v) = u" if "list_all is_ascii_digit u" "v = [] \<or> \<not> is_ascii_digit (hd v)" for u v
  proof -
    have "takeWhile is_ascii_digit (u @ v) = u @ takeWhile is_ascii_digit v"
      by (rule takeWhile_append2) (use that(1) in \<open>simp add: list_all_iff\<close>)
    then show ?thesis using that(2) by (cases v) auto
  qed
  have "a = b" using t [OF assms(1,4)] t [OF assms(2,5)] assms(3) by simp
  then show ?thesis using assms(3) by simp
qed

lemma dec_digits_inj: "dec_digits m = dec_digits n \<Longrightarrow> m = n"
  using parse_dec_digits [OF max.cobounded1, of m n] parse_dec_digits [OF max.cobounded2, of m n] by (metis option.inject)

lemma dec_digits_split:
  fixes c d :: uchar
  assumes "dec_digits m @ c # x = dec_digits n @ d # y" "\<not> is_ascii_digit c" "\<not> is_ascii_digit d"
  shows "m = n \<and> c = d \<and> x = y"
  using digits_split [OF dec_digits_ascii dec_digits_ascii assms(1)] assms(2,3) dec_digits_inj by simp

lemma bytes_inj: "bytes x = bytes y \<Longrightarrow> list_all (\<lambda>c. c < 256) x \<Longrightarrow> list_all (\<lambda>c. c < 256) y \<Longrightarrow> x = y"
proof (induction x arbitrary: y)
  case (Cons c x)
  then obtain d y' where y: "y = d # y'" "(of_nat c :: byte) = of_nat d" "bytes x = bytes y'" by (cases y) (auto simp: bytes_def)
  have "c < 256" "d < 256" using Cons.prems y(1) by simp_all
  then have "c = d" using unat_byte [of c] unat_byte [of d] y(2) by metis
  then show ?case using Cons y by simp
qed (simp add: bytes_def)

lemma digit_small: "list_all (\<lambda>c. c < 256) (dec_digits n)"
  using dec_digits_ascii [of n] by (auto simp: list_all_iff is_ascii_digit_def)

section \<open>The forms of a key\<close>

definition csi_form :: "nat option \<Rightarrow> ustring option \<Rightarrow> uchar \<Rightarrow> ustring" where
  "csi_form n p f = CSI @ (case n of None \<Rightarrow> [] | Some k \<Rightarrow> dec_digits k) @ (case p of None \<Rightarrow> [] | Some q \<Rightarrow> 59 # q) @ [f]"

lemma csi_form_inj:
  assumes "csi_form n p f = csi_form n' p' f'" "\<not> is_ascii_digit f" "\<not> is_ascii_digit f'" "f \<noteq> 59" "f' \<noteq> 59"
  shows "n = n' \<and> p = p' \<and> f = f'"
proof -
  let ?d = "\<lambda>n. case n of None \<Rightarrow> [] | Some k \<Rightarrow> dec_digits k" and ?q = "\<lambda>p. case p of None \<Rightarrow> [] | Some q \<Rightarrow> (59 :: nat) # q"
  have e: "(?d n @ ?q p) @ [f] = (?d n' @ ?q p') @ [f']" using assms(1) by (simp add: csi_form_def)
  then have f: "f = f'" "?d n @ ?q p = ?d n' @ ?q p'" by simp_all
  have d: "list_all is_ascii_digit (?d n)" for n using dec_digits_ascii by (simp split: option.split)
  have q: "?q p = [] \<or> \<not> is_ascii_digit (hd (?q p))" for p by (simp add: is_ascii_digit_def split: option.split)
  have dq: "?d n = ?d n'" "?q p = ?q p'" using digits_split [OF d d f(2) q q] by simp_all
  have ne: "[] \<noteq> dec_digits k" for k using dec_digits_ne by metis
  have "n = n'" using dq(1) dec_digits_inj ne by (auto split: option.splits)
  moreover have "p = p'" using dq(2) by (auto split: option.splits)
  ultimately show ?thesis using f(1) by simp
qed

lemma modifier_param_bound: "1 \<le> modifier_param m \<and> modifier_param m \<le> 8"
  by (simp add: modifier_param_def)

lemma modifier_param_inj:
  "modifier_param m = modifier_param m' \<Longrightarrow> md_shift m = md_shift m' \<and> md_alt m = md_alt m' \<and> md_control m = md_control m'"
  by (auto simp: modifier_param_def split: if_splits)

lemma one_digit: "n < 10 \<Longrightarrow> dec_digits n = [48 + n]"
  by (simp add: dec_digits.simps)

lemma event_param_bound: "1 \<le> event_param ev \<and> event_param ev \<le> 3"
  by (cases ev) simp_all

lemma event_param_inj: "event_param ev = event_param ev' \<Longrightarrow> ev = ev'"
  by (cases ev; cases ev') simp_all

lemma kitty_params_eq:
  "kitty_params m ev et =
     (if et \<and> event_param ev \<noteq> 1 then Some [48 + modifier_param m, 58, 48 + event_param ev]
      else if modifier_param m \<noteq> 1 then Some [48 + modifier_param m] else None)"
proof -
  have "dec_digits (modifier_param m) = [48 + modifier_param m]" "dec_digits (event_param ev) = [48 + event_param ev]"
    using one_digit modifier_param_bound [of m] event_param_bound [of ev] by simp_all
  then show ?thesis by (simp add: kitty_params_def Let_def lit_def)
qed

text \<open>What the parameters say.\<close>

definition same_chord :: "modifiers \<Rightarrow> event_type \<Rightarrow> modifiers \<Rightarrow> event_type \<Rightarrow> bool \<Rightarrow> bool" where
  "same_chord m ev m' ev' et \<longleftrightarrow>
     md_shift m = md_shift m' \<and> md_alt m = md_alt m' \<and> md_control m = md_control m' \<and> (et \<longrightarrow> ev = ev')"

lemma params_inj:
  assumes "(if et \<and> e \<noteq> 1 then Some [48 + p, 58, 48 + e] else if p \<noteq> 1 then Some [48 + p] else None) =
      (if et \<and> e' \<noteq> 1 then Some [48 + p', 58, 48 + e'] else if p' \<noteq> 1 then Some [48 + p'] else None)"
  shows "p = p' \<and> (et \<longrightarrow> e = (e' :: nat))"
  using assms by (cases "et \<and> e \<noteq> 1"; cases "et \<and> e' \<noteq> 1"; cases "p = 1"; cases "p' = 1") auto

lemma kitty_params_inj: "kitty_params m ev et = kitty_params m' ev' et \<Longrightarrow> same_chord m ev m' ev' et"
  using params_inj [of et "event_param ev" "modifier_param m" "event_param ev'" "modifier_param m'"]
    modifier_param_inj [of m m'] event_param_inj [of ev ev']
  unfolding kitty_params_eq same_chord_def by blast

lemma kitty_params_bytes: "kitty_params m ev et = Some p \<Longrightarrow> list_all (\<lambda>c. c < 256) p"
  using modifier_param_bound [of m] event_param_bound [of ev] by (auto simp: kitty_params_eq split: if_splits)

lemma csi_form_bytes: "f < 256 \<Longrightarrow> list_all (\<lambda>c. c < 256) (csi_form n (kitty_params m ev et) f)"
  using kitty_params_bytes [of m ev et] digit_small by (auto simp: csi_form_def CSI_def ESC_def lit_def split: option.split)

text \<open>The sign a key is reported under: a number or none, and the final byte.\<close>

definition csi_key :: "nat option \<Rightarrow> uchar \<Rightarrow> modifiers \<Rightarrow> event_type \<Rightarrow> bool \<Rightarrow> byte list" where
  "csi_key n f m ev et = bytes (csi_form n (kitty_params m ev et) f)"

lemma kitty_forms:
  "kitty_u n m ev et = csi_key (Some n) 117 m ev et"
  "kitty_tilde n m ev et = csi_key (Some n) 126 m ev et"
  "kitty_letter f m ev et = csi_key (if kitty_params m ev et = None then None else Some 1) f m ev et"
  using one_digit [of 1]
  by (simp_all add: csi_key_def csi_form_def kitty_u_def kitty_tilde_def kitty_letter_def lit_def split: option.split)

lemma csi_key_inj:
  assumes "csi_key n f m ev et = csi_key n' f' m' ev' et" "f \<in> {64..126}" "f' \<in> {64..126}"
  shows "n = n' \<and> f = f' \<and> same_chord m ev m' ev' et"
proof -
  have "csi_form n (kitty_params m ev et) f = csi_form n' (kitty_params m' ev' et) f'"
    by (rule bytes_inj) (use assms csi_form_bytes in \<open>auto simp: csi_key_def\<close>)
  then show ?thesis using csi_form_inj [of n _ f n' _ f'] kitty_params_inj assms(2,3) by (auto simp: is_ascii_digit_def)
qed

lemma csi_key_not_text: "hd (csi_key n f m ev et) = 27" "csi_key n f m ev et \<noteq> []" "length (csi_key n f m ev et) \<ge> 3"
  by (simp_all add: csi_key_def csi_form_def CSI_def ESC_def bytes_def lit_def)

section \<open>Different keys, different bytes\<close>

lemma csi_letter_range: "csi_letter k = Some f \<Longrightarrow> f \<in> {65..72}"
  by (cases k) auto

lemma key_numbers:
  "legacy_byte k = Some (n, b) \<Longrightarrow> n \<in> {9, 13, 32, 127} \<and> b = [of_nat n] \<and> csi_letter k = None \<and> tilde_number k = None"
  "modifier_key_number k loc = Some n \<Longrightarrow> 57000 < n \<and> n < 58000"
proof -
  show "legacy_byte k = Some (n, b) \<Longrightarrow> n \<in> {9, 13, 32, 127} \<and> b = [of_nat n] \<and> csi_letter k = None \<and> tilde_number k = None"
    by (cases k) auto
  show "modifier_key_number k loc = Some n \<Longrightarrow> 57000 < n \<and> n < 58000"
    by (cases k) (auto simp: modifier_key_number_def Let_def split: if_splits)
qed

lemma key_tables_inj:
  "legacy_byte k = Some (n, b) \<Longrightarrow> legacy_byte k' = Some (n, b') \<Longrightarrow> k = k'"
  "csi_letter k = Some f \<Longrightarrow> csi_letter k' = Some f \<Longrightarrow> k = k'"
  "tilde_number k = Some n \<Longrightarrow> tilde_number k' = Some n \<Longrightarrow> k = k'"
  "modifier_key_number k loc = Some n \<Longrightarrow> modifier_key_number k' loc' = Some n \<Longrightarrow>
     k = k' \<and> (k \<in> {NkShift, NkControl, NkAlt} \<longrightarrow> (loc = LocRight) = (loc' = LocRight))"
proof -
  show "legacy_byte k = Some (n, b) \<Longrightarrow> legacy_byte k' = Some (n, b') \<Longrightarrow> k = k'"
    by (cases k; simp; cases k'; simp)
  show "csi_letter k = Some f \<Longrightarrow> csi_letter k' = Some f \<Longrightarrow> k = k'"
    by (cases k; simp; cases k'; simp)
  show "tilde_number k = Some n \<Longrightarrow> tilde_number k' = Some n \<Longrightarrow> k = k'"
    by (cases k; simp; cases k'; simp)
  show "modifier_key_number k loc = Some n \<Longrightarrow> modifier_key_number k' loc' = Some n \<Longrightarrow>
     k = k' \<and> (k \<in> {NkShift, NkControl, NkAlt} \<longrightarrow> (loc = LocRight) = (loc' = LocRight))"
    by (cases k; simp add: modifier_key_number_def Let_def split: if_splits; cases k'; simp split: if_splits)
qed

definition u_number :: "named_key \<Rightarrow> key_location \<Rightarrow> nat option" where
  "u_number k loc =
     (if k = NkEscape then Some 27
      else case legacy_byte k of Some (n, _) \<Rightarrow> Some n | None \<Rightarrow> modifier_key_number k loc)"

text \<open>Two named keys, with the side of the keyboard where it is reported.\<close>

definition same_named :: "named_key \<Rightarrow> key_location \<Rightarrow> named_key \<Rightarrow> key_location \<Rightarrow> bool" where
  "same_named k loc k' loc' \<longleftrightarrow> k = k' \<and> (k \<in> {NkShift, NkControl, NkAlt} \<longrightarrow> (loc = LocRight) = (loc' = LocRight))"

lemma u_number_inj: "u_number k loc = Some n \<Longrightarrow> u_number k' loc' = Some n \<Longrightarrow> same_named k loc k' loc'"
  using key_tables_inj(1) [of k n _ k'] key_tables_inj(4) [of k loc n k' loc'] key_numbers(1) [of k n] key_numbers(1) [of k' n]
    key_numbers(2) [of k loc n] key_numbers(2) [of k' loc' n]
  by (auto simp: u_number_def same_named_def split: if_splits option.splits)

text \<open>The four forms of a named key.\<close>

lemma named_forms:
  assumes "encode_kitty_named k loc m ev ra et = Some bs"
  obtains (number) n where "u_number k loc = Some n" "bs = csi_key (Some n) 117 m ev et"
  | (tilde) n where "tilde_number k = Some n" "bs = csi_key (Some n) 126 m ev et"
  | (letter) f n where "csi_letter k = Some f" "bs = csi_key n f m ev et"
  | (plain) n where "legacy_byte k = Some (n, bs)" "bs \<in> {[9], [13], [32], [127]}" "modifier_param m = 1" "et \<longrightarrow> ev = EvPress"
proof (cases "k = NkEscape")
  case True
  then show ?thesis using assms number by (auto simp: encode_kitty_named_def kitty_forms u_number_def)
next
  case False
  show ?thesis
  proof (cases "legacy_byte k")
    case (Some x)
    obtain n b where x: "x = (n, b)" by fastforce
    show ?thesis
    proof (cases "ra \<or> \<not> (modifier_param m = 1 \<and> \<not> (et \<and> event_param ev \<noteq> 1))")
      case True
      then have "bs = kitty_u n m ev et" using assms Some False x by (auto simp: encode_kitty_named_def)
      then show ?thesis using number [of n] Some False x by (simp add: kitty_forms u_number_def)
    next
      case f: False
      then have "bs = b" using assms Some False x by (auto simp: encode_kitty_named_def)
      moreover have "event_param ev = 1 \<Longrightarrow> ev = EvPress" by (cases ev) simp_all
      ultimately show ?thesis using plain [of n] Some f x key_numbers(1) [of k n b] by auto
    qed
  next
    case None
    then show ?thesis using assms False number tilde letter
      by (auto simp: encode_kitty_named_def kitty_forms u_number_def split: option.splits if_splits)
  qed
qed

lemma kitty_named_inj:
  assumes "encode_kitty_named k loc m ev ra et = Some bs" "encode_kitty_named k' loc' m' ev' ra et = Some bs"
  shows "same_named k loc k' loc' \<and> same_chord m ev m' ev' et"
proof -
  have long: "csi_key n f m ev et \<notin> {[9], [13], [32], [127]}" for n f m ev using csi_key_not_text(3) [of n f m ev et] by auto
  have pl: "same_chord m ev m' ev' et" if "modifier_param m = 1" "modifier_param m' = 1" "et \<longrightarrow> ev = EvPress" "et \<longrightarrow> ev' = EvPress"
    using that modifier_param_inj [of m m'] by (auto simp: same_chord_def)
  have named: "same_named k loc k' loc'" if "k = k'" "k \<notin> {NkShift, NkControl, NkAlt}" using that by (simp add: same_named_def)
  note fin = csi_letter_range
  from assms(1) show ?thesis
  proof (cases rule: named_forms)
    case a: (number n)
    from assms(2) show ?thesis
    proof (cases rule: named_forms)
      case b: (number n')
      from csi_key_inj [OF trans [OF a(2) [symmetric] b(2)]] have "n = n'" "same_chord m ev m' ev' et" by simp_all
      then show ?thesis using u_number_inj a(1) b(1) by blast
    next
      case b: (tilde n')
      from csi_key_inj [OF trans [OF a(2) [symmetric] b(2)]] show ?thesis by simp
    next
      case b: (letter f n')
      from csi_key_inj [OF trans [OF a(2) [symmetric] b(2)]] fin [OF b(1)] show ?thesis by auto
    next
      case b: (plain n')
      from long b(2) show ?thesis unfolding a(2) by blast
    qed
  next
    case a: (tilde n)
    from assms(2) show ?thesis
    proof (cases rule: named_forms)
      case b: (number n')
      from csi_key_inj [OF trans [OF a(2) [symmetric] b(2)]] show ?thesis by simp
    next
      case b: (tilde n')
      from csi_key_inj [OF trans [OF a(2) [symmetric] b(2)]] have n: "n = n'" "same_chord m ev m' ev' et" by simp_all
      have "k = k'" using key_tables_inj(3) a(1) b(1) n(1) by blast
      moreover have "k \<notin> {NkShift, NkControl, NkAlt}" using a(1) by auto
      ultimately show ?thesis using n(2) named by blast
    next
      case b: (letter f n')
      from csi_key_inj [OF trans [OF a(2) [symmetric] b(2)]] fin [OF b(1)] show ?thesis by auto
    next
      case b: (plain n')
      from long b(2) show ?thesis unfolding a(2) by blast
    qed
  next
    case a: (letter f n)
    from assms(2) show ?thesis
    proof (cases rule: named_forms)
      case b: (number n')
      from csi_key_inj [OF trans [OF a(2) [symmetric] b(2)]] fin [OF a(1)] show ?thesis by auto
    next
      case b: (tilde n')
      from csi_key_inj [OF trans [OF a(2) [symmetric] b(2)]] fin [OF a(1)] show ?thesis by auto
    next
      case b: (letter f' n')
      from csi_key_inj [OF trans [OF a(2) [symmetric] b(2)]] fin [OF a(1)] fin [OF b(1)]
      have n: "f = f'" "same_chord m ev m' ev' et" by auto
      have "k = k'" using key_tables_inj(2) a(1) b(1) n(1) by blast
      moreover have "k \<notin> {NkShift, NkControl, NkAlt}" using a(1) by auto
      ultimately show ?thesis using n(2) named by blast
    next
      case b: (plain n')
      from long b(2) show ?thesis unfolding a(2) by blast
    qed
  next
    case a: (plain n)
    from assms(2) show ?thesis
    proof (cases rule: named_forms)
      case b: (plain n')
      have "n = n'" using key_numbers(1) [OF a(1)] key_numbers(1) [OF b(1)] by auto
      then have "k = k'" using key_tables_inj(1) a(1) b(1) by blast
      moreover have "k \<notin> {NkShift, NkControl, NkAlt}" using a(1) by auto
      ultimately show ?thesis using named pl [OF a(3) b(3) a(4) b(4)] by blast
    next
      case b: (number n')
      from long a(2) show ?thesis unfolding b(2) by blast
    next
      case b: (tilde n')
      from long a(2) show ?thesis unfolding b(2) by blast
    next
      case b: (letter f n')
      from long a(2) show ?thesis unfolding b(2) by blast
    qed
  qed
qed

text \<open>A text key: a character that is shown, neither a control nor one of the numbers of the function keys.\<close>

definition typed_ok :: "(uchar \<Rightarrow> uchar list) \<Rightarrow> ustring \<Rightarrow> bool" where
  "typed_ok lower t \<longleftrightarrow> t \<noteq> [] \<and> list_all is_scalar t \<and>
     (\<forall>c \<in> {hd t, (case lower (hd t) of [] \<Rightarrow> hd t | d # _ \<Rightarrow> d)}. 32 < c \<and> c \<noteq> 127 \<and> \<not> (57000 < c \<and> c < 58000))"

text \<open>Which key a program is told: a named key with its side, a text key by the character it is reported under.\<close>

definition reported :: "(uchar \<Rightarrow> uchar list) \<Rightarrow> ustring \<Rightarrow> nat" where
  "reported lower t = (case lower (hd t) of [] \<Rightarrow> hd t | d # _ \<Rightarrow> d)"

lemma text_forms:
  assumes "encode_kitty_text lower t m ev ra et = Some bs" "typed_ok lower t"
  obtains (escape) "bs = csi_key (Some (reported lower t)) 117 m ev et" "ra \<or> md_control m \<or> md_alt m"
  | (typed) "bs = utf8_encode t" "\<not> (ra \<or> md_control m \<or> md_alt m)" "ev \<noteq> EvRelease"
proof -
  obtain c s where t: "t = c # s" using assms(2) by (cases t) (auto simp: typed_ok_def)
  show ?thesis
  proof (cases "ra \<or> md_control m \<or> md_alt m")
    case True
    then show ?thesis using assms(1) escape by (cases "lower c") (simp_all add: encode_kitty_text_def t Let_def kitty_forms reported_def)
  next
    case False
    then have "bs = utf8_encode t" "ev \<noteq> EvRelease"
      using assms(1) by (auto simp: encode_kitty_text_def t Let_def encode_text_def key_finish_def split: if_splits)
    then show ?thesis using typed False by blast
  qed
qed

text \<open>Typed text does not begin like a sequence, and is none of the single bytes of the named keys.\<close>

lemma typed_bytes:
  assumes "typed_ok lower t"
  shows "utf8_encode t \<notin> {[9], [13], [32], [127]} \<and> hd (utf8_encode t) \<noteq> 27"
proof -
  obtain c s where t: "t = c # s" using assms by (cases t) (auto simp: typed_ok_def)
  have c: "32 < c" "c \<noteq> 127" "is_scalar c" using assms by (auto simp: typed_ok_def t)
  obtain b r where b: "encode_char c = b # r" using encode_char_nonempty [of c] by (cases "encode_char c") auto
  have u: "utf8_encode t = b # r @ utf8_encode s" using b by (simp add: utf8_encode_def t)
  have "32 < unat b \<and> unat b \<noteq> 127" using encode_char_bytes [OF c(3)] c(1,2) b by (auto split: if_splits)
  then have "b \<notin> {9, 13, 27, 32, 127}" by auto
  then show ?thesis by (simp add: u)
qed

fun same_key :: "(uchar \<Rightarrow> uchar list) \<Rightarrow> key \<Rightarrow> key_location \<Rightarrow> key \<Rightarrow> key_location \<Rightarrow> bool" where
  "same_key lower (KeyNamed k) loc (KeyNamed k') loc' \<longleftrightarrow> same_named k loc k' loc'"
| "same_key lower (KeyCharacter t) loc (KeyCharacter t') loc' \<longleftrightarrow> reported lower t = reported lower t'"
| "same_key lower _ loc _ loc' \<longleftrightarrow> False"

fun is_typed :: "key \<Rightarrow> bool" where
  "is_typed (KeyCharacter t) \<longleftrightarrow> True"
| "is_typed _ \<longleftrightarrow> False"

definition key_ok :: "(uchar \<Rightarrow> uchar list) \<Rightarrow> key \<Rightarrow> bool" where
  "key_ok lower k \<longleftrightarrow> (\<forall>t. k = KeyCharacter t \<longrightarrow> typed_ok lower t)"

lemma text_not_named:
  assumes "encode_kitty_text lower t m ev ra et = Some bs" "typed_ok lower t" "encode_kitty_named k loc m' ev' ra et = Some bs"
  shows False
  using assms(1,2)
proof (cases rule: text_forms)
  case escape
  note r = assms(2) [unfolded typed_ok_def, folded reported_def]
  from assms(3) show ?thesis
  proof (cases rule: named_forms)
    case (number n)
    from csi_key_inj [OF trans [OF escape(1) [symmetric] number(2)]] have "u_number k loc = Some (reported lower t)"
      using number(1) by simp
    then show ?thesis using r key_numbers(1) [of k "reported lower t"] key_numbers(2) [of k loc "reported lower t"]
      by (auto simp: u_number_def split: if_splits option.splits)
  next
    case (tilde n)
    from csi_key_inj [OF trans [OF escape(1) [symmetric] tilde(2)]] show ?thesis by simp
  next
    case (letter f n)
    from csi_key_inj [OF trans [OF escape(1) [symmetric] letter(2)]] csi_letter_range [OF letter(1)] show ?thesis by auto
  next
    case (plain n)
    from csi_key_not_text(3) [of "Some (reported lower t)" 117 m ev et] plain(2) show ?thesis unfolding escape(1) by auto
  qed
next
  case typed
  note n = typed_bytes [OF assms(2), folded typed(1)]
  from assms(3) show ?thesis
  proof (cases rule: named_forms)
    case (number n')
    then show ?thesis using n csi_key_not_text(1) by metis
  next
    case (tilde n')
    then show ?thesis using n csi_key_not_text(1) by metis
  next
    case (letter f n')
    then show ?thesis using n csi_key_not_text(1) by metis
  next
    case (plain n')
    then show ?thesis using n by blast
  qed
qed

lemma kitty_text_inj:
  assumes "encode_kitty_text lower t m ev ra et = Some bs" "encode_kitty_text lower t' m' ev' ra et = Some bs"
    "typed_ok lower t" "typed_ok lower t'"
  shows "reported lower t = reported lower t' \<and>
    (if ra \<or> md_control m \<or> md_alt m then same_chord m ev m' ev' et
     else t = t' \<and> md_control m = md_control m' \<and> md_alt m = md_alt m')"
  using assms(1,3)
proof (cases rule: text_forms)
  case a: escape
  from assms(2,4) show ?thesis
  proof (cases rule: text_forms)
    case b: escape
    from csi_key_inj [OF trans [OF a(1) [symmetric] b(1)]] show ?thesis using a(2) by simp
  next
    case b: typed
    have False using typed_bytes [OF assms(4)] csi_key_not_text(1) unfolding b(1) [symmetric] a(1) by metis
    then show ?thesis ..
  qed
next
  case a: typed
  from assms(2,4) show ?thesis
  proof (cases rule: text_forms)
    case b: escape
    have False using typed_bytes [OF assms(3)] csi_key_not_text(1) unfolding a(1) [symmetric] b(1) by metis
    then show ?thesis ..
  next
    case b: typed
    have "t = t'" using utf8_inj [of t t'] assms(3,4) a(1) b(1) by (simp add: typed_ok_def)
    then show ?thesis using a(2) b(2) by simp
  qed
qed

text \<open>
  C37. Keys are told apart.  A program that pushed any flags of the Kitty protocol gets different bytes for
  different keys, for different modifiers of one key, and with event types for press, repeat and release:
  no named key is mistaken for another or for typed text.  Only what is typed as text keeps its shift to
  itself, for the character already says it.  Typed text is no control character and no private-use character
  that stands for a functional key (\<open>key_ok\<close>).
\<close>

theorem kitty_keys_distinct:
  assumes "encode_kitty lower k loc m ev flags = Some bs" "encode_kitty lower k' loc' m' ev' flags = Some bs"
    and "key_ok lower k" "key_ok lower k'"
  shows "same_key lower k loc k' loc' \<and> md_alt m = md_alt m' \<and> md_control m = md_control m' \<and>
    (if is_typed k \<and> \<not> (md_control m \<or> md_alt m \<or> flags AND 8 \<noteq> 0) then k = k'
     else same_chord m ev m' ev' (flags AND 2 \<noteq> 0))"
proof -
  let ?ra = "flags AND 8 \<noteq> 0" and ?et = "flags AND 2 \<noteq> 0"
  show ?thesis
  proof (cases k; cases k')
    fix n n' assume k: "k = KeyNamed n" "k' = KeyNamed n'"
    have "same_named n loc n' loc' \<and> same_chord m ev m' ev' ?et"
      by (rule kitty_named_inj [of n loc m ev ?ra ?et bs]) (use assms(1,2) k in \<open>simp_all add: encode_kitty_def Let_def split: if_splits\<close>)
    then show ?thesis using k by (simp add: same_chord_def)
  next
    fix t t' assume k: "k = KeyCharacter t" "k' = KeyCharacter t'"
    have "reported lower t = reported lower t' \<and> (if ?ra \<or> md_control m \<or> md_alt m then same_chord m ev m' ev' ?et
       else t = t' \<and> md_control m = md_control m' \<and> md_alt m = md_alt m')"
      by (rule kitty_text_inj [of lower t m ev ?ra ?et bs])
        (use assms k in \<open>simp_all add: encode_kitty_def key_ok_def Let_def split: if_splits\<close>)
    then show ?thesis using k by (cases "?ra \<or> md_control m \<or> md_alt m") (auto simp: same_chord_def)
  next
    fix n t assume k: "k = KeyNamed n" "k' = KeyCharacter t"
    have False
      by (rule text_not_named [of lower t m' ev' ?ra ?et bs n loc m ev])
        (use assms k in \<open>simp_all add: encode_kitty_def key_ok_def Let_def split: if_splits\<close>)
    then show ?thesis ..
  next
    fix t n assume k: "k = KeyCharacter t" "k' = KeyNamed n"
    have False
      by (rule text_not_named [of lower t m ev ?ra ?et bs n loc' m' ev'])
        (use assms k in \<open>simp_all add: encode_kitty_def key_ok_def Let_def split: if_splits\<close>)
    then show ?thesis ..
  qed (use assms(1,2) in \<open>simp_all add: encode_kitty_def Let_def split: if_splits\<close>)
qed

theorem kitty_keys_distinct_witness:
  "encode_kitty (\<lambda>c. [c]) (KeyNamed NkTab) LocStandard \<lparr>md_shift = False, md_alt = False, md_control = False, md_super = False\<rparr> EvPress 1 = Some [9] \<and>
   encode_kitty (\<lambda>c. [c]) (KeyCharacter [105]) LocStandard \<lparr>md_shift = False, md_alt = False, md_control = True, md_super = False\<rparr> EvPress 1 \<noteq> Some [9]"
proof -
  let ?m = "\<lparr>md_shift = False, md_alt = False, md_control = False, md_super = False\<rparr>"
  have t: "encode_kitty (\<lambda>c. [c]) (KeyNamed NkTab) LocStandard ?m EvPress 1 = Some [9]"
    by (simp add: encode_kitty_def encode_kitty_named_def modifier_param_def)
  have "key_ok (\<lambda>c. [c]) (KeyNamed NkTab)" "key_ok (\<lambda>c. [c]) (KeyCharacter [105])"
    by (simp_all add: key_ok_def typed_ok_def is_scalar_def)
  then show ?thesis using t kitty_keys_distinct [OF t, of "KeyCharacter [105]" LocStandard] by auto
qed

section \<open>Different mouse events, different bytes\<close>

lemma mouse_code_reads:
  "mouse_code b a m AND 195 = button_number b"
  "bit (mouse_code b a m) 2 = md_shift m" "bit (mouse_code b a m) 3 = md_alt m" "bit (mouse_code b a m) 4 = md_control m"
  "bit (mouse_code b a m) 5 \<longleftrightarrow> a = MaDrag \<or> a = MaMotion"
  by (cases b; simp add: mouse_code_def Let_def)+

lemma button_number_inj: "button_number b = button_number b' \<Longrightarrow> b = b'"
  by (cases b; cases b') simp_all

text \<open>
  A mouse report says what happened.  Two events that are reported with the same bytes happened in the
  same cell, with the same button and modifiers, and both or neither were releases, and movements: columns
  beyond 223, which the old form could not express, included.
\<close>

theorem mouse_reports_distinct:
  assumes "encode_mouse b a row col m modes = Some bs" "encode_mouse b' a' row' col' m' modes' = Some bs"
  shows "b = b' \<and> row = row' \<and> col = col' \<and> md_shift m = md_shift m' \<and> md_alt m = md_alt m' \<and>
    md_control m = md_control m' \<and> (a = MaRelease \<longleftrightarrow> a' = MaRelease) \<and> (a \<in> {MaDrag, MaMotion} \<longleftrightarrow> a' \<in> {MaDrag, MaMotion})"
proof -
  let ?f = "\<lambda>a. if a = MaRelease then (109 :: nat) else 77"
  let ?t = "\<lambda>b a row col m. dec_digits (unat (mouse_code b a m)) @ 59 # dec_digits (col + 1) @ 59 # dec_digits (row + 1) @ ?f a # []"
  have e: "encode_mouse b a row col m modes = Some bs \<Longrightarrow> bs = bytes (CSI @ 60 # ?t b a row col m)" for b a row col m modes
    by (auto simp: encode_mouse_def lit_def split: if_splits)
  have small: "list_all (\<lambda>c. c < 256) (CSI @ 60 # ?t b a row col m)" for b a row col m
    using digit_small by (simp add: CSI_def ESC_def lit_def)
  have "CSI @ 60 # ?t b a row col m = CSI @ 60 # ?t b' a' row' col' m'"
    by (rule bytes_inj [OF _ small small]) (metis e assms)
  then have t: "?t b a row col m = ?t b' a' row' col' m'" by simp
  have nd: "\<not> is_ascii_digit 59" "\<not> is_ascii_digit (?f a)" for a by (simp_all add: is_ascii_digit_def)
  note s1 = dec_digits_split [OF t nd(1) nd(1)]
  note s2 = dec_digits_split [OF s1 [THEN conjunct2, THEN conjunct2] nd(1) nd(1)]
  note s3 = dec_digits_split [OF s2 [THEN conjunct2, THEN conjunct2] nd(2) nd(2)]
  have "mouse_code b a m = mouse_code b' a' m'" using s1 by (simp add: word_unat_eq_iff)
  then have "b = b'" "md_shift m = md_shift m'" "md_alt m = md_alt m'" "md_control m = md_control m'"
    "(a = MaDrag \<or> a = MaMotion) = (a' = MaDrag \<or> a' = MaMotion)"
    using mouse_code_reads [of b a m] mouse_code_reads [of b' a' m'] button_number_inj by metis+
  then show ?thesis using s2 s3 by (auto split: if_splits)
qed

theorem mouse_reports_distinct_witness:
  "\<exists>bs. encode_mouse MbLeft MaPress 3 300 \<lparr>md_shift = False, md_alt = False, md_control = False, md_super = False\<rparr> (M_MOUSE_CLICK OR M_MOUSE_SGR) = Some bs \<and>
     encode_mouse MbLeft MaPress 3 44 \<lparr>md_shift = False, md_alt = False, md_control = False, md_super = False\<rparr> (M_MOUSE_CLICK OR M_MOUSE_SGR) \<noteq> Some bs"
proof -
  let ?m = "\<lparr>md_shift = False, md_alt = False, md_control = False, md_super = False\<rparr>" and ?s = "M_MOUSE_CLICK OR M_MOUSE_SGR"
  have "\<exists>bs. encode_mouse MbLeft MaPress 3 300 ?m ?s = Some bs"
    by (simp add: encode_mouse_def mouse_enabled_def flag_intersects_def flag_contains_def m_defs)
  then show ?thesis using mouse_reports_distinct [of MbLeft MaPress 3 300 ?m ?s _ MbLeft MaPress 3 44 ?m ?s] by fastforce
qed

end
