(* ===== verification/OrdMap.thy ===== *)
theory OrdMap
  imports Prelude "HOL-Library.List_Lexorder" "HOL-Library.Product_Lexorder"
begin

text \<open>
  \<open>BTreeMap\<close> as an association list in the order of its keys, and \<open>min_by_key\<close>.  Strings are compared by
  their characters, which for UTF-8 is the order of their bytes.
\<close>

fun bt_put :: "'k::linorder \<Rightarrow> 'v \<Rightarrow> ('k \<times> 'v) list \<Rightarrow> ('k \<times> 'v) list" where
  "bt_put k v [] = [(k, v)]"
| "bt_put k v ((k', v') # r) =
     (if k = k' then (k, v) # r else if k < k' then (k, v) # (k', v') # r else (k', v') # bt_put k v r)"

definition bt_remove :: "'k \<Rightarrow> ('k \<times> 'v) list \<Rightarrow> ('k \<times> 'v) list" where
  "bt_remove k xs = filter (\<lambda>(k', _). k' \<noteq> k) xs"

abbreviation keys_sorted :: "('k::linorder \<times> 'v) list \<Rightarrow> bool" where
  "keys_sorted xs \<equiv> sorted_wrt (<) (map fst xs)"

text \<open>\<open>min_by_key\<close>: the first of the least.\<close>

fun first_min :: "('a \<Rightarrow> 'k::linorder) \<Rightarrow> 'a list \<Rightarrow> 'a option" where
  "first_min key [] = None"
| "first_min key (x # xs) =
     (case first_min key xs of
        None \<Rightarrow> Some x
      | Some y \<Rightarrow> if key y < key x then Some y else Some x)"

lemma bt_put_keys [simp]: "fst ` set (bt_put k v xs) = insert k (fst ` set xs)"
proof (induction xs)
  case (Cons x xs)
  then show ?case by (cases x) (simp add: insert_commute)
qed simp

lemma bt_put_sorted: "keys_sorted xs \<Longrightarrow> keys_sorted (bt_put k v xs)"
proof (induction xs)
  case (Cons x xs)
  obtain k' v' where x: "x = (k', v')" by fastforce
  have keys: "fst ` set (bt_put k v xs) = insert k (fst ` set xs)" by simp
  show ?case using Cons keys unfolding x by (auto simp: image_iff intro: less_trans)
qed simp

lemma bt_put_map_of: "keys_sorted xs \<Longrightarrow> map_of (bt_put k v xs) = (map_of xs)(k \<mapsto> v)"
proof (induction xs)
  case (Cons x xs)
  obtain k' v' where x: "x = (k', v')" by fastforce
  show ?case using Cons unfolding x by (auto simp: fun_eq_iff)
qed simp

lemma bt_put_set: "set (bt_put k v xs) \<subseteq> insert (k, v) (set xs)"
  by (induction xs) (auto split: if_splits)

lemma sorted_keys_distinct: "keys_sorted xs \<Longrightarrow> distinct (map fst xs)"
  using strict_sorted_iff by blast

lemma bt_remove_map_of: "map_of (bt_remove k xs) = (map_of xs)(k := None)"
  by (induction xs) (auto simp: bt_remove_def fun_eq_iff)

lemma bt_remove_sorted: "keys_sorted xs \<Longrightarrow> keys_sorted (bt_remove k xs)"
  unfolding bt_remove_def by (induction xs) auto

lemma first_min_least: "first_min key xs = Some x \<Longrightarrow> x \<in> set xs \<and> (\<forall>y \<in> set xs. key x \<le> key y)"
proof (induction xs arbitrary: x)
  case (Cons a xs)
  show ?case
  proof (cases "first_min key xs")
    case None
    then have "xs = []" by (cases xs) (auto split: option.splits if_splits)
    then show ?thesis using Cons.prems by simp
  next
    case (Some y)
    from Cons.IH [OF this] show ?thesis using Cons.prems Some by (auto split: if_splits)
  qed
qed simp

lemma first_min_None: "first_min key xs = None \<longleftrightarrow> xs = []"
  by (cases xs) (auto split: option.splits)

end
