(* ===== verification/Roster.thy ===== *)
theory Roster
  imports Identity OrdMap
begin

text \<open>
  Finding the other machines (\<open>crates/zest-mesh/src/discovery.rs\<close>, \<open>discovery/txt.rs\<close>,
  \<open>discovery/roster.rs\<close>, \<open>discovery/layered.rs\<close> and the routes of \<open>lib.rs\<close>): what a host says of itself,
  who is out there, and several sources as one listing.  Instants are nanoseconds of one clock.
\<close>

section \<open>Routes\<close>

datatype reachability = Loopback | Lan | Cloud

fun typical_rtt_ms :: "reachability \<Rightarrow> nat" where
  "typical_rtt_ms Loopback = 0"
| "typical_rtt_ms Lan = 1"
| "typical_rtt_ms Cloud = 60"

text \<open>The derived order is that of the constructors.\<close>

fun reach_rank :: "reachability \<Rightarrow> nat" where
  "reach_rank Loopback = 0"
| "reach_rank Lan = 1"
| "reach_rank Cloud = 2"

instantiation reachability :: linorder
begin

definition less_eq_reachability :: "reachability \<Rightarrow> reachability \<Rightarrow> bool" where
  "less_eq_reachability a b \<longleftrightarrow> reach_rank a \<le> reach_rank b"

definition less_reachability :: "reachability \<Rightarrow> reachability \<Rightarrow> bool" where
  "less_reachability a b \<longleftrightarrow> reach_rank a < reach_rank b"

instance
proof
  fix a b :: reachability
  show "a \<le> b \<Longrightarrow> b \<le> a \<Longrightarrow> a = b"
    by (cases a; cases b) (simp_all add: less_eq_reachability_def)
qed (auto simp: less_eq_reachability_def less_reachability_def)

end

record endpoint =
  ep_host :: "byte list"
  ep_reachability :: reachability
  ep_address :: ustring

record peer =
  pr_host :: "byte list"
  pr_label :: ustring
  pr_endpoints :: "endpoint list"

definition best_endpoint :: "peer \<Rightarrow> endpoint option" where
  "best_endpoint p = first_min ep_reachability (pr_endpoints p)"

section \<open>What a host says of itself\<close>

definition TXT_VERSION :: nat where "TXT_VERSION = 1"

definition KEY_VERSION :: ustring where "KEY_VERSION = lit ''v''"

definition KEY_HOST_ID :: ustring where "KEY_HOST_ID = lit ''id''"

definition KEY_LABEL :: ustring where "KEY_LABEL = lit ''lbl''"

definition MAX_LABEL_BYTES :: nat where "MAX_LABEL_BYTES = 63"

definition MAX_INSTANCE_LABEL_BYTES :: nat where "MAX_INSTANCE_LABEL_BYTES = 24"

record advertisement =
  ad_host :: "byte list"
  ad_label :: ustring
  ad_version :: nat

text \<open>The longest prefix of whole characters within so many bytes.\<close>

fun fit_bytes :: "nat \<Rightarrow> ustring \<Rightarrow> ustring" where
  "fit_bytes n [] = []"
| "fit_bytes n (c # s) =
     (if length (encode_char c) \<le> n then c # fit_bytes (n - length (encode_char c)) s else [])"

definition truncate_bytes :: "ustring \<Rightarrow> nat \<Rightarrow> ustring" where
  "truncate_bytes t limit = (if length (utf8_encode t) \<le> limit then t else fit_bytes limit t)"

definition advertisement_new :: "byte list \<Rightarrow> ustring \<Rightarrow> advertisement" where
  "advertisement_new host label =
     \<lparr>ad_host = host, ad_label = truncate_bytes label MAX_LABEL_BYTES, ad_version = TXT_VERSION\<rparr>"

definition encode_host_id :: "byte list \<Rightarrow> ustring" where
  "encode_host_id host = concat (map (\<lambda>b. [hex_digit (unat b div 16), hex_digit (unat b mod 16)]) host)"

definition to_pairs :: "advertisement \<Rightarrow> (ustring \<times> ustring) list" where
  "to_pairs a =
     [(KEY_VERSION, dec_digits (ad_version a)), (KEY_HOST_ID, encode_host_id (ad_host a)), (KEY_LABEL, ad_label a)]"

text \<open>One byte of an id: two bytes of the text, parsed as a number.\<close>

definition host_byte :: "byte list \<Rightarrow> nat \<Rightarrow> byte option" where
  "host_byte t i =
     (case str_slice t (i * 2) (i * 2 + 2) of
        None \<Rightarrow> None
      | Some s \<Rightarrow>
          (case from_utf8 s of None \<Rightarrow> None | Some u \<Rightarrow> map_option of_nat (parse_uint 16 255 u)))"

definition decode_host_id :: "ustring \<Rightarrow> byte list option" where
  "decode_host_id t =
     (if length (utf8_encode t) \<noteq> 64 then None else those (map (host_byte (utf8_encode t)) [0..<32]))"

definition advertisement_parse :: "(ustring \<Rightarrow> ustring option) \<Rightarrow> ustring \<Rightarrow> advertisement option" where
  "advertisement_parse get fallback =
     (case get KEY_HOST_ID of
        None \<Rightarrow> None
      | Some t \<Rightarrow>
          (case decode_host_id t of
             None \<Rightarrow> None
           | Some host \<Rightarrow>
               (case (case get KEY_VERSION of Some v \<Rightarrow> parse_uint 10 (2 ^ 32 - 1) v | None \<Rightarrow> Some TXT_VERSION) of
                  None \<Rightarrow> None
                | Some version \<Rightarrow>
                    let label = (case get KEY_LABEL of Some l \<Rightarrow> if l \<noteq> [] then l else fallback | None \<Rightarrow> fallback)
                    in Some \<lparr>ad_host = host, ad_label = label, ad_version = version\<rparr>)))"

definition keeps_in_instance :: "uchar \<Rightarrow> bool" where
  "keeps_in_instance c \<longleftrightarrow> (48 \<le> c \<and> c \<le> 57) \<or> (65 \<le> c \<and> c \<le> 90) \<or> (97 \<le> c \<and> c \<le> 122) \<or> c = 32 \<or> c = 95 \<or> c = 45"

definition sanitize_step :: "uchar \<Rightarrow> ustring \<Rightarrow> ustring" where
  "sanitize_step c out =
     (if keeps_in_instance c then out @ [c]
      else if out \<noteq> [] \<and> last out = 45 then out
      else out @ [45])"

definition trim_dashes :: "ustring \<Rightarrow> ustring" where
  "trim_dashes s = rev (dropWhile (\<lambda>c. c = 45) (rev (dropWhile (\<lambda>c. c = 45) s)))"

definition sanitize_instance_label :: "ustring \<Rightarrow> ustring" where
  "sanitize_instance_label label =
     (let out = fold sanitize_step label [];
          trimmed = str_trim (truncate_bytes (trim_dashes (str_trim out)) MAX_INSTANCE_LABEL_BYTES)
      in if trimmed = [] then lit ''zesterm'' else trimmed)"

definition instance_name :: "ustring \<Rightarrow> byte list \<Rightarrow> ustring" where
  "instance_name label host = sanitize_instance_label label @ lit '' ('' @ short_id host @ lit '')''"

text \<open>Up to the first dot with an underscore behind it.\<close>

fun instance_of :: "ustring \<Rightarrow> ustring" where
  "instance_of [] = []"
| "instance_of (c # s) = (if c = 46 \<and> take 1 s = [95] then [] else c # instance_of s)"

section \<open>Addresses\<close>

datatype ip_addr = V4 byte byte byte byte | V6 "16 word list"

definition v4_text :: "byte \<Rightarrow> byte \<Rightarrow> byte \<Rightarrow> byte \<Rightarrow> ustring" where
  "v4_text a b c d =
     dec_digits (unat a) @ lit ''.'' @ dec_digits (unat b) @ lit ''.'' @ dec_digits (unat c) @ lit ''.'' @ dec_digits (unat d)"

text \<open>A segment without leading zeros, and segments between colons.\<close>

definition hex_short :: "16 word \<Rightarrow> ustring" where
  "hex_short w = (case dropWhile (\<lambda>c. c = 48) (hex4 (unat w)) of [] \<Rightarrow> [48] | s \<Rightarrow> s)"

fun join_segments :: "16 word list \<Rightarrow> ustring" where
  "join_segments [] = []"
| "join_segments [w] = hex_short w"
| "join_segments (w # ws) = hex_short w @ lit '':'' @ join_segments ws"

text \<open>The first longest run of zero segments, as its start and length.\<close>

fun zero_span :: "16 word list \<Rightarrow> nat \<Rightarrow> nat \<times> nat \<Rightarrow> nat \<times> nat \<Rightarrow> nat \<times> nat" where
  "zero_span [] i current longest = longest"
| "zero_span (w # ws) i current longest =
     (if w = 0
      then let current = (if snd current = 0 then i else fst current, snd current + 1)
           in zero_span ws (i + 1) current (if snd longest < snd current then current else longest)
      else zero_span ws (i + 1) (0, 0) longest)"

definition v6_text :: "16 word list \<Rightarrow> ustring" where
  "v6_text ws =
     (if take 6 ws = [0, 0, 0, 0, 0, 0xffff] \<and> length ws = 8
      then lit ''::ffff:'' @
        v4_text (of_nat (unat (ws ! 6) div 256)) (of_nat (unat (ws ! 6) mod 256))
          (of_nat (unat (ws ! 7) div 256)) (of_nat (unat (ws ! 7) mod 256))
      else case zero_span ws 0 (0, 0) (0, 0) of
             (start, len) \<Rightarrow>
               if 1 < len then join_segments (take start ws) @ lit ''::'' @ join_segments (drop (start + len) ws)
               else join_segments ws)"

text \<open>How the standard library prints addresses and sockets.\<close>

definition ip_text :: "ip_addr \<Rightarrow> ustring" where
  "ip_text ip = (case ip of V4 a b c d \<Rightarrow> v4_text a b c d | V6 ws \<Rightarrow> v6_text ws)"

definition socket_text :: "ip_addr \<Rightarrow> nat \<Rightarrow> ustring" where
  "socket_text ip port =
     (case ip of
        V4 _ _ _ _ \<Rightarrow> ip_text ip @ lit '':'' @ dec_digits port
      | V6 _ \<Rightarrow> lit ''['' @ ip_text ip @ lit '']:'' @ dec_digits port)"

definition is_unicast_link_local :: "16 word list \<Rightarrow> bool" where
  "is_unicast_link_local ws \<longleftrightarrow> and (ws ! 0) 0xffc0 = 0xfe80"

definition dialable :: "ip_addr \<Rightarrow> bool" where
  "dialable ip =
     (case ip of
        V4 a b c d \<Rightarrow> a \<noteq> 127 \<and> \<not> (a = 0 \<and> b = 0 \<and> c = 0 \<and> d = 0)
      | V6 ws \<Rightarrow> ws \<noteq> [0, 0, 0, 0, 0, 0, 0, 1] \<and> ws \<noteq> [0, 0, 0, 0, 0, 0, 0, 0] \<and> \<not> is_unicast_link_local ws)"

definition ip_rank :: "ip_addr \<Rightarrow> nat" where
  "ip_rank ip = (case ip of V4 a b _ _ \<Rightarrow> if a = 169 \<and> b = 254 then 2 else 0 | V6 _ \<Rightarrow> 1)"

definition MAX_ENDPOINTS :: nat where "MAX_ENDPOINTS = 4"

definition endpoints_for :: "byte list \<Rightarrow> ip_addr list \<Rightarrow> nat \<Rightarrow> endpoint list" where
  "endpoints_for host addrs port =
     (let usable = filter dialable addrs;
          usable = sort_key (\<lambda>ip. (ip_rank ip, ip_text ip)) usable;
          usable = remdups_adj usable
      in map (\<lambda>ip. \<lparr>ep_host = host, ep_reachability = Lan, ep_address = socket_text ip port\<rparr>) (take MAX_ENDPOINTS usable))"

section \<open>The roster\<close>

datatype presence = Online | Away | Unseen | UnreachablePort

record peer_record =
  rec_peer :: peer
  rec_presence :: presence
  rec_last_seen :: "nat option"

record resolved_record =
  rr_fullname :: ustring
  rr_txt :: "(ustring \<times> ustring) list"
  rr_port :: nat
  rr_addresses :: "ip_addr list"

datatype observation = Resolved resolved_record | Removed ustring

definition PRESENCE_TIMEOUT :: nat where "PRESENCE_TIMEOUT = 90 * 10 ^ 9"

text \<open>\<open>BTreeMap\<close> as an association list in the order of its keys; the index by name is a hash map.\<close>

record roster =
  ro_local :: "byte list"
  ro_by_host :: "(byte list \<times> peer_record) list"
  ro_by_fullname :: "ustring \<rightharpoonup> byte list"
  ro_saw_self :: bool

definition roster_new :: "byte list \<Rightarrow> roster" where
  "roster_new local = \<lparr>ro_local = local, ro_by_host = [], ro_by_fullname = Map.empty, ro_saw_self = False\<rparr>"

text \<open>What a claim does to the row of its host; whether anything changed comes first.\<close>

definition record_claim :: "peer_record option \<Rightarrow> peer \<Rightarrow> nat \<Rightarrow> bool \<times> peer_record" where
  "record_claim row p now =
     (case row of
        Some e \<Rightarrow>
          if rec_presence e = UnreachablePort \<and> rec_peer e = p then (False, e\<lparr>rec_last_seen := Some now\<rparr>)
          else (rec_peer e \<noteq> p \<or> rec_presence e \<noteq> Online,
                e\<lparr>rec_peer := p, rec_presence := Online, rec_last_seen := Some now\<rparr>)
      | None \<Rightarrow> (True, \<lparr>rec_peer = p, rec_presence = Online, rec_last_seen = Some now\<rparr>))"

definition roster_resolved :: "roster \<Rightarrow> resolved_record \<Rightarrow> nat \<Rightarrow> bool \<times> roster" where
  "roster_resolved r rec now =
     (case advertisement_parse (map_of (rr_txt rec)) (instance_of (rr_fullname rec)) of
        None \<Rightarrow> (False, r)
      | Some a \<Rightarrow>
          if ad_host a = ro_local r then (\<not> ro_saw_self r, r\<lparr>ro_saw_self := True\<rparr>)
          else
            let p = \<lparr>pr_host = ad_host a, pr_label = ad_label a,
                      pr_endpoints = endpoints_for (ad_host a) (rr_addresses rec) (rr_port rec)\<rparr>;
                r = r\<lparr>ro_by_fullname := (ro_by_fullname r)(rr_fullname rec \<mapsto> ad_host a)\<rparr>;
                (changed, row) = record_claim (map_of (ro_by_host r) (ad_host a)) p now
            in (changed, r\<lparr>ro_by_host := bt_put (ad_host a) row (ro_by_host r)\<rparr>))"

definition grey_out :: "peer_record \<Rightarrow> peer_record" where
  "grey_out e = e\<lparr>rec_peer := (rec_peer e)\<lparr>pr_endpoints := []\<rparr>, rec_presence := Away\<rparr>"

definition roster_removed :: "roster \<Rightarrow> ustring \<Rightarrow> bool \<times> roster" where
  "roster_removed r fullname =
     (case ro_by_fullname r fullname of
        None \<Rightarrow> (False, r)
      | Some host \<Rightarrow>
          (case map_of (ro_by_host r) host of
             None \<Rightarrow> (False, r)
           | Some e \<Rightarrow>
               if rec_presence e = Away \<and> pr_endpoints (rec_peer e) = [] then (False, r)
               else (True, r\<lparr>ro_by_host := bt_put host (grey_out e) (ro_by_host r)\<rparr>)))"

definition roster_apply :: "roster \<Rightarrow> observation \<Rightarrow> nat \<Rightarrow> bool \<times> roster" where
  "roster_apply r obs now =
     (case obs of Resolved rec \<Rightarrow> roster_resolved r rec now | Removed fullname \<Rightarrow> roster_removed r fullname)"

definition is_stale :: "nat \<Rightarrow> nat \<Rightarrow> peer_record \<Rightarrow> bool" where
  "is_stale now max_age e \<longleftrightarrow>
     rec_presence e \<in> {Online, UnreachablePort} \<and>
     (case rec_last_seen e of None \<Rightarrow> True | Some seen \<Rightarrow> max_age \<le> now - seen)"

definition roster_sweep :: "roster \<Rightarrow> nat \<Rightarrow> nat \<Rightarrow> bool \<times> roster" where
  "roster_sweep r now max_age =
     (list_ex (\<lambda>(h, e). is_stale now max_age e) (ro_by_host r),
      r\<lparr>ro_by_host := map (\<lambda>(h, e). (h, if is_stale now max_age e then grey_out e else e)) (ro_by_host r)\<rparr>)"

definition report_dial :: "roster \<Rightarrow> byte list \<Rightarrow> bool \<Rightarrow> nat \<Rightarrow> bool \<times> roster" where
  "report_dial r host connected now =
     (case map_of (ro_by_host r) host of
        None \<Rightarrow> (False, r)
      | Some e \<Rightarrow>
          if connected then
            let changed = (rec_presence e = UnreachablePort);
                e = (if changed then e\<lparr>rec_presence := Online\<rparr> else e)
            in (changed, r\<lparr>ro_by_host := bt_put host (e\<lparr>rec_last_seen := Some now\<rparr>) (ro_by_host r)\<rparr>)
          else
            let changed = (rec_presence e = Online);
                e = (if changed then e\<lparr>rec_presence := UnreachablePort\<rparr> else e)
            in (changed, r\<lparr>ro_by_host := bt_put host e (ro_by_host r)\<rparr>))"

definition roster_peers :: "roster \<Rightarrow> peer list" where
  "roster_peers r = map (rec_peer \<circ> snd) (ro_by_host r)"

definition roster_records :: "roster \<Rightarrow> peer_record list" where
  "roster_records r = map snd (ro_by_host r)"

section \<open>Several sources\<close>

definition same_route :: "endpoint \<Rightarrow> endpoint \<Rightarrow> bool" where
  "same_route a b \<longleftrightarrow> ep_reachability a = ep_reachability b \<and> ep_address a = ep_address b"

definition add_route :: "endpoint \<Rightarrow> endpoint list \<Rightarrow> endpoint list" where
  "add_route e es = (if list_ex (\<lambda>x. same_route x e) es then es else es @ [e])"

definition union_peer :: "peer \<Rightarrow> (byte list \<times> peer) list \<Rightarrow> (byte list \<times> peer) list" where
  "union_peer p merged =
     (case map_of merged (pr_host p) of
        Some e \<Rightarrow>
          let e = (if pr_label e = [] then e\<lparr>pr_label := pr_label p\<rparr> else e)
          in bt_put (pr_host p) (e\<lparr>pr_endpoints := fold add_route (pr_endpoints p) (pr_endpoints e)\<rparr>) merged
      | None \<Rightarrow> bt_put (pr_host p) p merged)"

definition layered_peers :: "peer list list \<Rightarrow> peer list" where
  "layered_peers layers = map snd (fold union_peer (concat layers) [])"

text \<open>The results of the layers, each started whatever became of the others.\<close>

definition layered_start :: "(mesh_error + unit) list \<Rightarrow> mesh_error + unit" where
  "layered_start results =
     (let any_started = list_ex (\<lambda>r. r = Inr ()) results
      in case find_first (\<lambda>r. r \<noteq> Inr ()) results of
           Some (Inl e) \<Rightarrow> if \<not> any_started then Inl e else Inr ()
         | _ \<Rightarrow> Inr ())"

end
