(* ===== verification/RosterSpec.thy ===== *)
theory RosterSpec
  imports Roster Frame
begin

text \<open>What the listing of the fleet promises, whatever the network says and in whatever order.\<close>

section \<open>Addresses\<close>

lemma endpoints_for_routes:
  "length (endpoints_for host addrs port) \<le> MAX_ENDPOINTS"
  "ep \<in> set (endpoints_for host addrs port) \<Longrightarrow> ep_host ep = host \<and> ep_reachability ep = Lan \<and>
     (\<exists>ip \<in> set addrs. dialable ip \<and> ep_address ep = socket_text ip port)"
  by (auto simp: endpoints_for_def Let_def dest!: in_set_takeD)

text \<open>An address of the link alone comes last: it is dialled only when nothing else is offered.\<close>

lemma endpoints_ranked:
  "sorted_wrt (\<lambda>a b. ip_rank a \<le> ip_rank b) (remdups_adj (sort_key (\<lambda>ip. (ip_rank ip, ip_text ip)) addrs))"
proof -
  have "sorted_wrt (\<lambda>a b. ip_rank a \<le> ip_rank b) xs" if "sorted (map (\<lambda>ip. (ip_rank ip, ip_text ip)) xs)" for xs
    using that by (induction xs) auto
  moreover have "sorted_wrt P (remdups_adj xs)" if "sorted_wrt P xs" for P :: "ip_addr \<Rightarrow> ip_addr \<Rightarrow> bool" and xs
    using that by (induction xs rule: remdups_adj.induct) auto
  ultimately show ?thesis using sorted_sort_key by blast
qed

section \<open>What a host says\<close>

lemma byte_digits: "unat (b :: byte) div 16 < 16" "unat (b :: byte) mod 16 < 16"
  using unsigned_less [of b, where 'a = nat] by (simp_all add: less_mult_imp_div_less)

lemma encode_host_id_hex: "encode_host_id host = hex_encode host"
  by (simp add: encode_host_id_def hex_encode_def)

lemma hex_encode_at:
  "i < length host \<Longrightarrow>
   take 2 (drop (2 * i) (hex_encode host)) = [hex_digit (unat (host ! i) div 16), hex_digit (unat (host ! i) mod 16)]"
proof (induction host arbitrary: i)
  case (Cons b host)
  show ?case
  proof (cases i)
    case (Suc j)
    have "drop (2 * Suc j) (hex_encode (b # host)) = drop (2 * j) (hex_encode host)"
      by (simp add: hex_encode_def)
    then show ?thesis using Cons Suc by simp
  qed (simp add: hex_encode_def)
qed simp

lemma hex_encode_small: "list_all (\<lambda>c. c < 128) (hex_encode host)"
  by (induction host) (auto simp: hex_encode_def hex_digit_plain byte_digits)

lemma from_utf8_pair: "c < 128 \<Longrightarrow> d < 128 \<Longrightarrow> from_utf8 [of_nat c, of_nat d] = Some [c, d]"
  by (simp add: from_utf8_def decode_all.simps decode_char_def unat_byte)

lemma parse_hex_pair:
  fixes b :: byte
  shows "parse_uint 16 255 [hex_digit (unat b div 16), hex_digit (unat b mod 16)] = Some (unat b)"
  using byte_digits [of b] hex_digit_plain [OF byte_digits(1) [of b]] unsigned_less [of b, where 'a = nat]
  by (simp add: parse_uint_def hex_digit_val not_le)

lemma decode_host_id_encode:
  assumes "length host = 32"
  shows "decode_host_id (encode_host_id host) = Some host"
proof -
  let ?t = "utf8_encode (hex_encode host)"
  have t: "?t = map of_nat (hex_encode host)" "length ?t = 64" using hex_encode_ascii [of host] assms by simp_all
  have at: "host_byte ?t i = Some (host ! i)" if "i < 32" for i
  proof -
    let ?a = "hex_digit (unat (host ! i) div 16)" and ?b = "hex_digit (unat (host ! i) mod 16)"
    have small: "?a < 128" "?b < 128"
      by (simp_all add: hex_digit_plain byte_digits)
    have "take 2 (drop (2 * i) (hex_encode host)) = [?a, ?b]" using hex_encode_at that assms by simp
    then have "take 2 (drop (2 * i) ?t) = map of_nat [?a, ?b]" unfolding t(1) by (simp add: take_map drop_map)
    moreover have "is_char_boundary ?t (i * 2)" "is_char_boundary ?t (i * 2 + 2)"
      using ascii_boundary [OF hex_encode_small] t(2) that by simp_all
    ultimately have "str_slice ?t (i * 2) (i * 2 + 2) = Some (map of_nat [?a, ?b])"
      by (simp add: str_slice_def mult.commute)
    then show ?thesis using small by (simp add: host_byte_def from_utf8_pair parse_hex_pair)
  qed
  have "map (host_byte ?t) [0..<32] = map Some host"
    using at assms by (intro nth_equalityI) simp_all
  moreover have "those (map Some host) = Some host" by (induction host) simp_all
  ultimately show ?thesis using t(2) by (simp add: decode_host_id_def encode_host_id_hex)
qed

text \<open>What a host advertises is what the others read, with the name of the instance for an empty label.\<close>

lemma advertised_is_parsed:
  assumes "length host = 32"
  shows "advertisement_parse (map_of (to_pairs (advertisement_new host label))) fallback =
    Some \<lparr>ad_host = host, ad_label = (if truncate_bytes label MAX_LABEL_BYTES = [] then fallback else truncate_bytes label MAX_LABEL_BYTES),
          ad_version = TXT_VERSION\<rparr>"
  using decode_host_id_encode [OF assms] parse_uint_dec [of TXT_VERSION "2 ^ 32 - 1"]
  by (simp add: advertisement_parse_def to_pairs_def advertisement_new_def KEY_VERSION_def KEY_HOST_ID_def KEY_LABEL_def
      TXT_VERSION_def lit_def)

text \<open>A plus sign passes for a digit: the parser of numbers allows one, and the code asks for nothing else.\<close>

lemma plus_sign_accepted:
  "host_byte (utf8_encode [43, 102]) 0 = Some 15"
  by code_simp

lemma those_length: "those xs = Some ys \<Longrightarrow> length ys = length xs"
  by (induction xs arbitrary: ys) (auto split: option.splits)

lemma decode_host_id_length: "decode_host_id t = Some h \<Longrightarrow> length h = 32"
  by (auto simp: decode_host_id_def dest: those_length split: if_splits)

lemma advertisement_host_length: "advertisement_parse get fallback = Some a \<Longrightarrow> length (ad_host a) = 32"
  by (auto simp: advertisement_parse_def Let_def dest: decode_host_id_length split: option.splits)

section \<open>The roster\<close>

datatype roster_event =
    Observed observation nat
  | Swept nat nat
  | Dialled "byte list" bool nat

fun roster_step :: "roster_event \<Rightarrow> roster \<Rightarrow> roster" where
  "roster_step (Observed obs now) r = snd (roster_apply r obs now)"
| "roster_step (Swept now age) r = snd (roster_sweep r now age)"
| "roster_step (Dialled h ok now) r = snd (report_dial r h ok now)"

text \<open>A row under the key of a host: whose it is, what routes it has, and when it has none.\<close>

definition row_ok :: "byte list \<Rightarrow> peer_record \<Rightarrow> bool" where
  "row_ok h e \<longleftrightarrow>
     pr_host (rec_peer e) = h \<and> length h = 32 \<and> rec_presence e \<noteq> Unseen \<and> rec_last_seen e \<noteq> None \<and>
     length (pr_endpoints (rec_peer e)) \<le> MAX_ENDPOINTS \<and>
     (\<forall>ep \<in> set (pr_endpoints (rec_peer e)). ep_host ep = h \<and> ep_reachability ep = Lan) \<and>
     (rec_presence e = Away \<longrightarrow> pr_endpoints (rec_peer e) = [])"

definition wf_roster :: "roster \<Rightarrow> bool" where
  "wf_roster r \<longleftrightarrow>
     sorted_wrt (<) (map fst (ro_by_host r)) \<and> ro_local r \<notin> fst ` set (ro_by_host r) \<and>
     ran (ro_by_fullname r) \<subseteq> fst ` set (ro_by_host r) \<and> (\<forall>(h, e) \<in> set (ro_by_host r). row_ok h e)"

lemma wf_roster_new: "wf_roster (roster_new local)"
  by (simp add: wf_roster_def roster_new_def)

lemma row_ok_at: "wf_roster r \<Longrightarrow> map_of (ro_by_host r) h = Some e \<Longrightarrow> row_ok h e"
  by (auto simp: wf_roster_def dest: map_of_SomeD)

lemma row_ok_grey: "row_ok h e \<Longrightarrow> row_ok h (grey_out e)"
  by (simp add: row_ok_def grey_out_def)

lemma wf_put:
  assumes "wf_roster r" "row_ok h e" "h \<noteq> ro_local r"
  shows "wf_roster (r\<lparr>ro_by_host := bt_put h e (ro_by_host r)\<rparr>)"
  using assms bt_put_set [of h e "ro_by_host r"] by (auto simp: wf_roster_def bt_put_sorted)

lemma row_not_local:
  assumes "wf_roster r" "map_of (ro_by_host r) h = Some e"
  shows "h \<noteq> ro_local r"
proof -
  have "h \<in> fst ` set (ro_by_host r)" using map_of_SomeD [OF assms(2)] by force
  moreover have "ro_local r \<notin> fst ` set (ro_by_host r)" using assms(1) by (simp add: wf_roster_def)
  ultimately show ?thesis by metis
qed

lemma wf_row_put:
  assumes "wf_roster r" "map_of (ro_by_host r) h = Some e" "row_ok h e \<Longrightarrow> row_ok h e'"
  shows "wf_roster (r\<lparr>ro_by_host := bt_put h e' (ro_by_host r)\<rparr>)"
  by (rule wf_put [OF assms(1) assms(3) [OF row_ok_at [OF assms(1,2)]] row_not_local [OF assms(1,2)]])

lemma record_claim_ok:
  assumes "\<And>e. row = Some e \<Longrightarrow> row_ok h e" "length h = 32"
    "record_claim row \<lparr>pr_host = h, pr_label = l, pr_endpoints = endpoints_for h addrs port\<rparr> now = (changed, e)"
  shows "row_ok h e"
  using assms endpoints_for_routes(1) [of h addrs port] endpoints_for_routes(2) [where host = h and addrs = addrs and port = port]
  by (cases row) (auto simp: record_claim_def row_ok_def split: if_splits)

lemma wf_resolved:
  assumes "wf_roster r"
  shows "wf_roster (snd (roster_resolved r rec now))"
proof (cases "advertisement_parse (map_of (rr_txt rec)) (instance_of (rr_fullname rec))")
  case None
  then show ?thesis using assms by (simp add: roster_resolved_def)
next
  case (Some a)
  show ?thesis
  proof (cases "ad_host a = ro_local r")
    case True
    then show ?thesis using assms Some by (simp add: roster_resolved_def wf_roster_def)
  next
    case False
    define p where "p = \<lparr>pr_host = ad_host a, pr_label = ad_label a,
      pr_endpoints = endpoints_for (ad_host a) (rr_addresses rec) (rr_port rec)\<rparr>"
    obtain changed row where row: "record_claim (map_of (ro_by_host r) (ad_host a)) p now = (changed, row)" by fastforce
    have "row_ok (ad_host a) row"
      by (rule record_claim_ok [OF _ _ row [unfolded p_def]]) (auto intro: row_ok_at assms advertisement_host_length Some)
    then have wf: "wf_roster (r\<lparr>ro_by_host := bt_put (ad_host a) row (ro_by_host r)\<rparr>)" by (rule wf_put [OF assms _ False])
    have "snd (roster_resolved r rec now) =
        r\<lparr>ro_by_fullname := (ro_by_fullname r)(rr_fullname rec \<mapsto> ad_host a), ro_by_host := bt_put (ad_host a) row (ro_by_host r)\<rparr>"
      using Some False row by (simp add: roster_resolved_def Let_def p_def)
    then show ?thesis using wf unfolding wf_roster_def by (auto simp: ran_def)
  qed
qed

lemma wf_removed: "wf_roster r \<Longrightarrow> wf_roster (snd (roster_removed r fullname))"
  by (auto simp: roster_removed_def intro!: wf_row_put row_ok_grey split: option.splits)

lemma wf_rows:
  assumes "wf_roster r" "map fst rows = map fst (ro_by_host r)" "\<forall>(h, e) \<in> set rows. row_ok h e"
  shows "wf_roster (r\<lparr>ro_by_host := rows\<rparr>)"
proof -
  have "fst ` set rows = fst ` set (ro_by_host r)" using arg_cong [OF assms(2), of set] by simp
  then show ?thesis using assms unfolding wf_roster_def by simp
qed

lemma wf_sweep:
  assumes "wf_roster r"
  shows "wf_roster (snd (roster_sweep r now age))"
  unfolding roster_sweep_def snd_conv
proof (rule wf_rows [OF assms])
  let ?f = "\<lambda>(h, e). (h, if is_stale now age e then grey_out e else e)"
  show "map fst (map ?f (ro_by_host r)) = map fst (ro_by_host r)" by (simp add: case_prod_beta)
  have "row_ok h (if is_stale now age e then grey_out e else e)" if "(h, e) \<in> set (ro_by_host r)" for h e
    using assms that by (auto simp: wf_roster_def row_ok_grey)
  then show "\<forall>(h, e) \<in> set (map ?f (ro_by_host r)). row_ok h e" by auto
qed

lemma wf_dial: "wf_roster r \<Longrightarrow> wf_roster (snd (report_dial r h ok now))"
  by (auto simp: report_dial_def Let_def intro!: wf_row_put split: option.splits) (auto simp: row_ok_def)

lemma wf_step: "wf_roster r \<Longrightarrow> wf_roster (roster_step ev r)"
  by (cases ev) (auto simp: roster_apply_def wf_resolved wf_removed wf_sweep wf_dial split: observation.splits)

interpretation listing: machine "\<lambda>r. r = roster_new local" "\<lambda>r r'. \<exists>ev. r' = roster_step ev r" wf_roster for local
  by unfold_locales (auto simp: wf_roster_new wf_step)

lemma fold_reaches: "(\<lambda>r r'. \<exists>ev. r' = roster_step ev r)\<^sup>*\<^sup>* r (fold roster_step evs r)"
proof (induction evs arbitrary: r)
  case (Cons ev evs)
  have "(\<lambda>r r'. \<exists>ev. r' = roster_step ev r) r (roster_step ev r)" by blast
  then show ?case using Cons [of "roster_step ev r"] by (auto intro: converse_rtranclp_into_rtranclp)
qed simp

lemma local_step: "ro_local (roster_step ev r) = ro_local r"
  by (cases ev) (auto simp: roster_apply_def roster_resolved_def roster_removed_def roster_sweep_def report_dial_def Let_def
    split: observation.splits option.splits prod.splits if_splits)

text \<open>
  C31. The listing is well formed whatever is heard, in whatever order, from anyone on the link: one row a
  host in the order of the ids, never one for this machine, at most four routes to each, all of them to that
  host over the local network, and none to a host that is away.
\<close>

theorem roster_well_formed:
  "let r = fold roster_step evs (roster_new local) in
     ro_local r = local \<and> sorted_wrt (<) (map fst (ro_by_host r)) \<and> local \<notin> fst ` set (ro_by_host r) \<and>
     ran (ro_by_fullname r) \<subseteq> fst ` set (ro_by_host r) \<and>
     list_all (\<lambda>(h, e). row_ok h e) (ro_by_host r)"
proof -
  have l: "ro_local (fold roster_step evs r) = ro_local r" for r
    by (induction evs arbitrary: r) (simp_all add: local_step)
  have "wf_roster (fold roster_step evs (roster_new local))"
    by (rule listing.reachable_inv [OF refl fold_reaches])
  then show ?thesis using l [of "roster_new local"]
    by (auto simp: wf_roster_def Let_def list_all_iff roster_new_def)
qed

section \<open>Evidence\<close>

text \<open>What a record claims, if it is one of ours.\<close>

definition claim_of :: "resolved_record \<Rightarrow> peer option" where
  "claim_of rec =
     map_option (\<lambda>a. \<lparr>pr_host = ad_host a, pr_label = ad_label a,
       pr_endpoints = endpoints_for (ad_host a) (rr_addresses rec) (rr_port rec)\<rparr>)
       (advertisement_parse (map_of (rr_txt rec)) (instance_of (rr_fullname rec)))"

abbreviation row_of :: "roster \<Rightarrow> byte list \<Rightarrow> peer_record option" where
  "row_of r h \<equiv> map_of (ro_by_host r) h"

lemma wf_sorted: "wf_roster r \<Longrightarrow> sorted_wrt (<) (map fst (ro_by_host r))"
  by (simp add: wf_roster_def)

lemma resolved_claim:
  assumes "wf_roster r" "claim_of rec = Some p" "pr_host p \<noteq> ro_local r"
  shows "row_of (snd (roster_resolved r rec now)) = (row_of r)(pr_host p \<mapsto> snd (record_claim (row_of r (pr_host p)) p now))"
    "ro_by_fullname (snd (roster_resolved r rec now)) = (ro_by_fullname r)(rr_fullname rec \<mapsto> pr_host p)"
    "fst (roster_resolved r rec now) = fst (record_claim (row_of r (pr_host p)) p now)"
  using assms bt_put_map_of [OF wf_sorted [OF assms(1)]]
  by (auto simp: claim_of_def roster_resolved_def Let_def split: prod.splits)

text \<open>A host that answers with its id, a label and one address.\<close>

definition sample_record :: "ustring \<Rightarrow> ustring \<Rightarrow> nat \<Rightarrow> resolved_record" where
  "sample_record fullname label port =
     \<lparr>rr_fullname = fullname, rr_txt = to_pairs (advertisement_new (replicate 32 7) label), rr_port = port,
      rr_addresses = [V4 127 0 0 1, V4 10 0 0 5]\<rparr>"

definition sample_peer :: "ustring \<Rightarrow> nat \<Rightarrow> peer" where
  "sample_peer label port =
     \<lparr>pr_host = replicate 32 7, pr_label = label,
      pr_endpoints = [\<lparr>ep_host = replicate 32 7, ep_reachability = Lan, ep_address = lit ''10.0.0.5:'' @ dec_digits port\<rparr>]\<rparr>"

lemma sample_claim:
  assumes "label \<noteq> []" "length (utf8_encode label) \<le> MAX_LABEL_BYTES"
  shows "claim_of (sample_record fullname label port) = Some (sample_peer label port)"
proof -
  have "endpoints_for (replicate 32 7) [V4 127 0 0 1, V4 10 0 0 5] port =
      [\<lparr>ep_host = replicate 32 7, ep_reachability = Lan, ep_address = lit ''10.0.0.5:'' @ dec_digits port\<rparr>]"
    by (simp add: endpoints_for_def Let_def dialable_def MAX_ENDPOINTS_def socket_text_def ip_text_def v4_text_def
        dec_digits.simps [of 10] dec_digits.simps [of 0] dec_digits.simps [of 5] dec_digits.simps [of "Suc 0"] lit_def)
  then show ?thesis using assms
    by (simp add: claim_of_def sample_record_def sample_peer_def advertised_is_parsed truncate_bytes_def)
qed

lemma sample_claims:
  "claim_of (sample_record (lit ''mac'') (lit ''mac'') 7717) = Some (sample_peer (lit ''mac'') 7717)"
  "claim_of (sample_record (lit ''mac'') (lit ''mac'') 7718) = Some (sample_peer (lit ''mac'') 7718)"
  "claim_of (sample_record (lit ''box'') (lit ''box'') 7717) = Some (sample_peer (lit ''box'') 7717)"
  by (rule sample_claim; simp add: lit_def utf8_encode_def encode_char_def MAX_LABEL_BYTES_def)+

definition sample_roster :: roster where
  "sample_roster = snd (roster_apply (roster_new (replicate 32 1)) (Resolved (sample_record (lit ''mac'') (lit ''mac'') 7717)) 5)"

lemma sample_row:
  "wf_roster sample_roster"
  "row_of sample_roster (replicate 32 7) =
     Some \<lparr>rec_peer = sample_peer (lit ''mac'') 7717, rec_presence = Online, rec_last_seen = Some 5\<rparr>"
proof -
  show "wf_roster sample_roster"
    using wf_step [OF wf_roster_new, of "Observed (Resolved (sample_record (lit ''mac'') (lit ''mac'') 7717)) 5"]
    by (simp add: sample_roster_def)
  have "pr_host (sample_peer (lit ''mac'') 7717) \<noteq> ro_local (roster_new (replicate 32 1))"
    by (simp add: sample_peer_def roster_new_def)
  from resolved_claim(1) [OF wf_roster_new sample_claims(1) this, of 5]
  show "row_of sample_roster (replicate 32 7) =
     Some \<lparr>rec_peer = sample_peer (lit ''mac'') 7717, rec_presence = Online, rec_last_seen = Some 5\<rparr>"
    by (simp add: sample_roster_def roster_apply_def roster_new_def record_claim_def sample_peer_def)
qed

text \<open>What one event makes of the row of a host.\<close>

fun row_after :: "roster \<Rightarrow> byte list \<Rightarrow> roster_event \<Rightarrow> peer_record \<Rightarrow> peer_record" where
  "row_after r h (Observed (Resolved rec) now) e =
     (case claim_of rec of
        None \<Rightarrow> e
      | Some p \<Rightarrow> if pr_host p = h then snd (record_claim (Some e) p now) else e)"
| "row_after r h (Observed (Removed name) now) e =
     (if ro_by_fullname r name = Some h then grey_out e else e)"
| "row_after r h (Swept now age) e = (if is_stale now age e then grey_out e else e)"
| "row_after r h (Dialled host ok now) e =
     (if host \<noteq> h then e
      else if ok then e\<lparr>rec_presence := (if rec_presence e = UnreachablePort then Online else rec_presence e),
                        rec_last_seen := Some now\<rparr>
      else e\<lparr>rec_presence := (if rec_presence e = Online then UnreachablePort else rec_presence e)\<rparr>)"

lemma resolved_unheard: "claim_of rec = None \<Longrightarrow> snd (roster_resolved r rec now) = r"
  by (simp add: claim_of_def roster_resolved_def)

lemma resolved_self:
  "claim_of rec = Some p \<Longrightarrow> pr_host p = ro_local r \<Longrightarrow> row_of (snd (roster_resolved r rec now)) = row_of r"
  by (auto simp: claim_of_def roster_resolved_def)

lemma step_row:
  assumes "wf_roster r" "row_of r h = Some e"
  shows "row_of (roster_step ev r) h = Some (row_after r h ev e)"
proof (cases "(r, h, ev, e)" rule: row_after.cases)
  case (1 r h rec now e)
  have n: "h \<noteq> ro_local r" using row_not_local assms 1 by auto
  show ?thesis
  proof (cases "claim_of rec")
    case None
    then show ?thesis using 1 assms by (simp add: roster_apply_def resolved_unheard)
  next
    case (Some p)
    then show ?thesis using 1 assms n resolved_claim(1) [of r rec p now] resolved_self [of rec p r now]
      by (cases "pr_host p = ro_local r") (auto simp: roster_apply_def)
  qed
next
  case (2 r h name now e)
  have "grey_out e' = e'" if "rec_presence e' = Away" "pr_endpoints (rec_peer e') = []" for e'
    using that by (cases e'; cases "rec_peer e'") (auto simp: grey_out_def)
  then show ?thesis using 2 assms bt_put_map_of [OF wf_sorted [OF assms(1)]]
    by (auto simp: roster_apply_def roster_removed_def split: option.splits)
next
  case (3 r h now age e)
  have "map_of (map (\<lambda>(h, e). (h, f e)) xs) h = map_option f (map_of xs h)" for f :: "peer_record \<Rightarrow> peer_record" and xs
    by (induction xs) auto
  then show ?thesis using 3 assms by (simp add: roster_sweep_def)
next
  case (4 r h host ok now e)
  then show ?thesis using assms bt_put_map_of [OF wf_sorted [OF assms(1)]]
    by (auto simp: report_dial_def Let_def split: option.splits)
qed

text \<open>
  C32. What moves the presence of a host in the listing.  A refused dial marks a host unreachable when it
  was online, and only then; the marked host keeps its routes.  From there nothing makes it online but a
  dial that connects or a record of it that claims something else than before: the same record heard again
  does not.  A goodbye of its name or a sweep after long enough a silence makes it away, and an away host
  is not marked by a refused dial and is online again with any record of it, the same one included.
\<close>

theorem refused_host_stays_unreachable:
  assumes "wf_roster r" "row_of r h = Some e"
  shows "\<exists>e'. row_of (roster_step ev r) h = Some e' \<and>
    (rec_presence e = Online \<longrightarrow> (rec_presence e' = UnreachablePort \<longleftrightarrow> (\<exists>t. ev = Dialled h False t))) \<and>
    (rec_presence e = UnreachablePort \<longrightarrow>
      (rec_presence e' = Online \<longleftrightarrow> (\<exists>t. ev = Dialled h True t) \<or>
        (\<exists>rec t p. ev = Observed (Resolved rec) t \<and> claim_of rec = Some p \<and> pr_host p = h \<and> p \<noteq> rec_peer e))) \<and>
    (rec_presence e = Away \<longrightarrow> rec_presence e' \<noteq> UnreachablePort \<and>
      (rec_presence e' = Online \<longleftrightarrow>
        (\<exists>rec t p. ev = Observed (Resolved rec) t \<and> claim_of rec = Some p \<and> pr_host p = h))) \<and>
    (rec_presence e \<noteq> Away \<longrightarrow>
      (rec_presence e' = Away \<longleftrightarrow> (\<exists>name t. ev = Observed (Removed name) t \<and> ro_by_fullname r name = Some h) \<or>
        (\<exists>t age. ev = Swept t age \<and> is_stale t age e))) \<and>
    (rec_presence e' = UnreachablePort \<longrightarrow> rec_peer e' = rec_peer e)"
  unfolding step_row [OF assms]
  by (cases "(r, h, ev, e)" rule: row_after.cases; cases "rec_presence e")
    (auto simp: record_claim_def grey_out_def split: option.splits)

theorem refused_host_stays_unreachable_witness:
  "\<exists>e'. row_of (roster_step (Dialled (replicate 32 7) False 6) sample_roster) (replicate 32 7) = Some e' \<and>
     rec_presence e' = UnreachablePort \<and> rec_peer e' = sample_peer (lit ''mac'') 7717"
  using refused_host_stays_unreachable [OF sample_row, of "Dialled (replicate 32 7) False 6"] by force

text \<open>
  C34. A goodbye of an old name greys out a host that is there.  The index by name never forgets: when a host
  is heard under one name and then under another, and the record of the first name is withdrawn or runs out,
  the row of the host loses its routes and is marked away, though nothing withdrew the second.
\<close>

theorem stale_goodbye_greys_host:
  assumes "wf_roster r" "claim_of old = Some p" "claim_of new = Some q" "pr_host p = pr_host q"
    "pr_host q \<noteq> ro_local r" "row_of r (pr_host q) = None" "rr_fullname old \<noteq> rr_fullname new"
  shows "let r1 = snd (roster_apply r (Resolved old) t); r2 = snd (roster_apply r1 (Resolved new) u);
           r3 = snd (roster_apply r2 (Removed (rr_fullname old)) v) in
    row_of r2 (pr_host q) = Some \<lparr>rec_peer = q, rec_presence = Online, rec_last_seen = Some u\<rparr> \<and>
    row_of r3 (pr_host q) = Some \<lparr>rec_peer = q\<lparr>pr_endpoints := []\<rparr>, rec_presence = Away, rec_last_seen = Some u\<rparr> \<and>
    ro_by_fullname r3 (rr_fullname new) = Some (pr_host q)"
proof -
  define r1 where "r1 = snd (roster_resolved r old t)"
  define r2 where "r2 = snd (roster_resolved r1 new u)"
  have wf1: "wf_roster r1" unfolding r1_def by (rule wf_resolved [OF assms(1)])
  have wf2: "wf_roster r2" unfolding r2_def by (rule wf_resolved [OF wf1])
  have l1: "ro_local r1 = ro_local r" using local_step [of "Observed (Resolved old) t" r] by (simp add: roster_apply_def r1_def)
  have row1: "row_of r1 (pr_host q) = Some \<lparr>rec_peer = p, rec_presence = Online, rec_last_seen = Some t\<rparr>"
    using resolved_claim(1) [OF assms(1,2), of t] assms(4-6) by (simp add: r1_def record_claim_def)
  have row2: "row_of r2 (pr_host q) = Some \<lparr>rec_peer = q, rec_presence = Online, rec_last_seen = Some u\<rparr>"
    using resolved_claim(1) [OF wf1 assms(3), of u] row1 assms(5) l1 by (simp add: r2_def record_claim_def)
  have "ro_by_fullname r2 = (ro_by_fullname r)(rr_fullname old \<mapsto> pr_host q, rr_fullname new \<mapsto> pr_host q)"
    using resolved_claim(2) [OF assms(1,2), of t] resolved_claim(2) [OF wf1 assms(3), of u] assms(4,5) l1
    by (simp add: r1_def r2_def)
  then have names: "ro_by_fullname r2 (rr_fullname old) = Some (pr_host q)" "ro_by_fullname r2 (rr_fullname new) = Some (pr_host q)"
    using assms(7) by simp_all
  have "snd (roster_removed r2 (rr_fullname old)) =
      r2\<lparr>ro_by_host := bt_put (pr_host q) (grey_out \<lparr>rec_peer = q, rec_presence = Online, rec_last_seen = Some u\<rparr>) (ro_by_host r2)\<rparr>"
    using names row2 by (simp add: roster_removed_def)
  then show ?thesis using row2 names bt_put_map_of [OF wf_sorted [OF wf2]]
    by (simp add: Let_def roster_apply_def r1_def [symmetric] r2_def [symmetric] grey_out_def)
qed

theorem stale_goodbye_greys_host_witness:
  "let r1 = snd (roster_apply (roster_new (replicate 32 1)) (Resolved (sample_record (lit ''mac'') (lit ''mac'') 7717)) 5);
       r2 = snd (roster_apply r1 (Resolved (sample_record (lit ''box'') (lit ''box'') 7717)) 6);
       r3 = snd (roster_apply r2 (Removed (lit ''mac'')) 7) in
   map_option rec_presence (row_of r2 (replicate 32 7)) = Some Online \<and>
   map_option rec_presence (row_of r3 (replicate 32 7)) = Some Away"
proof -
  have "pr_host (sample_peer (lit ''mac'') 7717) = pr_host (sample_peer (lit ''box'') 7717)"
    "pr_host (sample_peer (lit ''box'') 7717) \<noteq> ro_local (roster_new (replicate 32 1))"
    "row_of (roster_new (replicate 32 1)) (pr_host (sample_peer (lit ''box'') 7717)) = None"
    "rr_fullname (sample_record (lit ''mac'') (lit ''mac'') 7717) \<noteq> rr_fullname (sample_record (lit ''box'') (lit ''box'') 7717)"
    by (simp_all add: sample_peer_def sample_record_def roster_new_def lit_def)
  note stale_goodbye_greys_host [OF wf_roster_new sample_claims(1,3) this, of 5 6 7]
  then show ?thesis by (simp add: Let_def sample_peer_def [of "lit ''box''"] sample_record_def [of "lit ''mac''"])
qed

section \<open>Several sources\<close>

text \<open>What one peer does to the entry of its host.\<close>

fun absorb :: "peer \<Rightarrow> peer option \<Rightarrow> peer option" where
  "absorb p None = Some p"
| "absorb p (Some e) =
     Some (e\<lparr>pr_label := (if pr_label e = [] then pr_label p else pr_label e),
            pr_endpoints := fold add_route (pr_endpoints p) (pr_endpoints e)\<rparr>)"

abbreviation route :: "endpoint \<Rightarrow> reachability \<times> ustring" where
  "route e \<equiv> (ep_reachability e, ep_address e)"

lemma add_routes: "route ` set (fold add_route es acc) = route ` set es \<union> route ` set acc"
proof (induction es arbitrary: acc)
  case (Cons e es)
  have "route ` set (add_route e acc) = insert (route e) (route ` set acc)"
    by (auto simp: add_route_def list_ex_iff same_route_def image_iff) metis
  then show ?case using Cons [of "add_route e acc"] by auto
qed simp

lemma union_peer_map:
  "sorted_wrt (<) (map fst m) \<Longrightarrow> map_of (union_peer p m) = (map_of m)(pr_host p := absorb p (map_of m (pr_host p)))"
  by (auto simp: union_peer_def Let_def bt_put_map_of split: option.splits)

lemma union_peer_sorted: "sorted_wrt (<) (map fst m) \<Longrightarrow> sorted_wrt (<) (map fst (union_peer p m))"
  by (auto simp: union_peer_def Let_def intro: bt_put_sorted split: option.splits)

lemma union_sorted: "sorted_wrt (<) (map fst m) \<Longrightarrow> sorted_wrt (<) (map fst (fold union_peer ps m))"
  by (induction ps arbitrary: m) (simp_all add: union_peer_sorted)

lemma union_map:
  "sorted_wrt (<) (map fst m) \<Longrightarrow>
   map_of (fold union_peer ps m) h = fold absorb (filter (\<lambda>p. pr_host p = h) ps) (map_of m h)"
  by (induction ps arbitrary: m) (auto simp: union_peer_sorted union_peer_map)

definition merged_peer :: "peer list \<Rightarrow> peer \<Rightarrow> bool" where
  "merged_peer qs p \<longleftrightarrow>
     route ` set (pr_endpoints p) = (\<Union>q \<in> set qs. route ` set (pr_endpoints q)) \<and>
     pr_label p = (case find_first (\<lambda>l. l \<noteq> []) (map pr_label qs) of Some l \<Rightarrow> l | None \<Rightarrow> [])"

lemma find_first_snoc:
  "find_first P (xs @ [x]) = (case find_first P xs of Some y \<Rightarrow> Some y | None \<Rightarrow> if P x then Some x else None)"
  by (induction xs) auto

lemma absorb_fold:
  "qs \<noteq> [] \<Longrightarrow> \<exists>p. fold absorb qs None = Some p \<and> merged_peer qs p \<and> pr_host p = pr_host (hd qs)"
proof (induction qs rule: rev_induct)
  case (snoc q qs)
  show ?case
  proof (cases "qs = []")
    case True
    then show ?thesis by (simp add: merged_peer_def)
  next
    case False
    then obtain p where p: "fold absorb qs None = Some p" "merged_peer qs p" "pr_host p = pr_host (hd qs)"
      using snoc.IH by blast
    have label: "find_first (\<lambda>l. l \<noteq> []) ls = Some [] \<Longrightarrow> False" for ls :: "ustring list"
      by (induction ls) (auto split: if_splits)
    show ?thesis using p False label
      by (fastforce simp: merged_peer_def find_first_snoc add_routes split: option.splits)
  qed
qed simp

text \<open>
  C33. Several sources make one listing.  There is one row for every host any source knows, in the order of
  the ids; it has the routes of all the sources and the first label that is not empty; and the route it is
  dialled by is the nearest any source knows, so the local network wins over the tunnel.
\<close>

theorem layered_prefers_nearest:
  "let out = layered_peers layers; known = (\<lambda>h. filter (\<lambda>q. pr_host q = h) (concat layers)) in
     sorted_wrt (<) (map pr_host out) \<and> pr_host ` set out = pr_host ` set (concat layers) \<and>
     list_all (\<lambda>p. merged_peer (known (pr_host p)) p \<and>
       (case best_endpoint p of
          None \<Rightarrow> list_all (\<lambda>q. pr_endpoints q = []) (known (pr_host p))
        | Some e \<Rightarrow> e \<in> set (pr_endpoints p) \<and>
            list_all (\<lambda>q. list_all (\<lambda>x. ep_reachability e \<le> ep_reachability x) (pr_endpoints q)) (known (pr_host p)))) out"
proof -
  let ?m = "fold union_peer (concat layers) []" and ?k = "\<lambda>h. filter (\<lambda>q. pr_host q = h) (concat layers)"
  have sorted: "sorted_wrt (<) (map fst ?m)" by (rule union_sorted) simp
  have at: "map_of ?m h = fold absorb (?k h) None" for h using union_map [of "[]" "concat layers" h] by simp
  have row: "merged_peer (?k h) p \<and> pr_host p = h \<and> ?k h \<noteq> []" if "(h, p) \<in> set ?m" for h p
  proof -
    have some: "fold absorb (?k h) None = Some p"
      using that map_of_is_SomeI [OF sorted_keys_distinct [OF sorted]] at by simp
    then have ne: "?k h \<noteq> []" by auto
    then have "pr_host (hd (?k h)) = h" using hd_in_set by fastforce
    then show ?thesis using absorb_fold [OF ne] some ne by auto
  qed
  have keys: "map pr_host (map snd ?m) = map fst ?m" using row by auto
  have known: "h \<in> fst ` set ?m" if "?k h \<noteq> []" for h
    using absorb_fold [OF that] at [of h] by (force dest: map_of_SomeD)
  have hosts: "pr_host ` set (map snd ?m) = pr_host ` set (concat layers)"
  proof -
    have "pr_host ` set (map snd ?m) = fst ` set ?m" using arg_cong [OF keys, of set] by (simp add: image_image)
    also have "\<dots> = {h. ?k h \<noteq> []}"
    proof (rule set_eqI, unfold mem_Collect_eq, rule iffI)
      fix h
      assume "h \<in> fst ` set ?m"
      then obtain p where "(h, p) \<in> set ?m" by force
      then show "?k h \<noteq> []" using row by blast
    qed (rule known)
    also have "\<dots> = pr_host ` set (concat layers)" by (auto simp: filter_empty_conv)
    finally show ?thesis .
  qed
  have best: "case best_endpoint p of
          None \<Rightarrow> list_all (\<lambda>q. pr_endpoints q = []) (?k h)
        | Some e \<Rightarrow> e \<in> set (pr_endpoints p) \<and>
            list_all (\<lambda>q. list_all (\<lambda>x. ep_reachability e \<le> ep_reachability x) (pr_endpoints q)) (?k h)"
    if "merged_peer (?k h) p" for h p
  proof (cases "best_endpoint p")
    case None
    then have "pr_endpoints p = []" by (simp add: best_endpoint_def first_min_None)
    then show ?thesis using that None by (auto simp: merged_peer_def list_all_iff)
  next
    case (Some e)
    have e: "e \<in> set (pr_endpoints p)" "\<forall>y \<in> set (pr_endpoints p). ep_reachability e \<le> ep_reachability y"
      using first_min_least [OF Some [unfolded best_endpoint_def]] by simp_all
    have "ep_reachability e \<le> ep_reachability x" if x: "q \<in> set (?k h)" "x \<in> set (pr_endpoints q)" for q x
    proof -
      have "route x \<in> route ` set (pr_endpoints p)"
        using \<open>merged_peer (?k h) p\<close> x unfolding merged_peer_def by blast
      then show ?thesis using e(2) by auto
    qed
    then show ?thesis using Some e(1) by (auto simp: list_all_iff)
  qed
  have "sorted_wrt (<) (map pr_host (map snd ?m))" unfolding keys by (rule sorted)
  moreover have "merged_peer (?k (pr_host p)) p" if "p \<in> set (map snd ?m)" for p using that row by auto
  ultimately show ?thesis
    unfolding Let_def layered_peers_def list_all_iff [where xs = "map snd ?m"] using hosts best by blast
qed

end
