(* ===== verification/Fleet.thy ===== *)
theory Fleet
  imports Wire Roster
begin

text \<open>
  Command history across machines (\<open>crates/zest-proto/src/search.rs\<close>, the pure half of
  \<open>crates/zest-daemon/src/block_store.rs\<close>) and the rules of the fleet (\<open>crates/zest-fleet/src/lib.rs\<close>): what a
  machine is, how to reach it, and how the answers of many hosts become one list.
\<close>

section \<open>Search hits\<close>

record block_match =
  bm_host :: "byte list"
  bm_session :: "nat option"
  bm_block :: nat
  bm_title :: ustring
  bm_command :: ustring
  bm_command_truncated :: bool
  bm_cwd :: ustring
  bm_state :: wire_state
  bm_started_ms :: "nat option"
  bm_ended_ms :: "nat option"
  bm_context :: "context_payload option"
  bm_author :: "byte list option"

definition LIMIT_DEFAULT :: nat where "LIMIT_DEFAULT = 50"

definition LIMIT_CAP :: nat where "LIMIT_CAP = 200"

definition clamp_limit :: "nat \<Rightarrow> nat" where
  "clamp_limit asked = (if asked = 0 then LIMIT_DEFAULT else min asked LIMIT_CAP)"

text \<open>A query, folded once; \<open>lower\<close> is \<open>str::to_lowercase\<close>.\<close>

record needle =
  ne_folded :: ustring
  ne_ascii :: bool

definition needle_new :: "(ustring \<Rightarrow> ustring) \<Rightarrow> ustring \<Rightarrow> needle" where
  "needle_new lower query = \<lparr>ne_folded = lower query, ne_ascii = list_all (\<lambda>c. c < 128) query\<rparr>"

text \<open>\<open>str::contains\<close>.\<close>

fun contains_text :: "ustring \<Rightarrow> ustring \<Rightarrow> bool" where
  "contains_text [] n \<longleftrightarrow> n = []"
| "contains_text (c # s) n \<longleftrightarrow> take (length n) (c # s) = n \<or> contains_text s n"

definition needle_matches :: "(ustring \<Rightarrow> ustring) \<Rightarrow> needle \<Rightarrow> ustring \<Rightarrow> bool" where
  "needle_matches lower n command \<longleftrightarrow> (if ne_folded n = [] then True else contains_text (lower command) (ne_folded n))"

definition recency :: "block_match \<Rightarrow> nat" where
  "recency m =
     (case bm_ended_ms m of Some t \<Rightarrow> t | None \<Rightarrow> (case bm_started_ms m of Some t \<Rightarrow> t | None \<Rightarrow> 0))"

text \<open>\<open>rank\<close>: a stable sort, newest first, then by the higher block id.\<close>

definition newer :: "block_match \<Rightarrow> block_match \<Rightarrow> bool" where
  "newer a b \<longleftrightarrow> recency b < recency a \<or> (recency a = recency b \<and> bm_block b < bm_block a)"

fun rank_insert :: "block_match \<Rightarrow> block_match list \<Rightarrow> block_match list" where
  "rank_insert m [] = [m]"
| "rank_insert m (x # xs) = (if newer x m then x # rank_insert m xs else m # x # xs)"

definition rank_matches :: "block_match list \<Rightarrow> block_match list" where
  "rank_matches ms = foldr rank_insert ms []"

definition match_from_block :: "byte list \<Rightarrow> nat option \<Rightarrow> ustring \<Rightarrow> block \<Rightarrow> block_match" where
  "match_from_block host session title b =
     \<lparr>bm_host = host, bm_session = session, bm_block = b_id b, bm_title = title, bm_command = b_command b,
      bm_command_truncated = False, bm_cwd = b_cwd b, bm_state = state_to_wire (b_state b),
      bm_started_ms = b_started_ms b, bm_ended_ms = b_ended_ms b,
      bm_context = map_option context_to_wire (b_context b), bm_author = b_author b\<rparr>"

section \<open>Stored blocks\<close>

record stored_block =
  sb_run :: nat
  sb_session :: nat
  sb_id :: nat
  sb_command :: ustring
  sb_command_truncated :: bool
  sb_cwd :: ustring
  sb_branch :: ustring
  sb_exit_code :: "int option"
  sb_started_ms :: nat
  sb_ended_ms :: nat
  sb_author :: "byte list option"

definition MAX_COMMAND_BYTES :: nat where "MAX_COMMAND_BYTES = 4096"

definition cut_command :: "ustring \<Rightarrow> ustring \<times> bool" where
  "cut_command command =
     (if length (utf8_encode command) \<le> MAX_COMMAND_BYTES then (command, False)
      else (fit_bytes MAX_COMMAND_BYTES command, True))"

definition stored_from_block :: "nat \<Rightarrow> nat \<Rightarrow> block \<Rightarrow> stored_block option" where
  "stored_from_block run session b =
     (case b_state b of
        Finished code \<Rightarrow>
          (let (command, truncated) = cut_command (b_command b)
           in Some \<lparr>sb_run = run, sb_session = session, sb_id = b_id b, sb_command = command, sb_command_truncated = truncated,
                sb_cwd = b_cwd b, sb_branch = (case b_context b of Some c \<Rightarrow> bc_branch c | None \<Rightarrow> []), sb_exit_code = code,
                sb_started_ms = (case b_started_ms b of Some t \<Rightarrow> t | None \<Rightarrow> 0),
                sb_ended_ms = (case b_ended_ms b of Some t \<Rightarrow> t | None \<Rightarrow> (case b_started_ms b of Some t \<Rightarrow> t | None \<Rightarrow> 0)),
                sb_author = b_author b\<rparr>)
      | _ \<Rightarrow> None)"

definition to_match :: "byte list \<Rightarrow> stored_block \<Rightarrow> block_match" where
  "to_match host s =
     \<lparr>bm_host = host, bm_session = None, bm_block = sb_id s, bm_title = [], bm_command = sb_command s,
      bm_command_truncated = sb_command_truncated s, bm_cwd = sb_cwd s, bm_state = WFinished (sb_exit_code s),
      bm_started_ms = Some (sb_started_ms s), bm_ended_ms = Some (sb_ended_ms s),
      bm_context = (if sb_branch s = [] then None else Some \<lparr>cp_branch = sb_branch s, cp_venv = [], cp_kube = []\<rparr>),
      bm_author = sb_author s\<rparr>"

text \<open>\<open>merge\<close>: a live block hides its stored copy.\<close>

definition merge_stored :: "(nat \<times> block_match) list \<Rightarrow> stored_block list \<Rightarrow> byte list \<Rightarrow> nat \<Rightarrow> block_match list \<times> bool" where
  "merge_stored live stored host limit =
     (let seen = map (\<lambda>(run, m). (run, bm_block m)) live;
          out = map snd live @ map (to_match host) (filter (\<lambda>s. (sb_run s, sb_id s) \<notin> set seen) stored);
          out = rank_matches out
      in (take limit out, limit < length out))"

section \<open>Machines\<close>

text \<open>
  What is known of a machine; of the listing of its sessions and of its offer the rules here read only
  whether the daemon said that it holds an account token.
\<close>

record fleet_host =
  fh_host :: "byte list"
  fh_label :: ustring
  fh_presence :: presence
  fh_local :: bool
  fh_address :: "ustring option"
  fh_reachability :: "reachability option"
  fh_enrolled :: bool
  fh_has_token :: "bool option"
  fh_relay_online :: bool

definition is_online :: "fleet_host \<Rightarrow> bool" where
  "is_online h \<longleftrightarrow> fh_local h \<or> fh_presence h = Online \<or> fh_relay_online h"

definition needs_enrollment :: "fleet_host \<Rightarrow> bool" where
  "needs_enrollment h \<longleftrightarrow> (case fh_has_token h of Some held \<Rightarrow> \<not> held | None \<Rightarrow> \<not> fh_enrolled h)"

datatype host_route = LocalSocket ustring | RouteTcp ustring | Relay "byte list" ustring

definition is_local_route :: "host_route \<Rightarrow> bool" where
  "is_local_route r \<longleftrightarrow> (case r of LocalSocket _ \<Rightarrow> True | _ \<Rightarrow> False)"

definition dial_hint :: "host_route \<Rightarrow> ustring option" where
  "dial_hint r = (case r of RouteTcp a \<Rightarrow> Some a | LocalSocket _ \<Rightarrow> None | Relay _ _ \<Rightarrow> None)"

definition best_route :: "fleet_host \<Rightarrow> host_route option \<Rightarrow> ustring option \<Rightarrow> bool \<Rightarrow> host_route option" where
  "best_route h local relay_origin signed_in =
     (if fh_local h then local
      else case (if fh_presence h = Online then fh_address h else None) of
             Some a \<Rightarrow> Some (RouteTcp a)
           | None \<Rightarrow>
               if fh_enrolled h \<and> signed_in then map_option (Relay (fh_host h)) relay_origin else None)"

record account_entry =
  ac_host :: "byte list"
  ac_label :: ustring
  ac_relay_online :: bool

definition account_row :: "account_entry \<Rightarrow> fleet_host" where
  "account_row e =
     \<lparr>fh_host = ac_host e, fh_label = ac_label e, fh_presence = Unseen, fh_local = False, fh_address = None,
      fh_reachability = Some Cloud, fh_enrolled = True, fh_has_token = None, fh_relay_online = ac_relay_online e\<rparr>"

text \<open>One entry laid over the listing: the first row of that host is marked, or a row is appended.\<close>

fun merge_entry :: "account_entry \<Rightarrow> fleet_host list \<Rightarrow> fleet_host list" where
  "merge_entry e [] = [account_row e]"
| "merge_entry e (h # hs) =
     (if fh_host h = ac_host e then h\<lparr>fh_enrolled := True, fh_relay_online := ac_relay_online e\<rparr> # hs
      else h # merge_entry e hs)"

definition merge_account :: "fleet_host list \<Rightarrow> account_entry list option \<Rightarrow> fleet_host list" where
  "merge_account out account = (case account of None \<Rightarrow> out | Some es \<Rightarrow> fold merge_entry es out)"

text \<open>\<open>retain\<close> with a set of keys seen: the first row of every key stays.\<close>

fun retain_first :: "('a \<Rightarrow> 'k) \<Rightarrow> 'k set \<Rightarrow> 'a list \<Rightarrow> 'a list" where
  "retain_first key seen [] = []"
| "retain_first key seen (x # xs) =
     (if key x \<in> seen then retain_first key seen xs else x # retain_first key (insert (key x) seen) xs)"

definition match_key :: "block_match \<Rightarrow> byte list \<times> nat option \<times> nat" where
  "match_key m = (bm_host m, bm_session m, bm_block m)"

definition merge_matches :: "(byte list \<times> block_match list) list \<Rightarrow> block_match list \<Rightarrow> nat \<Rightarrow> block_match list" where
  "merge_matches answers seed cap =
     (let answered = set (map fst answers);
          out = concat (map snd answers) @ filter (\<lambda>m. bm_host m \<notin> answered) seed
      in take cap (retain_first match_key {} (rank_matches out)))"

end
