(* ===== verification/FleetSpec.thy ===== *)
theory FleetSpec
  imports Fleet "HOL-Library.Multiset"
begin

text \<open>What a search over the fleet returns, and what the rules of the fleet promise.\<close>

section \<open>Ranking\<close>

lemma newer_trans: "\<not> newer a b \<Longrightarrow> \<not> newer b c \<Longrightarrow> \<not> newer a c"
  by (auto simp: newer_def)

lemma newer_asym: "newer a b \<Longrightarrow> \<not> newer b a"
  by (auto simp: newer_def)

abbreviation ranked :: "block_match list \<Rightarrow> bool" where
  "ranked \<equiv> sorted_wrt (\<lambda>a b. \<not> newer b a)"

lemma rank_insert_mset [simp]: "mset (rank_insert m xs) = add_mset m (mset xs)"
  by (induction xs) auto

lemma rank_insert_set [simp]: "set (rank_insert m xs) = insert m (set xs)"
  by (induction xs) auto

lemma rank_insert_ranked: "ranked xs \<Longrightarrow> ranked (rank_insert m xs)"
proof (induction xs)
  case (Cons x xs)
  show ?case
  proof (cases "newer x m")
    case True
    then show ?thesis using Cons newer_asym [OF True] by auto
  next
    case False
    then have "\<not> newer y m" if "y \<in> set xs" for y using Cons.prems that newer_trans [of y x m] by auto
    then show ?thesis using Cons.prems False by auto
  qed
qed simp

lemma rank_matches_mset: "mset (rank_matches ms) = mset ms"
  by (induction ms) (simp_all add: rank_matches_def)

lemma rank_matches_ranked: "ranked (rank_matches ms)"
  by (induction ms) (simp_all add: rank_matches_def rank_insert_ranked)

lemma rank_insert_filter:
  "ranked xs \<Longrightarrow> filter (\<lambda>x. recency x = t \<and> bm_block x = b) (rank_insert m xs) =
     (if recency m = t \<and> bm_block m = b then m # filter (\<lambda>x. recency x = t \<and> bm_block x = b) xs
      else filter (\<lambda>x. recency x = t \<and> bm_block x = b) xs)"
  by (induction xs) (auto simp: newer_def)

lemma rank_matches_stable:
  "filter (\<lambda>x. recency x = t \<and> bm_block x = b) (rank_matches ms) = filter (\<lambda>x. recency x = t \<and> bm_block x = b) ms"
proof (induction ms)
  case (Cons m ms)
  then show ?case using rank_insert_filter [OF rank_matches_ranked, of t b m ms] by (simp add: rank_matches_def)
qed (simp add: rank_matches_def)

section \<open>Merging\<close>

lemma retain_first_sorted: "sorted_wrt R xs \<Longrightarrow> sorted_wrt R (retain_first key seen xs)"
proof (induction xs arbitrary: seen)
  case (Cons x xs)
  have "set (retain_first key s xs) \<subseteq> set xs" for s by (induction xs arbitrary: s) auto
  then show ?case using Cons by auto
qed simp

lemma retain_first_keys:
  "key ` set (retain_first key seen xs) = key ` set xs - seen" "distinct (map key (retain_first key seen xs))"
  "set (retain_first key seen xs) \<subseteq> set xs"
proof (induction xs arbitrary: seen)
  case (Cons x xs)
  case 1
  show ?case using Cons(1) by auto
  case 2
  show ?case using Cons(1,2) by (auto simp: image_iff)
  case 3
  show ?case using Cons(3) by auto
qed auto

text \<open>The first row of a key in a ranked list is the newest of that key.\<close>

lemma retain_first_newest:
  "ranked xs \<Longrightarrow> x \<in> set (retain_first key seen xs) \<Longrightarrow> y \<in> set xs \<Longrightarrow> key y = key x \<Longrightarrow> \<not> newer y x"
proof (induction xs arbitrary: seen)
  case (Cons z xs)
  show ?case
  proof (cases "key z \<in> seen")
    case True
    have "key x \<notin> seen" using retain_first_keys(1) [of key seen "z # xs"] Cons.prems(2) by blast
    then have "y \<in> set xs" using Cons.prems(3,4) True by auto
    then show ?thesis using Cons True by auto
  next
    case False
    show ?thesis
    proof (cases "x = z")
      case True
      then show ?thesis using Cons.prems(1,3) newer_asym by auto
    next
      case x: False
      then have "x \<in> set (retain_first key (insert (key z) seen) xs)" using Cons.prems(2) False by simp
      moreover from this have "key x \<noteq> key z" using retain_first_keys(1) [of key "insert (key z) seen" xs] by blast
      ultimately show ?thesis using Cons.IH [of "insert (key z) seen"] Cons.prems by auto
    qed
  qed
qed simp

text \<open>What the hosts and the window's own replicas offer for a query.\<close>

definition offered :: "(byte list \<times> block_match list) list \<Rightarrow> block_match list \<Rightarrow> block_match set" where
  "offered answers seed = (\<Union>a \<in> set answers. set (snd a)) \<union> {m \<in> set seed. bm_host m \<notin> fst ` set answers}"

text \<open>
  C38. A search over the fleet shows the newest.  The list is at most as long as asked and newest first; it
  has one row for a block of a session on a host, the newest there is, and only what a host answered or,
  for a host that has not, what the window holds; and unless the list is full every block offered is on it.
\<close>

theorem merge_matches_newest:
  "let out = merge_matches answers seed cap in
     length out \<le> cap \<and> ranked out \<and> distinct (map match_key out) \<and> set out \<subseteq> offered answers seed \<and>
     (length out < cap \<longrightarrow> match_key ` set out = match_key ` offered answers seed) \<and>
     (\<forall>x \<in> set out. \<forall>y \<in> offered answers seed. match_key y = match_key x \<longrightarrow> \<not> newer y x) \<and>
     (\<forall>y \<in> offered answers seed. match_key y \<notin> match_key ` set out \<longrightarrow> (\<forall>x \<in> set out. \<not> newer y x))"
proof -
  define all where "all = concat (map snd answers) @ filter (\<lambda>m. bm_host m \<notin> set (map fst answers)) seed"
  define kept where "kept = retain_first match_key {} (rank_matches all)"
  have out: "merge_matches answers seed cap = take cap kept" by (simp add: merge_matches_def kept_def all_def Let_def)
  have set: "set (rank_matches all) = offered answers seed"
  proof -
    have "set (rank_matches all) = set all" using rank_matches_mset [of all] mset_eq_setD by blast
    then show ?thesis by (auto simp: all_def offered_def)
  qed
  have kept: "ranked kept" "distinct (map match_key kept)" "set kept \<subseteq> offered answers seed"
    "match_key ` set kept = match_key ` offered answers seed"
    using retain_first_sorted [OF rank_matches_ranked, of match_key "{}" all] retain_first_keys [of match_key "{}" "rank_matches all"]
    by (simp_all add: kept_def set)
  have new: "\<not> newer y x" if "x \<in> set kept" "y \<in> offered answers seed" "match_key y = match_key x" for x y
    using retain_first_newest [OF rank_matches_ranked, of x match_key "{}" all y] that by (simp add: kept_def set)
  have rest: "\<not> newer y x" if y: "y \<in> offered answers seed" "match_key y \<notin> match_key ` set (take cap kept)" and x: "x \<in> set (take cap kept)" for x y
  proof -
    obtain z where z: "z \<in> set kept" "match_key z = match_key y" using kept(4) y(1) by (metis imageE imageI)
    then have "z \<in> set (drop cap kept)" using y(2) by (metis Un_iff append_take_drop_id imageI set_append)
    moreover have "ranked (take cap kept @ drop cap kept)" using kept(1) by simp
    ultimately have "\<not> newer z x" using x unfolding sorted_wrt_append by blast
    then show ?thesis using new [OF z(1) y(1)] z(2) newer_trans by metis
  qed
  have "length (take cap kept) < cap \<Longrightarrow> take cap kept = kept" by simp
  then show ?thesis unfolding out Let_def
    using kept new rest sorted_wrt_take [OF kept(1)] distinct_take [of "map match_key kept" cap]
    by (auto simp: take_map dest: in_set_takeD)
qed

definition sample_match :: "byte list \<Rightarrow> nat option \<Rightarrow> nat \<Rightarrow> ustring \<Rightarrow> nat \<Rightarrow> block_match" where
  "sample_match host session block command ended =
     \<lparr>bm_host = host, bm_session = session, bm_block = block, bm_title = [], bm_command = command,
      bm_command_truncated = False, bm_cwd = [], bm_state = WFinished (Some 0), bm_started_ms = Some 0,
      bm_ended_ms = Some ended, bm_context = None, bm_author = None\<rparr>"

theorem merge_matches_newest_witness:
  "map bm_command (merge_matches [([1], [sample_match [1] (Some 1) 4 [97] 10]), ([2], [])]
     [sample_match [2] (Some 1) 1 [98] 30, sample_match [3] (Some 1) 1 [99] 20, sample_match [3] (Some 1) 1 [100] 5] 2)
   = [[99], [97]] \<and>
   \<not> newer (sample_match [3] (Some 1) 1 [100] 5) (sample_match [3] (Some 1) 1 [99] 20)"
proof -
  let ?a = "[([1::byte], [sample_match [1] (Some 1) 4 [97] 10]), ([2], [])]"
  let ?s = "[sample_match [2] (Some 1) 1 [98] 30, sample_match [3] (Some 1) 1 [99] 20, sample_match [3] (Some 1) 1 [100] 5]"
  let ?o = "merge_matches ?a ?s 2"
  have eq: "?o = [sample_match [3] (Some 1) 1 [99] 20, sample_match [1] (Some 1) 4 [97] 10]"
    by (simp add: merge_matches_def rank_matches_def sample_match_def newer_def recency_def match_key_def)
  have "\<forall>x \<in> set ?o. \<forall>y \<in> offered ?a ?s. match_key y = match_key x \<longrightarrow> \<not> newer y x"
    using merge_matches_newest [of ?a ?s 2] unfolding Let_def by blast
  moreover have "sample_match [3] (Some 1) 1 [100] 5 \<in> offered ?a ?s"
    by (simp add: offered_def sample_match_def)
  ultimately have "\<not> newer (sample_match [3] (Some 1) 1 [100] 5) (sample_match [3] (Some 1) 1 [99] 20)"
    unfolding eq by (simp add: sample_match_def match_key_def)
  then show ?thesis unfolding eq by (simp add: sample_match_def)
qed

section \<open>Finished sessions\<close>

text \<open>A stored block offers no session, so the run that tells two of them apart is lost on the way to the fleet.\<close>

lemma match_key_stored: "match_key (to_match host s) = (host, None, sb_id s)"
  by (simp add: match_key_def to_match_def)

text \<open>
  A search of one daemon: the answer is newest first and within the limit, says so when it leaves something
  out, and holds a block that is live once: its stored copy is not on the list.
\<close>

lemma merge_stored_answer:
  assumes "merge_stored live stored host limit = (out, truncated)"
  shows "length out \<le> limit" "ranked out"
    "truncated \<longleftrightarrow> limit < length live + length (filter (\<lambda>s. (sb_run s, sb_id s) \<notin> (\<lambda>(r, m). (r, bm_block m)) ` set live) stored)"
    "\<not> truncated \<Longrightarrow> mset out = mset (map snd live) +
       mset (map (to_match host) (filter (\<lambda>s. (sb_run s, sb_id s) \<notin> (\<lambda>(r, m). (r, bm_block m)) ` set live) stored))"
proof -
  define all where "all = map snd live @
    map (to_match host) (filter (\<lambda>s. (sb_run s, sb_id s) \<notin> (\<lambda>(r, m). (r, bm_block m)) ` set live) stored)"
  have out: "out = take limit (rank_matches all)" "truncated \<longleftrightarrow> limit < length (rank_matches all)"
    using assms by (simp_all add: merge_stored_def all_def Let_def)
  have len: "length (rank_matches all) = length all" by (rule mset_eq_length [OF rank_matches_mset])
  show "length out \<le> limit" by (simp add: out)
  show "ranked out" unfolding out by (rule sorted_wrt_take [OF rank_matches_ranked])
  show "truncated \<longleftrightarrow> limit < length live + length (filter (\<lambda>s. (sb_run s, sb_id s) \<notin> (\<lambda>(r, m). (r, bm_block m)) ` set live) stored)"
    unfolding out len by (simp add: all_def)
  show "mset out = mset (map snd live) +
       mset (map (to_match host) (filter (\<lambda>s. (sb_run s, sb_id s) \<notin> (\<lambda>(r, m). (r, bm_block m)) ` set live) stored))" if "\<not> truncated"
    using that unfolding out by (simp add: rank_matches_mset) (simp add: all_def)
qed

lemma retain_first_one_key:
  "(\<forall>x \<in> set xs. key x = k) \<Longrightarrow> xs \<noteq> [] \<Longrightarrow> length (retain_first key {} xs) = 1"
proof -
  assume one: "\<forall>x \<in> set xs. key x = k" and "xs \<noteq> []"
  have "key ` set xs = {k}" using one \<open>xs \<noteq> []\<close> by (auto simp: neq_Nil_conv)
  then have "set (map key (retain_first key {} xs)) = {k}" using retain_first_keys(1) [of key "{}" xs] by simp
  then show ?thesis using distinct_card [OF retain_first_keys(2) [of key "{}" xs]] by simp
qed

text \<open>
  C39. The merge loses history.  Blocks are numbered from the start in every session, and a stored block's row
  names no session: when a daemon answers with the blocks of several finished sessions that have the same
  number, and no more of them than were asked for, all of them are in its answer, and the list the fleet makes of the answer has one row.
\<close>

theorem stored_history_folded:
  assumes "stored \<noteq> []" "\<forall>s \<in> set stored. sb_id s = b" "length stored \<le> limit" "0 < cap"
  shows "mset (fst (merge_stored [] stored host limit)) = mset (map (to_match host) stored) \<and>
    length (merge_matches [(host, fst (merge_stored [] stored host limit))] [] cap) = 1"
proof -
  obtain out truncated where out: "merge_stored [] stored host limit = (out, truncated)" by fastforce
  have all: "mset out = mset (map (to_match host) stored)"
    using merge_stored_answer(3,4) [OF out] assms(3) by simp
  then have set: "set out = to_match host ` set stored" by (metis list.set_map mset_eq_setD)
  have ranked: "set (rank_matches out) = set out" using rank_matches_mset mset_eq_setD by blast
  have "length (retain_first match_key {} (rank_matches out)) = 1"
  proof (rule retain_first_one_key [where k = "(host, None, b)"])
    show "\<forall>x \<in> set (rank_matches out). match_key x = (host, None, b)"
      using assms(2) by (auto simp: ranked set match_key_stored)
    show "rank_matches out \<noteq> []" using ranked set assms(1) by (metis image_is_empty set_empty)
  qed
  then show ?thesis using all assms(4) out by (simp add: merge_matches_def Let_def)
qed

definition sample_stored :: "nat \<Rightarrow> ustring \<Rightarrow> nat \<Rightarrow> stored_block" where
  "sample_stored run command ended =
     \<lparr>sb_run = run, sb_session = 1, sb_id = 0, sb_command = command, sb_command_truncated = False, sb_cwd = [],
      sb_branch = [], sb_exit_code = Some 0, sb_started_ms = 0, sb_ended_ms = ended, sb_author = None\<rparr>"

theorem stored_history_folded_witness:
  "length (fst (merge_stored [] [sample_stored 7 [97] 10, sample_stored 8 [98] 20] [1] 50)) = 2 \<and>
   length (merge_matches [([1], fst (merge_stored [] [sample_stored 7 [97] 10, sample_stored 8 [98] 20] [1] 50))] [] 50) = 1"
proof -
  let ?s = "[sample_stored 7 [97] 10, sample_stored 8 [98] 20]"
  have "mset (fst (merge_stored [] ?s [1] 50)) = mset (map (to_match [1]) ?s) \<and>
    length (merge_matches [([1], fst (merge_stored [] ?s [1] 50))] [] 50) = 1"
    by (rule stored_history_folded [where b = 0]) (simp_all add: sample_stored_def)
  then show ?thesis using mset_eq_length [of "fst (merge_stored [] ?s [1] 50)" "map (to_match [1]) ?s"] by simp
qed

section \<open>Routes\<close>

text \<open>A route to another machine is over the network or through the relay, and the relay only as a last resort.\<close>

lemma best_route_remote:
  assumes "\<not> fh_local h" "best_route h local relay_origin signed_in = Some r"
  shows "\<not> is_local_route r"
    "r = RouteTcp a \<Longrightarrow> fh_presence h = Online \<and> fh_address h = Some a"
    "r = Relay i o' \<Longrightarrow> i = fh_host h \<and> relay_origin = Some o' \<and> fh_enrolled h \<and> signed_in \<and> dial_hint r = None"
  using assms by (auto simp: best_route_def is_local_route_def dial_hint_def split: if_splits option.splits)

lemma merge_entry_hosts: "fh_host ` set (merge_entry e hs) = insert (ac_host e) (fh_host ` set hs)"
  by (induction hs) (auto simp: account_row_def)

lemma merge_entry_prefix: "\<exists>new. map fh_host (merge_entry e hs) = map fh_host hs @ new \<and> (new = [] \<longleftrightarrow> ac_host e \<in> fh_host ` set hs)"
  by (induction hs) (auto simp: account_row_def)

text \<open>Laying the account over the listing adds rows and hides none.\<close>

lemma merge_account_hosts:
  "fh_host ` set (merge_account out account) = fh_host ` set out \<union> (case account of None \<Rightarrow> {} | Some es \<Rightarrow> ac_host ` set es)"
proof (cases account)
  case (Some es)
  have "fh_host ` set (fold merge_entry es out) = fh_host ` set out \<union> ac_host ` set es"
    by (induction es arbitrary: out) (auto simp: merge_entry_hosts)
  then show ?thesis by (simp add: merge_account_def Some)
qed (simp add: merge_account_def)

end
