(* ===== verification/Config.thy ===== *)
theory Config
  imports Text OrdMap Complex_Main
begin

text \<open>
  The settings cascade (\<open>crates/zest-config/src/cascade.rs\<close>, \<open>invalidate.rs\<close>, \<open>migrate.rs\<close>, \<open>trust.rs\<close>,
  the text functions of \<open>schema.rs\<close>, \<open>profiles.rs\<close> and \<open>load\<close> of \<open>lib.rs\<close>).  Tables are what the TOML
  parser returns; reading settings off a table and printing them is the derived serialiser's, a parameter.
\<close>

section \<open>Values\<close>

text \<open>Floats by their bits, dates by their text: nothing here looks into either.\<close>

datatype toml_value =
    TomlString ustring
  | TomlInteger int
  | TomlFloat "64 word"
  | TomlBoolean bool
  | TomlDatetime ustring
  | TomlArray "toml_value list"
  | TomlTable "(ustring \<times> toml_value) list"

type_synonym table = "(ustring \<times> toml_value) list"

definition as_table :: "toml_value \<Rightarrow> table option" where
  "as_table v = (case v of TomlTable t \<Rightarrow> Some t | _ \<Rightarrow> None)"

section \<open>Merging layers\<close>

datatype source = SrcDefault | SrcUser | SrcProfile ustring | SrcWorkspace | SrcCommandLine

record layer =
  ly_source :: source
  ly_table :: table

type_synonym provenance = "ustring \<rightharpoonup> source"

definition is_mergeable :: "ustring \<Rightarrow> bool" where
  "is_mergeable path \<longleftrightarrow>
     path \<in> set [lit ''typography'', lit ''appearance'', lit ''window'', lit ''tabs'', lit ''shell'',
       lit ''scrolling'', lit ''cursor'', lit ''motion'', lit ''prompt'', lit ''history'']"

definition push_key :: "ustring \<Rightarrow> ustring \<Rightarrow> ustring" where
  "push_key path key = (if path = [] then key else path @ lit ''.'' @ key)"

function merge_into :: "table \<Rightarrow> source \<Rightarrow> ustring \<Rightarrow> table \<times> provenance \<Rightarrow> table \<times> provenance" where
  "merge_into [] src path acc = acc"
| "merge_into ((key, value) # rest) src path (dst, prov) =
     (let p = push_key path key
      in case (if is_mergeable p then as_table value else None) of
           Some incoming \<Rightarrow>
             (let existing = (case map_of dst key of
                    Some slot \<Rightarrow> (case as_table slot of Some t \<Rightarrow> t | None \<Rightarrow> [])
                  | None \<Rightarrow> [])
              in case merge_into incoming src p (existing, prov) of
                   (inner, prov) \<Rightarrow> merge_into rest src path (bt_put key (TomlTable inner) dst, prov))
         | None \<Rightarrow> merge_into rest src path (bt_put key value dst, prov(p \<mapsto> src)))"
  by pat_completeness auto
termination
  by (relation "measure (\<lambda>(t, _). size (TomlTable t))")
    (auto simp: as_table_def split: if_splits toml_value.splits)

function collect_leaves :: "ustring \<Rightarrow> table \<Rightarrow> ustring list" where
  "collect_leaves path [] = []"
| "collect_leaves path ((key, value) # rest) =
     (let p = push_key path key
      in case (if is_mergeable p then as_table value else None) of
           Some inner \<Rightarrow> collect_leaves p inner @ collect_leaves path rest
         | None \<Rightarrow> p # collect_leaves path rest)"
  by pat_completeness auto
termination
  by (relation "measure (\<lambda>(_, t). size (TomlTable t))")
    (auto simp: as_table_def split: if_splits toml_value.splits)

section \<open>What a change costs\<close>

datatype invalidation = NoCost | Free | AtlasBump | Geometry | SurfaceRebuild | Restart

fun invalidation_rank :: "invalidation \<Rightarrow> nat" where
  "invalidation_rank NoCost = 0"
| "invalidation_rank Free = 1"
| "invalidation_rank AtlasBump = 2"
| "invalidation_rank Geometry = 3"
| "invalidation_rank SurfaceRebuild = 4"
| "invalidation_rank Restart = 5"

text \<open>The derived order is that of the constructors.\<close>

instantiation invalidation :: linorder
begin

definition less_eq_invalidation :: "invalidation \<Rightarrow> invalidation \<Rightarrow> bool" where
  "less_eq_invalidation a b \<longleftrightarrow> invalidation_rank a \<le> invalidation_rank b"

definition less_invalidation :: "invalidation \<Rightarrow> invalidation \<Rightarrow> bool" where
  "less_invalidation a b \<longleftrightarrow> invalidation_rank a < invalidation_rank b"

instance
proof
  fix a b :: invalidation
  show "a \<le> b \<Longrightarrow> b \<le> a \<Longrightarrow> a = b"
    by (cases a; cases b) (simp_all add: less_eq_invalidation_def)
qed (auto simp: less_eq_invalidation_def less_invalidation_def)

end

definition invalidation_max :: "invalidation \<Rightarrow> invalidation \<Rightarrow> invalidation" where
  "invalidation_max a b = (if a < b then b else a)"

definition KEYS :: "(ustring \<times> invalidation) list" where
  "KEYS =
     [(lit ''schema_version'', NoCost),
      (lit ''profiles'', Free),
      (lit ''typography.families'', Geometry),
      (lit ''typography.size_pt'', Geometry),
      (lit ''typography.line_height'', Geometry),
      (lit ''typography.cell_width'', Geometry),
      (lit ''typography.letter_spacing'', Geometry),
      (lit ''typography.features'', AtlasBump),
      (lit ''typography.ligatures'', AtlasBump),
      (lit ''typography.builtin_box_drawing'', AtlasBump),
      (lit ''appearance.theme'', Free),
      (lit ''appearance.light_theme'', Free),
      (lit ''appearance.follow_system_theme'', Free),
      (lit ''appearance.text_gamma'', Free),
      (lit ''appearance.text_contrast'', Free),
      (lit ''appearance.text_antialias'', AtlasBump),
      (lit ''appearance.text_hinting'', AtlasBump),
      (lit ''window.opacity'', SurfaceRebuild),
      (lit ''window.chrome_opacity'', SurfaceRebuild),
      (lit ''window.backdrop'', SurfaceRebuild),
      (lit ''window.background_image'', Free),
      (lit ''window.background_fit'', Free),
      (lit ''window.background_dim'', Free),
      (lit ''window.padding'', Geometry),
      (lit ''window.custom_chrome'', Restart),
      (lit ''window.columns'', Restart),
      (lit ''window.rows'', Restart),
      (lit ''window.launch'', NoCost),
      (lit ''tabs.position'', Geometry),
      (lit ''tabs.strip_height'', Geometry),
      (lit ''tabs.sidebar_width'', Geometry),
      (lit ''tabs.show_single_tab'', Geometry),
      (lit ''tabs.restore'', NoCost),
      (lit ''tabs.attention_bell'', NoCost),
      (lit ''tabs.attention_notify'', NoCost),
      (lit ''tabs.close_action'', NoCost),
      (lit ''tabs.confirm_close_when_busy'', NoCost),
      (lit ''shell.command'', Restart),
      (lit ''shell.cwd'', Restart),
      (lit ''shell.env'', Restart),
      (lit ''scrolling.scrollback'', Free),
      (lit ''scrolling.lines_per_notch'', Free),
      (lit ''scrolling.scroll_on_output'', Free),
      (lit ''scrolling.scroll_on_keypress'', Free),
      (lit ''cursor.shape'', Free),
      (lit ''cursor.predict_echo'', Free),
      (lit ''cursor.blink'', Free),
      (lit ''cursor.blink_interval_ms'', Free),
      (lit ''cursor.trail'', Free),
      (lit ''motion.enabled'', Free),
      (lit ''motion.respect_system_reduce_motion'', Free),
      (lit ''motion.smooth_scroll'', Free),
      (lit ''motion.spring_response'', Free),
      (lit ''motion.spring_damping'', Free),
      (lit ''prompt.widgets'', Free),
      (lit ''prompt.compact_ps1'', Restart),
      (lit ''history.blocks'', Restart)]"

definition class_of :: "ustring \<Rightarrow> invalidation" where
  "class_of key = (case map_of KEYS key of Some c \<Rightarrow> c | None \<Rightarrow> Restart)"

definition unknown_in :: "table \<Rightarrow> ustring list" where
  "unknown_in merged = sort (filter (\<lambda>k. k \<notin> set (map fst KEYS)) (collect_leaves [] merged))"

text \<open>Settings as the serialiser prints them.\<close>

datatype json =
    JNull | JBool bool | JInteger int | JFloat rat | JString ustring | JArray "json list"
  | JObject "(ustring \<times> json) list"

definition is_group :: "ustring \<Rightarrow> bool" where
  "is_group path \<longleftrightarrow> path = [] \<or> is_mergeable path"

definition json_get :: "(ustring \<times> json) list \<Rightarrow> ustring \<Rightarrow> json" where
  "json_get m k = (case map_of m k of Some v \<Rightarrow> v | None \<Rightarrow> JNull)"

lemma json_get_size [termination_simp]: "size (json_get m k) < size (JObject m)"
proof (cases "map_of m k")
  case (Some v)
  then have "(k, v) \<in> set m" by (rule map_of_SomeD)
  then have "size v < Suc (size_list (size_prod (\<lambda>_. 0) size) m)"
    by (induction m) (auto simp: less_Suc_eq)
  then show ?thesis by (simp add: json_get_def Some)
qed (simp add: json_get_def)

function json_walk :: "json \<Rightarrow> json \<Rightarrow> ustring \<Rightarrow> ustring list" where
  "json_walk a b path =
     (case (a, b) of
        (JObject ma, JObject mb) \<Rightarrow>
          if is_group path
          then concat (map (\<lambda>name. json_walk (json_get ma name) (json_get mb name) (push_key path name))
                 (remdups_adj (sort (map fst ma @ map fst mb))))
          else if a \<noteq> b then [path] else []
      | _ \<Rightarrow> if a \<noteq> b then [path] else [])"
  by pat_completeness auto
termination
proof (relation "measure (\<lambda>(a, b, _). size a + size b)")
  fix a b path x y ma mb z
  assume "(x, y) = (a, b)" "x = JObject ma" "y = JObject mb"
  then show "((json_get ma z, json_get mb z, push_key path z), a, b, path) \<in> measure (\<lambda>(a, b, _). size a + size b)"
    using json_get_size [of ma z] json_get_size [of mb z] by simp
qed simp

declare json_walk.simps [simp del]

definition changed_keys :: "json \<Rightarrow> json \<Rightarrow> ustring list" where
  "changed_keys old new = sort (json_walk old new [])"

definition diff_cost :: "json \<Rightarrow> json \<Rightarrow> invalidation" where
  "diff_cost old new = fold (\<lambda>c acc. invalidation_max acc c) (map class_of (changed_keys old new)) NoCost"

section \<open>Resolving\<close>

record 's resolved =
  rs_settings :: 's
  rs_provenance :: provenance
  rs_unknown :: "ustring list"

text \<open>\<open>read\<close> is the typed form of a table, if it has one.\<close>

definition resolve_layers :: "(table \<Rightarrow> 's option) \<Rightarrow> 's \<Rightarrow> layer list \<Rightarrow> 's resolved" where
  "resolve_layers read dflt layers =
     (case fold (\<lambda>l acc. merge_into (ly_table l) (ly_source l) [] acc) layers ([], Map.empty) of
        (merged, prov) \<Rightarrow>
          \<lparr>rs_settings = (case read merged of Some s \<Rightarrow> s | None \<Rightarrow> dflt), rs_provenance = prov,
           rs_unknown = unknown_in merged\<rparr>)"

definition RESERVED_PROFILE :: ustring where "RESERVED_PROFILE = lit ''defaults''"

definition PROFILE_ONLY_KEYS :: "ustring list" where
  "PROFILE_ONLY_KEYS =
     [lit ''command'', lit ''host'', lit ''ask_host'', lit ''starting_directory'', lit ''env'', lit ''tab_title'', lit ''color_scheme'', lit ''tab_color'', lit ''icon'', lit ''color_from'']"

definition strip_profile_keys :: "table \<Rightarrow> table" where
  "strip_profile_keys t = fold bt_remove PROFILE_ONLY_KEYS t"

definition table_at :: "table \<Rightarrow> ustring \<Rightarrow> table option" where
  "table_at t key = (case map_of t key of None \<Rightarrow> None | Some v \<Rightarrow> as_table v)"

definition profile_layer :: "table \<Rightarrow> ustring \<Rightarrow> layer option" where
  "profile_layer config name =
     (case table_at config (lit ''profiles'') of
        None \<Rightarrow> None
      | Some profiles \<Rightarrow>
          map_option (\<lambda>t. \<lparr>ly_source = SrcProfile name, ly_table = strip_profile_keys t\<rparr>) (table_at profiles name))"

definition defaults_layer :: "table \<Rightarrow> layer option" where
  "defaults_layer config = profile_layer config RESERVED_PROFILE"

section \<open>Versions\<close>

definition CURRENT_SCHEMA_VERSION :: nat where "CURRENT_SCHEMA_VERSION = 1"

definition STEPS :: "(nat \<times> (table \<Rightarrow> table)) list" where "STEPS = []"

record migration =
  mg_from :: nat
  mg_to :: nat
  mg_notes :: "ustring list"

function migrate_loop :: "nat \<Rightarrow> table \<Rightarrow> ustring list \<Rightarrow> nat \<times> table \<times> ustring list" where
  "migrate_loop version t notes =
     (if version < CURRENT_SCHEMA_VERSION then
        case map_of STEPS version of
          Some step \<Rightarrow>
            migrate_loop (version + 1) (step t)
              (notes @ [lit ''migrated v'' @ dec_digits version @ lit '' to v'' @ dec_digits (version + 1)])
        | None \<Rightarrow> (version, t, notes)
      else (version, t, notes))"
  by pat_completeness auto
termination by (relation "measure (\<lambda>(v, _). CURRENT_SCHEMA_VERSION - v)") auto

declare migrate_loop.simps [simp del]

definition schema_version_of :: "table \<Rightarrow> nat" where
  "schema_version_of t =
     (case map_of t (lit ''schema_version'') of
        Some (TomlInteger i) \<Rightarrow> if 0 \<le> i \<and> i < 2 ^ 32 then nat i else CURRENT_SCHEMA_VERSION
      | _ \<Rightarrow> CURRENT_SCHEMA_VERSION)"

definition migrate :: "table \<Rightarrow> migration option \<times> table" where
  "migrate t =
     (let start = schema_version_of t
      in if CURRENT_SCHEMA_VERSION \<le> start then (None, t)
         else case migrate_loop start t [] of
                (version, t, notes) \<Rightarrow>
                  (Some \<lparr>mg_from = start, mg_to = version, mg_notes = notes\<rparr>,
                   bt_put (lit ''schema_version'') (TomlInteger (int version)) t))"

section \<open>Trust\<close>

text \<open>Built like FNV-1a, but with another multiplier: the prime of FNV is \<open>0x100000001b3\<close>.\<close>

definition fingerprint_step :: "64 word \<Rightarrow> byte \<Rightarrow> 64 word" where
  "fingerprint_step h b = (h XOR ucast b) * 0x1000000001b3"

definition fingerprint :: "byte list \<Rightarrow> 64 word" where
  "fingerprint bs = foldl fingerprint_step 0xcbf29ce484222325 bs"

definition hex16 :: "64 word \<Rightarrow> ustring" where
  "hex16 w = map (\<lambda>i. hex_digit (unat w div 16 ^ i mod 16)) (rev [0..<16])"

type_synonym trust_list = "ustring \<rightharpoonup> ustring"

text \<open>What is read from the file is an argument, \<open>None\<close> when it cannot be read.\<close>

definition is_trusted :: "trust_list \<Rightarrow> ustring \<Rightarrow> byte list option \<Rightarrow> bool" where
  "is_trusted list path contents =
     (case contents of
        None \<Rightarrow> False
      | Some bs \<Rightarrow> (case list path of None \<Rightarrow> False | Some fp \<Rightarrow> fp = hex16 (fingerprint bs)))"

definition trust_file_now :: "trust_list \<Rightarrow> ustring \<Rightarrow> byte list option \<Rightarrow> trust_list option" where
  "trust_file_now list path contents =
     map_option (\<lambda>bs. list(path \<mapsto> hex16 (fingerprint bs))) contents"

definition revoke_trust :: "trust_list \<Rightarrow> ustring \<Rightarrow> trust_list" where
  "revoke_trust list path = list(path := None)"

section \<open>Loading\<close>

text \<open>
  What the file system answers: the user's file, and the workspace file as it is read for the question of
  trust and again for its contents.  A reading that fails is an error of type \<open>'e\<close>.
\<close>

record 'e files =
  fl_user :: "('e + table) option"
  fl_workspace :: "(ustring \<times> byte list option \<times> ('e + table)) option"
  fl_trust :: trust_list

record load_options =
  lo_profile :: "ustring option"
  lo_workspace :: bool
  lo_cli :: "table option"

record ('s, 'e) load =
  ld_resolved :: "'s resolved"
  ld_errors :: "'e list"
  ld_migration :: "migration option"

definition user_layer :: "'e files \<Rightarrow> layer list \<times> 'e list \<times> migration option \<times> table option" where
  "user_layer fs =
     (case fl_user fs of
        None \<Rightarrow> ([], [], None, None)
      | Some (Inl e) \<Rightarrow> ([], [e], None, None)
      | Some (Inr t) \<Rightarrow>
          (case migrate t of (m, t) \<Rightarrow> ([\<lparr>ly_source = SrcUser, ly_table = t\<rparr>], [], m, Some t)))"

definition profile_layers :: "load_options \<Rightarrow> table option \<Rightarrow> layer list" where
  "profile_layers opts user =
     (case (lo_profile opts, user) of
        (Some name, Some t) \<Rightarrow>
          (if name \<noteq> RESERVED_PROFILE then (case defaults_layer t of Some l \<Rightarrow> [l] | None \<Rightarrow> []) else []) @
          (case profile_layer t name of Some l \<Rightarrow> [l] | None \<Rightarrow> [])
      | _ \<Rightarrow> [])"

definition workspace_layer :: "load_options \<Rightarrow> 'e files \<Rightarrow> layer list \<times> 'e list" where
  "workspace_layer opts fs =
     (if lo_workspace opts then
        case fl_workspace fs of
          None \<Rightarrow> ([], [])
        | Some (path, seen, contents) \<Rightarrow>
            if is_trusted (fl_trust fs) path seen then
              (case contents of
                 Inr t \<Rightarrow> ([\<lparr>ly_source = SrcWorkspace, ly_table = t\<rparr>], [])
               | Inl e \<Rightarrow> ([], [e]))
            else ([], [])
      else ([], []))"

definition load_config :: "(table \<Rightarrow> 's option) \<Rightarrow> 's \<Rightarrow> load_options \<Rightarrow> 'e files \<Rightarrow> ('s, 'e) load" where
  "load_config read dflt opts fs =
     (case user_layer fs of
        (user, errors, m, t) \<Rightarrow>
          (case workspace_layer opts fs of
             (work, failed) \<Rightarrow>
               let layers = user @ profile_layers opts t @ work @
                     (case lo_cli opts of Some c \<Rightarrow> [\<lparr>ly_source = SrcCommandLine, ly_table = c\<rparr>] | None \<Rightarrow> [])
               in \<lparr>ld_resolved = resolve_layers read dflt layers, ld_errors = errors @ failed, ld_migration = m\<rparr>))"

section \<open>Misspelt keys\<close>

text \<open>The two rows of \<open>levenshtein\<close>: one row from the one before it.\<close>

fun lev_row :: "uchar \<Rightarrow> ustring \<Rightarrow> nat list \<Rightarrow> nat \<Rightarrow> nat list" where
  "lev_row ca (cb # b) (p0 # p1 # prev) left =
     (let cost = (if ca \<noteq> cb then 1 else 0);
          here = min (min (p1 + 1) (left + 1)) (p0 + cost)
      in here # lev_row ca b (p1 # prev) here)"
| "lev_row ca b prev left = []"

fun lev_rows :: "ustring \<Rightarrow> nat \<Rightarrow> ustring \<Rightarrow> nat list \<Rightarrow> nat list" where
  "lev_rows [] i b prev = prev"
| "lev_rows (ca # a) i b prev = lev_rows a (i + 1) b ((i + 1) # lev_row ca b prev (i + 1))"

definition levenshtein :: "ustring \<Rightarrow> ustring \<Rightarrow> nat" where
  "levenshtein a b = lev_rows a 0 b [0..<length b + 1] ! length b"

definition suggest_key :: "ustring \<Rightarrow> ustring list \<Rightarrow> ustring option" where
  "suggest_key unknown schema_keys =
     map_option snd (first_min fst (filter (\<lambda>(d, _). d \<le> 2) (map (\<lambda>k. (levenshtein unknown k, k)) schema_keys)))"

end
