(* ===== verification/ConfigSpec.thy ===== *)
theory ConfigSpec
  imports Config
begin

text \<open>What the cascade promises: which layer a value comes from, what is trusted, how far two keys are apart.\<close>

section \<open>Keys\<close>

text \<open>A dotted key: up to the first dot, and behind it.\<close>

definition dot_split :: "ustring \<Rightarrow> ustring \<times> ustring option" where
  "dot_split p =
     (takeWhile (\<lambda>c. c \<noteq> 46) p, if 46 \<in> set p then Some (tl (dropWhile (\<lambda>c. c \<noteq> 46) p)) else None)"

lemma dot_split_plain: "46 \<notin> set p \<Longrightarrow> dot_split p = (p, None)"
  by (auto simp: dot_split_def takeWhile_eq_all_conv)

lemma dot_split_dotted: "46 \<notin> set g \<Longrightarrow> dot_split (g @ 46 # k) = (g, Some k)"
proof -
  assume "46 \<notin> set g"
  then have "\<forall>c \<in> set g. c \<noteq> 46" by metis
  then show ?thesis by (simp add: dot_split_def takeWhile_append2 dropWhile_append2)
qed

lemma dot_split_inv:
  "dot_split p = (g, None) \<Longrightarrow> p = g \<and> 46 \<notin> set g"
  "dot_split p = (g, Some k) \<Longrightarrow> p = g @ 46 # k \<and> 46 \<notin> set g"
proof -
  show "dot_split p = (g, None) \<Longrightarrow> p = g \<and> 46 \<notin> set g"
  proof -
    assume "dot_split p = (g, None)"
    moreover from this have "46 \<notin> set p" by (auto simp: dot_split_def split: if_splits)
    ultimately show "p = g \<and> 46 \<notin> set g" using dot_split_plain by auto
  qed
  assume a: "dot_split p = (g, Some k)"
  then have d: "46 \<in> set p" "g = takeWhile (\<lambda>c. c \<noteq> 46) p" "k = tl (dropWhile (\<lambda>c. c \<noteq> 46) p)"
    by (auto simp: dot_split_def split: if_splits)
  have n: "dropWhile (\<lambda>c. c \<noteq> 46) p \<noteq> []" using d(1) by (auto simp: dropWhile_eq_Nil_conv)
  then have "hd (dropWhile (\<lambda>c. c \<noteq> 46) p) = 46" using hd_dropWhile [OF n] by simp
  then have "dropWhile (\<lambda>c. c \<noteq> 46) p = 46 # k" using n d(3) by (metis list.collapse)
  then show "p = g @ 46 # k \<and> 46 \<notin> set g"
    using d(2) takeWhile_dropWhile_id [of "\<lambda>c. c \<noteq> 46" p] set_takeWhileD by (metis (mono_tags, lifting))
qed

lemma group_plain: "is_mergeable p \<Longrightarrow> 46 \<notin> set p"
  unfolding is_mergeable_def by (simp only: set_simps lit_def) auto

lemma group_not_Nil: "\<not> is_mergeable []"
  by (simp add: is_mergeable_def lit_def)

text \<open>What a table says for a dotted key: a group is only looked into, any other table is one value.\<close>

definition setting :: "table \<Rightarrow> ustring \<Rightarrow> toml_value option" where
  "setting t p =
     (case dot_split p of
        (g, None) \<Rightarrow> if is_mergeable g then None else map_of t g
      | (g, Some k) \<Rightarrow>
          if is_mergeable g then (case table_at t g of Some u \<Rightarrow> map_of u k | None \<Rightarrow> None) else None)"

text \<open>Tables as people write them: no dot inside a key that is not in a group, and tables under the names of the groups.\<close>

definition entry_ok :: "ustring \<Rightarrow> toml_value \<Rightarrow> bool" where
  "entry_ok k v \<longleftrightarrow> 46 \<notin> set k \<and> (is_mergeable k \<longrightarrow> (\<exists>g. v = TomlTable g \<and> keys_sorted g))"

definition tidy :: "table \<Rightarrow> bool" where
  "tidy t \<longleftrightarrow> keys_sorted t \<and> (\<forall>(k, v) \<in> set t. entry_ok k v)"

lemma tidy_Nil: "tidy []" by (simp add: tidy_def)

lemma tidy_Cons: "tidy ((k, v) # t) \<Longrightarrow> entry_ok k v \<and> tidy t \<and> map_of t k = None"
  by (auto simp: tidy_def map_of_eq_None_iff)

lemma tidy_put:
  assumes "tidy t" "entry_ok k v"
  shows "tidy (bt_put k v t)"
proof -
  have e: "\<forall>(k, v) \<in> set t. entry_ok k v" and sorted: "keys_sorted t" using assms(1) by (simp_all add: tidy_def)
  have "entry_ok (fst x) (snd x)" if x: "x \<in> set (bt_put k v t)" for x
  proof -
    consider "x = (k, v)" | "x \<in> set t" using bt_put_set [of k v t] x by blast
    then show ?thesis using e assms(2) by cases auto
  qed
  then show ?thesis unfolding tidy_def using bt_put_sorted [OF sorted] by (simp add: split_beta)
qed

lemma setting_put:
  assumes "tidy t"
  shows "setting (bt_put k v t) p = (if fst (dot_split p) = k then setting [(k, v)] p else setting t p)"
proof -
  have m: "map_of (bt_put k v t) = (map_of t)(k \<mapsto> v)" using assms bt_put_map_of [of t k v] by (simp add: tidy_def)
  show ?thesis by (cases "dot_split p"; cases "snd (dot_split p)") (simp_all add: setting_def table_at_def m)
qed

lemma setting_Cons:
  "setting ((k, v) # t) p = (if fst (dot_split p) = k then setting [(k, v)] p else setting t p)"
  by (cases "dot_split p"; cases "snd (dot_split p)") (simp_all add: setting_def table_at_def)

lemma setting_absent: "map_of t (fst (dot_split p)) = None \<Longrightarrow> setting t p = None"
  by (auto simp: setting_def table_at_def split: prod.split option.split)

section \<open>Merging\<close>

lemma push_dotted: "p \<noteq> [] \<Longrightarrow> \<not> is_mergeable (push_key p k)"
  using group_plain [of "push_key p k"] by (auto simp: push_key_def lit_def)

text \<open>Below a group nothing merges.\<close>

lemma merge_inside:
  assumes "p \<noteq> []"
  shows "merge_into inc src p (ex, prov) =
    (fold (\<lambda>(k, v). bt_put k v) inc ex, \<lambda>q. if q \<in> push_key p ` fst ` set inc then Some src else prov q)"
proof (induction inc arbitrary: ex prov)
  case (Cons x inc)
  obtain k v where x: "x = (k, v)" by fastforce
  have m: "merge_into ((k, v) # inc) src p (ex, prov) = merge_into inc src p (bt_put k v ex, prov(push_key p k \<mapsto> src))"
    using push_dotted [OF assms, of k] by (simp add: Let_def)
  show ?case unfolding x m Cons by (auto simp: fun_eq_iff)
qed (simp add: fun_eq_iff)

lemma fold_put_sorted: "keys_sorted ex \<Longrightarrow> keys_sorted (fold (\<lambda>(k, v). bt_put k v) inc ex)"
  by (induction inc arbitrary: ex) (auto intro: bt_put_sorted)

lemma fold_put_map_of:
  "keys_sorted ex \<Longrightarrow> distinct (map fst inc) \<Longrightarrow> map_of (fold (\<lambda>(k, v). bt_put k v) inc ex) = map_of ex ++ map_of inc"
proof (induction inc arbitrary: ex)
  case (Cons x inc)
  obtain k v where x: "x = (k, v)" by fastforce
  have k: "map_of inc k = None" using Cons.prems(2) x by (simp add: map_of_eq_None_iff)
  have "map_of (fold (\<lambda>(k, v). bt_put k v) inc (bt_put k v ex)) = (map_of ex)(k \<mapsto> v) ++ map_of inc"
    using Cons bt_put_map_of [of ex k v] bt_put_sorted [of ex k v] x by simp
  then show ?case using k by (auto simp: x fun_eq_iff map_add_def split: option.split)
qed simp

text \<open>One layer over what is below it.\<close>

lemma merge_layer:
  assumes "tidy src" "tidy dst"
  shows "tidy (fst (merge_into src s [] (dst, prov))) \<and>
    (\<forall>p. setting (fst (merge_into src s [] (dst, prov))) p = (case setting src p of Some v \<Rightarrow> Some v | None \<Rightarrow> setting dst p)) \<and>
    (\<forall>p. snd (merge_into src s [] (dst, prov)) p = (if setting src p \<noteq> None then Some s else prov p))"
  using assms
proof (induction src arbitrary: dst prov)
  case Nil
  then show ?case by (auto simp: setting_def table_at_def split: prod.split option.split)
next
  case (Cons x src)
  obtain k v where x: "x = (k, v)" by fastforce
  have e: "entry_ok k v" "tidy src" "map_of src k = None" using tidy_Cons Cons.prems(1) x by auto
  have absent: "setting src p = None" if "fst (dot_split p) = k" for p
    using setting_absent [of src p] e(3) that by simp
  have cons: "setting (x # src) p = (if fst (dot_split p) = k then setting [(k, v)] p else setting src p)" for p
    unfolding x by (rule setting_Cons)
  define sub where "sub = (if is_mergeable k then as_table v else None)"
  show ?case
  proof (cases sub)
    case None
    then have nm: "\<not> is_mergeable k" using e(1) by (auto simp: sub_def entry_ok_def as_table_def)
    let ?d = "bt_put k v dst" and ?p = "prov(k \<mapsto> s)"
    have d: "tidy ?d" by (rule tidy_put [OF Cons.prems(2) e(1)])
    have m: "merge_into (x # src) s [] (dst, prov) = merge_into src s [] (?d, ?p)"
      using None by (simp add: x push_key_def sub_def)
    have single: "setting [(k, v)] p = (if p = k then Some v else None)" if "fst (dot_split p) = k" for p
    proof (cases "snd (dot_split p)")
      case None
      then have "dot_split p = (k, None)" using that by (simp add: prod_eq_iff)
      moreover from this have "p = k" using dot_split_inv(1) by blast
      ultimately show ?thesis using nm by (simp add: setting_def)
    next
      case (Some q)
      then have d: "dot_split p = (k, Some q)" using that by (simp add: prod_eq_iff)
      then have "p \<noteq> k" using dot_split_inv(2) by fastforce
      then show ?thesis using nm d by (simp add: setting_def)
    qed
    have nd: "setting dst p = None" if "fst (dot_split p) = k" "p \<noteq> k" for p
    proof (cases "snd (dot_split p)")
      case None
      then have "dot_split p = (k, None)" using that by (simp add: prod_eq_iff)
      then show ?thesis using dot_split_inv(1) that(2) by blast
    qed (use that nm in \<open>cases "dot_split p"; simp add: setting_def\<close>)
    have kk: "fst (dot_split k) = k" using e(1) dot_split_plain by (simp add: entry_ok_def)
    obtain d' p' where r: "merge_into src s [] (?d, ?p) = (d', p')" by fastforce
    from Cons.IH [OF e(2) d, of ?p] have ih: "tidy d'"
      "\<And>p. setting d' p = (case setting src p of Some v \<Rightarrow> Some v | None \<Rightarrow> setting ?d p)"
      "\<And>p. p' p = (if setting src p \<noteq> None then Some s else ?p p)" unfolding r by simp_all
    show ?thesis unfolding m r using ih absent single kk nd
      by (auto simp: cons setting_put [OF Cons.prems(2)] split: option.split)
  next
    case (Some inc)
    then have g: "is_mergeable k" "v = TomlTable inc" "keys_sorted inc"
      using e(1) by (auto simp: sub_def as_table_def entry_ok_def split: if_splits toml_value.splits)
    define ex where "ex = (case map_of dst k of Some slot \<Rightarrow> (case as_table slot of Some t \<Rightarrow> t | None \<Rightarrow> []) | None \<Rightarrow> [])"
    have exs: "keys_sorted ex" "table_at dst k = None \<longrightarrow> ex = []" "table_at dst k = Some u \<longrightarrow> ex = u" for u
    proof -
      have "entry_ok k w" if "map_of dst k = Some w" for w
        using map_of_SomeD [OF that] Cons.prems(2) by (auto simp: tidy_def)
      then show "keys_sorted ex" using g(1) by (auto simp: ex_def entry_ok_def as_table_def split: option.split)
    qed (auto simp: ex_def table_at_def split: option.splits)
    let ?inner = "fold (\<lambda>(k, v). bt_put k v) inc ex"
    let ?prov = "\<lambda>q. if q \<in> push_key k ` fst ` set inc then Some s else prov q"
    have kn: "k \<noteq> []" using g(1) group_not_Nil by auto
    have ok: "entry_ok k (TomlTable ?inner)"
      using e(1) fold_put_sorted [OF exs(1)] by (simp add: entry_ok_def)
    let ?d = "bt_put k (TomlTable ?inner) dst"
    have d: "tidy ?d" by (rule tidy_put [OF Cons.prems(2) ok])
    have m: "merge_into (x # src) s [] (dst, prov) = merge_into src s [] (?d, ?prov)"
      using Some merge_inside [OF kn, of inc s ex prov]
      by (simp add: x push_key_def [of "[]"] sub_def ex_def [symmetric])
    have inner: "map_of ?inner = map_of ex ++ map_of inc"
      by (rule fold_put_map_of [OF exs(1) sorted_keys_distinct [OF g(3)]])
    have under: "setting [(k, TomlTable w)] p = (case snd (dot_split p) of None \<Rightarrow> None | Some q \<Rightarrow> map_of w q)"
      if "fst (dot_split p) = k" for p w
      using that g(1) by (cases "dot_split p") (auto simp: setting_def table_at_def as_table_def split: option.split)
    have below: "setting dst p = (case snd (dot_split p) of None \<Rightarrow> None | Some q \<Rightarrow> map_of ex q)"
      if "fst (dot_split p) = k" for p
      using that g(1) exs(2,3) by (cases "dot_split p") (auto simp: setting_def split: option.split)
    have path: "p \<in> push_key k ` fst ` set inc \<longleftrightarrow> fst (dot_split p) = k \<and> setting [(k, v)] p \<noteq> None" for p
    proof
      assume "p \<in> push_key k ` fst ` set inc"
      then obtain q w where q: "p = k @ 46 # q" "(q, w) \<in> set inc" using kn by (auto simp: push_key_def lit_def)
      have "dot_split p = (k, Some q)" unfolding q(1) by (rule dot_split_dotted [OF group_plain [OF g(1)]])
      moreover have "map_of inc q \<noteq> None" using q(2) by (auto simp: map_of_eq_None_iff intro: rev_image_eqI)
      ultimately show "fst (dot_split p) = k \<and> setting [(k, v)] p \<noteq> None" using under [of p inc] g(2) by simp
    next
      assume a: "fst (dot_split p) = k \<and> setting [(k, v)] p \<noteq> None"
      then obtain q where q: "dot_split p = (k, Some q)" "map_of inc q \<noteq> None"
        using under [of p inc] g(2) by (cases "dot_split p") (auto split: option.splits)
      then have "p = push_key k q" using dot_split_inv(2) kn by (simp add: push_key_def lit_def)
      moreover have "q \<in> fst ` set inc" using q(2) by (simp add: map_of_eq_None_iff)
      ultimately show "p \<in> push_key k ` fst ` set inc" by blast
    qed
    obtain d' p' where r: "merge_into src s [] (?d, ?prov) = (d', p')" by fastforce
    from Cons.IH [OF e(2) d, of ?prov] have ih: "tidy d'"
      "\<And>p. setting d' p = (case setting src p of Some v \<Rightarrow> Some v | None \<Rightarrow> setting ?d p)"
      "\<And>p. p' p = (if setting src p \<noteq> None then Some s else ?prov p)" unfolding r by simp_all
    show ?thesis unfolding m r using ih absent path
      by (auto simp: cons setting_put [OF Cons.prems(2)] under below inner g(2) map_add_def split: option.split)
  qed
qed

text \<open>The last layer that says anything for a key.\<close>

definition winner :: "layer list \<Rightarrow> ustring \<Rightarrow> layer option" where
  "winner layers p = find_first (\<lambda>l. setting (ly_table l) p \<noteq> None) (rev layers)"

lemma winner_snoc: "winner (ls @ [l]) p = (if setting (ly_table l) p \<noteq> None then Some l else winner ls p)"
  by (simp add: winner_def)

lemma merge_layers:
  assumes "list_all (\<lambda>l. tidy (ly_table l)) layers"
  shows "\<exists>merged prov. fold (\<lambda>l acc. merge_into (ly_table l) (ly_source l) [] acc) layers ([], Map.empty) = (merged, prov) \<and>
    tidy merged \<and> (\<forall>p. setting merged p = Option.bind (winner layers p) (\<lambda>l. setting (ly_table l) p)) \<and>
    (\<forall>p. prov p = map_option ly_source (winner layers p))"
  using assms
proof (induction layers rule: rev_induct)
  case Nil
  show ?case by (auto simp: tidy_Nil winner_def setting_def table_at_def split: prod.split option.split)
next
  case (snoc l ls)
  then obtain m pr where ih: "fold (\<lambda>l acc. merge_into (ly_table l) (ly_source l) [] acc) ls ([], Map.empty) = (m, pr)"
    "tidy m" "\<forall>p. setting m p = Option.bind (winner ls p) (\<lambda>l. setting (ly_table l) p)"
    "\<forall>p. pr p = map_option ly_source (winner ls p)" by auto
  have l: "tidy (ly_table l)" using snoc.prems by simp
  obtain m' pr' where n: "merge_into (ly_table l) (ly_source l) [] (m, pr) = (m', pr')" by fastforce
  show ?case using merge_layer [OF l ih(2), of "ly_source l" pr] ih n
    by (auto simp: winner_snoc split: option.split)
qed

text \<open>
  C40. The last layer wins.  For every dotted key, the merged table has the value of the last layer that says
  anything for it, and that layer is the one the key is said to come from; a group is merged key by key, and
  every other table replaces the one before it whole.  The layers are as people write them (\<open>tidy\<close>): a key
  outside the groups has no dot in it, and what stands under the name of a group is a table.
\<close>

theorem last_layer_wins:
  assumes "list_all (\<lambda>l. tidy (ly_table l)) layers"
  shows "\<exists>merged. rs_settings (resolve_layers read dflt layers) = (case read merged of Some s \<Rightarrow> s | None \<Rightarrow> dflt) \<and>
    tidy merged \<and> rs_unknown (resolve_layers read dflt layers) = unknown_in merged \<and>
    (\<forall>p. setting merged p = Option.bind (winner layers p) (\<lambda>l. setting (ly_table l) p)) \<and>
    rs_provenance (resolve_layers read dflt layers) = (\<lambda>p. map_option ly_source (winner layers p))"
proof -
  obtain merged prov where m: "fold (\<lambda>l acc. merge_into (ly_table l) (ly_source l) [] acc) layers ([], Map.empty) = (merged, prov)"
    "tidy merged" "\<forall>p. setting merged p = Option.bind (winner layers p) (\<lambda>l. setting (ly_table l) p)"
    "\<forall>p. prov p = map_option ly_source (winner layers p)" using merge_layers [OF assms] by blast
  then show ?thesis by (intro exI [of _ merged]) (simp add: resolve_layers_def fun_eq_iff)
qed

text \<open>A table with the size of the font, and one value above it.\<close>

definition sample_layer :: "source \<Rightarrow> int \<Rightarrow> layer" where
  "sample_layer src n = \<lparr>ly_source = src, ly_table = [(lit ''typography'', TomlTable [(lit ''size_pt'', TomlInteger n)])]\<rparr>"

lemma sample_tidy: "tidy (ly_table (sample_layer src n))"
  by (simp add: sample_layer_def tidy_def entry_ok_def lit_def)

lemma sample_setting: "setting (ly_table (sample_layer src n)) (lit ''typography.size_pt'') = Some (TomlInteger n)"
  by (simp add: sample_layer_def setting_def dot_split_def table_at_def as_table_def is_mergeable_def lit_def)

theorem last_layer_wins_witness:
  "rs_provenance (resolve_layers Some [] [sample_layer SrcUser 12, sample_layer SrcCommandLine 14]) (lit ''typography.size_pt'')
     = Some SrcCommandLine"
proof -
  have "list_all (\<lambda>l. tidy (ly_table l)) [sample_layer SrcUser 12, sample_layer SrcCommandLine 14]" by (simp add: sample_tidy)
  from last_layer_wins [OF this, of Some "[]"] show ?thesis
    by (auto simp: winner_def sample_setting) (simp add: sample_layer_def)
qed

section \<open>Loading\<close>

text \<open>
  Whose word counts.  The command line beats a workspace file, which beats the profile, which beats
  the defaults of the profiles, which beat the user's file; and a workspace file whose contents nobody trusted,
  as they were when the question was asked, has no part in the settings at all.
\<close>

lemma load_precedence:
  assumes "fl_user fs = Some (Inr t)" "migrate t = (m, t')" "tidy t'"
    and "lo_profile opts = Some name" "name \<noteq> RESERVED_PROFILE"
    and "profile_layer t' name = Some n" "tidy (ly_table n)" "defaults_layer t' = Some d" "tidy (ly_table d)"
    and "lo_workspace opts" "fl_workspace fs = Some (path, seen, Inr w)" "tidy w" "lo_cli opts = Some c" "tidy c"
  shows "rs_provenance (ld_resolved (load_config read dflt opts fs)) p =
      (if setting c p \<noteq> None then Some SrcCommandLine
       else if is_trusted (fl_trust fs) path seen \<and> setting w p \<noteq> None then Some SrcWorkspace
       else if setting (ly_table n) p \<noteq> None then Some (SrcProfile name)
       else if setting (ly_table d) p \<noteq> None then Some (SrcProfile RESERVED_PROFILE)
       else if setting t' p \<noteq> None then Some SrcUser else None) \<and>
    (\<not> is_trusted (fl_trust fs) path seen \<longrightarrow>
      load_config read dflt opts fs = load_config read dflt opts (fs\<lparr>fl_workspace := None\<rparr>))"
proof -
  let ?w = "if is_trusted (fl_trust fs) path seen then [\<lparr>ly_source = SrcWorkspace, ly_table = w\<rparr>] else []"
  let ?ls = "[\<lparr>ly_source = SrcUser, ly_table = t'\<rparr>, d, n] @ ?w @ [\<lparr>ly_source = SrcCommandLine, ly_table = c\<rparr>]"
  have src: "ly_source n = SrcProfile name" "ly_source d = SrcProfile RESERVED_PROFILE"
    using assms(6,8) by (auto simp: profile_layer_def defaults_layer_def split: option.splits)
  have w: "workspace_layer opts fs = (?w, [])" using assms(10,11) by (simp add: workspace_layer_def)
  have u: "user_layer fs = ([\<lparr>ly_source = SrcUser, ly_table = t'\<rparr>], [], m, Some t')"
    using assms(1,2) by (simp add: user_layer_def)
  have pl: "profile_layers opts (Some t') = [d, n]" using assms(4-6,8) by (simp add: profile_layers_def)
  have l: "ld_resolved (load_config read dflt opts fs) = resolve_layers read dflt ?ls"
    using assms(13) by (simp add: load_config_def u w pl)
  have "list_all (\<lambda>l. tidy (ly_table l)) ?ls" using assms by simp
  from last_layer_wins [OF this, of read dflt]
  have "rs_provenance (resolve_layers read dflt ?ls) p = map_option ly_source (winner ?ls p)" by auto
  moreover have "load_config read dflt opts fs = load_config read dflt opts (fs\<lparr>fl_workspace := None\<rparr>)"
    if "\<not> is_trusted (fl_trust fs) path seen"
    using that w u assms(10) by (simp add: load_config_def workspace_layer_def user_layer_def)
  ultimately show ?thesis unfolding l by (auto simp: winner_def src)
qed

section \<open>Trust\<close>

lemma mul_inj: "p * q = 1 \<Longrightarrow> x * p = y * p \<Longrightarrow> x = (y :: 64 word)"
proof -
  assume a: "p * q = 1" "x * p = y * p"
  have "x = x * p * q" by (simp add: mult.assoc a(1))
  also have "\<dots> = y * p * q" by (simp only: a(2))
  also have "\<dots> = y" by (simp add: mult.assoc a(1))
  finally show "x = y" .
qed

lemma xor_twice: "(h XOR u) XOR u = (h :: 64 word)" "u XOR (u XOR h) = h"
  by (simp add: xor.assoc) (simp add: xor.assoc [symmetric])

lemma fingerprint_step_inj:
  "fingerprint_step h b = fingerprint_step h' b' \<Longrightarrow> h XOR ucast b = h' XOR ucast b'"
  unfolding fingerprint_step_def by (rule mul_inj [where q = 13001286669926045051]) simp_all

lemma fingerprint_step_left: "fingerprint_step h b = fingerprint_step h' b \<Longrightarrow> h = h'"
  using fingerprint_step_inj [of h b h' b] xor_twice(1) by metis

lemma fingerprint_step_right: "fingerprint_step h b = fingerprint_step h c \<Longrightarrow> b = c"
proof -
  assume "fingerprint_step h b = fingerprint_step h c"
  from fingerprint_step_inj [OF this] have "(ucast b :: 64 word) = ucast c" using xor_twice(2) by metis
  then have "bit (ucast b :: 64 word) n = bit (ucast c :: 64 word) n" for n by simp
  from this [unfolded bit_ucast_iff] have "bit b n = bit c n" if "n < 8" for n using that by force
  then show "b = c" by (intro bit_word_eqI) simp
qed

lemma fingerprint_edit: "x \<noteq> y \<Longrightarrow> fingerprint (a @ x # c) \<noteq> fingerprint (a @ y # c)"
proof
  assume ne: "x \<noteq> y" and eq: "fingerprint (a @ x # c) = fingerprint (a @ y # c)"
  have tail: "foldl fingerprint_step h c = foldl fingerprint_step h' c \<Longrightarrow> h = h'" for h h'
    by (induction c arbitrary: h h') (auto dest: fingerprint_step_left)
  have "foldl fingerprint_step (fingerprint_step (fingerprint a) x) c = foldl fingerprint_step (fingerprint_step (fingerprint a) y) c"
    using eq by (simp add: fingerprint_def)
  from fingerprint_step_right [OF tail [OF this]] ne show False by blast
qed

lemma digits_determine:
  "(\<And>i. i < k \<Longrightarrow> n div 16 ^ i mod 16 = m div 16 ^ i mod (16 :: nat)) \<Longrightarrow> n mod 16 ^ k = m mod 16 ^ k"
proof (induction k)
  case (Suc k)
  have "n mod 16 ^ Suc k = 16 ^ k * (n div 16 ^ k mod 16) + n mod 16 ^ k" for n :: nat
    by (metis mod_mult2_eq power_Suc2)
  then show ?case using Suc by simp
qed simp

lemma hex_digit_inj: "a < 16 \<Longrightarrow> b < 16 \<Longrightarrow> hex_digit a = hex_digit b \<Longrightarrow> a = b"
  by (auto simp: hex_digit_def split: if_splits)

lemma hex16_inj: "hex16 v = hex16 w \<Longrightarrow> v = w"
proof -
  assume h: "hex16 v = hex16 w"
  have "unat v div 16 ^ i mod 16 = unat w div 16 ^ i mod 16" if "i < 16" for i
  proof -
    have "map (\<lambda>i. hex_digit (unat v div 16 ^ i mod 16)) [0..<16] = map (\<lambda>i. hex_digit (unat w div 16 ^ i mod 16)) [0..<16]"
      using arg_cong [OF h, of rev] by (simp add: hex16_def rev_map)
    then have "hex_digit (unat v div 16 ^ i mod 16) = hex_digit (unat w div 16 ^ i mod 16)"
      using that unfolding map_eq_conv by simp
    then show ?thesis by (rule hex_digit_inj [rotated 2]) simp_all
  qed
  then have "unat v mod 16 ^ 16 = unat w mod 16 ^ 16" by (rule digits_determine)
  moreover have "unat (x :: 64 word) < 16 ^ 16" for x using unsigned_less [of x, where 'a = nat] by simp
  ultimately have "unat v = unat w" by simp
  then show ?thesis by (rule unsigned_word_eqI)
qed

text \<open>
  An edit asks again.  A file that was trusted stays trusted as it is; with any one byte of it changed
  it is not; other files are not affected, and once trust is withdrawn nothing at its path is trusted.
\<close>

lemma edited_file_asks_again:
  assumes "trust_file_now list path (Some (a @ x # c)) = Some list'" "x \<noteq> y" "q \<noteq> path"
  shows "is_trusted list' path (Some (a @ x # c)) \<and> \<not> is_trusted list' path (Some (a @ y # c)) \<and>
    is_trusted list' q f = is_trusted list q f \<and> \<not> is_trusted (revoke_trust list' path) path f"
  using assms fingerprint_edit [OF assms(2), of a c] hex16_inj
  by (auto simp: trust_file_now_def is_trusted_def revoke_trust_def split: option.splits)

section \<open>Misspelt keys\<close>

text \<open>Turning one string into another, one character at a time, and how many changes that takes.\<close>

inductive edits :: "ustring \<Rightarrow> ustring \<Rightarrow> nat \<Rightarrow> bool" where
  Done: "edits [] [] 0"
| Keep: "edits a b n \<Longrightarrow> edits (c # a) (c # b) n"
| Replace: "edits a b n \<Longrightarrow> edits (c # a) (d # b) (n + 1)"
| Insert: "edits a b n \<Longrightarrow> edits a (d # b) (n + 1)"
| Delete: "edits a b n \<Longrightarrow> edits (c # a) b (n + 1)"

fun lev :: "ustring \<Rightarrow> ustring \<Rightarrow> nat" where
  "lev [] b = length b"
| "lev a [] = length a"
| "lev (c # a) (d # b) =
     min (min (lev a (d # b) + 1) (lev (c # a) b + 1)) (lev a b + (if c \<noteq> d then 1 else 0))"

lemma edits_insert_all: "edits [] b (length b)"
  by (induction b) (auto intro: edits.intros dest: Insert)

lemma edits_delete_all: "edits a [] (length a)"
  by (induction a) (auto intro: edits.intros dest: Delete)

lemma lev_edits: "edits a b (lev a b)"
proof (induction a b rule: lev.induct)
  case (3 c a d b)
  have "edits (c # a) (d # b) (lev a (d # b) + 1)" by (rule Delete [OF 3(1)])
  moreover have "edits (c # a) (d # b) (lev (c # a) b + 1)" by (rule Insert [OF 3(2)])
  moreover have "edits (c # a) (d # b) (lev a b + (if c \<noteq> d then 1 else 0))"
    using Keep [OF 3(3), of c] Replace [OF 3(3), of c d] by auto
  ultimately show ?case by (simp add: min_def del: add_Suc_right)
qed (auto simp: edits_insert_all edits_delete_all [of "_ # _", simplified])

lemma lev_Nil: "lev a [] = length a"
  by (cases a) simp_all

lemma lev_step: "lev a (d # b) \<le> lev a b + 1" "lev (c # a) b \<le> lev a b + 1"
  by (cases a; simp) (cases b; simp add: lev_Nil)

lemma lev_least: "edits a b n \<Longrightarrow> lev a b \<le> n"
proof (induction rule: edits.induct)
  case (Insert a b n d)
  then show ?case using lev_step(1) [of a d b] by simp
next
  case (Delete a b n c)
  then show ?case using lev_step(2) [of c a b] by simp
qed auto

lemma edits_append: "edits a b n \<Longrightarrow> edits c d m \<Longrightarrow> edits (a @ c) (b @ d) (n + m)"
  by (induction rule: edits.induct) (auto dest: edits.Keep edits.Replace edits.Insert edits.Delete)

lemma edits_rev: "edits a b n \<Longrightarrow> edits (rev a) (rev b) n"
proof (induction rule: edits.induct)
  case (Keep a b n c)
  from edits_append [OF Keep.IH edits.Keep [OF Done, of c]] show ?case by simp
next
  case (Replace a b n c d)
  from edits_append [OF Replace.IH edits.Replace [OF Done, of c d]] show ?case by simp
next
  case (Insert a b n d)
  from edits_append [OF Insert.IH edits.Insert [OF Done, of d]] show ?case by simp
next
  case (Delete a b n c)
  from edits_append [OF Delete.IH edits.Delete [OF Done, of c]] show ?case by simp
qed (simp add: Done)

text \<open>A row of the table: the distances of one string from the prefixes of another, prefixes read backwards.\<close>

fun dist_row :: "ustring \<Rightarrow> ustring \<Rightarrow> ustring \<Rightarrow> nat list" where
  "dist_row ra rb [] = [lev ra rb]"
| "dist_row ra rb (c # b) = lev ra rb # dist_row ra (c # rb) b"

lemma row_hd: "dist_row ra rb b = lev ra rb # tl (dist_row ra rb b)"
  by (cases b) simp_all

lemma lev_row_row: "lev_row ca b (dist_row ra rb b) (lev (ca # ra) rb) = tl (dist_row (ca # ra) rb b)"
proof (induction b arbitrary: rb)
  case (Cons cb b)
  have "lev_row ca (cb # b) (dist_row ra rb (cb # b)) (lev (ca # ra) rb) =
      lev (ca # ra) (cb # rb) # lev_row ca b (dist_row ra (cb # rb) b) (lev (ca # ra) (cb # rb))"
  proof -
    have "lev_row ca (cb # b) (lev ra rb # lev ra (cb # rb) # r) (lev (ca # ra) rb) =
        lev (ca # ra) (cb # rb) # lev_row ca b (lev ra (cb # rb) # r) (lev (ca # ra) (cb # rb))" for r
      by (simp add: Let_def)
    then show ?thesis unfolding dist_row.simps(2) using row_hd [of ra "cb # rb" b] by metis
  qed
  then show ?case using Cons [of "cb # rb"] row_hd [of "ca # ra" "cb # rb" b] by simp
qed simp

lemma lev_rows_row: "lev_rows a (length ra) b (dist_row ra [] b) = dist_row (rev a @ ra) [] b"
proof (induction a arbitrary: ra)
  case (Cons ca a)
  have "Suc (length ra) # lev_row ca b (dist_row ra [] b) (Suc (length ra)) = dist_row (ca # ra) [] b"
    using lev_row_row [of ca b ra "[]"] row_hd [of "ca # ra" "[]" b] by (simp add: lev_Nil)
  then show ?case using Cons [of "ca # ra"] by simp
qed simp

lemma row_first: "dist_row [] rb b = [length rb..<length rb + length b + 1]"
proof (induction b arbitrary: rb)
  case (Cons c b)
  have "[length rb..<length rb + length (c # b) + 1] = length rb # [length (c # rb)..<length (c # rb) + length b + 1]"
    by (subst upt_conv_Cons) simp_all
  then show ?case using Cons [of "c # rb"] by (simp del: upt_Suc)
qed simp

lemma row_last: "dist_row ra rb b ! length b = lev ra (rev b @ rb)"
  by (induction b arbitrary: rb) simp_all

text \<open>
  The distance of two keys, computed a row at a time, is the least number of characters that have to be
  put in, taken out or exchanged to get from one to the other.
\<close>

lemma levenshtein_least: "levenshtein a b = (LEAST n. edits a b n)"
proof -
  have "levenshtein a b = lev (rev a) (rev b)"
    using lev_rows_row [of a "[]" b] row_first [of "[]" b] row_last [of "rev a" "[]" b] by (simp add: levenshtein_def)
  moreover have "edits a b (lev (rev a) (rev b))" using edits_rev [OF lev_edits [of "rev a" "rev b"]] by simp
  moreover have "lev (rev a) (rev b) \<le> n" if "edits a b n" for n by (rule lev_least [OF edits_rev [OF that]])
  ultimately show ?thesis by (simp add: Least_equality)
qed

text \<open>A suggestion is a key of the schema, at most two changes away, and none is nearer.\<close>

lemma suggest_key_nearest:
  assumes "suggest_key unknown ks = Some k"
  shows "k \<in> set ks \<and> levenshtein unknown k \<le> 2 \<and> (\<forall>k' \<in> set ks. levenshtein unknown k \<le> levenshtein unknown k')"
proof -
  let ?c = "filter (\<lambda>(d, _). d \<le> 2) (map (\<lambda>k. (levenshtein unknown k, k)) ks)"
  obtain d where d: "first_min fst ?c = Some (d, k)" using assms by (auto simp: suggest_key_def)
  from first_min_least [OF d] have m: "(d, k) \<in> set ?c" and least: "\<forall>y \<in> set ?c. d \<le> fst y" unfolding fst_conv by blast+
  from m have k: "k \<in> set ks" "d = levenshtein unknown k" "d \<le> 2" by auto
  have "d \<le> levenshtein unknown k'" if "k' \<in> set ks" for k'
  proof (cases "levenshtein unknown k' \<le> 2")
    case True
    then have "(levenshtein unknown k', k') \<in> set ?c" using that by simp
    from bspec [OF least this] show ?thesis by simp
  qed (use k(3) in simp)
  then show ?thesis using k by blast
qed

section \<open>Costs\<close>

lemma fold_max: "fold (\<lambda>c acc. invalidation_max acc c) cs c0 = Max (insert c0 (set cs))"
proof (induction cs arbitrary: c0)
  case (Cons c cs)
  have "invalidation_max c0 c = max c0 c" by (auto simp: invalidation_max_def max_def)
  then show ?case using Cons [of "max c0 c"] by (cases "cs = []") (auto simp: Max_insert max.assoc)
qed simp

text \<open>A change costs what the worst key in it costs, and a key nobody classified costs a restart.\<close>

lemma diff_cost_worst: "diff_cost old new = Max (insert NoCost (class_of ` set (changed_keys old new)))"
  by (simp add: diff_cost_def fold_max)

lemma unclassified_restarts:
  assumes "k \<in> set (changed_keys old new)" "k \<notin> fst ` set KEYS"
  shows "diff_cost old new = Restart"
proof -
  have "class_of k = Restart" using assms(2) by (simp add: class_of_def map_of_eq_None_iff [symmetric] del: map_of_eq_None_iff)
  then have "Restart \<in> class_of ` set (changed_keys old new)" using assms(1) by (metis image_eqI)
  moreover have "c \<le> Restart" for c by (cases c) (simp_all add: less_eq_invalidation_def)
  ultimately show ?thesis unfolding diff_cost_worst by (intro Max_eqI) auto
qed

lemma nothing_changed: "changed_keys j j = []"
proof -
  have "a = b \<Longrightarrow> json_walk a b p = []" for a b p
  proof (induction a b p rule: json_walk.induct)
    case (1 a b p)
    then show ?case by (subst json_walk.simps) (auto split: json.split)
  qed
  then show ?thesis by (simp add: changed_keys_def)
qed

end
