(* ===== verification/Profiles.thy ===== *)
theory Profiles
  imports Config
begin

text \<open>
  Profiles as launch targets (\<open>crates/zest-config/src/profiles.rs\<close>): the keys that belong to a profile, how
  a profile falls through to the defaults, and the placeholders of its environment.
\<close>

section \<open>What a profile says\<close>

datatype tab_title = FromShell | ProfileName | CustomTitle ustring

datatype color_from = ColorProfile | ColorHost

record profile_meta =
  pm_command :: "ustring option"
  pm_host :: "ustring option"
  pm_ask_host :: bool
  pm_starting_directory :: "ustring option"
  pm_env :: "(ustring \<times> ustring) list"
  pm_tab_title :: tab_title
  pm_color_scheme :: "ustring option"
  pm_tab_color :: "nat option"
  pm_icon :: "ustring option"
  pm_color_from :: "color_from option"

definition meta_default :: profile_meta where
  "meta_default =
     \<lparr>pm_command = None, pm_host = None, pm_ask_host = False, pm_starting_directory = None, pm_env = [],
      pm_tab_title = FromShell, pm_color_scheme = None, pm_tab_color = None, pm_icon = None, pm_color_from = None\<rparr>"

definition str_key :: "table \<Rightarrow> string \<Rightarrow> ustring option" where
  "str_key t key = (case map_of t (lit key) of Some (TomlString s) \<Rightarrow> if s = [] then None else Some s | _ \<Rightarrow> None)"

definition bool_key :: "table \<Rightarrow> string \<Rightarrow> bool option" where
  "bool_key t key = (case map_of t (lit key) of Some (TomlBoolean b) \<Rightarrow> Some b | _ \<Rightarrow> None)"

definition int_key :: "table \<Rightarrow> string \<Rightarrow> int option" where
  "int_key t key = (case map_of t (lit key) of Some (TomlInteger i) \<Rightarrow> Some i | _ \<Rightarrow> None)"

fun env_entries :: "table \<Rightarrow> (ustring \<times> ustring) list" where
  "env_entries [] = []"
| "env_entries ((name, value) # rest) =
     (case value of TomlString v \<Rightarrow> bt_put name v (env_entries rest) | _ \<Rightarrow> env_entries rest)"

definition env_key :: "table \<Rightarrow> string \<Rightarrow> (ustring \<times> ustring) list option" where
  "env_key t key = map_option env_entries (table_at t (lit key))"

definition read_title :: "ustring \<Rightarrow> tab_title" where
  "read_title v =
     (if v = lit ''from-shell'' then FromShell else if v = lit ''profile-name'' then ProfileName else CustomTitle v)"

definition read_color_from :: "ustring \<Rightarrow> color_from option" where
  "read_color_from v =
     (if v = lit ''profile'' then Some ColorProfile else if v = lit ''host'' then Some ColorHost else None)"

definition read_tab_color :: "int \<Rightarrow> nat option" where
  "read_tab_color i = (if 0 \<le> i \<and> i < 256 then Some (nat i) else None)"

text \<open>\<open>meta_with_presence\<close>: the keys read, and which of them were there and valid.\<close>

definition meta_with_presence :: "table \<Rightarrow> profile_meta \<times> string list" where
  "meta_with_presence t =
     (let command = str_key t ''command''; host = str_key t ''host''; ask = bool_key t ''ask_host'';
          dir = str_key t ''starting_directory''; env = env_key t ''env''; title = str_key t ''tab_title'';
          scheme = str_key t ''color_scheme''; color = Option.bind (int_key t ''tab_color'') read_tab_color;
          icon = str_key t ''icon''; from = Option.bind (str_key t ''color_from'') read_color_from
      in (\<lparr>pm_command = command, pm_host = host, pm_ask_host = (case ask of Some b \<Rightarrow> b | None \<Rightarrow> False),
           pm_starting_directory = dir, pm_env = (case env of Some e \<Rightarrow> e | None \<Rightarrow> []),
           pm_tab_title = (case title of Some v \<Rightarrow> read_title v | None \<Rightarrow> FromShell), pm_color_scheme = scheme,
           pm_tab_color = color, pm_icon = icon, pm_color_from = from\<rparr>,
          map fst (filter snd
            [(''command'', command \<noteq> None), (''host'', host \<noteq> None), (''ask_host'', ask \<noteq> None),
             (''starting_directory'', dir \<noteq> None), (''env'', env \<noteq> None), (''tab_title'', title \<noteq> None),
             (''color_scheme'', scheme \<noteq> None), (''tab_color'', color \<noteq> None), (''icon'', icon \<noteq> None),
             (''color_from'', from \<noteq> None)])))"

definition meta_from_table :: "table \<Rightarrow> profile_meta" where
  "meta_from_table t = fst (meta_with_presence t)"

section \<open>Falling through to the defaults\<close>

definition pick_named :: "string list \<Rightarrow> string list \<Rightarrow> string \<Rightarrow> bool" where
  "pick_named named_set defaults_set key \<longleftrightarrow> key \<in> set named_set \<or> key \<notin> set defaults_set"

definition fold_meta :: "profile_meta \<Rightarrow> string list \<Rightarrow> profile_meta \<Rightarrow> string list \<Rightarrow> profile_meta" where
  "fold_meta named named_set dfl defaults_set =
     (let pick = pick_named named_set defaults_set
      in \<lparr>pm_command = (if pick ''command'' then pm_command named else pm_command dfl),
          pm_host = (if pick ''host'' then pm_host named else pm_host dfl),
          pm_ask_host = (if pick ''ask_host'' then pm_ask_host named else pm_ask_host dfl),
          pm_starting_directory =
            (if pick ''starting_directory'' then pm_starting_directory named else pm_starting_directory dfl),
          pm_env = fold (\<lambda>(k, v). bt_put k v) (pm_env named) (pm_env dfl),
          pm_tab_title = (if pick ''tab_title'' then pm_tab_title named else pm_tab_title dfl),
          pm_color_scheme = (if pick ''color_scheme'' then pm_color_scheme named else pm_color_scheme dfl),
          pm_tab_color = (if pick ''tab_color'' then pm_tab_color named else pm_tab_color dfl),
          pm_icon = (if pick ''icon'' then pm_icon named else pm_icon dfl),
          pm_color_from = (if pick ''color_from'' then pm_color_from named else pm_color_from dfl)\<rparr>)"

datatype profile_provenance = OverridesDefaults | InheritedFromDefaults | UnsetKey

record profile_resolved =
  pv_overrides :: table
  pv_meta :: profile_meta
  pv_provenance :: "ustring \<rightharpoonup> profile_provenance"
  pv_unknown :: "ustring list"
  pv_own_env :: "(ustring \<times> ustring) list"

definition provenance_of :: "profile_resolved \<Rightarrow> ustring \<Rightarrow> profile_provenance" where
  "provenance_of r key = (case pv_provenance r key of Some p \<Rightarrow> p | None \<Rightarrow> UnsetKey)"

definition list_profiles :: "table \<Rightarrow> ustring list" where
  "list_profiles config =
     (case table_at config (lit ''profiles'') of
        None \<Rightarrow> []
      | Some profiles \<Rightarrow> filter (\<lambda>n. n \<noteq> RESERVED_PROFILE) (map fst profiles))"

definition unknown_profile_keys :: "table \<Rightarrow> ustring list" where
  "unknown_profile_keys profile = unknown_in (strip_profile_keys profile)"

definition root_of :: "(ustring \<times> table) list \<Rightarrow> table" where
  "root_of profiles = [(lit ''profiles'', TomlTable (map (\<lambda>(k, p). (k, TomlTable p)) profiles))]"

definition profile_table :: "table \<Rightarrow> ustring \<Rightarrow> table" where
  "profile_table config name =
     (case table_at config (lit ''profiles'') of
        None \<Rightarrow> []
      | Some profiles \<Rightarrow> (case table_at profiles name of Some t \<Rightarrow> t | None \<Rightarrow> []))"

text \<open>The last step of the provenance: the profile's own keys, in the order of the list.\<close>

definition key_provenance :: "string list \<Rightarrow> string list \<Rightarrow> (ustring \<rightharpoonup> profile_provenance) \<Rightarrow> (ustring \<rightharpoonup> profile_provenance)" where
  "key_provenance named_set defaults_set prov =
     fold (\<lambda>key prov.
       if key \<in> set (map lit named_set) then prov(key \<mapsto> OverridesDefaults)
       else if key \<in> set (map lit defaults_set) then prov(key \<mapsto> InheritedFromDefaults)
       else prov) PROFILE_ONLY_KEYS prov"

definition resolve_profile :: "table \<Rightarrow> ustring \<Rightarrow> profile_resolved" where
  "resolve_profile config name =
     (let named = profile_table config name;
          dfl = (if name = RESERVED_PROFILE then [] else profile_table config RESERVED_PROFILE);
          inherited = SrcProfile RESERVED_PROFILE
      in case merge_into (strip_profile_keys named) (SrcProfile name) []
                (merge_into (strip_profile_keys dfl) inherited [] ([], Map.empty)) of
           (overrides, sources) \<Rightarrow>
             let prov = (\<lambda>k. map_option (\<lambda>s.
                    if s = inherited \<and> name \<noteq> RESERVED_PROFILE then InheritedFromDefaults else OverridesDefaults) (sources k));
                 (named_meta, named_set) = meta_with_presence named;
                 (dfl_meta, dfl_set) = meta_with_presence dfl
             in \<lparr>pv_overrides = overrides, pv_meta = fold_meta named_meta named_set dfl_meta dfl_set,
                 pv_provenance = key_provenance named_set dfl_set prov, pv_unknown = unknown_in overrides,
                 pv_own_env = pm_env named_meta\<rparr>)"

section \<open>Placeholders\<close>

record expand_context =
  ec_profile :: ustring
  ec_config_dir :: "ustring option"
  ec_home :: "ustring option"
  ec_env :: "ustring \<rightharpoonup> ustring"

text \<open>\<open>Path::join\<close> where paths begin with a slash.\<close>

definition path_join :: "ustring \<Rightarrow> ustring \<Rightarrow> ustring" where
  "path_join a b =
     (if take 1 b = [47] then b
      else if a = [] \<or> last a = 47 then a @ b
      else a @ [47] @ b)"

definition profile_dir :: "expand_context \<Rightarrow> ustring option" where
  "profile_dir ctx =
     (if ec_profile ctx = [] then None
      else if 47 \<in> set (ec_profile ctx) \<or> 92 \<in> set (ec_profile ctx) \<or>
              ec_profile ctx = lit ''.'' \<or> ec_profile ctx = lit ''..'' then None
      else map_option (\<lambda>d. path_join (path_join d (lit ''profiles'')) (ec_profile ctx)) (ec_config_dir ctx))"

text \<open>Around the first dollar sign with a brace behind it.\<close>

fun split_open :: "ustring \<Rightarrow> (ustring \<times> ustring) option" where
  "split_open [] = None"
| "split_open (c # s) =
     (if c = 36 \<and> take 1 s = [123] then Some ([], drop 1 s)
      else map_option (\<lambda>(before, after). (c # before, after)) (split_open s))"

definition resolve_token :: "expand_context \<Rightarrow> ustring \<Rightarrow> ustring option" where
  "resolve_token ctx token =
     (if token = lit ''profile'' then (if ec_profile ctx \<noteq> [] then Some (ec_profile ctx) else None)
      else if token = lit ''profile_dir'' then profile_dir ctx
      else if token = lit ''home'' then ec_home ctx
      else if take 4 token = lit ''env:'' \<and> drop 4 token \<noteq> [] then ec_env ctx (drop 4 token)
      else None)"

lemma split_open_shorter: "split_open s = Some (before, after) \<Longrightarrow> length after < length s"
  by (induction s arbitrary: before after) (auto split: if_splits)

function expand_loop :: "expand_context \<Rightarrow> ustring \<Rightarrow> ustring" where
  "expand_loop ctx rest =
     (case split_open rest of
        None \<Rightarrow> rest
      | Some (before, after) \<Rightarrow>
          if 125 \<notin> set after then before @ lit ''${'' @ after
          else
            let token = takeWhile (\<lambda>c. c \<noteq> 125) after
            in before @ (case resolve_token ctx token of Some t \<Rightarrow> t | None \<Rightarrow> lit ''${'' @ token @ lit ''}'') @
               expand_loop ctx (drop (length token + 1) after))"
  by pat_completeness auto
termination
  by (relation "measure (\<lambda>(_, s). length s)") (auto dest: split_open_shorter)

declare expand_loop.simps [simp del]

definition expand :: "ustring \<Rightarrow> expand_context \<Rightarrow> ustring" where
  "expand value ctx = (if split_open value = None then value else expand_loop ctx value)"

end
