(* ===== verification/Spec2Isabelle.thy ===== *)
theory Spec2Isabelle
  imports TermSpec GridSpec SettleSpec ReflowSpec WriteSpec AltSpec OscSpec SelectSpec Remote Subscribe Frame ViewSpec
    BlockSync FollowSpec MeshSpec PredictSpec InputSpec RosterSpec FleetSpec
    ConfigSpec Profiles
begin

text \<open>
  A verification of zesterm: the terminal emulator (\<open>crates/zest-core\<close>), the protocol by which a daemon
  mirrors a session to its clients (\<open>crates/zest-proto\<close>), how machines find each other and prove who they
  are (\<open>crates/zest-mesh\<close>), what a client sends for keys and mouse (\<open>crates/zest-input\<close>), the rules of
  the fleet (\<open>crates/zest-fleet\<close>), and the settings cascade (\<open>crates/zest-config\<close>).

  \<^bold>\<open>The program.\<close>  A \<open>Terminal\<close> is fed bytes from a pty.  The parser (crate \<open>vte\<close>) turns them into
  callbacks -- print, execute, CSI, ESC and OSC dispatch -- which update the terminal state: two grids of
  cells (the primary screen with its scrollback, and the alternate one), cursor, modes, palette, titles, and
  an index of command blocks built from shell markers.  The embedder resizes, selects and searches.  A daemon
  owns the terminal; for each attached client an \<open>Encoder\<close> turns what changed since the last update into a
  \<open>Keyframe\<close> or a \<open>Delta\<close>, framed on a byte stream; the client decodes it into a flat \<open>GridView\<close> or,
  through an \<open>Applier\<close>, into a replica \<open>Terminal\<close>.  A client turns keys and mouse events into bytes under
  the modes it was sent, and draws what it expects the echo to be until a delta confirms or refutes it.
  Machines hear of each other on the local network; a roster folds what is heard into rows, and searches
  over command history are merged from every host's answer.  Before any of it, host and client go through a
  handshake: both sign one transcript, an unknown client waits until a person agrees, and both derive the
  keys of a sealed channel.  Settings come in layers, from the user's file to the command line, and a file
  of the working directory counts only as it was when a person trusted it.

  \<^bold>\<open>Theories and sources.\<close>  Definitions are named after the functions they translate.

  \<^item> \<open>Prelude\<close>: characters as scalar values, UTF-8, the slice and \<open>Vec\<close> operations of Rust's library the code
    uses, flag words, binary search; the named collections \<open>flag_simps\<close>, \<open>frame_simps\<close>, \<open>wf_intros\<close>,
    \<open>step_intros\<close>.
  \<^item> \<open>Cell\<close>, \<open>Modes\<close>, \<open>Palette\<close>, \<open>Text\<close>: \<open>cell.rs\<close>, \<open>color.rs\<close>, \<open>modes.rs\<close>, \<open>palette.rs\<close> and text helpers.
  \<^item> \<open>Row\<close>, \<open>Storage\<close>: \<open>grid/storage.rs\<close>, rows with their side table and the ring that stores them.  The ring
    promises a plain list (locale \<open>row_store\<close>), and everything above reasons about that list.
  \<^item> \<open>Grid\<close>, \<open>Resize\<close>, \<open>Edit\<close>: \<open>grid/mod.rs\<close>: viewport, history and regions; resizing, rewrap and the
    restatement protocol kept for a pty that repaints; editing.
  \<^item> \<open>Selection\<close>, \<open>Search\<close>, \<open>Blocks\<close>: \<open>selection.rs\<close>, \<open>search.rs\<close>, \<open>blocks.rs\<close>.
  \<^item> \<open>Term\<close>, \<open>Perform\<close>, \<open>Osc\<close>: \<open>term.rs\<close> and \<open>perform.rs\<close>.  \<open>tm\<close> is \<open>TermState\<close>; \<open>perform\<close> takes one parser
    callback.  Two panics are modelled, as \<open>None\<close>: the subtraction of the cursor report and the byte slices of
    a colour.
  \<^item> \<open>Remote\<close>, \<open>Subscribe\<close>: \<open>apply.rs\<close> and \<open>subscribe.rs\<close> of zest-core.
  \<^item> \<open>Wire\<close>, \<open>Frame\<close>, \<open>Encode\<close>, \<open>Decode\<close>, \<open>Applier\<close>: \<open>delta.rs\<close>, \<open>hex.rs\<close>, \<open>auth.rs\<close>, \<open>frame.rs\<close>,
    \<open>encode.rs\<close>, \<open>decode.rs\<close> and \<open>apply.rs\<close> of zest-proto.
  \<^item> \<open>Identity\<close>, \<open>Base64\<close>, \<open>Statements\<close>, \<open>Secure\<close>, \<open>Pairing\<close>: \<open>identity.rs\<close>, \<open>keystore.rs\<close>, \<open>attest.rs\<close>,
    \<open>enroll.rs\<close>, \<open>link.rs\<close>, \<open>secure.rs\<close>, \<open>pairing.rs\<close> and \<open>trust.rs\<close> of zest-mesh, and the places that sign in
    \<open>enroll.rs\<close> and \<open>relay.rs\<close> of zest-daemon and \<open>cloud.rs\<close> of zest-app.
  \<^item> \<open>Roster\<close>: \<open>lib.rs\<close>, \<open>discovery.rs\<close>, \<open>discovery/txt.rs\<close>, \<open>roster.rs\<close> and \<open>layered.rs\<close> of zest-mesh.
  \<^item> \<open>Predict\<close>: \<open>predict.rs\<close> of zest-proto.  \<open>Input\<close>: \<open>key.rs\<close>, \<open>mouse.rs\<close>, \<open>select.rs\<close> and \<open>ime.rs\<close> of
    zest-input.  \<open>Fleet\<close>: \<open>search.rs\<close> of zest-proto, the pure half of \<open>block_store.rs\<close> of zest-daemon, and
    \<open>lib.rs\<close> of zest-fleet.
  \<^item> \<open>OrdMap\<close>: \<open>BTreeMap\<close> as a sorted association list.  \<open>Config\<close>, \<open>Profiles\<close>: \<open>cascade.rs\<close>, \<open>invalidate.rs\<close>,
    \<open>migrate.rs\<close>, \<open>trust.rs\<close>, the text functions of \<open>schema.rs\<close>, \<open>load\<close> of \<open>lib.rs\<close>, and \<open>profiles.rs\<close> of zest-config.

  \<^bold>\<open>What is shown.\<close>

  \<^item> \<open>GridInv\<close>, \<open>GridScroll\<close>, \<open>EditInv\<close>, \<open>ResizeInv\<close>, \<open>BlocksInv\<close>, \<open>TermInv\<close>, \<open>TermSteps\<close>, \<open>PerformInv\<close>: the
    invariant of the terminal (shape of the row store, line ids that ascend, cursor and region on the screen,
    both screens of one size, bounded Kitty stacks that agree with the mode word, ordered blocks) is kept by
    every callback and every verb of the embedder; \<open>TermSpec\<close> draws the conclusion for all reachable states.
  \<^item> \<open>GridSpec\<close>, \<open>SettleSpec\<close>, \<open>ReflowSpec\<close>: which rows a scroll keeps, hands over and gives up, a reader keeps the
    place, regions and edits touch what they name, a rewrap keeps the text of every logical line, a shrink
    from the bottom row and a settle can be undone.
  \<^item> \<open>WriteSpec\<close>, \<open>AltSpec\<close>, \<open>OscSpec\<close>, \<open>SelectSpec\<close>: where a character lands, that the alternate screen protects
    the primary one, what the payload parsers give back, two panics a program can cause, spans and hits.
  \<^item> \<open>EncodeInv\<close>, \<open>ViewSpec\<close>, \<open>BlockSync\<close>, \<open>ReplicaSpec\<close>, \<open>FollowSpec\<close>, \<open>Frame\<close>: frames survive any cutting of
    the stream; the encoder's memory of what a client shows is never wrong; keyframes and deltas reproduce the host's rows, styles, cursor, modes and blocks on the client, in its flat view
    and, from one update to the next, in its replica terminal.
  \<^item> \<open>Utf8\<close>, \<open>Base64\<close>, \<open>StatSpec\<close>, \<open>Secure\<close>, \<open>PairingSpec\<close>, \<open>MeshSpec\<close>: a voucher has one spelling, no statement
    is mistaken for another, a connection is served only after a proof and, for a new client, a person's
    consent; an honest pair ends up on one channel that carries what is sent; the pairing queue answers
    everybody once; what the trust file keeps.
  \<^item> \<open>RosterSpec\<close>: the listing is well formed whatever is heard, what moves the presence of a host,
    several sources merge and the nearest route wins.  \<open>PredictSpec\<close>: guesses stay on one
    line and are judged by what the host's screen shows.  \<open>InputSpec\<close>: keys and mouse events are told apart.
    \<open>FleetSpec\<close>: a search returns the newest; and what its merge of finished sessions loses.  \<open>ConfigSpec\<close>: the last
    layer that sets a key wins and is named; an untrusted workspace file has no part; an edit of one byte
    withdraws trust; a suggestion is the nearest key by edit distance.

  Contracts between components are locales, each interpreted on the model: the row store that presents a
  list, the machine whose steps keep an invariant, the decoder that stays in step
  with an encoder, the store that keeps a secret.

  \<^bold>\<open>Numbers and bounds.\<close>  Flags, colours and bytes are words of their width.  Sizes, columns and line ids are
  \<open>nat\<close>: they count rows and cells in memory, and 64 bits are not exhausted; where the code narrows (16-bit
  counts on the wire, \<open>i64\<close> line ids, 16-bit style ids, saturating counters) the narrowing is written out.
  Subtractions the code saturates are \<open>nat\<close> subtractions.  A panic is a value (\<open>None\<close>) at three places: the
  cursor report and the colour slices of \<open>perform.rs\<close>, and the cell count of \<open>row_char_at\<close> in \<open>predict.rs\<close>.  Every
  other unchecked subtraction is a \<open>nat\<close> subtraction, which stops at zero where the code would panic, and
  every other indexing is a list operation that is total; the invariants bound the cursor, the region and
  the ids, but that no other panic is possible is not a theorem.  No fuel is used:
  every loop terminates by a measure given at its definition.

  \<^bold>\<open>Parameters.\<close>  The width of a character (crate \<open>unicode-width\<close>), the case tables of search, and the codec of
  message bodies (MessagePack) are arguments of the definitions that use them.  The cryptographic libraries
  are the record \<open>crypto\<close>; what is assumed of them is \<open>crypto_ok\<close>, which is their documented behaviour when
  both ends are honest and holds of a concrete instance.  Nothing is proved about what an attacker who
  breaks them can do.  Clocks, random draws and results of file operations are arguments too.

  \<^bold>\<open>Not modelled.\<close>  The parser \<open>vte\<close>, whose callbacks are the input here; the derived serialisers; the
  mDNS responder; the daemon's server and its SQLite store; the parser and
  writer of TOML files; the key stores of the operating systems; the desktop application, renderer and
  fonts, which draw; pty and cloud access, which are system calls and network; the web client and the cloud service, which are TypeScript.
\<close>

end
